(* ===== verification/ZcPrelude.thy ===== *)
theory ZcPrelude
  imports Main "HOL-Library.Word"
begin

text \<open>
  What the components of the model share: C strings and characters, decimal
  printing as \<open>printf\<close> does it, the machine-integer helpers, the collections
  of rewrite rules, and the two interfaces (\<open>name_env\<close>, \<open>growable_buffer\<close>) that
  several components of the compiler provide.

  A C string is a \<open>string\<close> (list of bytes) that stands for the bytes before the
  terminating NUL. \<open>at s k\<close> is the byte \<open>s[k]\<close>: the list element inside the
  string and NUL at the terminator.
\<close>

named_theorems lex_simps \<open>rules of the scanner's loops\<close>
named_theorems ct_simps \<open>rules of the compile-time interpreter\<close>
named_theorems move_simps \<open>rules of the move checker\<close>

lemma Some_eq_ex [intro]: "Some y = p \<Longrightarrow> \<exists>y. p = Some y"
  by (rule exI) (rule sym)

section \<open>C strings\<close>

abbreviation NUL :: char where "NUL \<equiv> CHR 0x00"
abbreviation NL :: char where "NL \<equiv> CHR 0x0A"
abbreviation CR :: char where "CR \<equiv> CHR 0x0D"
abbreviation BSLASH :: char where "BSLASH \<equiv> CHR 0x5C"
abbreviation DQUOTE :: char where "DQUOTE \<equiv> CHR 0x22"
abbreviation SQUOTE :: char where "SQUOTE \<equiv> CHR 0x27"

text \<open>The longest type name, \<open>MAX_TYPE_NAME_LEN\<close> of \<open>constants.h\<close>.\<close>

definition MAX_TYPE_NAME_LEN :: nat where "MAX_TYPE_NAME_LEN = 1024"

abbreviation ord :: "char \<Rightarrow> nat" where "ord c \<equiv> of_char c"

definition at :: "string \<Rightarrow> nat \<Rightarrow> char" where
  "at s k = (if k < length s then s ! k else NUL)"

lemma at_Nil [simp]: "at [] k = NUL"
  by (simp add: at_def)

lemma at_Cons_0 [simp]: "at (c # cs) 0 = c"
  by (simp add: at_def)

lemma at_Cons_Suc [simp]: "at (c # cs) (Suc k) = at cs k"
  by (simp add: at_def)

lemma at_Cons_1 [simp]: "at (c # cs) 1 = at cs 0"
  by (simp add: at_def)

lemma at_Cons_numeral [simp]: "at (c # cs) (numeral n) = at cs (pred_numeral n)"
  by (simp add: at_def numeral_eq_Suc)

lemma at_beyond [simp]: "length s \<le> k \<Longrightarrow> at s k = NUL"
  by (simp add: at_def)

lemma at_drop [simp]: "at (drop i s) k = at s (i + k)"
  by (auto simp: at_def)

text \<open>Where the string holds no NUL byte, a byte other than NUL is inside it.\<close>

lemma at_nonnul_inside: "at s k \<noteq> NUL \<Longrightarrow> k < length s"
  by (auto simp: at_def split: if_splits)

lemma at_append1 [simp]: "k < length s \<Longrightarrow> at (s @ t) k = at s k"
  by (simp add: at_def nth_append)

text \<open>The bytes before the first NUL: what a C string holds after a write into its buffer.\<close>

definition cstr :: "string \<Rightarrow> string" where
  "cstr s = takeWhile (\<lambda>c. c \<noteq> NUL) s"

lemma cstr_id [simp]: "NUL \<notin> set s \<Longrightarrow> cstr s = s"
  unfolding cstr_def by (induction s) auto

lemma length_cstr_le: "length (cstr s) \<le> length s"
  by (simp add: cstr_def length_takeWhile_le)

lemma cstr_no_nul: "NUL \<notin> set (cstr s)"
  unfolding cstr_def by (auto dest: set_takeWhileD)

section \<open>Character classes of the C locale\<close>

definition isdigit :: "char \<Rightarrow> bool" where
  "isdigit c \<longleftrightarrow> 48 \<le> ord c \<and> ord c \<le> 57"

definition isalpha :: "char \<Rightarrow> bool" where
  "isalpha c \<longleftrightarrow> (65 \<le> ord c \<and> ord c \<le> 90) \<or> (97 \<le> ord c \<and> ord c \<le> 122)"

definition isalnum :: "char \<Rightarrow> bool" where
  "isalnum c \<longleftrightarrow> isalpha c \<or> isdigit c"

definition isspace :: "char \<Rightarrow> bool" where
  "isspace c \<longleftrightarrow> ord c = 32 \<or> (9 \<le> ord c \<and> ord c \<le> 13)"

definition isxdigit :: "char \<Rightarrow> bool" where
  "isxdigit c \<longleftrightarrow> isdigit c \<or> (65 \<le> ord c \<and> ord c \<le> 70) \<or> (97 \<le> ord c \<and> ord c \<le> 102)"

definition tolower :: "char \<Rightarrow> char" where
  "tolower c = (if 65 \<le> ord c \<and> ord c \<le> 90 then char_of (ord c + 32) else c)"

definition toupper :: "char \<Rightarrow> char" where
  "toupper c = (if 97 \<le> ord c \<and> ord c \<le> 122 then char_of (ord c - 32) else c)"

lemmas char_class_defs = isdigit_def isalpha_def isalnum_def isspace_def isxdigit_def

lemma nul_no_class [simp]:
  "\<not> isdigit NUL" "\<not> isalpha NUL" "\<not> isalnum NUL" "\<not> isspace NUL" "\<not> isxdigit NUL"
  by (simp_all add: char_class_defs)

section \<open>Decimal printing\<close>

fun show_nat :: "nat \<Rightarrow> string" where
  "show_nat n =
     (if n < 10 then [char_of (48 + n)] else show_nat (n div 10) @ [char_of (48 + n mod 10)])"

declare show_nat.simps [simp del]

definition show_int :: "int \<Rightarrow> string" where
  "show_int i = (if i < 0 then CHR ''-'' # show_nat (nat (- i)) else show_nat (nat i))"

lemma show_nat_nonempty [simp]: "show_nat n \<noteq> []"
  by (subst show_nat.simps) simp

lemma show_nat_digits: "\<forall>c \<in> set (show_nat n). isdigit c"
proof (induction n rule: show_nat.induct)
  case (1 n)
  have digit: "isdigit (char_of (48 + d))" if "d < 10" for d :: nat
    using that by (simp add: isdigit_def)
  show ?case
  proof (cases "n < 10")
    case True
    then show ?thesis by (simp add: show_nat.simps [of n] digit)
  next
    case False
    with 1 show ?thesis by (auto simp: show_nat.simps [of n] digit)
  qed
qed

lemma show_nat_no_nul [simp]: "NUL \<notin> set (show_nat n)"
  using show_nat_digits [of n] nul_no_class(1) by blast

lemma show_int_no_nul [simp]: "NUL \<notin> set (show_int i)"
  by (simp add: show_int_def)

lemma length_show_nat: "n < 10 ^ k \<Longrightarrow> 0 < k \<Longrightarrow> length (show_nat n) \<le> k"
proof (induction n arbitrary: k rule: show_nat.induct)
  case (1 n)
  show ?case
  proof (cases "n < 10")
    case True
    with 1 show ?thesis by (simp add: show_nat.simps [of n])
  next
    case False
    obtain j where k: "k = Suc j" using 1(3) by (cases k) auto
    with False 1(2) have "0 < j" by (cases j) auto
    moreover have "n div 10 < 10 ^ j" using 1(2) k by (simp add: less_mult_imp_div_less mult.commute)
    ultimately have "length (show_nat (n div 10)) \<le> j" using 1(1) False by blast
    with False k show ?thesis by (simp add: show_nat.simps [of n])
  qed
qed

section \<open>Machine integers\<close>

type_synonym i64 = "64 word"
type_synonym i32 = "32 word"

text \<open>The range of \<open>long long\<close> and \<open>int64_t\<close>.\<close>

definition in_i64 :: "int \<Rightarrow> bool" where
  "in_i64 i \<longleftrightarrow> - (2 ^ 63) \<le> i \<and> i < 2 ^ 63"

text \<open>C division and remainder truncate towards zero.\<close>

definition c_div :: "int \<Rightarrow> int \<Rightarrow> int" where
  "c_div a b = sgn a * sgn b * (\<bar>a\<bar> div \<bar>b\<bar>)"

definition c_mod :: "int \<Rightarrow> int \<Rightarrow> int" where
  "c_mod a b = sgn a * (\<bar>a\<bar> mod \<bar>b\<bar>)"

lemma c_div_mod: "b \<noteq> 0 \<Longrightarrow> c_div a b * b + c_mod a b = a"
proof -
  assume "b \<noteq> 0"
  then have "sgn b * b = \<bar>b\<bar>" by (simp add: sgn_if)
  then have "c_div a b * b = sgn a * (\<bar>a\<bar> div \<bar>b\<bar> * \<bar>b\<bar>)"
    unfolding c_div_def by (simp add: mult.assoc mult.left_commute)
  then have "c_div a b * b + c_mod a b = sgn a * (\<bar>a\<bar> div \<bar>b\<bar> * \<bar>b\<bar> + \<bar>a\<bar> mod \<bar>b\<bar>)"
    by (simp only: c_mod_def distrib_left)
  also have "\<dots> = a" by (simp only: div_mult_mod_eq sgn_mult_abs)
  finally show ?thesis .
qed

lemma sint_in_i64 [simp]: "in_i64 (sint (w :: i64))"
  using sint_ge [of w] sint_lt [of w] by (simp add: in_i64_def)

lemma sint_of_int_i64: "in_i64 i \<Longrightarrow> sint (word_of_int i :: i64) = i"
  by (simp add: in_i64_def int_word_sint)

lemma sint_i64_bounds: "- (2 ^ 63) \<le> sint (w :: i64)" "sint (w :: i64) < 2 ^ 63"
  using sint_in_i64 [of w] by (simp_all add: in_i64_def)

section \<open>Environments that bind names\<close>

text \<open>
  Three components keep bindings of names in a linked list searched from its head: the
  symbol table's scopes, the interpreter's scope and the move checker's entries. What
  their clients rely on is the same two laws.
\<close>

locale name_env =
  fixes find :: "'s \<Rightarrow> string \<Rightarrow> 'v option"
    and bind :: "'s \<Rightarrow> string \<Rightarrow> 'v \<Rightarrow> 's"
  assumes find_bind_same: "find (bind s n v) n = Some v"
    and find_bind_other: "m \<noteq> n \<Longrightarrow> find (bind s n v) m = find s m"
begin

lemma find_bind: "find (bind s n v) m = (if m = n then Some v else find s m)"
  by (simp add: find_bind_same find_bind_other)

lemma rebind_shadows: "find (bind (bind s n v) n w) m = find (bind s n w) m"
  by (simp add: find_bind)

lemma bind_commute: "n \<noteq> k \<Longrightarrow> find (bind (bind s n v) k w) m = find (bind (bind s k w) n v) m"
  by (auto simp: find_bind)

text \<open>After a run of bindings the last one of a name is found.\<close>

lemma find_bind_all:
  "find (foldl (\<lambda>s (n, v). bind s n v) s bs) m =
     (case map_of (rev bs) m of Some v \<Rightarrow> Some v | None \<Rightarrow> find s m)"
  by (induction bs arbitrary: s) (auto simp: find_bind map_add_def split: option.splits)

lemma find_bind_all_untouched:
  "m \<notin> fst ` set bs \<Longrightarrow> find (foldl (\<lambda>s (n, v). bind s n v) s bs) m = find s m"
  using map_of_eq_None_iff [of "rev bs" m] by (simp add: find_bind_all)

end

text \<open>The same with a limit: a binding that is not accepted changes nothing, and the laws hold of the
  states of the invariant \<open>ok\<close>.\<close>

locale guarded_env =
  fixes find :: "'s \<Rightarrow> string \<Rightarrow> 'v option"
    and bind :: "'s \<Rightarrow> string \<Rightarrow> 'v \<Rightarrow> 's"
    and accepts :: "'s \<Rightarrow> string \<Rightarrow> bool"
    and ok :: "'s \<Rightarrow> bool"
  assumes find_accepted: "ok s \<Longrightarrow> accepts s n \<Longrightarrow> find (bind s n v) m = (if m = n then Some v else find s m)"
    and ok_bind: "ok s \<Longrightarrow> accepts s n \<Longrightarrow> ok (bind s n v)"
begin

fun accepts_all :: "'s \<Rightarrow> (string \<times> 'v) list \<Rightarrow> bool" where
  "accepts_all s [] = True"
| "accepts_all s ((n, v) # bs) = (accepts s n \<and> accepts_all (bind s n v) bs)"

lemma ok_bind_all: "ok s \<Longrightarrow> accepts_all s bs \<Longrightarrow> ok (foldl (\<lambda>s (n, v). bind s n v) s bs)"
  by (induction bs arbitrary: s) (auto simp: ok_bind)

lemma find_accepted_all:
  "ok s \<Longrightarrow> accepts_all s bs \<Longrightarrow>
     find (foldl (\<lambda>s (n, v). bind s n v) s bs) m =
       (case map_of (rev bs) m of Some v \<Rightarrow> Some v | None \<Rightarrow> find s m)"
  by (induction bs arbitrary: s) (auto simp: find_accepted ok_bind map_add_def split: option.splits)

end

sublocale name_env \<subseteq> unguarded: guarded_env find bind "\<lambda>s n. True" "\<lambda>s. True"
  by unfold_locales (simp_all add: find_bind)

section \<open>Buffers that grow\<close>

text \<open>
  The emitter's buffer and the interpreter's yield buffer both append bytes to a block
  that is reallocated when it is full. \<open>accepts\<close> says when an append is carried out;
  \<open>room\<close> is the invariant that the bytes and their terminator fit the block.
\<close>

locale growable_buffer =
  fixes content :: "'s \<Rightarrow> 'c list"
    and append_bytes :: "'s \<Rightarrow> 'c list \<Rightarrow> 's"
    and accepts :: "'s \<Rightarrow> 'c list \<Rightarrow> bool"
    and room :: "'s \<Rightarrow> bool"
  assumes content_append: "room s \<Longrightarrow> accepts s xs \<Longrightarrow> content (append_bytes s xs) = content s @ xs"
    and content_reject: "room s \<Longrightarrow> \<not> accepts s xs \<Longrightarrow> content (append_bytes s xs) = content s"
    and room_append: "room s \<Longrightarrow> room (append_bytes s xs)"
begin

lemma room_append_all: "room s \<Longrightarrow> room (foldl append_bytes s xss)"
  by (induction xss arbitrary: s) (auto intro: room_append)

text \<open>Whatever is rejected, the content only grows.\<close>

lemma content_grows:
  "room s \<Longrightarrow> \<exists>ys. content (foldl append_bytes s xss) = content s @ ys"
proof (induction xss arbitrary: s)
  case Nil
  then show ?case by simp
next
  case (Cons xs xss)
  have "\<exists>zs. content (append_bytes s xs) = content s @ zs"
    using Cons.prems content_append content_reject by (cases "accepts s xs") auto
  moreover have "\<exists>ys. content (foldl append_bytes (append_bytes s xs) xss)
      = content (append_bytes s xs) @ ys"
    using Cons room_append by blast
  ultimately show ?case by auto
qed

fun all_accepted :: "'s \<Rightarrow> 'c list list \<Rightarrow> bool" where
  "all_accepted s [] = True"
| "all_accepted s (xs # xss) = (accepts s xs \<and> all_accepted (append_bytes s xs) xss)"

lemma content_append_all:
  "room s \<Longrightarrow> all_accepted s xss \<Longrightarrow> content (foldl append_bytes s xss) = content s @ concat xss"
  by (induction xss arbitrary: s) (auto simp: content_append room_append)

end

end
