(* ===== verification/ZcLexer.thy ===== *)
theory ZcLexer
  imports ZcPrelude
begin

text \<open>
  The scanner: \<open>src/src/token.h\<close> and \<open>src/src/lexer/token.c\<close>. A token's \<open>start\<close>
  pointer is the offset into the source buffer (\<open>None\<close> for NULL). \<open>lexer_next\<close> is
  split into one definition per section of the C function, in its order; a result
  \<open>None\<close> means that the C code reads a byte beyond the terminator of the source
  (undefined behaviour). \<open>zerror_at\<close> calls are collected as diagnostics.
  \<open>l->config->misra_mode\<close> is the one field of the configuration the scanner reads.
\<close>

section \<open>Tokens and the scanner's state\<close>

datatype ZenTokenType =
    TOK_EOF | TOK_IDENT | TOK_INT | TOK_FLOAT | TOK_STRING | TOK_FSTRING | TOK_RAW_STRING
  | TOK_CHAR | TOK_LPAREN | TOK_RPAREN | TOK_LBRACE | TOK_RBRACE | TOK_LBRACKET | TOK_RBRACKET
  | TOK_LANGLE | TOK_RANGLE | TOK_COMMA | TOK_COLON | TOK_SEMICOLON | TOK_OP | TOK_AT
  | TOK_DOTDOT | TOK_DOTDOT_EQ | TOK_DOTDOT_LT | TOK_ARROW | TOK_PIPE | TOK_TEST | TOK_ASSERT
  | TOK_EXPECT | TOK_SIZEOF | TOK_DEF | TOK_DEFER | TOK_QUESTION | TOK_USE | TOK_QQ | TOK_QQ_EQ
  | TOK_Q_DOT | TOK_DCOLON | TOK_TRAIT | TOK_IMPL | TOK_AND | TOK_OR | TOK_NOT | TOK_FOR | TOK_DO
  | TOK_COMPTIME | TOK_ELLIPSIS | TOK_UNION | TOK_ASM | TOK_VOLATILE | TOK_PREPROC | TOK_ALIAS
  | TOK_COMMENT | TOK_OPAQUE | TOK_UNKNOWN

record token =
  tk_kind :: ZenTokenType
  tk_start :: "nat option"
  tk_len :: nat
  tk_line :: nat
  tk_col :: nat
  tk_file :: string

text \<open>\<open>TOKEN_UNKNOWN\<close>: every field zero.\<close>

definition TOKEN_UNKNOWN :: token where
  "TOKEN_UNKNOWN = \<lparr>tk_kind = TOK_EOF, tk_start = None, tk_len = 0, tk_line = 0, tk_col = 0,
     tk_file = []\<rparr>"

record lexer =
  lx_src :: string
  lx_pos :: nat
  lx_line :: nat
  lx_col :: nat
  lx_emit_comments :: bool
  lx_misra :: bool
  lx_filename :: string

type_synonym diag = "token \<times> string"

definition lexer_init :: "string \<Rightarrow> bool \<Rightarrow> string \<Rightarrow> lexer" where
  "lexer_init src misra filename =
     \<lparr>lx_src = src, lx_pos = 0, lx_line = 1, lx_col = 1, lx_emit_comments = False,
      lx_misra = misra, lx_filename = filename\<rparr>"

text \<open>A token that starts at the scanner's position.\<close>

definition mk_token :: "ZenTokenType \<Rightarrow> lexer \<Rightarrow> nat \<Rightarrow> token" where
  "mk_token k l len =
     \<lparr>tk_kind = k, tk_start = Some (lx_pos l), tk_len = len, tk_line = lx_line l,
      tk_col = lx_col l, tk_file = lx_filename l\<rparr>"

text \<open>\<open>l->pos += len; l->col += len;\<close>\<close>

definition bump :: "nat \<Rightarrow> lexer \<Rightarrow> lexer" where
  "bump len l = l\<lparr>lx_pos := lx_pos l + len, lx_col := lx_col l + len\<rparr>"

definition rest :: "lexer \<Rightarrow> string" where
  "rest l = drop (lx_pos l) (lx_src l)"

definition is_ident_start :: "char \<Rightarrow> bool" where
  "is_ident_start c \<longleftrightarrow> isalpha c \<or> c = CHR ''_''"

definition is_ident_char :: "char \<Rightarrow> bool" where
  "is_ident_char c \<longleftrightarrow> isalnum c \<or> c = CHR ''_''"

text \<open>\<open>while (p(s[len])) len++;\<close> from \<open>len\<close>; no class \<open>p\<close> of the scanner holds of NUL.\<close>

definition span_from :: "(char \<Rightarrow> bool) \<Rightarrow> string \<Rightarrow> nat \<Rightarrow> nat" where
  "span_from p s len = len + length (takeWhile p (drop len s))"

section \<open>White space, directives and comments\<close>

fun skip_space :: "string \<Rightarrow> nat \<Rightarrow> nat \<Rightarrow> nat \<Rightarrow> nat \<times> nat \<times> nat" where
  "skip_space [] pos line col = (pos, line, col)"
| "skip_space (c # cs) pos line col =
     (if isspace c then
        (if c = NL then skip_space cs (Suc pos) (Suc line) 1
         else skip_space cs (Suc pos) line (Suc col))
      else (pos, line, col))"

fun preproc_scan :: "string \<Rightarrow> nat \<Rightarrow> nat \<Rightarrow> nat \<times> nat" where
  "preproc_scan [] len line = (len, line)"
| "preproc_scan (c # cs) len line =
     (if c = NL then (len, line)
      else if c = BSLASH \<and> at cs 0 = NL then preproc_scan (drop 1 cs) (len + 2) (Suc line)
      else if c = BSLASH \<and> at cs 0 = CR \<and> at cs 1 = NL
        then preproc_scan (drop 2 cs) (len + 3) (Suc line)
      else preproc_scan cs (Suc len) line)"

text \<open>The pairs that MISRA Rule 3.1 forbids within a comment.\<close>

definition comment_opener :: "char \<Rightarrow> char \<Rightarrow> bool" where
  "comment_opener c d \<longleftrightarrow> c = CHR ''/'' \<and> (d = CHR ''/'' \<or> d = CHR ''*'')"

definition misra_3_1_line :: "lexer \<Rightarrow> nat \<Rightarrow> diag" where
  "misra_3_1_line l len =
     (mk_token TOK_COMMENT l (len + 2), ''MISRA Rule 3.1: '' @ SQUOTE # ''//'' @ SQUOTE # '' or ''
        @ SQUOTE # ''/*'' @ SQUOTE # '' within a comment'')"

definition misra_3_1_block :: "lexer \<Rightarrow> nat \<Rightarrow> diag" where
  "misra_3_1_block l len =
     (mk_token TOK_COMMENT l (len + 2), ''MISRA Rule 3.1: '' @ SQUOTE # ''/*'' @ SQUOTE # '' or ''
        @ SQUOTE # ''//'' @ SQUOTE # '' within a comment'')"

fun line_comment_scan :: "lexer \<Rightarrow> string \<Rightarrow> nat \<Rightarrow> diag list \<Rightarrow> nat \<times> diag list" where
  "line_comment_scan l [] len ds = (len, ds)"
| "line_comment_scan l (c # cs) len ds =
     (if c = NL then (len, ds)
      else line_comment_scan l cs (Suc len)
        (if lx_misra l \<and> comment_opener c (at cs 0) then ds @ [misra_3_1_line l len] else ds))"

text \<open>The body of a block comment; \<open>n\<close> bytes of the comment are behind the scanner.\<close>

fun block_comment_scan ::
  "lexer \<Rightarrow> string \<Rightarrow> nat \<Rightarrow> nat \<Rightarrow> nat \<Rightarrow> diag list \<Rightarrow> nat \<times> nat \<times> nat \<times> diag list" where
  "block_comment_scan l [] n line col ds = (n, line, col, ds)"
| "block_comment_scan l (c # cs) n line col ds =
     (let ds' = (if lx_misra l \<and> comment_opener c (at cs 0) then ds @ [misra_3_1_block l n] else ds)
      in if c = CHR ''*'' \<and> at cs 0 = CHR ''/'' then (n + 2, line, col, ds')
         else if c = NL then block_comment_scan l cs (Suc n) (Suc line) 1 ds'
         else block_comment_scan l cs (Suc n) line (Suc col) ds')"

text \<open>What one pass over the body of \<open>lexer_next\<close> does: return a token, or call itself again
  after a comment that is not emitted.\<close>

datatype lex_outcome = Emit token lexer | Again lexer

definition lex_preproc :: "lexer \<Rightarrow> lex_outcome" where
  "lex_preproc l =
     (let (len, line) = preproc_scan (rest l) 0 (lx_line l)
      in Emit (mk_token TOK_PREPROC l len) (l\<lparr>lx_pos := lx_pos l + len, lx_line := line\<rparr>))"

definition lex_line_comment :: "lexer \<Rightarrow> lex_outcome \<times> diag list" where
  "lex_line_comment l =
     (let (len, ds) = line_comment_scan l (drop 2 (rest l)) 2 []
      in (if lx_emit_comments l then Emit (mk_token TOK_COMMENT l len) (bump len l)
          else Again (bump len l), ds))"

definition lex_block_comment :: "lexer \<Rightarrow> lex_outcome \<times> diag list" where
  "lex_block_comment l =
     (let (n, line, col, ds) = block_comment_scan l (drop 2 (rest l)) 2 (lx_line l) (lx_col l) [];
          l' = l\<lparr>lx_pos := lx_pos l + n, lx_line := line, lx_col := col\<rparr>
      in (if lx_emit_comments l then Emit (mk_token TOK_COMMENT l n) l' else Again l', ds))"

section \<open>Identifiers and keywords\<close>

definition keyword_table :: "(string \<times> ZenTokenType) list" where
  "keyword_table =
    [(''test'', TOK_TEST), (''assert'', TOK_ASSERT), (''expect'', TOK_EXPECT),
     (''sizeof'', TOK_SIZEOF), (''defer'', TOK_DEFER), (''def'', TOK_DEF), (''trait'', TOK_TRAIT),
     (''impl'', TOK_IMPL), (''alias'', TOK_ALIAS), (''use'', TOK_USE),
     (''comptime'', TOK_COMPTIME), (''union'', TOK_UNION), (''asm'', TOK_ASM),
     (''volatile'', TOK_VOLATILE), (''and'', TOK_AND), (''or'', TOK_OR), (''not'', TOK_NOT),
     (''opaque'', TOK_OPAQUE), (''do'', TOK_DO)]"

text \<open>The run of identifier characters and the kind it gets; \<open>None\<close>: the prefix of a string
  literal, which is scanned by the sections that follow.\<close>

definition ident_kind :: "string \<Rightarrow> nat \<Rightarrow> ZenTokenType option" where
  "ident_kind s len =
     (case map_of keyword_table (take len s) of
        Some k \<Rightarrow> Some k
      | None \<Rightarrow>
          if len = 1 \<and> at s 0 = CHR ''f'' \<and> at s 1 = DQUOTE then None
          else if len = 1 \<and> at s 0 = CHR ''r'' \<and> (at s 1 = DQUOTE \<or> at s 1 = SQUOTE) then None
          else Some TOK_IDENT)"

section \<open>Strings\<close>

text \<open>The scanning loop of \<open>lexer_scan_string_internal\<close>. \<open>s[len]\<close> is read at its head.\<close>

function string_loop :: "char \<Rightarrow> bool \<Rightarrow> bool \<Rightarrow> string \<Rightarrow> nat \<Rightarrow> nat option" where
  "string_loop quote is_multi is_raw s len =
     (if length s < len then None
      else if at s len = NUL then Some len
      else if is_multi \<and> at s len = quote \<and> at s (len + 1) = quote \<and> at s (len + 2) = quote
        then Some (len + 3)
      else if \<not> is_multi \<and> at s len = quote then Some (len + 1)
      else if at s len = BSLASH \<and> \<not> is_multi then
        (if is_raw then
           string_loop quote is_multi is_raw s
             (if at s (len + 1) = quote then len + 2 else len + 1)
         else string_loop quote is_multi is_raw s (len + 2))
      else string_loop quote is_multi is_raw s (len + 1))"
  by pat_completeness auto
termination
  by (relation "measure (\<lambda>(q, m, r, s, len). Suc (length s) - len)") auto

declare string_loop.simps [simp del]

fun advance_over :: "string \<Rightarrow> nat \<Rightarrow> nat \<Rightarrow> nat \<times> nat" where
  "advance_over [] line col = (line, col)"
| "advance_over (c # cs) line col =
     (if c = NL then advance_over cs (Suc line) 1 else advance_over cs line (Suc col))"

definition string_is_multi :: "string \<Rightarrow> char \<Rightarrow> nat \<Rightarrow> bool" where
  "string_is_multi s quote prefix_len \<longleftrightarrow>
     quote = DQUOTE \<and> at s (prefix_len + 1) = DQUOTE \<and> at s (prefix_len + 2) = DQUOTE"

definition lexer_scan_string_internal ::
  "lexer \<Rightarrow> string \<Rightarrow> char \<Rightarrow> bool \<Rightarrow> nat \<Rightarrow> (nat \<times> lexer) option" where
  "lexer_scan_string_internal l s quote is_raw prefix_len =
     (let is_multi = string_is_multi s quote prefix_len
      in case string_loop quote is_multi is_raw s (prefix_len + (if is_multi then 3 else 1)) of
           None \<Rightarrow> None
         | Some len \<Rightarrow>
             (let (line, col) = advance_over (take len s) (lx_line l) (lx_col l)
              in Some (len, l\<lparr>lx_line := line, lx_col := col\<rparr>)))"

definition lex_string :: "lexer \<Rightarrow> ZenTokenType \<Rightarrow> char \<Rightarrow> bool \<Rightarrow> nat \<Rightarrow> lex_outcome option" where
  "lex_string l k quote is_raw prefix_len =
     (case lexer_scan_string_internal l (rest l) quote is_raw prefix_len of
        None \<Rightarrow> None
      | Some (len, l') \<Rightarrow> Some (Emit (mk_token k l len) (l'\<lparr>lx_pos := lx_pos l' + len\<rparr>)))"

section \<open>Numbers\<close>

definition digit_or_sep :: "char \<Rightarrow> bool" where
  "digit_or_sep c \<longleftrightarrow> isdigit c \<or> c = CHR ''_''"

text \<open>The prefixed forms: the length scanned and whether one of them matched.\<close>

definition radix_len :: "string \<Rightarrow> nat option" where
  "radix_len s =
     (if at s 0 = CHR ''0'' \<and> (at s 1 = CHR ''x'' \<or> at s 1 = CHR ''X'')
        then Some (span_from (\<lambda>c. isxdigit c \<or> c = CHR ''_'') s 2)
      else if at s 0 = CHR ''0'' \<and> (at s 1 = CHR ''b'' \<or> at s 1 = CHR ''B'')
        then Some (span_from (\<lambda>c. c = CHR ''0'' \<or> c = CHR ''1'' \<or> c = CHR ''_'') s 2)
      else if at s 0 = CHR ''0'' \<and> (at s 1 = CHR ''o'' \<or> at s 1 = CHR ''O'')
        then Some (span_from (\<lambda>c. (48 \<le> ord c \<and> ord c \<le> 55) \<or> c = CHR ''_'') s 2)
      else None)"

definition fraction_len :: "string \<Rightarrow> nat \<Rightarrow> nat \<times> bool" where
  "fraction_len s len =
     (if at s len = CHR ''.'' \<and> isdigit (at s (len + 1)) \<and> at s (len + 1) \<noteq> CHR ''.''
      then (span_from digit_or_sep s (len + 1), True) else (len, False))"

definition exponent_len :: "string \<Rightarrow> nat \<Rightarrow> nat \<times> bool" where
  "exponent_len s len =
     (if at s len = CHR ''e'' \<or> at s len = CHR ''E''
      then (let len1 = len + 1;
                len2 = (if at s len1 = CHR ''+'' \<or> at s len1 = CHR ''-'' then len1 + 1 else len1)
            in (span_from digit_or_sep s len2, True))
      else (len, False))"

definition suffix_len :: "string \<Rightarrow> nat \<Rightarrow> nat" where
  "suffix_len s len = (if is_ident_start (at s len) then span_from is_ident_char s len else len)"

definition number_scan :: "string \<Rightarrow> ZenTokenType \<times> nat" where
  "number_scan s =
     (case radix_len s of
        Some len \<Rightarrow> (TOK_INT, suffix_len s len)
      | None \<Rightarrow>
          (let len0 = span_from digit_or_sep s 0;
               (len1, frac) = fraction_len s len0;
               (len2, expo) = exponent_len s len1
           in (if frac \<or> expo then TOK_FLOAT else TOK_INT, suffix_len s len2)))"

definition number_diags :: "lexer \<Rightarrow> string \<Rightarrow> diag list" where
  "number_diags l s =
     (if radix_len s = None \<and> at s 0 = CHR ''0'' \<and> isdigit (at s 1) \<and> lx_misra l
      then [(mk_token TOK_INT l 2, ''MISRA Rule 7.1'')] else [])"

section \<open>Character literals\<close>

definition lead_byte_len :: "char \<Rightarrow> nat" where
  "lead_byte_len c =
     (let first = (of_char c :: 8 word)
      in if and first 0x80 = 0 then 1
         else if and first 0xE0 = 0xC0 then 2
         else if and first 0xF0 = 0xE0 then 3
         else if and first 0xF8 = 0xF0 then 4
         else 1)"

text \<open>The length up to, and not including, the closing quote. The run of hex digits is spelled
  out as in the code; it is \<open>isxdigit\<close>.\<close>

definition char_body_len :: "string \<Rightarrow> nat" where
  "char_body_len s =
     (if at s 1 = BSLASH then
        (if (at s 2 = CHR ''u'' \<or> at s 2 = CHR ''U'') \<and> at s 3 = CHR ''{''
         then (let len = span_from isxdigit s 4 in if at s len = CHR ''}'' then len + 1 else len)
         else 3)
      else 1 + lead_byte_len (at s 1))"

text \<open>\<open>if (s[len] == '\\'') len++;\<close> reads \<open>s[len]\<close>.\<close>

definition char_len :: "string \<Rightarrow> nat option" where
  "char_len s =
     (let len = char_body_len s
      in if length s < len then None
         else Some (if at s len = SQUOTE then len + 1 else len))"

section \<open>Operators and punctuation\<close>

definition punct_kind :: "char \<Rightarrow> ZenTokenType" where
  "punct_kind c =
     (if c = CHR ''('' then TOK_LPAREN else if c = CHR '')'' then TOK_RPAREN
      else if c = CHR ''{'' then TOK_LBRACE else if c = CHR ''}'' then TOK_RBRACE
      else if c = CHR ''['' then TOK_LBRACKET else if c = CHR '']'' then TOK_RBRACKET
      else if c = CHR ''<'' then TOK_LANGLE else if c = CHR ''>'' then TOK_RANGLE
      else if c = CHR '','' then TOK_COMMA else if c = CHR '':'' then TOK_COLON
      else if c = CHR '';'' then TOK_SEMICOLON else if c = CHR ''@'' then TOK_AT
      else TOK_OP)"

definition op_scan :: "string \<Rightarrow> ZenTokenType \<times> nat" where
  "op_scan s =
     (let c0 = at s 0; c1 = at s 1; c2 = at s 2 in
      if c0 = CHR ''?'' \<and> c1 = CHR ''.'' then (TOK_Q_DOT, 2)
      else if c0 = CHR ''?'' \<and> c1 = CHR ''?'' then
        (if c2 = CHR ''='' then (TOK_QQ_EQ, 3) else (TOK_QQ, 2))
      else if c0 = CHR ''?'' then (TOK_QUESTION, 1)
      else if c0 = CHR ''|'' \<and> c1 = CHR ''>'' then (TOK_PIPE, 2)
      else if c0 = CHR '':'' \<and> c1 = CHR '':'' then (TOK_DCOLON, 2)
      else if c0 = CHR ''.'' \<and> c1 = CHR ''.'' \<and> c2 = CHR ''.'' then (TOK_ELLIPSIS, 3)
      else if c0 = CHR ''.'' \<and> c1 = CHR ''.'' then
        (if c2 = CHR ''='' then (TOK_DOTDOT_EQ, 3)
         else if c2 = CHR ''<'' then (TOK_DOTDOT_LT, 3)
         else (TOK_DOTDOT, 2))
      else if (c0 = CHR ''-'' \<and> c1 = CHR ''>'') \<or> (c0 = CHR ''='' \<and> c1 = CHR ''>'')
        then (TOK_ARROW, 2)
      else if (c0 = CHR ''<'' \<and> c1 = CHR ''<'') \<or> (c0 = CHR ''>'' \<and> c1 = CHR ''>'')
        then (TOK_OP, if c2 = CHR ''='' then 3 else 2)
      else if (c0 = CHR ''&'' \<and> c1 = CHR ''&'') \<or> (c0 = CHR ''|'' \<and> c1 = CHR ''|'')
          \<or> (c0 = CHR ''+'' \<and> c1 = CHR ''+'') \<or> (c0 = CHR ''-'' \<and> c1 = CHR ''-'')
          \<or> (c0 = CHR ''*'' \<and> c1 = CHR ''*'')
        then (TOK_OP, if c0 = CHR ''*'' \<and> c1 = CHR ''*'' \<and> c2 = CHR ''='' then 3 else 2)
      else if c1 = CHR ''='' \<and> c0 \<in> set ''=!<>+-*/%|&^'' then (TOK_OP, 2)
      else (punct_kind c0, 1))"

section \<open>\<open>lexer_next\<close>\<close>

definition skip_white :: "lexer \<Rightarrow> lexer" where
  "skip_white l =
     (let (pos, line, col) = skip_space (rest l) (lx_pos l) (lx_line l) (lx_col l)
      in l\<lparr>lx_pos := pos, lx_line := line, lx_col := col\<rparr>)"

text \<open>The sections after the comments, at a byte that is not white space.\<close>

definition lex_literal_or_op :: "lexer \<Rightarrow> (lex_outcome \<times> diag list) option" where
  "lex_literal_or_op l =
     (let s = rest l in
      if at s 0 = CHR ''f'' \<and> at s 1 = DQUOTE then
        map_option (\<lambda>r. (r, [])) (lex_string l TOK_FSTRING DQUOTE False 1)
      else if at s 0 = CHR ''r'' \<and> (at s 1 = DQUOTE \<or> at s 1 = SQUOTE) then
        map_option (\<lambda>r. (r, [])) (lex_string l TOK_RAW_STRING (at s 1) True 1)
      else if isdigit (at s 0) then
        (let (k, len) = number_scan s
         in Some (Emit (mk_token k l len) (bump len l), number_diags l s))
      else if at s 0 = DQUOTE then
        map_option (\<lambda>r. (r, [])) (lex_string l TOK_STRING DQUOTE False 0)
      else if at s 0 = SQUOTE then
        map_option (\<lambda>len. (Emit (mk_token TOK_CHAR l len) (bump len l), [])) (char_len s)
      else
        (let (k, len) = op_scan s in Some (Emit (mk_token k l len) (bump len l), [])))"

definition lex_step :: "lexer \<Rightarrow> (lex_outcome \<times> diag list) option" where
  "lex_step l0 =
     (let l = skip_white l0; s = rest l in
      if at s 0 = NUL then Some (Emit (mk_token TOK_EOF l 0) l, [])
      else if at s 0 = CHR ''#'' then Some (lex_preproc l, [])
      else if at s 0 = CHR ''/'' \<and> at s 1 = CHR ''/'' then Some (lex_line_comment l)
      else if at s 0 = CHR ''/'' \<and> at s 1 = CHR ''*'' then Some (lex_block_comment l)
      else if is_ident_start (at s 0) then
        (let len = span_from is_ident_char s 0
         in case ident_kind s len of
              Some k \<Rightarrow> Some (Emit (mk_token k l len) (bump len l), [])
            | None \<Rightarrow> lex_literal_or_op l)
      else lex_literal_or_op l)"


section \<open>Progress, bounds and line counting of one pass\<close>

text \<open>\<open>advances l l'\<close>: the scanner moved forward inside the same source. \<open>consumed\<close> is the text
  in between and \<open>lines_ok\<close> says that the line counter grew by its newlines.\<close>

definition advances :: "lexer \<Rightarrow> lexer \<Rightarrow> bool" where
  "advances l l' \<longleftrightarrow>
     lx_src l' = lx_src l \<and> lx_pos l \<le> lx_pos l' \<and> lx_pos l' \<le> length (lx_src l)
     \<and> lx_emit_comments l' = lx_emit_comments l \<and> lx_misra l' = lx_misra l
     \<and> lx_filename l' = lx_filename l"

definition consumed :: "lexer \<Rightarrow> lexer \<Rightarrow> string" where
  "consumed l l' = take (lx_pos l' - lx_pos l) (rest l)"

definition newlines :: "string \<Rightarrow> nat" where
  "newlines s = length (filter (\<lambda>c. c = NL) s)"

definition lines_ok :: "lexer \<Rightarrow> lexer \<Rightarrow> bool" where
  "lines_ok l l' \<longleftrightarrow> lx_line l' = lx_line l + newlines (consumed l l')"

lemma newlines_simps [simp]:
  "newlines [] = 0" "newlines (c # s) = (if c = NL then Suc (newlines s) else newlines s)"
  "newlines (s @ t) = newlines s + newlines t"
  by (simp_all add: newlines_def)

lemma newlines_zero: "NL \<notin> set s \<Longrightarrow> newlines s = 0"
  by (auto simp: newlines_def filter_empty_conv)

lemma advances_refl: "lx_pos l \<le> length (lx_src l) \<Longrightarrow> advances l l"
  by (simp add: advances_def)

lemma advances_trans: "advances l l' \<Longrightarrow> advances l' l'' \<Longrightarrow> advances l l''"
  by (auto simp: advances_def)

lemma consumed_trans:
  assumes "advances l l'" and "advances l' l''"
  shows "consumed l l'' = consumed l l' @ consumed l' l''"
proof -
  obtain i j where ij: "lx_pos l' = lx_pos l + i" "lx_pos l'' = lx_pos l + i + j"
    using assms unfolding advances_def by (metis le_iff_add)
  have "rest l' = drop i (rest l)"
    using assms(1) ij by (simp add: rest_def advances_def add.commute)
  then show ?thesis using ij by (simp add: consumed_def take_add)
qed

lemma lines_ok_trans:
  "advances l l' \<Longrightarrow> advances l' l'' \<Longrightarrow> lines_ok l l' \<Longrightarrow> lines_ok l' l'' \<Longrightarrow> lines_ok l l''"
  by (simp add: lines_ok_def consumed_trans)

lemma skip_space_eq:
  "skip_space s pos line col = (p, ln, cl) \<Longrightarrow>
     p = pos + length (takeWhile isspace s) \<and> ln = line + newlines (takeWhile isspace s)"
proof (induction s pos line col rule: skip_space.induct)
  case (2 c cs pos line col)
  have "isspace NL" by (simp add: isspace_def)
  with 2 show ?case by (auto split: if_splits)
qed simp

lemma take_length_takeWhile [simp]: "take (length (takeWhile p s)) s = takeWhile p s"
  by (metis append_eq_conv_conj takeWhile_dropWhile_id)

lemma skip_white_advances:
  assumes "lx_pos l \<le> length (lx_src l)"
  shows "advances l (skip_white l)" and "lines_ok l (skip_white l)"
proof -
  obtain p ln cl where sk: "skip_space (rest l) (lx_pos l) (lx_line l) (lx_col l) = (p, ln, cl)"
    by (metis prod_cases3)
  have len: "length (takeWhile isspace (rest l)) \<le> length (lx_src l) - lx_pos l"
    using length_takeWhile_le [of isspace "rest l"] by (simp add: rest_def)
  show "advances l (skip_white l)" "lines_ok l (skip_white l)"
    using sk skip_space_eq [OF sk] len assms
    by (auto simp: skip_white_def advances_def lines_ok_def consumed_def)
qed

lemma skip_white_rest:
  "rest (skip_white l) = dropWhile isspace (rest l)"
proof -
  obtain p ln cl where sk: "skip_space (rest l) (lx_pos l) (lx_line l) (lx_col l) = (p, ln, cl)"
    by (metis prod_cases3)
  have "dropWhile isspace (rest l) = drop (length (takeWhile isspace (rest l))) (rest l)"
    by (rule dropWhile_eq_drop)
  then show ?thesis
    using sk skip_space_eq [OF sk] by (simp add: skip_white_def rest_def add.commute)
qed

lemma preproc_scan_eq:
  "preproc_scan s len line = (len', line') \<Longrightarrow>
     \<exists>k. len' = len + k \<and> k \<le> length s \<and> line' = line + newlines (take k s)"
proof (induction s len line rule: preproc_scan.induct)
  case (1 len line)
  then show ?case by simp
next
  case (2 c cs len line)
  consider (nl) "c = NL" | (bn) "c \<noteq> NL" "c = BSLASH" "at cs 0 = NL"
    | (bcn) "c \<noteq> NL" "c = BSLASH" "at cs 0 = CR" "at cs 1 = NL"
    | (plain) "c \<noteq> NL" "\<not> (c = BSLASH \<and> at cs 0 = NL)" "\<not> (c = BSLASH \<and> at cs 0 = CR \<and> at cs 1 = NL)"
    by auto
  then show ?case
  proof cases
    case nl
    with 2 show ?thesis by simp
  next
    case bn
    then obtain cs' where cs: "cs = NL # cs'" by (cases cs) auto
    from 2(1) 2(4) bn cs obtain k where
      "len' = len + 2 + k" "k \<le> length cs'" "line' = Suc line + newlines (take k cs')"
      by auto
    with cs bn show ?thesis by (intro exI [of _ "k + 2"]) auto
  next
    case bcn
    then obtain cs' where cs: "cs = CR # NL # cs'"
      by (cases cs; cases "tl cs") (auto simp: at_def split: if_splits)
    from 2(2) 2(4) bcn cs obtain k where
      "len' = len + 3 + k" "k \<le> length cs'" "line' = Suc line + newlines (take k cs')"
      by auto
    with cs bcn show ?thesis by (intro exI [of _ "k + 3"]) (auto simp: numeral_3_eq_3)
  next
    case plain
    from 2(3) 2(4) plain obtain k where
      "len' = Suc len + k" "k \<le> length cs" "line' = line + newlines (take k cs)"
      by (auto split: if_splits)
    with plain show ?thesis by (intro exI [of _ "Suc k"]) auto
  qed
qed

lemma line_comment_scan_eq:
  "line_comment_scan l s len ds = (len', ds') \<Longrightarrow>
     \<exists>k. len' = len + k \<and> k \<le> length s \<and> newlines (take k s) = 0"
proof (induction l s len ds rule: line_comment_scan.induct)
  case (2 l c cs len ds)
  show ?case
  proof (cases "c = NL")
    case True
    with 2 show ?thesis by simp
  next
    case False
    with 2(2) have "\<exists>ds1. line_comment_scan l cs (Suc len) ds1 = (len', ds')"
      by (auto split: if_splits)
    with 2 False obtain k where "len' = Suc len + k" "k \<le> length cs" "newlines (take k cs) = 0"
      by (auto split: if_splits)
    with False show ?thesis by (intro exI [of _ "Suc k"]) auto
  qed
qed simp

lemma block_comment_scan_eq:
  "block_comment_scan l s n line col ds = (n', line', col', ds') \<Longrightarrow>
     \<exists>k. n' = n + k \<and> k \<le> length s \<and> line' = line + newlines (take k s)"
proof (induction l s n line col ds rule: block_comment_scan.induct)
  case (2 l c cs n line col ds)
  show ?case
  proof (cases "c = CHR ''*'' \<and> at cs 0 = CHR ''/''")
    case True
    then obtain cs' where cs: "cs = CHR ''/'' # cs'" by (cases cs) auto
    with True 2(3) show ?thesis by (intro exI [of _ 2]) auto
  next
    case False
    from 2 False obtain k where "n' = Suc n + k" "k \<le> length cs"
      "line' = (if c = NL then Suc line else line) + newlines (take k cs)"
      by (cases "c = NL") (auto simp: Let_def split: if_splits)
    then show ?thesis by (intro exI [of _ "Suc k"]) auto
  qed
qed simp


text \<open>Lengths scanned by the literal sections stay inside the source.\<close>

lemma span_from_bounds: "len \<le> length s \<Longrightarrow> len \<le> span_from p s len \<and> span_from p s len \<le> length s"
  using length_takeWhile_le [of p "drop len s"] by (simp add: span_from_def)

lemma span_from_text: "c \<in> set (take (span_from p s len - len) (drop len s)) \<Longrightarrow> p c"
  by (auto simp: span_from_def dest: set_takeWhileD)

lemma span_from_stop: "\<not> p NUL \<Longrightarrow> \<not> p (at s (span_from p s len))"
proof (cases "length (takeWhile p (drop len s)) < length (drop len s)")
  case True
  then have "\<not> p (drop len s ! length (takeWhile p (drop len s)))" by (rule nth_length_takeWhile)
  with True show ?thesis by (simp add: span_from_def at_def less_diff_conv add.commute)
next
  case False
  assume "\<not> p NUL"
  with False show ?thesis by (simp add: span_from_def)
qed

lemma string_loop_bounds:
  "string_loop q m r s len = Some len' \<Longrightarrow> q \<noteq> NUL \<Longrightarrow> len \<le> len' \<and> len' \<le> length s"
proof (induction q m r s len rule: string_loop.induct)
  case (1 q m r s len)
  have inside: "at s k = q \<Longrightarrow> k < length s" for k
    using 1(5) by (auto intro: at_nonnul_inside)
  show ?case
  proof (cases "length s < len \<or> at s len = NUL \<or> at s len = q \<and> (\<not> m \<or> at s (len + 1) = q \<and> at s (len + 2) = q)")
    case True
    then show ?thesis
      using 1(4) inside [of len] inside [of "len + 2"]
      by (subst (asm) string_loop.simps) (auto split: if_splits)
  next
    case False
    then have "\<exists>n > len. string_loop q m r s n = Some len' \<and> len \<le> len' \<and> len' \<le> length s"
      using 1 by (subst (asm) (4) string_loop.simps) (force split: if_splits)
    then show ?thesis by blast
  qed
qed

lemma advance_over_line: "advance_over s line col = (line', col') \<Longrightarrow> line' = line + newlines s"
  by (induction s line col rule: advance_over.induct) (auto split: if_splits)

lemma suffix_len_bounds: "len \<le> length s \<Longrightarrow> len \<le> suffix_len s len \<and> suffix_len s len \<le> length s"
  by (simp add: suffix_len_def span_from_bounds)

lemma at_in_set_inside: "at s k = c \<Longrightarrow> c \<noteq> NUL \<Longrightarrow> Suc k \<le> length s"
  using at_nonnul_inside [of s k] by simp

lemma fraction_len_bounds:
  "fraction_len s len = (len', b) \<Longrightarrow> len \<le> length s \<Longrightarrow> len \<le> len' \<and> len' \<le> length s"
  using span_from_bounds [of "len + 1" s digit_or_sep]
  by (auto simp: fraction_len_def dest: at_in_set_inside split: if_splits)

lemma exponent_len_bounds:
  "exponent_len s len = (len', b) \<Longrightarrow> len \<le> length s \<Longrightarrow> len \<le> len' \<and> len' \<le> length s"
  using span_from_bounds [of "len + 1" s digit_or_sep] span_from_bounds [of "len + 2" s digit_or_sep]
  by (auto simp: exponent_len_def Let_def dest: at_in_set_inside split: if_splits)

lemma radix_len_bounds: "radix_len s = Some len \<Longrightarrow> 2 \<le> len \<and> len \<le> length s"
  using at_nonnul_inside [of s 1]
  by (auto simp: radix_len_def split: if_splits intro!: span_from_bounds [THEN conjunct1] span_from_bounds [THEN conjunct2])

lemma number_scan_bounds:
  assumes "number_scan s = (k, len)" and "isdigit (at s 0)"
  shows "0 < len \<and> len \<le> length s \<and> k \<noteq> TOK_EOF \<and> k \<noteq> TOK_CHAR"
proof (cases "radix_len s")
  case None
  obtain l1 f where f: "fraction_len s (span_from digit_or_sep s 0) = (l1, f)" by fastforce
  obtain l2 e where e: "exponent_len s l1 = (l2, e)" by fastforce
  obtain c cs where s: "s = c # cs" using assms(2) by (cases s) auto
  then have "0 < span_from digit_or_sep s 0" "span_from digit_or_sep s 0 \<le> length s"
    using assms(2) span_from_bounds [of 0 s digit_or_sep]
    by (auto simp: span_from_def digit_or_sep_def)
  then show ?thesis
    using None assms(1) f e fraction_len_bounds [OF f] exponent_len_bounds [OF e]
      suffix_len_bounds [of l2 s]
    by (auto simp: number_scan_def split: if_splits)
next
  case (Some n)
  then show ?thesis
    using assms(1) radix_len_bounds [OF Some] suffix_len_bounds [of n s]
    by (auto simp: number_scan_def)
qed

lemma char_len_bounds:
  "char_len s = Some len \<Longrightarrow> at s 0 = SQUOTE \<Longrightarrow> 0 < len \<and> len \<le> length s"
proof -
  assume some: "char_len s = Some len"
  have "0 < char_body_len s"
    by (simp add: char_body_len_def span_from_def Let_def)
  then show ?thesis
    using some at_nonnul_inside [of s "char_body_len s"]
    by (auto simp: char_len_def Let_def split: if_splits)
qed

lemma punct_kind_plain: "punct_kind c \<noteq> TOK_EOF \<and> punct_kind c \<noteq> TOK_CHAR"
  by (simp add: punct_kind_def)

text \<open>An operator of length 2 or 3 was matched against bytes that are there.\<close>

definition op_fits :: "string \<Rightarrow> ZenTokenType \<times> nat \<Rightarrow> bool" where
  "op_fits s r \<longleftrightarrow>
     (snd r = 1 \<or> (snd r = 2 \<and> at s 1 \<notin> {NUL, NL})
       \<or> (snd r = 3 \<and> at s 1 \<noteq> NL \<and> at s 2 \<notin> {NUL, NL}))
     \<and> fst r \<noteq> TOK_EOF \<and> fst r \<noteq> TOK_CHAR"

lemma op_fits_if: "(b \<Longrightarrow> op_fits s x) \<Longrightarrow> op_fits s y \<Longrightarrow> op_fits s (if b then x else y)"
  by simp

lemma op_scan_fits: "op_fits s (op_scan s)"
  unfolding op_scan_def Let_def
  by (intro op_fits_if) (auto simp: op_fits_def punct_kind_plain)

lemma op_scan_bounds:
  assumes "op_scan s = (k, len)" and "s \<noteq> []"
  shows "0 < len \<and> len \<le> length s \<and> k \<noteq> TOK_EOF \<and> k \<noteq> TOK_CHAR"
proof -
  have inside: "Suc j \<le> length s" if "at s j \<noteq> NUL" for j
    using at_nonnul_inside [OF that] by simp
  have "length s \<ge> 1" using assms(2) by (cases s) auto
  then show ?thesis
    using op_scan_fits [of s] inside [of 1] inside [of 2] by (auto simp: op_fits_def assms(1))
qed


text \<open>What every pass guarantees of its outcome: \<open>l\<close> is the state before the white space.\<close>

definition token_at :: "lexer \<Rightarrow> token \<Rightarrow> lexer \<Rightarrow> bool" where
  "token_at l t l' \<longleftrightarrow>
     (\<exists>p. tk_start t = Some p \<and> lx_pos l \<le> p \<and> p + tk_len t = lx_pos l'
        \<and> (tk_kind t = TOK_EOF \<longleftrightarrow> tk_len t = 0))"

fun outcome_ok :: "lexer \<Rightarrow> lex_outcome \<Rightarrow> bool" where
  "outcome_ok l (Emit t l') \<longleftrightarrow>
     advances l l' \<and> token_at l t l' \<and> (tk_kind t \<noteq> TOK_CHAR \<longrightarrow> lines_ok l l')"
| "outcome_ok l (Again l') \<longleftrightarrow> advances l l' \<and> lx_pos l < lx_pos l' \<and> lines_ok l l'"

lemma outcome_ok_white:
  assumes "lx_pos l \<le> length (lx_src l)" and "outcome_ok (skip_white l) r"
  shows "outcome_ok l r"
proof -
  have w: "advances l (skip_white l)" "lines_ok l (skip_white l)"
    using skip_white_advances assms(1) by blast+
  then have "lx_pos l \<le> lx_pos (skip_white l)" by (simp add: advances_def)
  then show ?thesis
    using assms(2) w
    by (cases r) (auto simp: token_at_def intro: advances_trans lines_ok_trans order_trans)
qed

lemma length_rest: "length (rest l) = length (lx_src l) - lx_pos l"
  by (simp add: rest_def)

lemma emit_bump_ok:
  assumes "lx_pos l \<le> length (lx_src l)" "0 < len" "len \<le> length (rest l)" "k \<noteq> TOK_EOF"
    and "k = TOK_CHAR \<or> newlines (take len (rest l)) = 0"
  shows "outcome_ok l (Emit (mk_token k l len) (bump len l))"
  using assms
  by (auto simp: bump_def mk_token_def advances_def token_at_def lines_ok_def consumed_def length_rest)

lemma lex_string_ok:
  assumes "lex_string l k q r p = Some out" "lx_pos l \<le> length (lx_src l)" "q \<noteq> NUL"
    and "k \<noteq> TOK_EOF"
  shows "outcome_ok l out"
proof -
  let ?s = "rest l" and ?m = "string_is_multi (rest l) q p"
  obtain len where len: "string_loop q ?m r ?s (p + (if ?m then 3 else 1)) = Some len"
    using assms(1)
    by (auto simp: lex_string_def lexer_scan_string_internal_def Let_def split: option.splits)
  obtain ln cl where adv: "advance_over (take len ?s) (lx_line l) (lx_col l) = (ln, cl)" by fastforce
  have "0 < len \<and> len \<le> length ?s" using string_loop_bounds [OF len assms(3)] by (auto split: if_splits)
  then show ?thesis
    using assms(1,2,4) len adv advance_over_line [OF adv]
    by (auto simp: lex_string_def lexer_scan_string_internal_def Let_def mk_token_def advances_def
        token_at_def lines_ok_def consumed_def length_rest)
qed

lemma newlines_in_class:
  "(\<And>c. c \<in> set s \<Longrightarrow> P c) \<Longrightarrow> \<not> P NL \<Longrightarrow> newlines s = 0"
  by (rule newlines_zero) auto

lemma ident_run_no_newline: "newlines (take (span_from is_ident_char s 0) s) = 0"
  by (rule newlines_in_class [of _ is_ident_char])
    (use span_from_text [of _ is_ident_char s 0] in
      \<open>auto simp: is_ident_char_def char_class_defs\<close>)


text \<open>\<open>all_in Q s len\<close>: the first \<open>len\<close> bytes are of class \<open>Q\<close>.\<close>

definition all_in :: "(char \<Rightarrow> bool) \<Rightarrow> string \<Rightarrow> nat \<Rightarrow> bool" where
  "all_in Q s len \<longleftrightarrow> (\<forall>c \<in> set (take len s). Q c)"

lemma all_in_0 [simp]: "all_in Q s 0"
  by (simp add: all_in_def)

lemma all_in_Suc: "all_in Q s len \<Longrightarrow> Q (at s len) \<Longrightarrow> all_in Q s (len + 1)"
  by (cases "len < length s") (auto simp: all_in_def take_Suc_conv_app_nth at_def)

lemma all_in_Suc': "all_in Q s len \<Longrightarrow> Q (at s len) \<Longrightarrow> all_in Q s (Suc len)"
  using all_in_Suc by simp

lemma all_in_span:
  "all_in Q s len \<Longrightarrow> (\<And>c. p c \<Longrightarrow> Q c) \<Longrightarrow> all_in Q s (span_from p s len)"
  by (auto simp: all_in_def span_from_def take_add dest: set_takeWhileD)

definition number_char :: "char \<Rightarrow> bool" where
  "number_char c \<longleftrightarrow> is_ident_char c \<or> c = CHR ''.'' \<or> c = CHR ''+'' \<or> c = CHR ''-''"

lemma number_char_classes:
  "isdigit c \<Longrightarrow> number_char c" "isxdigit c \<Longrightarrow> number_char c" "digit_or_sep c \<Longrightarrow> number_char c"
  "is_ident_char c \<Longrightarrow> number_char c" "is_ident_start c \<Longrightarrow> number_char c"
  by (auto simp: number_char_def is_ident_char_def is_ident_start_def digit_or_sep_def char_class_defs)

lemma number_char_lits:
  "number_char CHR ''.''" "number_char CHR ''+''" "number_char CHR ''-''" "number_char CHR ''0''"
  "number_char CHR ''1''" "number_char CHR ''_''" "number_char CHR ''e''" "number_char CHR ''E''"
  "number_char CHR ''x''" "number_char CHR ''X''" "number_char CHR ''b''" "number_char CHR ''B''"
  "number_char CHR ''o''" "number_char CHR ''O''"
  by (simp_all add: number_char_def is_ident_char_def char_class_defs)

lemma suffix_all_in: "all_in number_char s len \<Longrightarrow> all_in number_char s (suffix_len s len)"
  by (simp add: suffix_len_def all_in_span number_char_classes)

lemma fraction_all_in:
  "fraction_len s len = (len', b) \<Longrightarrow> all_in number_char s len \<Longrightarrow> all_in number_char s len'"
  by (auto simp: fraction_len_def number_char_classes number_char_lits
      intro!: all_in_span all_in_Suc' split: if_splits)

lemma exponent_all_in:
  "exponent_len s len = (len', b) \<Longrightarrow> all_in number_char s len \<Longrightarrow> all_in number_char s len'"
  by (auto simp: exponent_len_def Let_def number_char_classes number_char_lits
      intro!: all_in_span all_in_Suc' split: if_splits)

lemma radix_all_in: "radix_len s = Some len \<Longrightarrow> all_in number_char s len"
proof -
  assume r: "radix_len s = Some len"
  then have "number_char (at s 0)" "number_char (at s 1)"
    by (auto simp: radix_len_def number_char_lits split: if_splits)
  then have two: "all_in number_char s 2"
    using all_in_Suc [of number_char s 0] all_in_Suc [of number_char s 1] by (simp add: numeral_2_eq_2)
  have octal: "number_char c" if "48 \<le> ord c" "ord c \<le> 55" for c
    using that by (simp add: number_char_classes(1) isdigit_def)
  from r two show ?thesis
    by (auto simp: radix_len_def number_char_classes number_char_lits octal
        intro!: all_in_span split: if_splits)
qed

lemma number_scan_all_in:
  assumes "number_scan s = (k, len)"
  shows "all_in number_char s len"
proof (cases "radix_len s")
  case None
  obtain l1 f where f: "fraction_len s (span_from digit_or_sep s 0) = (l1, f)" by fastforce
  obtain l2 e where e: "exponent_len s l1 = (l2, e)" by fastforce
  have "all_in number_char s (span_from digit_or_sep s 0)"
    by (simp add: all_in_span number_char_classes)
  then have "all_in number_char s (suffix_len s l2)"
    using f e by (blast intro: suffix_all_in exponent_all_in fraction_all_in)
  with None f e assms show ?thesis by (simp add: number_scan_def)
next
  case (Some n)
  with assms show ?thesis by (auto simp: number_scan_def intro: suffix_all_in radix_all_in)
qed

lemma number_scan_no_newline: "number_scan s = (k, len) \<Longrightarrow> newlines (take len s) = 0"
  by (rule newlines_in_class [of _ number_char])
    (use number_scan_all_in in \<open>auto simp: all_in_def number_char_def is_ident_char_def char_class_defs\<close>)

lemma op_scan_no_newline:
  assumes "op_scan s = (k, len)" and "at s 0 \<noteq> NL"
  shows "newlines (take len s) = 0"
proof -
  have "all_in (\<lambda>c. c \<noteq> NL) s len"
    using op_scan_fits [of s] assms all_in_Suc [of "\<lambda>c. c \<noteq> NL" s 0] all_in_Suc [of "\<lambda>c. c \<noteq> NL" s 1]
      all_in_Suc [of "\<lambda>c. c \<noteq> NL" s 2]
    by (auto simp: op_fits_def numeral_2_eq_2 numeral_3_eq_3)
  then show ?thesis by (intro newlines_in_class [of _ "\<lambda>c. c \<noteq> NL"]) (auto simp: all_in_def)
qed

text \<open>One case per section: the conditions of an \<open>if\<close> chain, without the negated ones.\<close>

lemma lex_out_cases:
  "(if b then x else y) = z \<Longrightarrow> (b \<Longrightarrow> x = z \<Longrightarrow> R) \<Longrightarrow> (y = z \<Longrightarrow> R) \<Longrightarrow> R"
  by (simp split: if_splits)

lemma lex_literal_or_op_ok:
  assumes "lex_literal_or_op l = Some (out, ds)" "lx_pos l \<le> length (lx_src l)"
    and "at (rest l) 0 \<noteq> NUL" "at (rest l) 0 \<noteq> NL"
  shows "outcome_ok l out"
proof -
  have ne: "rest l \<noteq> []" using assms(3) by auto
  obtain kn n where num: "number_scan (rest l) = (kn, n)" by fastforce
  obtain ko j where op: "op_scan (rest l) = (ko, j)" by fastforce
  have str: "outcome_ok l out" if "lex_string l k q r p = Some out" "q \<noteq> NUL" "k \<noteq> TOK_EOF" for k q r p
    using lex_string_ok that assms(2) by blast
  show ?thesis
    using assms num op number_scan_bounds [OF num] number_scan_no_newline [OF num]
      op_scan_bounds [OF op ne] op_scan_no_newline [OF op] char_len_bounds [of "rest l"]
    unfolding lex_literal_or_op_def Let_def
    by (elim lex_out_cases) (auto dest: str intro: emit_bump_ok)
qed


text \<open>After the white space the next byte is not a newline.\<close>

lemma skip_white_head: "at (rest (skip_white l)) 0 \<noteq> NL"
proof (cases "dropWhile isspace (rest l)")
  case Nil
  then show ?thesis by (simp add: skip_white_rest)
next
  case (Cons c cs)
  then have "\<not> isspace c" by (simp add: dropWhile_eq_Cons_conv)
  moreover have "isspace NL" by (simp add: isspace_def)
  ultimately have "c \<noteq> NL" by blast
  with Cons show ?thesis by (simp add: skip_white_rest)
qed

lemma lex_preproc_ok:
  assumes "lx_pos l \<le> length (lx_src l)" "at (rest l) 0 = CHR ''#''"
  shows "outcome_ok l (lex_preproc l)"
proof -
  obtain len line where ps: "preproc_scan (rest l) 0 (lx_line l) = (len, line)" by fastforce
  obtain cs where s: "rest l = CHR ''#'' # cs" using assms(2) by (cases "rest l") auto
  have "preproc_scan cs 1 (lx_line l) = (len, line)" using ps s by simp
  then have "0 < len" using preproc_scan_eq by fastforce
  then show ?thesis
    using ps preproc_scan_eq [OF ps] assms(1)
    by (auto simp: lex_preproc_def mk_token_def advances_def token_at_def lines_ok_def consumed_def
        length_rest)
qed

lemma two_bytes: "at s 0 = c \<Longrightarrow> at s 1 = d \<Longrightarrow> c \<noteq> NUL \<Longrightarrow> d \<noteq> NUL \<Longrightarrow> \<exists>cs. s = c # d # cs"
  by (cases s; cases "tl s") auto

lemma lex_line_comment_ok:
  assumes "lx_pos l \<le> length (lx_src l)" "at (rest l) 0 = CHR ''/''" "at (rest l) 1 = CHR ''/''"
  shows "outcome_ok l (fst (lex_line_comment l))"
proof -
  obtain cs where s: "rest l = CHR ''/'' # CHR ''/'' # cs" using two_bytes [OF assms(2,3)] by auto
  obtain len ds where sc: "line_comment_scan l cs 2 [] = (len, ds)" by fastforce
  then obtain k where k: "len = 2 + k" "k \<le> length cs" "newlines (take k cs) = 0"
    using line_comment_scan_eq by blast
  then have "advances l (bump len l)" "lines_ok l (bump len l)"
    using assms(1) length_rest [of l] s
    by (auto simp: advances_def lines_ok_def consumed_def bump_def)
  with k s sc show ?thesis
    by (auto simp: lex_line_comment_def token_at_def mk_token_def bump_def)
qed

lemma lex_block_comment_ok:
  assumes "lx_pos l \<le> length (lx_src l)" "at (rest l) 0 = CHR ''/''" "at (rest l) 1 = CHR ''*''"
  shows "outcome_ok l (fst (lex_block_comment l))"
proof -
  obtain cs where s: "rest l = CHR ''/'' # CHR ''*'' # cs" using two_bytes [OF assms(2,3)] by auto
  obtain n ln cl ds where sc: "block_comment_scan l cs 2 (lx_line l) (lx_col l) [] = (n, ln, cl, ds)"
    by (metis prod_cases4)
  then obtain k where k: "n = 2 + k" "k \<le> length cs" "ln = lx_line l + newlines (take k cs)"
    using block_comment_scan_eq by blast
  with s sc assms(1) length_rest [of l] show ?thesis
    by (auto simp: lex_block_comment_def Let_def token_at_def mk_token_def advances_def lines_ok_def
        consumed_def)
qed

lemma ident_kind_real: "ident_kind s len = Some k \<Longrightarrow> k \<noteq> TOK_EOF \<and> k \<noteq> TOK_CHAR"
proof -
  have "\<forall>p \<in> set keyword_table. snd p \<noteq> TOK_EOF \<and> snd p \<noteq> TOK_CHAR"
    by (simp add: keyword_table_def)
  then show "ident_kind s len = Some k \<Longrightarrow> ?thesis"
    by (auto simp: ident_kind_def dest!: map_of_SomeD split: option.splits if_splits)
qed

lemma ident_len_pos: "is_ident_start (at s 0) \<Longrightarrow> 0 < span_from is_ident_char s 0"
  by (cases s) (auto simp: span_from_def is_ident_start_def is_ident_char_def isalnum_def)

lemma lex_step_ok:
  assumes pos: "lx_pos l \<le> length (lx_src l)" and step: "lex_step l = Some (out, ds)"
  shows "outcome_ok l out"
proof (rule outcome_ok_white [OF pos])
  let ?l = "skip_white l" and ?s = "rest (skip_white l)"
  have p: "lx_pos ?l \<le> length (lx_src ?l)"
    using skip_white_advances(1) [OF pos] by (simp add: advances_def)
  have eof: "outcome_ok ?l (Emit (mk_token TOK_EOF ?l 0) ?l)"
    using p by (simp add: advances_refl token_at_def mk_token_def lines_ok_def consumed_def)
  have lit: "lex_literal_or_op ?l = Some (out, ds) \<Longrightarrow> at ?s 0 \<noteq> NUL \<Longrightarrow> outcome_ok ?l out"
    using lex_literal_or_op_ok p skip_white_head by blast
  have id: "outcome_ok ?l (Emit (mk_token k ?l n) (bump n ?l))"
    if "is_ident_start (at ?s 0)" "n = span_from is_ident_char ?s 0" "k \<noteq> TOK_EOF" for n k
    using emit_bump_ok [OF p] ident_len_pos span_from_bounds [of 0 ?s] ident_run_no_newline that
    by simp
  show "outcome_ok ?l out"
  proof (cases "at ?s 0 = NUL")
    case True
    with step eof show ?thesis by (simp add: lex_step_def Let_def)
  next
    case False
    with step show ?thesis
      using lex_preproc_ok [OF p] lex_line_comment_ok [OF p] lex_block_comment_ok [OF p]
        lit [OF _ False]
      unfolding lex_step_def Let_def
      by (elim lex_out_cases)
        (auto simp: id simp del: outcome_ok.simps dest!: ident_kind_real split: option.splits)
  qed
qed

text \<open>\<open>Again\<close> leaves less of the source; the recursion of \<open>lexer_next\<close> ends.\<close>

lemma lex_step_Again:
  assumes "lex_step l = Some (Again l', ds)"
  shows "length (lx_src l') - lx_pos l' < length (lx_src l) - lx_pos l"
proof -
  have "lx_pos l \<le> length (lx_src l)"
  proof (rule ccontr)
    assume "\<not> ?thesis"
    then have "rest l = []" by (simp add: rest_def)
    then have "at (rest (skip_white l)) 0 = NUL" by (simp add: skip_white_rest)
    with assms show False by (simp add: lex_step_def Let_def)
  qed
  from lex_step_ok [OF this assms] show ?thesis by (auto simp: advances_def)
qed

function lexer_next :: "lexer \<Rightarrow> (token \<times> lexer \<times> diag list) option" where
  "lexer_next l =
     (case lex_step l of
        None \<Rightarrow> None
      | Some (Emit t l', ds) \<Rightarrow> Some (t, l', ds)
      | Some (Again l', ds) \<Rightarrow>
          (case lexer_next l' of
             None \<Rightarrow> None
           | Some (t, l'', ds') \<Rightarrow> Some (t, l'', ds @ ds')))"
  by pat_completeness auto
termination
  by (relation "measure (\<lambda>l. length (lx_src l) - lx_pos l)") (auto dest: lex_step_Again)

declare lexer_next.simps [simp del]

text \<open>\<open>Lexer saved = *l;\<close> the scanner itself is left as it is.\<close>

definition lexer_peek :: "lexer \<Rightarrow> (token \<times> diag list) option" where
  "lexer_peek l = map_option (\<lambda>(t, _, ds). (t, ds)) (lexer_next l)"

definition lexer_peek2 :: "lexer \<Rightarrow> (token \<times> diag list) option" where
  "lexer_peek2 l =
     (case lexer_next l of
        None \<Rightarrow> None
      | Some (_, saved, ds) \<Rightarrow>
          map_option (\<lambda>(t, _, ds'). (t, ds @ ds')) (lexer_next saved))"

end
