(* ===== verification/ZcLexerProps.thy ===== *)
theory ZcLexerProps
  imports ZcLexer
begin

text \<open>What the scanner promises its clients: tokens lie inside the source, in order and without
  overlap, the line counter follows the newlines, words are scanned to their end, and a source
  that ends in a newline is never read past its terminator.\<close>

lemmas lex_eval =
  lexer_next.simps lex_step_def skip_white_def lexer_init_def rest_def Let_def
  lex_literal_or_op_def lex_string_def lexer_scan_string_internal_def string_is_multi_def
  lex_preproc_def lex_line_comment_def lex_block_comment_def number_scan_def radix_len_def
  fraction_len_def exponent_len_def suffix_len_def digit_or_sep_def is_ident_start_def
  is_ident_char_def span_from_def char_class_defs mk_token_def bump_def keyword_table_def
  ident_kind_def op_scan_def punct_kind_def char_len_def char_body_len_def lead_byte_len_def
  string_loop.simps comment_opener_def number_diags_def at_def

lemma lexer_next_outcome:
  assumes "lx_pos l \<le> length (lx_src l)" and "lexer_next l = Some (t, l', ds)"
  shows "outcome_ok l (Emit t l')"
  using assms
proof (induction l arbitrary: ds rule: lexer_next.induct)
  case (1 l)
  obtain r ds1 where st: "lex_step l = Some (r, ds1)"
    using 1(3) by (subst (asm) lexer_next.simps) (auto split: option.splits)
  have ok: "outcome_ok l r" using lex_step_ok [OF 1(2) st] .
  show ?case
  proof (cases r)
    case (Emit u m)
    with 1(3) st ok show ?thesis by (simp add: lexer_next.simps [of l])
  next
    case (Again m)
    with 1(3) st obtain ds2 where nx: "lexer_next m = Some (t, l', ds2)"
      by (auto simp: lexer_next.simps [of l] split: option.splits)
    have am: "advances l m" "lines_ok l m" using ok Again by auto
    then have "lx_pos m \<le> length (lx_src m)" by (simp add: advances_def)
    from 1(1) [OF st refl Again this nx] have "outcome_ok m (Emit t l')" .
    moreover have "lx_pos l \<le> lx_pos m" using am(1) by (simp add: advances_def)
    ultimately show ?thesis
      using am by (auto simp: token_at_def intro: advances_trans lines_ok_trans order_trans)
  qed
qed

lemma lead_byte_ascii: "ord c < 128 \<Longrightarrow> lead_byte_len c = 1"
proof -
  assume "ord c < 128"
  then have "\<not> digit7 c" by (cases c) (auto simp: of_bool_def)
  then have "and (of_char c :: 8 word) 0x80 = 0" 
    by (cases c) (auto simp: of_bool_def)
  then show ?thesis by (simp add: lead_byte_len_def)
qed

text \<open>
  A token returned by \<open>lexer_next\<close> starts at or after the scanner's position, ends exactly where the
  scanner stops and lies inside the source buffer; every token but the end of file is at least
  one byte long, so the scanner makes progress.
\<close>

theorem lexer_next_progress:
  assumes "lx_pos l \<le> length (lx_src l)" and "lexer_next l = Some (t, l', ds)"
  shows "\<exists>p. tk_start t = Some p \<and> lx_pos l \<le> p \<and> p + tk_len t = lx_pos l'
    \<and> lx_pos l' \<le> length (lx_src l) \<and> lx_src l' = lx_src l
    \<and> (tk_kind t \<noteq> TOK_EOF \<longrightarrow> lx_pos l < lx_pos l')"
  using lexer_next_outcome [OF assms] by (auto simp: token_at_def advances_def)

theorem lexer_next_progress_witness:
  "\<exists>t l' p. lexer_next (lexer_init ''a+1'' False ''f'') = Some (t, l', [])
     \<and> tk_start t = Some p \<and> tk_kind t = TOK_IDENT \<and> 0 < lx_pos l'"
proof -
  have "\<exists>t l'. lexer_next (lexer_init ''a+1'' False ''f'') = Some (t, l', []) \<and> tk_kind t = TOK_IDENT"
    by (simp add: lex_eval)
  then obtain t l' where n: "lexer_next (lexer_init ''a+1'' False ''f'') = Some (t, l', [])"
    and k: "tk_kind t = TOK_IDENT" by blast
  from lexer_next_progress [OF _ n] k show ?thesis using n by (auto simp: lexer_init_def)
qed

text \<open>
  The line counter is right: over any token but a character literal (and over the white space and
  comments before it) \<open>lexer_next\<close> adds to \<open>line\<close> the number of newlines it consumed.
\<close>

theorem lexer_next_lines:
  assumes "lx_pos l \<le> length (lx_src l)" and "lexer_next l = Some (t, l', ds)"
    and "tk_kind t \<noteq> TOK_CHAR"
  shows "lx_line l' = lx_line l + newlines (take (lx_pos l' - lx_pos l) (drop (lx_pos l) (lx_src l)))"
  using lexer_next_outcome [OF assms(1,2)] assms(3) by (simp add: lines_ok_def consumed_def rest_def)

theorem lexer_next_lines_witness:
  "\<exists>t l'. lexer_next (lexer_init ([NL, NL] @ ''a'') False ''f'') = Some (t, l', []) \<and> lx_line l' = 3"
proof -
  have "\<exists>t l'. lexer_next (lexer_init ([NL, NL] @ ''a'') False ''f'') = Some (t, l', [])
      \<and> tk_kind t = TOK_IDENT \<and> lx_pos l' = 3"
    by (simp add: lex_eval)
  then obtain t l' where n: "lexer_next (lexer_init ([NL, NL] @ ''a'') False ''f'') = Some (t, l', [])"
    and k: "tk_kind t = TOK_IDENT" "lx_pos l' = 3" by blast
  from lexer_next_lines [OF _ n] k show ?thesis using n by (auto simp: lexer_init_def newlines_def)
qed

text \<open>A newline inside a character literal is consumed, but not counted.\<close>

lemma char_literal_newline_not_counted:
  "map_option (\<lambda>(t, l', _). (tk_kind t, lx_line l')) (lexer_next (lexer_init [SQUOTE, NL, SQUOTE] False f))
     = Some (TOK_CHAR, 1)"
  by (simp add: lex_eval)

text \<open>
  After a block comment the reported column is too small: neither \<open>/*\<close> nor \<open>*/\<close> is counted in
  \<open>col\<close>, so the \<open>x\<close> of \<open>/**/x\<close>, the fifth byte of its line, is reported at column 1.
\<close>

theorem block_comment_column:
  "map_option (\<lambda>(t, _, _). (tk_start t, tk_line t, tk_col t)) (lexer_next (lexer_init ''/**/x'' False f))
     = Some (Some 4, 1, 1)"
  by (simp add: lex_eval)

lemma string_loop_total:
  assumes "s \<noteq> []" "last s = NL" "len \<le> length s" "q \<noteq> NUL" "q \<noteq> NL"
  shows "string_loop q m r s len \<noteq> None"
  using assms
proof (induction q m r s len rule: string_loop.induct)
  case (1 q m r s len)
  have inside: "at s k \<noteq> NUL \<Longrightarrow> k < length s" for k by (rule at_nonnul_inside)
  have bs: "at s len = BSLASH \<Longrightarrow> len + 2 \<le> length s"
  proof (rule ccontr)
    assume b: "at s len = BSLASH" and "\<not> len + 2 \<le> length s"
    with inside [of len] have "len = length s - 1" by simp
    then have "at s len = last s" using 1(4) by (simp add: at_def last_conv_nth)
    with b 1(5) show False by simp
  qed
  show ?case
    using 1 bs inside [of len] inside [of "len + 1"]
    by (subst string_loop.simps) (auto split: if_splits)
qed

text \<open>Sources with no multi-byte characters whose last line is terminated.\<close>

definition plain_source :: "string \<Rightarrow> bool" where
  "plain_source src \<longleftrightarrow> src \<noteq> [] \<and> last src = NL \<and> (\<forall>c \<in> set src. ord c < 128)"

lemma lex_string_total:
  assumes "s = rest l" "s \<noteq> []" "last s = NL" "at s p = q" "q = DQUOTE \<or> q = SQUOTE"
  shows "lex_string l k q r p \<noteq> None"
proof -
  let ?m = "string_is_multi s q p"
  have q: "q \<noteq> NUL" "q \<noteq> NL" using assms(5) by auto
  have "p < length s" using assms(4) q at_nonnul_inside by blast
  moreover have "p + 2 < length s" if ?m
    using that at_nonnul_inside [of s "p + 2"] by (simp add: string_is_multi_def)
  ultimately have "p + (if ?m then 3 else 1) \<le> length s" by auto
  then obtain n where "string_loop q ?m r s (p + (if ?m then 3 else 1)) = Some n"
    using string_loop_total [OF assms(2,3) _ q] by blast
  then show ?thesis
    using assms(1) by (auto simp: lex_string_def lexer_scan_string_internal_def Let_def split: prod.split)
qed

lemma char_len_total:
  assumes "s \<noteq> []" "last s = NL" "\<forall>c \<in> set s. ord c < 128" "at s 0 = SQUOTE"
  shows "char_len s \<noteq> None"
proof -
  obtain cs where s: "s = SQUOTE # cs" using assms(4) by (cases s) auto
  then obtain c cs' where cs: "cs = c # cs'" using assms(2) by (cases cs) auto
  have "char_body_len s \<le> length s"
  proof (cases "c = BSLASH")
    case True
    then obtain d ds where "cs' = d # ds" using assms(2) s cs by (cases cs') auto
    then show ?thesis
      using s cs True span_from_bounds [of 4 s isxdigit] at_nonnul_inside [of s "span_from isxdigit s 4"]
        at_nonnul_inside [of s 3]
      by (auto simp: char_body_len_def Let_def Suc_le_eq)
  next
    case False
    then show ?thesis using s cs assms(3) by (simp add: char_body_len_def lead_byte_ascii)
  qed
  then show ?thesis by (simp add: char_len_def Let_def)
qed

lemma plain_source_rest:
  assumes "plain_source (lx_src l)" and "rest l \<noteq> []"
  shows "last (rest l) = NL" and "\<forall>c \<in> set (rest l). ord c < 128"
  using assms by (auto simp: plain_source_def rest_def dest: in_set_dropD)

lemma lex_literal_or_op_total:
  assumes "plain_source (lx_src l)" and "rest l \<noteq> []"
  shows "lex_literal_or_op l \<noteq> None"
  using plain_source_rest [OF assms] assms(2) lex_string_total [OF refl assms(2)]
    char_len_total [OF assms(2)]
  by (auto simp: lex_literal_or_op_def Let_def split: prod.splits)

lemma lex_step_total:
  assumes "plain_source (lx_src l)"
  shows "lex_step l \<noteq> None"
proof -
  have "plain_source (lx_src (skip_white l))"
    using assms by (simp add: skip_white_def split: prod.split)
  then have "at (rest (skip_white l)) 0 \<noteq> NUL \<Longrightarrow> lex_literal_or_op (skip_white l) \<noteq> None"
    using lex_literal_or_op_total [of "skip_white l"] at_Nil by metis
  then show ?thesis by (auto simp: lex_step_def Let_def split: option.splits)
qed

lemma lexer_next_total:
  assumes "plain_source (lx_src l)"
  shows "lexer_next l \<noteq> None"
  using assms
proof (induction l rule: lexer_next.induct)
  case (1 l)
  obtain r ds where st: "lex_step l = Some (r, ds)" using lex_step_total [OF 1(2)] by fastforce
  show ?case
  proof (cases r)
    case (Emit t l')
    with st show ?thesis by (simp add: lexer_next.simps [of l])
  next
    case (Again l')
    have pos: "lx_pos l \<le> length (lx_src l)"
      using lex_step_Again [OF st [unfolded Again]] by simp
    then have "lx_src l' = lx_src l" using lex_step_ok [OF pos st] Again by (simp add: advances_def)
    with 1 st Again show ?thesis by (force simp: lexer_next.simps [of l] split: option.splits)
  qed
qed

text \<open>
  A string literal that is not terminated and ends in a backslash at the end of the file makes the
  scanner step over the terminator of the source and read beyond it.
\<close>

theorem unterminated_string_overread:
  assumes "DQUOTE \<notin> set body" and "BSLASH \<notin> set body" and "NUL \<notin> set body"
  shows "lexer_next (lexer_init (DQUOTE # body @ [BSLASH]) m f) = None"
proof -
  let ?s = "DQUOTE # body @ [BSLASH]"
  have loop: "string_loop DQUOTE False False ?s (Suc n) = None" if "n \<le> length body" for n
    using that
  proof (induction "length body - n" arbitrary: n)
    case 0
    then have "n = length body" by simp
    then have "at ?s (Suc n) = BSLASH" "length ?s = Suc n + 1" by (simp_all add: at_def nth_append)
    then show ?case
      by (simp add: string_loop.simps [of _ _ _ _ "Suc n"] string_loop.simps [of _ _ _ _ "Suc (Suc (Suc n))"])
  next
    case (Suc k)
    then have "n < length body" by simp
    then have "at ?s (Suc n) = body ! n" "body ! n \<in> set body" by (simp_all add: at_def nth_append)
    with assms have "at ?s (Suc n) \<noteq> DQUOTE" "at ?s (Suc n) \<noteq> BSLASH" "at ?s (Suc n) \<noteq> NUL" by metis+
    with Suc \<open>n < length body\<close> show ?case
      by (simp add: string_loop.simps [of _ _ _ _ "Suc n"])
  qed
  have "at ?s 1 \<noteq> DQUOTE"
    using assms(1) by (cases body) auto
  then have "lex_string (lexer_init ?s m f) TOK_STRING DQUOTE False 0 = None"
    using loop [of 0] by (simp add: lex_string_def lexer_scan_string_internal_def string_is_multi_def
        lexer_init_def rest_def)
  moreover have "skip_white (lexer_init ?s m f) = lexer_init ?s m f"
    by (simp add: skip_white_def lexer_init_def rest_def isspace_def)
  ultimately have "lex_step (lexer_init ?s m f) = None"
    by (simp add: lex_step_def Let_def lex_literal_or_op_def char_class_defs is_ident_start_def)
      (simp add: lexer_init_def rest_def char_class_defs is_ident_start_def)
  then show ?thesis by (simp add: lexer_next.simps)
qed

theorem unterminated_string_overread_witness:
  "lexer_next (lexer_init (DQUOTE # ''ab'' @ [BSLASH]) False ''f'') = None"
  by (rule unterminated_string_overread) simp_all

text \<open>
  Maximal munch: at a word \<open>w\<close> (an identifier start followed by identifier characters, and not the
  prefix of a string literal) \<open>lexer_next\<close> returns the whole of \<open>w\<close>, as the keyword the table
  gives it or as \<open>TOK_IDENT\<close>.
\<close>

theorem lexer_next_word:
  assumes r: "rest l = w @ cs" and w: "w \<noteq> []" "is_ident_start (hd w)" "\<forall>c \<in> set w. is_ident_char c"
    and stop: "\<not> is_ident_char (at cs 0)"
    and "\<not> (w = ''f'' \<and> at cs 0 = DQUOTE)"
    and "\<not> (w = ''r'' \<and> (at cs 0 = DQUOTE \<or> at cs 0 = SQUOTE))"
  shows "\<exists>t l'. lexer_next l = Some (t, l', []) \<and> tk_start t = Some (lx_pos l) \<and> tk_len t = length w
    \<and> tk_kind t = (case map_of keyword_table w of Some k \<Rightarrow> k | None \<Rightarrow> TOK_IDENT)
    \<and> lx_pos l' = lx_pos l + length w"
proof -
  obtain c w' where cw: "w = c # w'" using w(1) by (cases w) auto
  have tw: "takeWhile is_ident_char (w @ cs) = w"
    using w(3) stop by (cases cs) (auto simp: takeWhile_append2)
  then have len: "span_from is_ident_char (rest l) 0 = length w"
    by (simp add: span_from_def r)
  have c: "is_ident_start c" using w(2) cw by simp
  then have nc: "c \<noteq> NUL" "c \<noteq> CHR ''#''" "c \<noteq> CHR ''/''" "\<not> isspace c"
    by (auto simp: is_ident_start_def char_class_defs)
  have white: "skip_white l = l"
    using nc(4) r cw by (cases l) (simp add: skip_white_def)
  have short: "length w = 1 \<Longrightarrow> w = [c] \<and> at (rest l) 0 = c \<and> at (rest l) 1 = at cs 0"
    using r cw by auto
  have "ident_kind (rest l) (length w)
      = Some (case map_of keyword_table w of Some k \<Rightarrow> k | None \<Rightarrow> TOK_IDENT)"
    using short assms(6,7) r by (auto simp: ident_kind_def split: option.split)
  then have "lex_step l = Some (Emit (mk_token (case map_of keyword_table w of Some k \<Rightarrow> k | None \<Rightarrow> TOK_IDENT) l
      (length w)) (bump (length w) l), [])"
    using white nc c len r cw by (simp add: lex_step_def Let_def)
  then show ?thesis by (simp add: lexer_next.simps [of l] mk_token_def bump_def)
qed

theorem lexer_next_word_witness:
  "\<exists>t l'. lexer_next (lexer_init ''defer_x = 1;'' False ''f'') = Some (t, l', []) \<and> tk_len t = 7
     \<and> tk_kind t = TOK_IDENT"
  using lexer_next_word [of "lexer_init ''defer_x = 1;'' False ''f''" "''defer_x''" "'' = 1;''"]
  by (auto simp: lexer_init_def rest_def is_ident_start_def is_ident_char_def char_class_defs keyword_table_def)

text \<open>A client's loop over the scanner, up to the end of the file.\<close>

function lex_all :: "lexer \<Rightarrow> token list option" where
  "lex_all l =
     (case lexer_next l of
        None \<Rightarrow> None
      | Some (t, l', _) \<Rightarrow>
          if tk_kind t = TOK_EOF then Some [] else map_option ((#) t) (lex_all l'))"
  by pat_completeness auto

lemma lexer_next_past_end:
  assumes "length (lx_src l) < lx_pos l" and "lexer_next l = Some (t, l', ds)"
  shows "tk_kind t = TOK_EOF"
proof -
  have "rest l = []" using assms(1) by (simp add: rest_def)
  then have "at (rest (skip_white l)) 0 = NUL" by (simp add: skip_white_rest)
  then have "lex_step l = Some (Emit (mk_token TOK_EOF (skip_white l) 0) (skip_white l), [])"
    by (simp add: lex_step_def Let_def)
  with assms(2) show ?thesis by (auto simp: lexer_next.simps [of l] mk_token_def)
qed

lemma lexer_next_decreases:
  assumes "lexer_next l = Some (t, l', ds)" and "tk_kind t \<noteq> TOK_EOF"
  shows "length (lx_src l') - lx_pos l' < length (lx_src l) - lx_pos l"
proof -
  have pos: "lx_pos l \<le> length (lx_src l)" using lexer_next_past_end [OF _ assms(1)] assms(2) by force
  from lexer_next_outcome [OF pos assms(1)] assms(2) show ?thesis
    by (auto simp: token_at_def advances_def)
qed

termination lex_all
  by (relation "measure (\<lambda>l. length (lx_src l) - lx_pos l)") (auto dest: lexer_next_decreases)

declare lex_all.simps [simp del]

text \<open>\<open>in_order p ts q\<close>: tokens that start at \<open>p\<close> or later, follow each other without overlap and
  end at \<open>q\<close> or before; each has at least one byte.\<close>

fun in_order :: "nat \<Rightarrow> token list \<Rightarrow> nat \<Rightarrow> bool" where
  "in_order p [] q = (p \<le> q)"
| "in_order p (t # ts) q =
     (\<exists>s. tk_start t = Some s \<and> p \<le> s \<and> 0 < tk_len t \<and> in_order (s + tk_len t) ts q)"

lemma in_order_length: "in_order p ts q \<Longrightarrow> p + length ts \<le> q"
  by (induction p ts q rule: in_order.induct) fastforce+

text \<open>
  C12: scanning a whole file yields tokens in source order that do not overlap, at most one per byte.
\<close>

theorem lex_all_in_order:
  assumes "lx_pos l \<le> length (lx_src l)" and "lex_all l = Some ts"
  shows "in_order (lx_pos l) ts (length (lx_src l)) \<and> length ts \<le> length (lx_src l) - lx_pos l"
proof -
  have "in_order (lx_pos l) ts (length (lx_src l))" using assms
  proof (induction l arbitrary: ts rule: lex_all.induct)
    case (1 l)
    obtain t l' ds where nx: "lexer_next l = Some (t, l', ds)"
      using 1(3) by (subst (asm) lex_all.simps) (auto split: option.splits)
    note ok = lexer_next_outcome [OF 1(2) nx]
    show ?case
    proof (cases "tk_kind t = TOK_EOF")
      case True
      with 1(2,3) nx show ?thesis by (simp add: lex_all.simps [of l])
    next
      case False
      with 1(3) nx obtain ts' where "lex_all l' = Some ts'" "ts = t # ts'"
        by (auto simp: lex_all.simps [of l])
      with 1(1) [OF nx refl refl False] ok False show ?thesis
        by (auto simp: token_at_def advances_def)
    qed
  qed
  then show ?thesis using in_order_length by fastforce
qed

theorem lex_all_in_order_witness:
  "\<exists>ts. lex_all (lexer_init ''a+1'' False ''f'') = Some ts \<and> in_order 0 ts 3 \<and> length ts = 3"
proof -
  have "\<exists>ts. lex_all (lexer_init ''a+1'' False ''f'') = Some ts \<and> length ts = 3"
    by (simp add: lex_all.simps lex_eval)
  then obtain ts where ts: "lex_all (lexer_init ''a+1'' False ''f'') = Some ts" "length ts = 3" by blast
  from lex_all_in_order [OF _ ts(1)] ts show ?thesis by (auto simp: lexer_init_def numeral_3_eq_3)
qed

text \<open>
  C33: a source of ASCII characters that ends in a newline is scanned to its end: the scanner never reads
  beyond the terminator and the loop over \<open>lexer_next\<close> ends. Sources with bytes from 128 on are not covered.
\<close>

theorem lex_all_total: "plain_source (lx_src l) \<Longrightarrow> lex_all l \<noteq> None"
proof (induction l rule: lex_all.induct)
  case (1 l)
  obtain t l' ds where nx: "lexer_next l = Some (t, l', ds)" using lexer_next_total [OF 1(2)] by fastforce
  show ?case
  proof (cases "tk_kind t = TOK_EOF")
    case True
    with nx show ?thesis by (simp add: lex_all.simps [of l])
  next
    case False
    then have pos: "lx_pos l \<le> length (lx_src l)" using lexer_next_past_end [OF _ nx] by force
    have "lx_src l' = lx_src l" using lexer_next_outcome [OF pos nx] by (simp add: advances_def)
    with 1 nx False show ?thesis by (simp add: lex_all.simps [of l])
  qed
qed

theorem lex_all_total_witness:
  "lex_all (lexer_init (''x '' @ [DQUOTE, BSLASH, NL]) False ''f'') \<noteq> None"
  by (rule lex_all_total) (simp add: plain_source_def lexer_init_def)

end
