(* ===== verification/ZcMangle.thy ===== *)
theory ZcMangle
  imports ZcPrelude
begin

text \<open>
  Symbol mangling: \<open>merge_underscores\<close> (\<open>src/src/utils/utils.c\<close>), \<open>sanitize_mangled_name\<close>
  (\<open>src/src/parser/utils/utils_template_replace.c\<close>) and \<open>mangle_method_symbol\<close>
  (\<open>src/src/parser/struct/struct_shared.c\<close>), with the naming scheme of \<open>MANGLING.md\<close>. A NULL
  argument is \<open>None\<close>; a write that leaves its buffer is the fault \<open>Buffer_overflow\<close>.
\<close>

section \<open>Writes into allocated buffers\<close>

datatype str_fault = Buffer_overflow | Null_pointer | Endless_recursion

definition bindE :: "'e + 'a \<Rightarrow> ('a \<Rightarrow> 'e + 'b) \<Rightarrow> 'e + 'b" where
  "bindE m f = (case m of Inl e \<Rightarrow> Inl e | Inr a \<Rightarrow> f a)"

lemma bindE_simps [simp]: "bindE (Inl e) f = Inl e" "bindE (Inr a) f = f a"
  by (simp_all add: bindE_def)

lemma bindE_cong [fundef_cong]:
  "m = m' \<Longrightarrow> (\<And>a. m' = Inr a \<Longrightarrow> f a = f' a) \<Longrightarrow> bindE m f = bindE m' f'"
  by (auto simp: bindE_def split: sum.split)

text \<open>\<open>sprintf\<close> (or \<open>strcpy\<close>) of \<open>s\<close> into a block of \<open>cap\<close> bytes; the terminator needs one.\<close>

definition sprintf_into :: "nat \<Rightarrow> string \<Rightarrow> str_fault + string" where
  "sprintf_into cap s = (if length s < cap then Inr s else Inl Buffer_overflow)"

text \<open>\<open>snprintf\<close> truncates.\<close>

definition snprintf_into :: "nat \<Rightarrow> string \<Rightarrow> string" where
  "snprintf_into cap s = take (cap - 1) s"

lemma sprintf_into_fits [simp]: "length s < cap \<Longrightarrow> sprintf_into cap s = Inr s"
  by (simp add: sprintf_into_def)

lemma snprintf_into_fits [simp]: "length s < cap \<Longrightarrow> snprintf_into cap s = s"
  by (simp add: snprintf_into_def)

definition xstrdup :: "string option \<Rightarrow> str_fault + string" where
  "xstrdup p = (case p of None \<Rightarrow> Inl Null_pointer | Some s \<Rightarrow> Inr s)"

abbreviation US :: char where "US \<equiv> CHR ''_''"

section \<open>\<open>merge_underscores\<close>\<close>

function merge_run :: "string \<Rightarrow> string" where
  "merge_run s =
     (case s of
        [] \<Rightarrow> []
      | c # cs \<Rightarrow>
          if at s 0 = US \<and> at s 1 = US \<and> at s 2 = US \<and> at s 3 = US
          then US # US # merge_run (dropWhile (\<lambda>c. c = US) (drop 4 s))
          else c # merge_run cs)"
  by pat_completeness auto
termination
  by (relation "measure length")
    (auto simp: le_imp_less_Suc intro!: le_less_trans [OF length_dropWhile_le])

declare merge_run.simps [simp del]

definition merge_underscores :: "string option \<Rightarrow> string option" where
  "merge_underscores name = map_option merge_run name"

section \<open>\<open>sanitize_mangled_name\<close>\<close>

definition strip_prefix :: "string \<Rightarrow> string \<Rightarrow> string" where
  "strip_prefix p s = (if take (length p) s = p then drop (length p) s else s)"

definition sanitize_char :: "char \<Rightarrow> string" where
  "sanitize_char c =
     (if c = CHR ''*'' then ''Ptr''
      else if c = CHR ''<'' \<or> c = CHR '','' \<or> c = CHR '' '' then ''__''
      else if c = CHR ''>'' \<or> c = CHR ''&'' then []
      else if isalnum c \<or> c = CHR ''_'' then [c]
      else ''_'')"

definition sanitize_text :: "string \<Rightarrow> string" where
  "sanitize_text s = concat (map sanitize_char (strip_prefix ''struct '' s))"

definition sanitize_mangled_name :: "string \<Rightarrow> str_fault + string" where
  "sanitize_mangled_name s = sprintf_into (length s * 4 + 1) (sanitize_text s)"

section \<open>\<open>mangle_method_symbol\<close>\<close>

definition MAX_MANGLED_NAME_LEN :: nat where "MAX_MANGLED_NAME_LEN = 2048"

definition mangle_method_symbol :: "string \<Rightarrow> string option \<Rightarrow> string \<Rightarrow> string" where
  "mangle_method_symbol struct_name trait_name method_name =
     (let tmp = snprintf_into MAX_MANGLED_NAME_LEN
            (case trait_name of
               Some t \<Rightarrow> struct_name @ ''__'' @ t @ ''__'' @ method_name
             | None \<Rightarrow> struct_name @ ''__'' @ method_name)
      in if at method_name 0 = US then tmp else merge_run tmp)"

section \<open>Facts\<close>

lemma sanitize_char_length: "length (sanitize_char c) \<le> 3"
  by (simp add: sanitize_char_def)

lemma strip_prefix_length: "length (strip_prefix p s) \<le> length s"
  by (simp add: strip_prefix_def)

lemma sanitize_text_length: "length (sanitize_text s) \<le> 3 * length s"
proof -
  have "length (concat (map sanitize_char s)) \<le> 3 * length s" for s
    by (induction s) (auto intro: order_trans [OF add_mono [OF sanitize_char_length]])
  from this [of "strip_prefix ''struct '' s"] strip_prefix_length [of "''struct ''" s]
  show ?thesis by (simp add: sanitize_text_def)
qed

lemma sanitize_fits [simp]: "sanitize_mangled_name s = Inr (sanitize_text s)"
  using sanitize_text_length [of s] by (simp add: sanitize_mangled_name_def)

text \<open>\<open>run4 s\<close>: four underscores in a row somewhere in \<open>s\<close>.\<close>

fun run4 :: "string \<Rightarrow> bool" where
  "run4 [] = False"
| "run4 (c # cs) = (at (c # cs) 0 = US \<and> at cs 0 = US \<and> at cs 1 = US \<and> at cs 2 = US \<or> run4 cs)"

lemma merge_run_Nil [simp]: "merge_run [] = []"
  by (simp add: merge_run.simps)

lemma merge_run_four:
  "merge_run (US # US # US # US # s) = US # US # merge_run (dropWhile (\<lambda>c. c = US) s)"
  by (subst merge_run.simps) simp

lemma merge_run_copy:
  "\<not> (c = US \<and> at cs 0 = US \<and> at cs 1 = US \<and> at cs 2 = US) \<Longrightarrow> merge_run (c # cs) = c # merge_run cs"
  by (subst merge_run.simps) (auto simp: numeral_2_eq_2 numeral_3_eq_3)

lemma merge_run_id: "\<not> run4 s \<Longrightarrow> merge_run s = s"
  by (induction s) (auto simp: merge_run_copy)

lemma dropWhile_head: "at (dropWhile (\<lambda>c. c = US) s) 0 \<noteq> US"
  by (induction s) auto

text \<open>The first byte is kept; what follows a collapsed run is no underscore.\<close>

lemma merge_run_head: "at (merge_run s) 0 = at s 0"
proof (cases s)
  case (Cons c cs)
  show ?thesis
  proof (cases "c = US \<and> at cs 0 = US \<and> at cs 1 = US \<and> at cs 2 = US")
    case True
    then obtain t where "cs = US # US # US # t"
      by (cases cs; cases "tl cs"; cases "tl (tl cs)") (auto simp: numeral_2_eq_2)
    with True Cons show ?thesis by (simp add: merge_run_four)
  next
    case False
    with Cons show ?thesis by (simp add: merge_run_copy)
  qed
qed simp

lemma four_split:
  "c = US \<and> at cs 0 = US \<and> at cs 1 = US \<and> at cs 2 = US \<Longrightarrow> \<exists>t. c # cs = US # US # US # US # t"
  by (cases cs; cases "tl cs"; cases "tl (tl cs)") (auto simp: numeral_2_eq_2)

lemma merge_run_length: "length (merge_run s) \<le> length s"
proof (induction s rule: merge_run.induct)
  case (1 s)
  show ?case
  proof (cases s)
    case (Cons c cs)
    show ?thesis
    proof (cases "c = US \<and> at cs 0 = US \<and> at cs 1 = US \<and> at cs 2 = US")
      case True
      then obtain t where t: "s = US # US # US # US # t" using four_split Cons by blast
      then have "length (merge_run (dropWhile (\<lambda>c. c = US) t)) \<le> length (dropWhile (\<lambda>c. c = US) t)"
        using 1(1) [of US "US # US # US # t"] by simp
      then show ?thesis using t length_dropWhile_le [of "\<lambda>c. c = US" t] by (simp add: merge_run_four)
    next
      case False
      then have "length (merge_run cs) \<le> length cs" using 1(2) [OF Cons] Cons by (auto simp: numeral_2_eq_2 numeral_3_eq_3)
      with False Cons show ?thesis by (simp add: merge_run_copy)
    qed
  qed simp
qed

lemma merge_run_short_run:
  assumes "\<not> (at s 0 = US \<and> at s 1 = US \<and> at s 2 = US)"
  shows "\<not> (at (merge_run s) 0 = US \<and> at (merge_run s) 1 = US \<and> at (merge_run s) 2 = US)"
proof -
  have step: "merge_run (US # t) = US # merge_run t" if "\<not> (at t 0 = US \<and> at t 1 = US)" for t
    using that by (auto simp: merge_run_copy)
  consider "at s 0 \<noteq> US" | t where "s = US # t" "at t 0 \<noteq> US" | t where "s = US # US # t" "at t 0 \<noteq> US"
    using assms by (cases s; cases "tl s") (auto simp: numeral_2_eq_2)
  then show ?thesis
  proof cases
    case 1
    then show ?thesis by (simp add: merge_run_head)
  next
    case 2
    then show ?thesis using merge_run_head [of t] by (simp add: step)
  next
    case 3
    then have "merge_run s = US # US # merge_run t" by (simp add: step)
    then show ?thesis using 3 merge_run_head [of t] by (simp add: numeral_2_eq_2)
  qed
qed

lemma merge_run_no_run4: "\<not> run4 (merge_run s)"
proof (induction s rule: merge_run.induct)
  case (1 s)
  show ?case
  proof (cases s)
    case (Cons c cs)
    show ?thesis
    proof (cases "c = US \<and> at cs 0 = US \<and> at cs 1 = US \<and> at cs 2 = US")
      case True
      then obtain t where t: "s = US # US # US # US # t" using four_split Cons by blast
      let ?r = "merge_run (dropWhile (\<lambda>c. c = US) t)"
      have "\<not> run4 ?r" using 1(1) [of US "US # US # US # t"] t by simp
      moreover have "at ?r 0 \<noteq> US" by (simp add: merge_run_head dropWhile_head)
      ultimately show ?thesis using t by (simp add: merge_run_four)
    next
      case False
      then have "\<not> run4 (merge_run cs)" using 1(2) [OF Cons] Cons by (auto simp: numeral_2_eq_2 numeral_3_eq_3)
      with False Cons show ?thesis
        using merge_run_short_run [of cs] by (auto simp: merge_run_copy)
    qed
  qed simp
qed

lemma merge_run_idem: "merge_run (merge_run s) = merge_run s"
  by (simp add: merge_run_id merge_run_no_run4)


text \<open>A segment of the naming scheme: no two underscores in a row and none at its end.\<close>

fun segment :: "string \<Rightarrow> bool" where
  "segment [] = True"
| "segment [c] = (c \<noteq> US)"
| "segment (c # d # s) = (\<not> (c = US \<and> d = US) \<and> segment (d # s))"

lemma segment_tl: "segment (c # s) \<Longrightarrow> segment s"
  by (cases s) auto

lemma segment_no_run4:
  "segment s \<Longrightarrow> \<not> run4 m \<Longrightarrow> at m 0 \<noteq> US \<Longrightarrow> \<not> run4 (s @ US # US # m)"
proof (induction s)
  case (Cons c s)
  then show ?case using segment_tl [of c s] by (cases s) auto
qed (simp add: numeral_2_eq_2)

lemma segment_split_unique:
  "segment s \<Longrightarrow> segment t \<Longrightarrow> s @ US # US # m = t @ US # US # n \<Longrightarrow> s = t \<and> m = n"
proof (induction s arbitrary: t)
  case Nil
  then show ?case by (cases t rule: segment.cases) auto
next
  case (Cons c s)
  show ?case
  proof (cases t)
    case Nil
    with Cons.prems show ?thesis by (cases "c # s" rule: segment.cases) auto
  next
    case (Cons d t')
    with Cons.prems Cons.IH [of t'] segment_tl show ?thesis by auto
  qed
qed

lemma mangle_method_plain:
  assumes "segment s" "\<not> run4 m \<or> at m 0 = US" "length s + length m + 2 < MAX_MANGLED_NAME_LEN"
  shows "mangle_method_symbol s None m = s @ ''__'' @ m"
  using assms segment_no_run4 [of s m]
  by (auto simp: mangle_method_symbol_def Let_def merge_run_id)

text \<open>
  \<open>merge_underscores\<close> yields a normal form: its result has no run of four underscores, is never
  longer than the name (so it fits the block of \<open>strlen(name) + 1\<close> bytes), merging it again changes
  nothing, and a name without such a run is returned as it is.
\<close>

theorem merge_underscores_normal:
  "\<exists>r. merge_underscores (Some s) = Some r \<and> \<not> run4 r \<and> length r \<le> length s
     \<and> merge_underscores (Some r) = Some r \<and> (\<not> run4 s \<longrightarrow> r = s)"
  by (simp add: merge_underscores_def merge_run_no_run4 merge_run_length merge_run_idem merge_run_id)

theorem merge_underscores_normal_witness:
  "\<not> run4 ''a___b'' \<and> merge_underscores (Some ''a___b'') = Some ''a___b''"
proof -
  have "\<not> run4 ''a___b''" by (simp add: numeral_2_eq_2)
  then show ?thesis using merge_underscores_normal [of "''a___b''"] by auto
qed

text \<open>Two methods without a trait get the same symbol only if struct and method agree, where the struct
  names are segments and the method names have no run of four underscores or begin with one.\<close>

lemma mangle_struct_injective:
  assumes "segment s" "segment s'" "\<not> run4 m \<or> at m 0 = US" "\<not> run4 m' \<or> at m' 0 = US"
    and "length s + length m + 2 < MAX_MANGLED_NAME_LEN"
    and "length s' + length m' + 2 < MAX_MANGLED_NAME_LEN"
    and "mangle_method_symbol s None m = mangle_method_symbol s' None m'"
  shows "s = s' \<and> m = m'"
  using assms segment_split_unique [of s s' m m'] by (simp add: mangle_method_plain)

text \<open>The names of the scheme: a struct name is a list of parts joined by two underscores (one for a plain
  struct, more for an instance of a generic one, \<open>Vec__int32_t\<close>), a trait is one part, and a method
  name has no two underscores in a row.\<close>

fun join_parts :: "string list \<Rightarrow> string" where
  "join_parts [] = []"
| "join_parts [p] = p"
| "join_parts (p # q # ps) = p @ ''__'' @ join_parts (q # ps)"

fun no_double :: "string \<Rightarrow> bool" where
  "no_double (c # d # s) = (\<not> (c = US \<and> d = US) \<and> no_double (d # s))"
| "no_double s = True"

definition scheme_parts :: "string list \<Rightarrow> string option \<Rightarrow> string \<Rightarrow> string list" where
  "scheme_parts ps t m = ps @ (case t of None \<Rightarrow> [] | Some t \<Rightarrow> [t]) @ [m]"

definition scheme_ok :: "string list \<Rightarrow> string option \<Rightarrow> string \<Rightarrow> bool" where
  "scheme_ok ps t m \<longleftrightarrow>
     ps \<noteq> [] \<and> list_all (\<lambda>p. p \<noteq> [] \<and> segment p) (butlast (scheme_parts ps t m))
     \<and> m \<noteq> [] \<and> no_double m \<and> length (join_parts (scheme_parts ps t m)) < MAX_MANGLED_NAME_LEN"

lemma no_double_occurs: "\<not> no_double (u @ US # US # v)"
proof (induction u)
  case (Cons c u)
  then show ?case by (cases u) auto
qed simp

lemma segment_no_double: "segment s \<Longrightarrow> no_double s"
  by (induction s rule: segment.induct) auto

lemma no_double_no_run4: "no_double s \<Longrightarrow> \<not> run4 s"
  by (induction s rule: no_double.induct) auto

lemma segment_then_no_run4:
  "segment s \<Longrightarrow> s \<noteq> [] \<Longrightarrow> \<not> run4 m \<Longrightarrow> \<not> (at m 0 = US \<and> at m 1 = US) \<Longrightarrow> \<not> run4 (s @ US # US # m)"
proof (induction s)
  case (Cons c s)
  then show ?case using segment_tl [of c s] by (cases s) (auto simp: numeral_2_eq_2)
qed simp

lemma join_parts_head:
  assumes "list_all (\<lambda>p. p \<noteq> [] \<and> segment p) ps" "m \<noteq> []" "no_double m"
  shows "\<not> (at (join_parts (ps @ [m])) 0 = US \<and> at (join_parts (ps @ [m])) 1 = US)"
proof (cases ps)
  case Nil
  with assms(2,3) show ?thesis by (cases m rule: no_double.cases) auto
next
  case (Cons p qs)
  obtain r where "join_parts (ps @ [m]) = p @ ''__'' @ r" using Cons by (cases qs) auto
  moreover have "p \<noteq> []" "segment p" using assms(1) Cons by simp_all
  ultimately show ?thesis by (cases p rule: segment.cases) auto
qed

lemma join_parts_no_run4:
  "list_all (\<lambda>p. p \<noteq> [] \<and> segment p) ps \<Longrightarrow> m \<noteq> [] \<Longrightarrow> no_double m \<Longrightarrow> \<not> run4 (join_parts (ps @ [m]))"
proof (induction ps)
  case (Cons p ps)
  then have "\<not> run4 (p @ US # US # join_parts (ps @ [m]))"
    by (intro segment_then_no_run4 join_parts_head) simp_all
  then show ?case by (cases ps) simp_all
qed (simp add: no_double_no_run4)

lemma join_parts_inject:
  "list_all (\<lambda>p. p \<noteq> [] \<and> segment p) ps \<Longrightarrow> list_all (\<lambda>p. p \<noteq> [] \<and> segment p) qs \<Longrightarrow>
     no_double m \<Longrightarrow> no_double n \<Longrightarrow> join_parts (ps @ [m]) = join_parts (qs @ [n]) \<Longrightarrow> ps @ [m] = qs @ [n]"
proof (induction ps arbitrary: qs)
  case Nil
  show ?case
  proof (cases qs)
    case (Cons q qs')
    then obtain r where "m = q @ US # US # r" using Nil by (cases qs') auto
    with Nil no_double_occurs show ?thesis by blast
  qed (use Nil in simp)
next
  case (Cons p ps)
  have left: "join_parts ((p # ps) @ [m]) = p @ US # US # join_parts (ps @ [m])" by (cases ps) simp_all
  show ?case
  proof (cases qs)
    case Nil
    then show ?thesis using Cons.prems left no_double_occurs [of p] by force
  next
    case (Cons q qs')
    then have "join_parts (qs @ [n]) = q @ US # US # join_parts (qs' @ [n])" by (cases qs') simp_all
    with left Cons.prems Cons have "p = q \<and> join_parts (ps @ [m]) = join_parts (qs' @ [n])"
      by (intro segment_split_unique) simp_all
    with Cons.IH [of qs'] Cons.prems Cons show ?thesis by simp
  qed
qed

lemma mangle_scheme:
  assumes "scheme_ok ps t m"
  shows "mangle_method_symbol (join_parts ps) t m = join_parts (scheme_parts ps t m)"
proof -
  have join: "join_parts (ps @ q # qs) = join_parts ps @ ''__'' @ join_parts (q # qs)" if "ps \<noteq> []" for ps q qs
    using that by (induction ps rule: join_parts.induct) simp_all
  have "ps \<noteq> []" using assms by (simp add: scheme_ok_def)
  then have "(case t of Some t \<Rightarrow> join_parts ps @ ''__'' @ t @ ''__'' @ m | None \<Rightarrow> join_parts ps @ ''__'' @ m)
      = join_parts (scheme_parts ps t m)"
    by (auto simp: scheme_parts_def join split: option.split)
  moreover have "\<not> run4 (join_parts (scheme_parts ps t m))"
    using join_parts_no_run4 [of "butlast (scheme_parts ps t m)" m] assms
    by (simp add: scheme_ok_def scheme_parts_def butlast_append)
  ultimately show ?thesis
    using assms by (simp add: mangle_method_symbol_def Let_def merge_run_id scheme_ok_def)
qed

text \<open>
  C37: the symbol of a method determines its names in the scheme of \<open>MANGLING.md\<close>: it determines the method
  and the list of all names before it, so among methods of traits, and among methods without a
  trait, two methods get the same symbol only if struct, trait and method agree. The names are parts that are
  not empty, have no two underscores in a row and (but for the method) none at their end; a struct name is one
  part, or several joined by two underscores as for an instance of a generic struct, a trait name is one part, and
  the symbol has less than 2048 bytes. Between a method with a trait and one without it is not said.
\<close>

theorem mangle_injective:
  assumes "scheme_ok ps t m" "scheme_ok ps' t' m'"
    and "mangle_method_symbol (join_parts ps) t m = mangle_method_symbol (join_parts ps') t' m'"
  shows "m = m' \<and> scheme_parts ps t m = scheme_parts ps' t' m'
    \<and> ((t = None) = (t' = None) \<longrightarrow> ps = ps' \<and> t = t')"
proof -
  have parts: "scheme_parts ps t m = butlast (scheme_parts ps t m) @ [m]" for ps t m
    by (simp add: scheme_parts_def butlast_append)
  have "join_parts (butlast (scheme_parts ps t m) @ [m]) = join_parts (butlast (scheme_parts ps' t' m') @ [m'])"
    using assms(3) unfolding mangle_scheme [OF assms(1)] mangle_scheme [OF assms(2)] by (simp only: parts [symmetric])
  then have same: "scheme_parts ps t m = scheme_parts ps' t' m'"
    using join_parts_inject [of "butlast (scheme_parts ps t m)" "butlast (scheme_parts ps' t' m')" m m'] assms(1,2)
    by (simp only: parts [symmetric] scheme_ok_def simp_thms)
  then show ?thesis by (auto simp: scheme_parts_def split: option.splits)
qed

theorem mangle_injective_witness:
  "mangle_method_symbol ''Vec__int32_t'' (Some ''Drop'') ''drop'' \<noteq> mangle_method_symbol ''Vec'' (Some ''Drop'') ''drop''"
  using mangle_injective [of "[''Vec'', ''int32_t'']" "Some ''Drop''" "''drop''" "[''Vec'']" "Some ''Drop''" "''drop''"]
  by (auto simp: MAX_MANGLED_NAME_LEN_def scheme_ok_def scheme_parts_def)

text \<open>
  The scheme is not injective on all names: a struct whose name ends in an underscore collides
  with a method whose name begins with one, and a trait method collides with a method that has a
  double underscore in its name.
\<close>

theorem mangle_collisions:
  "mangle_method_symbol ''S_'' None ''m'' = mangle_method_symbol ''S'' None ''_m''
   \<and> mangle_method_symbol ''S'' (Some ''T'') ''m'' = mangle_method_symbol ''S'' None ''T__m''"
  by (simp_all add: mangle_method_symbol_def Let_def MAX_MANGLED_NAME_LEN_def merge_run_copy numeral_2_eq_2)

end
