(* ===== verification/ZcTypes.thy ===== *)
theory ZcTypes
  imports ZcMangle
begin

text \<open>
  The formal types of \<open>src/src/ast/ast.h\<close> and the predicates of \<open>src/src/ast/ast.c\<close> on them.
  A \<open>Type *\<close> is a \<open>ty option\<close> (NULL is \<open>None\<close>); \<open>ty_addr\<close> is the address of the node, so that
  \<open>a == b\<close> is equality of addresses. \<open>is_varargs\<close>, \<open>is_restrict\<close> and \<open>is_opaque_alias\<close> are members
  of one union and share their storage: they are the one field \<open>ty_flag\<close>. The fields
  \<open>lifetime_depth\<close> and \<open>traits.has_iterable\<close> are read by no operation modelled here.
\<close>

datatype TypeKind =
    TYPE_VOID | TYPE_BOOL | TYPE_CHAR | TYPE_STRING | TYPE_U0 | TYPE_I8 | TYPE_U8 | TYPE_I16
  | TYPE_U16 | TYPE_I32 | TYPE_U32 | TYPE_I64 | TYPE_U64 | TYPE_I128 | TYPE_U128 | TYPE_F32
  | TYPE_F64 | TYPE_INT | TYPE_FLOAT | TYPE_USIZE | TYPE_ISIZE | TYPE_BYTE | TYPE_RUNE | TYPE_UINT
  | TYPE_C_INT | TYPE_C_UINT | TYPE_C_LONG | TYPE_C_ULONG | TYPE_C_LONGLONG | TYPE_C_ULONGLONG
  | TYPE_C_SHORT | TYPE_C_USHORT | TYPE_C_CHAR | TYPE_C_UCHAR
  | TYPE_STRUCT | TYPE_ENUM | TYPE_POINTER | TYPE_ARRAY | TYPE_VECTOR | TYPE_FUNCTION
  | TYPE_GENERIC | TYPE_ALIAS | TYPE_BITINT | TYPE_UBITINT | TYPE_UNSAFE_ANY | TYPE_UNKNOWN

datatype ty =
  Ty (ty_addr: nat) (ty_kind: TypeKind) (ty_name: "string option") (ty_link_name: "string option")
     (ty_inner: "ty option") (ty_args: "ty option list") (ty_is_const: bool)
     (ty_is_explicit_struct: bool) (ty_is_raw: bool) (ty_array_size: i32) (ty_has_drop: bool)
     (ty_flag: bool)

text \<open>\<open>type_new\<close> and its variants, at an address the allocator hands out. The size of a new array
  type is the \<open>int\<close> that is passed.\<close>

definition type_new :: "nat \<Rightarrow> TypeKind \<Rightarrow> ty" where
  "type_new addr kind =
     Ty addr kind None None None [] False False False 0 (kind = TYPE_FUNCTION) False"

definition type_new_ptr :: "nat \<Rightarrow> ty option \<Rightarrow> ty" where
  "type_new_ptr addr inner =
     (case type_new addr TYPE_POINTER of
        Ty a k n l _ as c e r s d f \<Rightarrow> Ty a k n l inner as c e r s d f)"

definition type_new_array :: "nat \<Rightarrow> ty option \<Rightarrow> i32 \<Rightarrow> ty" where
  "type_new_array addr inner array_size =
     (case type_new addr TYPE_ARRAY of
        Ty a k n l _ as c e r _ d f \<Rightarrow> Ty a k n l inner as c e r array_size d f)"

text \<open>A clone is a fresh node that shares the name, the inner type and the arguments.\<close>

definition type_clone :: "nat \<Rightarrow> ty option \<Rightarrow> ty option" where
  "type_clone addr t =
     (case t of
        None \<Rightarrow> None
      | Some (Ty _ k n l i as c e r s d f) \<Rightarrow> Some (Ty addr k n l i as c e r s d f))"

abbreviation transparent :: "ty \<Rightarrow> bool" where
  "transparent t \<equiv> ty_kind t = TYPE_ALIAS \<and> \<not> ty_flag t"

lemma size_inner [simp]: "ty_inner t = Some i \<Longrightarrow> size i < size t"
  by (cases t) auto

lemma size_option_inner [termination_simp]: "size_option size (ty_inner t) < Suc (size t)"
  by (cases t) auto

lemma size_arg: "Some a \<in> set (ty_args t) \<Longrightarrow> size a < size t"
proof (cases t)
  case (Ty ad k n l i as c e r s d f)
  have "Some a \<in> set as \<Longrightarrow> size a < Suc (size_list (size_option size) as)"
    by (induction as) auto
  then show "Some a \<in> set (ty_args t) \<Longrightarrow> size a < size t" using Ty by simp
qed

section \<open>Type predicates\<close>

definition is_char_ptr :: "ty option \<Rightarrow> bool" where
  "is_char_ptr p =
     (case p of
        None \<Rightarrow> False
      | Some t \<Rightarrow>
          (case ty_inner t of
             None \<Rightarrow> False
           | Some i \<Rightarrow>
               ty_kind t = TYPE_POINTER
               \<and> (ty_kind i = TYPE_CHAR \<or> ty_kind i = TYPE_STRUCT \<and> ty_name i = Some ''char'')))"

definition integer_kinds :: "TypeKind list" where
  "integer_kinds =
    [TYPE_INT, TYPE_CHAR, TYPE_BOOL, TYPE_I8, TYPE_U8, TYPE_I16, TYPE_U16, TYPE_I32, TYPE_U32,
     TYPE_I64, TYPE_U64, TYPE_USIZE, TYPE_ISIZE, TYPE_BYTE, TYPE_RUNE, TYPE_UINT, TYPE_I128,
     TYPE_U128, TYPE_BITINT, TYPE_UBITINT, TYPE_C_INT, TYPE_C_UINT, TYPE_C_LONG, TYPE_C_ULONG,
     TYPE_C_LONGLONG, TYPE_C_ULONGLONG, TYPE_C_SHORT, TYPE_C_USHORT, TYPE_C_CHAR, TYPE_C_UCHAR]"

definition integer_names :: "string list" where
  "integer_names =
    [''int8_t'', ''uint8_t'', ''int16_t'', ''uint16_t'', ''int32_t'', ''uint32_t'', ''int64_t'',
     ''uint64_t'', ''size_t'', ''ssize_t'', ''ptrdiff_t'']"

definition unsigned_kinds :: "TypeKind list" where
  "unsigned_kinds =
    [TYPE_U8, TYPE_U16, TYPE_U32, TYPE_U64, TYPE_USIZE, TYPE_UINT, TYPE_U128, TYPE_UBITINT,
     TYPE_C_UINT, TYPE_C_ULONG, TYPE_C_ULONGLONG, TYPE_C_USHORT, TYPE_C_UCHAR]"

definition unsigned_names :: "string list" where
  "unsigned_names = [''uint8_t'', ''uint16_t'', ''uint32_t'', ''uint64_t'', ''size_t'']"

definition signed_kinds :: "TypeKind list" where
  "signed_kinds =
    [TYPE_I8, TYPE_I16, TYPE_I32, TYPE_I64, TYPE_ISIZE, TYPE_INT, TYPE_I128, TYPE_BITINT,
     TYPE_C_INT, TYPE_C_LONG, TYPE_C_LONGLONG, TYPE_C_SHORT, TYPE_C_CHAR]"

definition signed_names :: "string list" where
  "signed_names =
    [''int8_t'', ''int16_t'', ''int32_t'', ''int64_t'', ''ssize_t'', ''ptrdiff_t'']"

text \<open>The shape shared by the predicates: a transparent alias asks its target; otherwise the kind,
  or the name of a struct, decides.\<close>

definition struct_named :: "ty \<Rightarrow> string list \<Rightarrow> bool" where
  "struct_named t names \<longleftrightarrow>
     ty_kind t = TYPE_STRUCT \<and> (case ty_name t of None \<Rightarrow> False | Some n \<Rightarrow> n \<in> set names)"

function is_integer_type :: "ty option \<Rightarrow> bool" where
  "is_integer_type None = False"
| "is_integer_type (Some t) =
     (if transparent t then is_integer_type (ty_inner t)
      else ty_kind t \<in> set integer_kinds \<or> struct_named t integer_names)"
  by pat_completeness auto
termination by (relation "measure (size_option size)") (auto simp: size_option_inner)

function is_unsigned_type :: "ty option \<Rightarrow> bool" where
  "is_unsigned_type None = False"
| "is_unsigned_type (Some t) =
     (if transparent t then is_unsigned_type (ty_inner t)
      else ty_kind t \<in> set unsigned_kinds \<or> struct_named t unsigned_names)"
  by pat_completeness auto
termination by (relation "measure (size_option size)") (auto simp: size_option_inner)

function is_signed_type :: "ty option \<Rightarrow> bool" where
  "is_signed_type None = False"
| "is_signed_type (Some t) =
     (if transparent t then is_signed_type (ty_inner t)
      else ty_kind t \<in> set signed_kinds \<or> struct_named t signed_names)"
  by pat_completeness auto
termination by (relation "measure (size_option size)") (auto simp: size_option_inner)

function is_boolean_type :: "ty option \<Rightarrow> bool" where
  "is_boolean_type None = False"
| "is_boolean_type (Some t) =
     (if transparent t then is_boolean_type (ty_inner t) else ty_kind t = TYPE_BOOL)"
  by pat_completeness auto
termination by (relation "measure (size_option size)") (auto simp: size_option_inner)

function is_float_type :: "ty option \<Rightarrow> bool" where
  "is_float_type None = False"
| "is_float_type (Some t) =
     (if transparent t then is_float_type (ty_inner t)
      else ty_kind t = TYPE_FLOAT \<or> ty_kind t = TYPE_F32 \<or> ty_kind t = TYPE_F64)"
  by pat_completeness auto
termination by (relation "measure (size_option size)") (auto simp: size_option_inner)

text \<open>\<open>get_inner_type\<close>: the target of a chain of transparent aliases.\<close>

function get_inner_type :: "ty option \<Rightarrow> ty option" where
  "get_inner_type None = None"
| "get_inner_type (Some t) = (if transparent t then get_inner_type (ty_inner t) else Some t)"
  by pat_completeness auto
termination by (relation "measure (size_option size)") (auto simp: size_option_inner)

section \<open>Type equality\<close>

text \<open>The tests of \<open>type_eq\<close> that answer 1 at once.\<close>

definition type_eq_at_once :: "ty \<Rightarrow> ty \<Rightarrow> bool" where
  "type_eq_at_once a b \<longleftrightarrow>
     ty_addr a = ty_addr b
     \<or> (ty_kind a = TYPE_UNKNOWN \<or> ty_kind b = TYPE_UNKNOWN)
     \<or> (is_integer_type (Some a) \<and> is_integer_type (Some b))
     \<or> (is_float_type (Some a) \<and> is_float_type (Some b))
     \<or> (ty_kind a = TYPE_STRING \<and> is_char_ptr (Some b))
     \<or> (ty_kind b = TYPE_STRING \<and> is_char_ptr (Some a))"

function type_eq :: "ty option \<Rightarrow> ty option \<Rightarrow> bool" where
  "type_eq None b = False"
| "type_eq (Some a) None = False"
| "type_eq (Some a) (Some b) =
     (if type_eq_at_once a b then True
      else if ty_kind a \<noteq> ty_kind b
          \<and> \<not> (ty_kind a = TYPE_STRUCT \<and> ty_kind b = TYPE_ENUM
             \<or> ty_kind a = TYPE_ENUM \<and> ty_kind b = TYPE_STRUCT) then False
      else if ty_kind a = TYPE_STRUCT \<or> ty_kind a = TYPE_GENERIC \<or> ty_kind a = TYPE_ENUM then
        ty_name a \<noteq> None \<and> ty_name b \<noteq> None \<and> ty_name a = ty_name b
      else if ty_kind a = TYPE_ALIAS then
        (if ty_flag a then
           \<not> (ty_kind b \<noteq> TYPE_ALIAS \<or> \<not> ty_flag b) \<and> ty_name a = ty_name b
         else type_eq (ty_inner a) (Some b))
      else if ty_kind a = TYPE_POINTER then type_eq (ty_inner a) (ty_inner b)
      else if ty_kind a = TYPE_FUNCTION then
        ty_is_raw a = ty_is_raw b
        \<and> length (ty_args a) = length (ty_args b)
        \<and> type_eq (ty_inner a) (ty_inner b)
        \<and> list_all (\<lambda>(x, y). type_eq x y) (zip (ty_args a) (ty_args b))
      else if ty_kind a = TYPE_ARRAY \<or> ty_kind a = TYPE_VECTOR then
        ty_array_size a = ty_array_size b \<and> type_eq (ty_inner a) (ty_inner b)
      else True)"
  by pat_completeness auto

lemma size_option_arg: "x \<in> set (ty_args t) \<Longrightarrow> size_option size x < Suc (size t)"
  using size_arg [of _ t] by (cases x; cases t) auto

termination type_eq
  by (relation "measure (\<lambda>(a, b). size_option size a)")
    (auto simp: size_option_inner dest!: set_zip_leftD size_option_arg)

declare type_eq.simps(3) [simp del]

section \<open>Facts about type equality\<close>

lemma at_once_sym: "type_eq_at_once a b = type_eq_at_once b a"
  unfolding type_eq_at_once_def by auto

lemma type_eq_NULL [simp]: "type_eq a None = False"
  by (cases a) auto

lemma type_eq_at_once [simp]: "type_eq_at_once a b \<Longrightarrow> type_eq (Some a) (Some b)"
  by (simp add: type_eq.simps(3))

lemma type_eq_kinds_differ:
  "\<not> type_eq_at_once a b \<Longrightarrow> ty_kind a \<noteq> ty_kind b \<Longrightarrow>
     type_eq (Some a) (Some b) \<longleftrightarrow>
       {ty_kind a, ty_kind b} = {TYPE_STRUCT, TYPE_ENUM} \<and> ty_name a \<noteq> None \<and> ty_name a = ty_name b"
  by (subst type_eq.simps(3)) (auto simp: doubleton_eq_iff)

text \<open>What equality of two types of the same kind asks of their parts.\<close>

fun parts_eq :: "TypeKind \<Rightarrow> ty \<Rightarrow> ty \<Rightarrow> bool" where
  "parts_eq TYPE_STRUCT a b = (ty_name a \<noteq> None \<and> ty_name a = ty_name b)"
| "parts_eq TYPE_ENUM a b = (ty_name a \<noteq> None \<and> ty_name a = ty_name b)"
| "parts_eq TYPE_GENERIC a b = (ty_name a \<noteq> None \<and> ty_name a = ty_name b)"
| "parts_eq TYPE_ALIAS a b =
     (if ty_flag a then ty_flag b \<and> ty_name a = ty_name b else type_eq (ty_inner a) (Some b))"
| "parts_eq TYPE_POINTER a b = type_eq (ty_inner a) (ty_inner b)"
| "parts_eq TYPE_FUNCTION a b =
     (ty_is_raw a = ty_is_raw b \<and> length (ty_args a) = length (ty_args b)
      \<and> type_eq (ty_inner a) (ty_inner b)
      \<and> list_all (\<lambda>(x, y). type_eq x y) (zip (ty_args a) (ty_args b)))"
| "parts_eq TYPE_ARRAY a b =
     (ty_array_size a = ty_array_size b \<and> type_eq (ty_inner a) (ty_inner b))"
| "parts_eq TYPE_VECTOR a b =
     (ty_array_size a = ty_array_size b \<and> type_eq (ty_inner a) (ty_inner b))"
| "parts_eq _ a b = True"

lemma type_eq_same_kind:
  "\<not> type_eq_at_once a b \<Longrightarrow> ty_kind a = k \<Longrightarrow> ty_kind b = k \<Longrightarrow>
     type_eq (Some a) (Some b) \<longleftrightarrow> parts_eq k a b"
  by (subst type_eq.simps(3), cases k) (auto)

text \<open>Types with no transparent alias in them; on these \<open>type_eq\<close> is symmetric.\<close>

fun no_transparent :: "ty \<Rightarrow> bool" where
  "no_transparent (Ty ad k n l i as c e r s d f) =
     (\<not> (k = TYPE_ALIAS \<and> \<not> f)
      \<and> (case i of None \<Rightarrow> True | Some t \<Rightarrow> no_transparent t)
      \<and> list_all (\<lambda>x. case x of None \<Rightarrow> True | Some t \<Rightarrow> no_transparent t) as)"

definition no_transparent_p :: "ty option \<Rightarrow> bool" where
  "no_transparent_p p = (case p of None \<Rightarrow> True | Some t \<Rightarrow> no_transparent t)"

lemma no_transparentD:
  assumes "no_transparent t"
  shows "\<not> transparent t" and "no_transparent_p (ty_inner t)"
    and "x \<in> set (ty_args t) \<Longrightarrow> no_transparent_p x"
  using assms by (cases t; auto simp: no_transparent_p_def list_all_iff)+

lemma type_eq_sym_some:
  "no_transparent a \<Longrightarrow> no_transparent b \<Longrightarrow> type_eq (Some a) (Some b) = type_eq (Some b) (Some a)"
proof (induction "size a" arbitrary: a b rule: less_induct)
  case less
  note d = no_transparentD [OF less.prems(1)] no_transparentD [OF less.prems(2)]
  have part: "type_eq x y = type_eq y x"
    if "no_transparent_p x" "no_transparent_p y" "size_option size x < Suc (size a)" for x y
    using that less.hyps by (cases x; cases y) (auto simp: no_transparent_p_def)
  have inn: "type_eq (ty_inner a) (ty_inner b) = type_eq (ty_inner b) (ty_inner a)"
    by (rule part) (use d size_option_inner in auto)
  have arg: "type_eq (ty_args a ! n) (ty_args b ! n) = type_eq (ty_args b ! n) (ty_args a ! n)"
    if "n < length (ty_args a)" "length (ty_args a) = length (ty_args b)" for n
    by (rule part) (use that d nth_mem [of n] size_option_arg in auto)
  have args: "list_all (\<lambda>(x, y). type_eq x y) (zip (ty_args a) (ty_args b))
      \<longleftrightarrow> list_all (\<lambda>(x, y). type_eq x y) (zip (ty_args b) (ty_args a))"
    if "length (ty_args a) = length (ty_args b)"
    using that arg by (simp add: list_all_length)
  show ?case
  proof (cases "type_eq_at_once a b")
    case True
    then show ?thesis using at_once_sym by auto
  next
    case False
    then have f: "\<not> type_eq_at_once b a" using at_once_sym by auto
    show ?thesis
    proof (cases "ty_kind a = ty_kind b")
      case True
      have "parts_eq (ty_kind b) a b = parts_eq (ty_kind b) b a"
        using inn args d(1,4) True by (cases "ty_kind b") auto
      then show ?thesis
        using type_eq_same_kind [OF False True refl] type_eq_same_kind [OF f refl True] by simp
    next
      case kinds: False
      then show ?thesis
        using type_eq_kinds_differ [OF False kinds] type_eq_kinds_differ [OF f kinds [symmetric]]
        by (metis insert_commute)
    qed
  qed
qed

text \<open>
  \<open>type_eq\<close> is symmetric on types that contain no transparent alias.
\<close>

theorem type_eq_sym:
  assumes "no_transparent_p a" and "no_transparent_p b"
  shows "type_eq a b = type_eq b a"
  using assms type_eq_sym_some by (cases a; cases b) (auto simp: no_transparent_p_def)

theorem type_eq_sym_witness:
  "type_eq (Some (type_new_ptr 1 (Some (type_new 2 TYPE_VOID)))) (Some (type_new_ptr 3 (Some (type_new 4 TYPE_VOID))))
   = type_eq (Some (type_new_ptr 3 (Some (type_new 4 TYPE_VOID)))) (Some (type_new_ptr 1 (Some (type_new 2 TYPE_VOID))))"
  by (rule type_eq_sym) (simp_all add: no_transparent_p_def type_new_ptr_def type_new_def)

text \<open>
  A transparent alias is never equal to the struct (or the enum or the pointer) it stands for,
  in either order: the comparison of the kinds comes before the alias is resolved.
\<close>

theorem type_eq_alias_target:
  assumes "transparent a" and "ty_inner a = Some t" and "ty_addr a \<noteq> ty_addr t"
    and "ty_kind t = TYPE_STRUCT \<or> ty_kind t = TYPE_ENUM \<or> ty_kind t = TYPE_POINTER"
    and "\<not> is_integer_type (Some t)"
  shows "\<not> type_eq (Some a) (Some t) \<and> \<not> type_eq (Some t) (Some a)"
proof -
  have "\<not> type_eq_at_once a t"
    using assms by (auto simp: type_eq_at_once_def is_char_ptr_def)
  moreover from this have "\<not> type_eq_at_once t a" by (simp add: at_once_sym)
  ultimately show ?thesis
    using assms by (auto simp: type_eq_kinds_differ doubleton_eq_iff)
qed

theorem type_eq_alias_target_witness:
  "\<not> type_eq (Some (Ty 1 TYPE_ALIAS (Some ''A'') None (Some (Ty 2 TYPE_STRUCT (Some ''P'') None None []
        False False False 0 False False)) [] False False False 0 False False))
      (Some (Ty 2 TYPE_STRUCT (Some ''P'') None None [] False False False 0 False False))"
  by (rule type_eq_alias_target [THEN conjunct1])
    (simp_all add: struct_named_def integer_kinds_def integer_names_def)

text \<open>
  No type is both signed and unsigned, and every signed or unsigned type is an integer type.
\<close>

theorem signedness_exclusive:
  "\<not> (is_signed_type p \<and> is_unsigned_type p)
   \<and> (is_signed_type p \<or> is_unsigned_type p \<longrightarrow> is_integer_type p)"
proof (induction p rule: is_integer_type.induct)
  case (2 t)
  have kinds: "set signed_kinds \<inter> set unsigned_kinds = {}" "TYPE_STRUCT \<notin> set signed_kinds \<union> set unsigned_kinds"
    "set signed_kinds \<union> set unsigned_kinds \<subseteq> set integer_kinds"
    by (auto simp: signed_kinds_def unsigned_kinds_def integer_kinds_def)
  have names: "set signed_names \<inter> set unsigned_names = {}"
    "set signed_names \<union> set unsigned_names \<subseteq> set integer_names"
    by (auto simp: signed_names_def unsigned_names_def integer_names_def)
  show ?case
  proof (cases "transparent t")
    case True
    with 2 show ?thesis by simp
  next
    case False
    then show ?thesis
      using kinds names by (auto simp: struct_named_def split: option.splits)
  qed
qed simp

theorem signedness_exclusive_witness:
  "is_signed_type (Some (type_new 1 TYPE_I32)) \<and> is_integer_type (Some (type_new 1 TYPE_I32))"
  using signedness_exclusive [of "Some (type_new 1 TYPE_I32)"]
  by (simp add: type_new_def signed_kinds_def)

lemma get_inner_type_idem [simp]: "get_inner_type (get_inner_type p) = get_inner_type p"
  by (induction p rule: get_inner_type.induct) auto

lemma get_inner_type_opaque: "get_inner_type p = Some t \<Longrightarrow> \<not> transparent t"
  by (induction p rule: get_inner_type.induct) (auto split: if_splits)

text \<open>
  The integer, float and boolean predicates see through aliases: they answer for a type what
  they answer for \<open>get_inner_type\<close> of it, which is never a transparent alias.
\<close>

theorem predicates_through_aliases:
  "is_integer_type (get_inner_type p) = is_integer_type p
   \<and> is_unsigned_type (get_inner_type p) = is_unsigned_type p
   \<and> is_signed_type (get_inner_type p) = is_signed_type p
   \<and> is_float_type (get_inner_type p) = is_float_type p
   \<and> is_boolean_type (get_inner_type p) = is_boolean_type p
   \<and> \<not> (\<exists>t. get_inner_type p = Some t \<and> transparent t)"
proof -
  have "is_integer_type (get_inner_type p) = is_integer_type p
    \<and> is_unsigned_type (get_inner_type p) = is_unsigned_type p
    \<and> is_signed_type (get_inner_type p) = is_signed_type p
    \<and> is_float_type (get_inner_type p) = is_float_type p
    \<and> is_boolean_type (get_inner_type p) = is_boolean_type p"
    by (induction p rule: get_inner_type.induct) auto
  then show ?thesis using get_inner_type_opaque [of p] by blast
qed

end
