(* ===== verification/ZcTypeStr.thy ===== *)
theory ZcTypeStr
  imports ZcTypes
begin

text \<open>
  The printers \<open>type_to_string\<close> (the compiler's own spelling) and \<open>type_to_c_string\<close> (C) of
  \<open>src/src/ast/ast.c\<close>, with the sizes of the blocks they allocate, and the table of primitives of
  \<open>src/src/ast/primitives.c\<close>. A result is the string, or the fault of the C code: a write that
  leaves its block, or the use of a NULL pointer.
\<close>

section \<open>Pieces the printers share\<close>

abbreviation show_i32 :: "i32 \<Rightarrow> string" where "show_i32 w \<equiv> show_int (sint w)"

text \<open>\<open>strstr(s, pat)\<close> as the offset of the first match.\<close>

fun strstr :: "string \<Rightarrow> string \<Rightarrow> nat option" where
  "strstr [] pat = (if pat = [] then Some 0 else None)"
| "strstr (c # cs) pat =
     (if take (length pat) (c # cs) = pat then Some 0 else map_option Suc (strstr cs pat))"

definition bind_all :: "(str_fault + string) list \<Rightarrow> str_fault + string list" where
  "bind_all ms = foldr (\<lambda>m acc. bindE m (\<lambda>s. bindE acc (\<lambda>ss. Inr (s # ss)))) ms (Inr [])"

text \<open>The loop that appends the parameters of a function type, separated by \<open>", "\<close>.\<close>

fun append_args :: "string \<Rightarrow> nat \<Rightarrow> string list \<Rightarrow> str_fault + string" where
  "append_args res i [] = Inr res"
| "append_args res i (arg # args) =
     (let res1 = (if i > 0 then snprintf_into (length res + 3) (res @ '', '') else res)
      in bindE (sprintf_into (length res1 + length arg + 1) (res1 @ arg))
           (\<lambda>res2. append_args res2 (Suc i) args))"

text \<open>\<open>const\<close> in front.\<close>

definition add_const :: "bool \<Rightarrow> string \<Rightarrow> str_fault + string" where
  "add_const c res = (if c then sprintf_into (length res + 7) (''const '' @ res) else Inr res)"

text \<open>\<open>while (base->kind == TYPE_ARRAY && base->array_size > 0)\<close>: the dimensions and the element
  type; \<open>None\<close> is the dereference of a NULL \<open>inner\<close>.\<close>

function peel_dims :: "ty option \<Rightarrow> (i32 list \<times> ty) option" where
  "peel_dims None = None"
| "peel_dims (Some t) =
     (if ty_kind t = TYPE_ARRAY \<and> sint (ty_array_size t) > 0
      then map_option (\<lambda>(ds, b). (ty_array_size t # ds, b)) (peel_dims (ty_inner t))
      else Some ([], t))"
  by pat_completeness auto
termination by (relation "measure (size_option size)") (auto simp: size_option_inner)

definition print_dims :: "i32 list \<Rightarrow> string" where
  "print_dims ds = concat (map (\<lambda>d. snprintf_into 20 (''['' @ show_i32 d @ '']'')) ds)"

text \<open>The block has 20 bytes for every dimension.\<close>

definition with_dims :: "i32 list \<Rightarrow> string \<Rightarrow> str_fault + string" where
  "with_dims ds inner = sprintf_into (length inner + 1 + 20 * length ds) (inner @ print_dims ds)"

declare peel_dims.simps(2) [simp del]

lemma peel_dims_size: "peel_dims p = Some (ds, b) \<Longrightarrow> size b < size_option size p"
proof (induction p arbitrary: ds rule: peel_dims.induct)
  case (2 t)
  show ?case
  proof (cases "ty_kind t = TYPE_ARRAY \<and> sint (ty_array_size t) > 0")
    case True
    with 2(2) obtain ds' where "peel_dims (ty_inner t) = Some (ds', b)"
      by (auto simp: peel_dims.simps(2) [of t])
    with 2(1) True have "size b < size_option size (ty_inner t)" by blast
    then show ?thesis using size_option_inner [of t] by simp
  next
    case False
    with 2(2) show ?thesis by (auto simp: peel_dims.simps(2) [of t])
  qed
qed simp

text \<open>An array of known size is printed from its element type, which is smaller.\<close>

lemma peel_dims_smaller:
  assumes "peel_dims (Some t) = Some (ds, b)" "ty_kind t = TYPE_ARRAY" "sint (ty_array_size t) > 0"
  shows "size b < size t"
proof -
  obtain ds' where "peel_dims (ty_inner t) = Some (ds', b)"
    using assms by (auto simp: peel_dims.simps(2) [of t])
  then show ?thesis using peel_dims_size size_option_inner [of t] by fastforce
qed

section \<open>\<open>type_to_string\<close>\<close>

text \<open>The kinds whose spelling is fixed, in the two languages.\<close>

fun fixed_name :: "TypeKind \<Rightarrow> string option" where
  "fixed_name TYPE_VOID = Some ''void''"
| "fixed_name TYPE_BOOL = Some ''bool''"
| "fixed_name TYPE_STRING = Some ''string''"
| "fixed_name TYPE_CHAR = Some ''char''"
| "fixed_name TYPE_I8 = Some ''int8_t''"
| "fixed_name TYPE_U8 = Some ''uint8_t''"
| "fixed_name TYPE_I16 = Some ''int16_t''"
| "fixed_name TYPE_U16 = Some ''uint16_t''"
| "fixed_name TYPE_I32 = Some ''int32_t''"
| "fixed_name TYPE_U32 = Some ''uint32_t''"
| "fixed_name TYPE_I64 = Some ''int64_t''"
| "fixed_name TYPE_U64 = Some ''uint64_t''"
| "fixed_name TYPE_F32 = Some ''float''"
| "fixed_name TYPE_F64 = Some ''double''"
| "fixed_name TYPE_USIZE = Some ''size_t''"
| "fixed_name TYPE_ISIZE = Some ''ptrdiff_t''"
| "fixed_name TYPE_BYTE = Some ''uint8_t''"
| "fixed_name TYPE_I128 = Some ''__int128''"
| "fixed_name TYPE_U128 = Some ''unsigned __int128''"
| "fixed_name TYPE_RUNE = Some ''int32_t''"
| "fixed_name TYPE_UINT = Some ''unsigned int''"
| "fixed_name TYPE_C_INT = Some ''c_int''"
| "fixed_name TYPE_C_UINT = Some ''c_uint''"
| "fixed_name TYPE_C_LONG = Some ''c_long''"
| "fixed_name TYPE_C_ULONG = Some ''c_ulong''"
| "fixed_name TYPE_C_LONGLONG = Some ''c_longlong''"
| "fixed_name TYPE_C_ULONGLONG = Some ''c_ulonglong''"
| "fixed_name TYPE_C_SHORT = Some ''c_short''"
| "fixed_name TYPE_C_USHORT = Some ''c_ushort''"
| "fixed_name TYPE_C_CHAR = Some ''c_char''"
| "fixed_name TYPE_C_UCHAR = Some ''c_uchar''"
| "fixed_name TYPE_INT = Some ''int''"
| "fixed_name TYPE_FLOAT = Some ''float''"
| "fixed_name _ = None"

text \<open>\<open>fn(Args) -> Ret\<close> and \<open>fn*(Args) -> Ret\<close>.\<close>

definition fn_string :: "bool \<Rightarrow> bool \<Rightarrow> string \<Rightarrow> string list \<Rightarrow> str_fault + string" where
  "fn_string is_raw is_varargs ret args =
     bindE (append_args (snprintf_into (length ret + 64) (if is_raw then ''fn*('' else ''fn('')) 0 args)
       (\<lambda>res. bindE (if is_raw \<and> is_varargs then sprintf_into (length res + 6) (res @ '', ...'') else Inr res)
         (\<lambda>res. sprintf_into (length res + length ret + 6) (res @ '') -> '' @ ret)))"

text \<open>The mangled name of a generic instance: \<open>base__Arg1__Arg2\<close>.\<close>

fun append_generic_args :: "string \<Rightarrow> string list \<Rightarrow> str_fault + string" where
  "append_generic_args res [] = Inr res"
| "append_generic_args res (arg # args) =
     bindE (sanitize_mangled_name arg) (\<lambda>clean.
       bindE (sprintf_into (length res + length clean + 3) (res @ ''__'' @ clean))
         (\<lambda>res'. append_generic_args res' args))"

text \<open>\<open>type_to_string\<close> of a node calls the printer on the same node; the latter recurses into
  smaller types only.\<close>

lemma size_option_inner_twice: "2 * size_option size (ty_inner t) < Suc (2 * size t)"
  using size_option_inner [of t] by simp

function type_to_string :: "ty option \<Rightarrow> str_fault + string"
  and type_to_string_impl :: "ty \<Rightarrow> str_fault + string" where
  "type_to_string None = Inr ''void''"
| "type_to_string (Some t) = bindE (type_to_string_impl t) (add_const (ty_is_const t))"
| "type_to_string_impl t =
     (case fixed_name (ty_kind t) of Some n \<Rightarrow> Inr n | None \<Rightarrow>
      if ty_kind t = TYPE_BITINT then sprintf_into 32 (''i'' @ show_i32 (ty_array_size t))
      else if ty_kind t = TYPE_UBITINT then sprintf_into 32 (''u'' @ show_i32 (ty_array_size t))
      else if ty_kind t = TYPE_VECTOR then
        (case ty_name t of
           Some n \<Rightarrow> Inr n
         | None \<Rightarrow> bindE (type_to_string (ty_inner t)) (\<lambda>inner.
             sprintf_into (length inner + 20) (inner @ ''x'' @ show_i32 (ty_array_size t))))
      else if ty_kind t = TYPE_POINTER then
        bindE (type_to_string (ty_inner t)) (\<lambda>inner.
          if ty_flag t then sprintf_into (length inner + 16) (inner @ ''* __restrict'')
          else sprintf_into (length inner + 2) (inner @ ''*''))
      else if ty_kind t = TYPE_ARRAY then
        (if ty_array_size t = 0 then
           bindE (type_to_string (ty_inner t)) (\<lambda>inner.
             sprintf_into (length inner + 8) (''Slice__'' @ inner))
         else if sint (ty_array_size t) > 0 then
           (case peel_dims (Some t) of
              None \<Rightarrow> Inl Null_pointer
            | Some (ds, base) \<Rightarrow> bindE (type_to_string (Some base)) (with_dims ds))
         else Inl Endless_recursion)
      else if ty_kind t = TYPE_FUNCTION then
        bindE (type_to_string (ty_inner t)) (\<lambda>ret.
          bindE (bind_all (map type_to_string (ty_args t)))
            (fn_string (ty_is_raw t) (ty_flag t) ret))
      else if ty_kind t = TYPE_STRUCT \<or> ty_kind t = TYPE_GENERIC then
        (case ty_name t of
           None \<Rightarrow> Inl Null_pointer
         | Some n \<Rightarrow>
             if ty_args t \<noteq> [] \<and> strstr n ''__'' = None then
               bindE (bind_all (map type_to_string (ty_args t))) (append_generic_args n)
             else Inr n)
      else if ty_kind t = TYPE_ALIAS then xstrdup (ty_name t)
      else if ty_kind t = TYPE_ENUM then
        xstrdup (case ty_link_name t of Some l \<Rightarrow> Some l | None \<Rightarrow> ty_name t)
      else Inr ''unknown'')"
  by pat_completeness auto


termination
  by (relation "measure (\<lambda>x. case x of Inl p \<Rightarrow> 2 * size_option size p | Inr t \<Rightarrow> 2 * size t + 1)")
    (auto simp: size_option_inner_twice dest: size_option_arg peel_dims_smaller)

declare type_to_string_impl.simps [simp del]

section \<open>\<open>type_to_c_string\<close>\<close>

fun fixed_c_name :: "bool \<Rightarrow> TypeKind \<Rightarrow> string option" where
  "fixed_c_name m TYPE_VOID = Some ''void''"
| "fixed_c_name m TYPE_BOOL = Some ''bool''"
| "fixed_c_name m TYPE_STRING = Some ''string''"
| "fixed_c_name m TYPE_CHAR = Some ''char''"
| "fixed_c_name m TYPE_I8 = Some ''int8_t''"
| "fixed_c_name m TYPE_U8 = Some ''uint8_t''"
| "fixed_c_name m TYPE_I16 = Some ''int16_t''"
| "fixed_c_name m TYPE_U16 = Some ''uint16_t''"
| "fixed_c_name m TYPE_I32 = Some ''int32_t''"
| "fixed_c_name m TYPE_U32 = Some ''uint32_t''"
| "fixed_c_name m TYPE_I64 = Some ''int64_t''"
| "fixed_c_name m TYPE_U64 = Some ''uint64_t''"
| "fixed_c_name m TYPE_F32 = Some ''float''"
| "fixed_c_name m TYPE_F64 = Some ''double''"
| "fixed_c_name m TYPE_USIZE = Some ''size_t''"
| "fixed_c_name m TYPE_ISIZE = Some ''ptrdiff_t''"
| "fixed_c_name m TYPE_BYTE = Some ''uint8_t''"
| "fixed_c_name m TYPE_I128 = Some ''__int128''"
| "fixed_c_name m TYPE_U128 = Some ''unsigned __int128''"
| "fixed_c_name m TYPE_RUNE = Some ''int32_t''"
| "fixed_c_name m TYPE_UINT = Some ''unsigned int''"
| "fixed_c_name m TYPE_C_INT = Some (if m then ''int32_t'' else ''int'')"
| "fixed_c_name m TYPE_C_UINT = Some (if m then ''uint32_t'' else ''unsigned int'')"
| "fixed_c_name m TYPE_C_LONG = Some (if m then ''int64_t'' else ''long'')"
| "fixed_c_name m TYPE_C_ULONG = Some (if m then ''uint64_t'' else ''unsigned long'')"
| "fixed_c_name m TYPE_C_LONGLONG = Some (if m then ''int64_t'' else ''long long'')"
| "fixed_c_name m TYPE_C_ULONGLONG = Some (if m then ''uint64_t'' else ''unsigned long long'')"
| "fixed_c_name m TYPE_C_SHORT = Some (if m then ''int16_t'' else ''short'')"
| "fixed_c_name m TYPE_C_USHORT = Some (if m then ''uint16_t'' else ''unsigned short'')"
| "fixed_c_name m TYPE_C_CHAR = Some (if m then ''int8_t'' else ''char'')"
| "fixed_c_name m TYPE_C_UCHAR = Some (if m then ''uint8_t'' else ''unsigned char'')"
| "fixed_c_name m TYPE_INT = Some ''int32_t''"
| "fixed_c_name m TYPE_FLOAT = Some ''float''"
| "fixed_c_name m TYPE_UNSAFE_ANY = Some ''any''"
| "fixed_c_name m _ = None"

definition struct_c_string :: "ty \<Rightarrow> str_fault + string" where
  "struct_c_string t =
     (case ty_link_name t of
        Some l \<Rightarrow> Inr l
      | None \<Rightarrow>
          (case ty_name t of
             None \<Rightarrow> Inl Null_pointer
           | Some n \<Rightarrow>
               if ty_is_explicit_struct t then sprintf_into (length n + 8) (''struct '' @ n)
               else Inr n))"

text \<open>A pointer to a function pointer: the star goes after \<open>"(*"\<close>.\<close>

definition pointer_c_string :: "bool \<Rightarrow> string \<Rightarrow> str_fault + string" where
  "pointer_c_string is_restrict inner =
     (case strstr inner ''(*'' of
        Some i \<Rightarrow>
          sprintf_into (length inner + 2) (take (i + 2) inner @ ''*'' @ drop (i + 2) inner)
      | None \<Rightarrow>
          if is_restrict then sprintf_into (length inner + 16) (inner @ ''* __restrict'')
          else sprintf_into (length inner + 2) (inner @ ''*''))"

definition raw_fn_c_string :: "bool \<Rightarrow> string \<Rightarrow> string list \<Rightarrow> str_fault + string" where
  "raw_fn_c_string is_varargs ret args =
     bindE (append_args (snprintf_into (length ret + 64) (ret @ '' (*)('')) 0 args)
       (\<lambda>res. bindE
          (if is_varargs then
             (if args \<noteq> [] then sprintf_into (length res + 6) (res @ '', ...'')
              else sprintf_into (length res + 4) (res @ ''...''))
           else Inr res)
          (\<lambda>res. sprintf_into (length res + 2) (res @ '')'')))"

function type_to_c_string :: "ty option \<Rightarrow> bool \<Rightarrow> str_fault + string"
  and type_to_c_string_impl :: "ty \<Rightarrow> bool \<Rightarrow> str_fault + string" where
  "type_to_c_string None m = Inr ''void''"
| "type_to_c_string (Some t) m = bindE (type_to_c_string_impl t m) (add_const (ty_is_const t))"
| "type_to_c_string_impl t m =
     (case fixed_c_name m (ty_kind t) of Some n \<Rightarrow> Inr n | None \<Rightarrow>
      if ty_kind t = TYPE_STRUCT then struct_c_string t
      else if ty_kind t = TYPE_BITINT then
        sprintf_into 32 (''_BitInt('' @ show_i32 (ty_array_size t) @ '')'')
      else if ty_kind t = TYPE_UBITINT then
        sprintf_into 40 (''unsigned _BitInt('' @ show_i32 (ty_array_size t) @ '')'')
      else if ty_kind t = TYPE_VECTOR then
        (case ty_name t of
           Some n \<Rightarrow> Inr n
         | None \<Rightarrow> bindE (type_to_c_string (ty_inner t) m) (\<lambda>inner.
             sprintf_into (length inner + 32)
               (''ZC_SIMD('' @ inner @ '', '' @ show_i32 (ty_array_size t) @ '')'')))
      else if ty_kind t = TYPE_POINTER then
        bindE (type_to_c_string (ty_inner t) m) (pointer_c_string (ty_flag t))
      else if ty_kind t = TYPE_ARRAY then
        (if ty_array_size t = 0 then
           bindE (type_to_string (ty_inner t)) (\<lambda>inner.
             sprintf_into (length inner + 8) (''Slice__'' @ inner))
         else if sint (ty_array_size t) > 0 then
           (case peel_dims (Some t) of
              None \<Rightarrow> Inl Null_pointer
            | Some (ds, base) \<Rightarrow> bindE (type_to_c_string (Some base) m) (with_dims ds))
         else Inl Endless_recursion)
      else if ty_kind t = TYPE_FUNCTION then
        (if ty_is_raw t then
           bindE (type_to_c_string (ty_inner t) m) (\<lambda>ret.
             bindE (bind_all (map (\<lambda>a. type_to_c_string a m) (ty_args t)))
               (raw_fn_c_string (ty_flag t) ret))
         else bindE (type_to_c_string (ty_inner t) m) (\<lambda>_. Inr ''z_closure_T''))
      else if ty_kind t = TYPE_GENERIC then type_to_string (Some t)
      else if ty_kind t = TYPE_ALIAS then
        (if ty_flag t then xstrdup (ty_name t) else type_to_c_string (ty_inner t) m)
      else if ty_kind t = TYPE_ENUM then
        xstrdup (case ty_link_name t of Some l \<Rightarrow> Some l | None \<Rightarrow> ty_name t)
      else Inr ''unknown'')"
  by pat_completeness auto

termination
  by (relation "measure (\<lambda>x. case x of Inl (p, m) \<Rightarrow> 2 * size_option size p | Inr (t, m) \<Rightarrow> 2 * size t + 1)")
    (auto simp: size_option_inner_twice dest: size_option_arg peel_dims_smaller)

declare type_to_c_string_impl.simps [simp del]

section \<open>The table of primitives\<close>

definition primitives :: "(string \<times> TypeKind \<times> string) list" where
  "primitives =
    [(''U0'', TYPE_VOID, ''void''), (''u0'', TYPE_VOID, ''void''),
     (''void'', TYPE_VOID, ''void''), (''bool'', TYPE_BOOL, ''bool''),
     (''char'', TYPE_CHAR, ''char''), (''I8'', TYPE_I8, ''int8_t''),
     (''i8'', TYPE_I8, ''int8_t''), (''int8'', TYPE_I8, ''int8_t''),
     (''U8'', TYPE_U8, ''uint8_t''), (''u8'', TYPE_U8, ''uint8_t''),
     (''uint8'', TYPE_U8, ''uint8_t''), (''byte'', TYPE_BYTE, ''uint8_t''),
     (''I16'', TYPE_I16, ''int16_t''), (''i16'', TYPE_I16, ''int16_t''),
     (''int16'', TYPE_I16, ''int16_t''), (''short'', TYPE_I16, ''int16_t''),
     (''U16'', TYPE_U16, ''uint16_t''), (''u16'', TYPE_U16, ''uint16_t''),
     (''uint16'', TYPE_U16, ''uint16_t''), (''ushort'', TYPE_U16, ''uint16_t''),
     (''I32'', TYPE_I32, ''int32_t''), (''i32'', TYPE_I32, ''int32_t''),
     (''int32'', TYPE_I32, ''int32_t''), (''int'', TYPE_I32, ''int32_t''),
     (''U32'', TYPE_U32, ''uint32_t''), (''u32'', TYPE_U32, ''uint32_t''),
     (''uint32'', TYPE_U32, ''uint32_t''), (''uint'', TYPE_U32, ''uint32_t''),
     (''rune'', TYPE_RUNE, ''int32_t''), (''I64'', TYPE_I64, ''int64_t''),
     (''i64'', TYPE_I64, ''int64_t''), (''int64'', TYPE_I64, ''int64_t''),
     (''long'', TYPE_I64, ''int64_t''), (''U64'', TYPE_U64, ''uint64_t''),
     (''u64'', TYPE_U64, ''uint64_t''), (''uint64'', TYPE_U64, ''uint64_t''),
     (''ulong'', TYPE_U64, ''uint64_t''), (''unsigned'', TYPE_U32, ''uint32_t''),
     (''signed'', TYPE_I32, ''int32_t''), (''I128'', TYPE_I128, ''__int128''),
     (''U128'', TYPE_U128, ''unsigned __int128''), (''F32'', TYPE_F32, ''float''),
     (''f32'', TYPE_F32, ''float''), (''float'', TYPE_F32, ''float''),
     (''F64'', TYPE_F64, ''double''), (''f64'', TYPE_F64, ''double''),
     (''double'', TYPE_F64, ''double''), (''f128'', TYPE_F64, ''__float128''),
     (''usize'', TYPE_USIZE, ''size_t''), (''isize'', TYPE_ISIZE, ''ptrdiff_t''),
     (''ssize_t'', TYPE_ISIZE, ''ssize_t''), (''c_int'', TYPE_C_INT, ''int''),
     (''c_uint'', TYPE_C_UINT, ''unsigned int''), (''c_long'', TYPE_C_LONG, ''long''),
     (''c_ulong'', TYPE_C_ULONG, ''unsigned long''),
     (''c_longlong'', TYPE_C_LONGLONG, ''long long''),
     (''c_ulonglong'', TYPE_C_ULONGLONG, ''unsigned long long''),
     (''c_short'', TYPE_C_SHORT, ''short''), (''c_ushort'', TYPE_C_USHORT, ''unsigned short''),
     (''c_char'', TYPE_C_CHAR, ''char''), (''c_uchar'', TYPE_C_UCHAR, ''unsigned char''),
     (''string'', TYPE_STRING, ''char*'')]"

definition find_primitive_by_name :: "string \<Rightarrow> (string \<times> TypeKind \<times> string) option" where
  "find_primitive_by_name name = find (\<lambda>(z, _, _). z = name) primitives"

definition find_primitive_by_c_name :: "string \<Rightarrow> (string \<times> TypeKind \<times> string) option" where
  "find_primitive_by_c_name c_name = find (\<lambda>(_, _, c). c = c_name) primitives"

definition get_primitive_c_name :: "string \<Rightarrow> string" where
  "get_primitive_c_name name =
     (case find_primitive_by_name name of Some (_, _, c) \<Rightarrow> c | None \<Rightarrow> name)"

definition find_primitive_kind :: "string \<Rightarrow> TypeKind" where
  "find_primitive_kind name =
     (case find_primitive_by_name name of
        Some (_, k, _) \<Rightarrow> k
      | None \<Rightarrow>
          (case find_primitive_by_c_name name of Some (_, k, _) \<Rightarrow> k | None \<Rightarrow> TYPE_UNKNOWN))"

section \<open>No printer writes beyond its block\<close>

definition no_overflow :: "str_fault + 'a \<Rightarrow> bool" where
  "no_overflow r \<longleftrightarrow> r \<noteq> Inl Buffer_overflow"

lemma no_overflow_simps [simp]:
  "no_overflow (Inr s)" "no_overflow (Inl Null_pointer)" "no_overflow (Inl Endless_recursion)"
  by (simp_all add: no_overflow_def)

lemma no_overflow_bindE:
  "no_overflow m \<Longrightarrow> (\<And>s. m = Inr s \<Longrightarrow> no_overflow (f s)) \<Longrightarrow> no_overflow (bindE m f)"
  by (cases m) (auto simp: no_overflow_def)

lemma show_i32_length: "length (show_i32 w) \<le> 11"
proof -
  have "- (2 ^ 31) \<le> sint w" "sint w < 2 ^ 31"
    using sint_ge [of w] sint_lt [of w] by simp_all
  then have "nat (sint w) < 10 ^ 10" "nat (- sint w) < 10 ^ 10" by simp_all
  then have "length (show_nat (nat (sint w))) \<le> 10" "length (show_nat (nat (- sint w))) \<le> 10"
    using length_show_nat by simp_all
  then show ?thesis by (simp add: show_int_def)
qed

lemma no_overflow_sprintf [simp]: "length s < cap \<Longrightarrow> no_overflow (sprintf_into cap s)"
  by simp

lemma no_overflow_xstrdup [simp]: "no_overflow (xstrdup p)"
  by (simp add: xstrdup_def split: option.split)

lemma no_overflow_bind_all: "(\<And>m. m \<in> set ms \<Longrightarrow> no_overflow m) \<Longrightarrow> no_overflow (bind_all ms)"
  by (induction ms) (auto simp: bind_all_def intro!: no_overflow_bindE)

lemma no_overflow_append_args [simp]: "no_overflow (append_args res i args)"
  by (induction res i args rule: append_args.induct) (auto simp: Let_def intro!: no_overflow_bindE)

lemma no_overflow_generic [simp]: "no_overflow (append_generic_args res args)"
  by (induction res args rule: append_generic_args.induct) (auto intro!: no_overflow_bindE)

lemma no_overflow_add_const [simp]: "no_overflow (add_const c res)"
  by (simp add: add_const_def)

lemma print_dims_length: "length (print_dims ds) \<le> 19 * length ds"
  by (induction ds) (auto simp: print_dims_def snprintf_into_def)

lemma no_overflow_with_dims [simp]: "no_overflow (with_dims ds inner)"
  using print_dims_length [of ds] by (simp add: with_dims_def)

lemma no_overflow_fn_string [simp]: "no_overflow (fn_string r v ret args)"
  by (auto simp: fn_string_def intro!: no_overflow_bindE)

lemma no_overflow_raw_fn [simp]: "no_overflow (raw_fn_c_string v ret args)"
  by (auto simp: raw_fn_c_string_def intro!: no_overflow_bindE)

lemma no_overflow_struct [simp]: "no_overflow (struct_c_string t)"
  by (simp add: struct_c_string_def split: option.split)

lemma strstr_bound: "strstr s pat = Some i \<Longrightarrow> i + length pat \<le> length s"
proof (induction s arbitrary: i)
  case (Cons c s)
  show ?case
  proof (cases "take (length pat) (c # s) = pat")
    case True
    then have "length pat \<le> length (c # s)" by (metis length_take min.cobounded1)
    with Cons True show ?thesis by (auto split: if_splits)
  next
    case False
    with Cons show ?thesis by auto
  qed
qed (auto split: if_splits)

lemma no_overflow_pointer [simp]: "no_overflow (pointer_c_string r inner)"
  using strstr_bound [of inner "''(*''"]
  by (auto simp: pointer_c_string_def split: option.split)

text \<open>The widest formats of an \<open>int\<close> fit the blocks of constant size.\<close>

lemma show_i32_fits [simp]: "11 < n \<Longrightarrow> length (show_i32 w) < n"
  using show_i32_length [of w] by simp

lemma no_overflow_if:
  "(b \<Longrightarrow> no_overflow x) \<Longrightarrow> (\<not> b \<Longrightarrow> no_overflow y) \<Longrightarrow> no_overflow (if b then x else y)"
  by simp

lemma no_overflow_case_option:
  "(o' = None \<Longrightarrow> no_overflow x) \<Longrightarrow> (\<And>a. o' = Some a \<Longrightarrow> no_overflow (f a)) \<Longrightarrow>
     no_overflow (case o' of None \<Rightarrow> x | Some a \<Rightarrow> f a)"
  by (cases o') auto

lemmas no_overflow_intros =
  no_overflow_if no_overflow_case_option no_overflow_bindE no_overflow_bind_all

lemma type_to_string_impl_step:
  assumes IH: "\<And>q. size_option size q \<le> size t \<Longrightarrow> no_overflow (type_to_string q)"
  shows "no_overflow (type_to_string_impl t)"
proof -
  have inner: "no_overflow (type_to_string (ty_inner t))"
    using IH size_option_inner [of t] by simp
  have arg: "no_overflow (type_to_string x)" if "x \<in> set (ty_args t)" for x
    using IH size_option_arg [OF that] by simp
  have base: "no_overflow (type_to_string (Some b))"
    if "peel_dims (Some t) = Some (ds, b)" "ty_kind t = TYPE_ARRAY" "sint (ty_array_size t) > 0" for ds b
    using IH [of "Some b"] peel_dims_smaller [OF that] by (simp del: type_to_string.simps)
  show ?thesis
    apply (subst type_to_string_impl.simps)
    apply (intro no_overflow_intros)
    apply (auto simp: inner arg simp del: type_to_string.simps dest: base intro: no_overflow_bindE)
    done
qed

lemma type_to_string_no_overflow: "no_overflow (type_to_string p)"
proof (induction "size_option size p" arbitrary: p rule: less_induct)
  case less
  show ?case
  proof (cases p)
    case (Some t)
    have "no_overflow (type_to_string_impl t)"
      by (rule type_to_string_impl_step) (use less Some in simp)
    with Some show ?thesis by (auto intro: no_overflow_bindE)
  qed simp
qed

lemma type_to_c_string_impl_step:
  assumes IH: "\<And>q. size_option size q \<le> size t \<Longrightarrow> no_overflow (type_to_c_string q m)"
  shows "no_overflow (type_to_c_string_impl t m)"
proof -
  have inner: "no_overflow (type_to_c_string (ty_inner t) m)"
    using IH size_option_inner [of t] by simp
  have arg: "no_overflow (type_to_c_string x m)" if "x \<in> set (ty_args t)" for x
    using IH size_option_arg [OF that] by simp
  have base: "no_overflow (type_to_c_string (Some b) m)"
    if "peel_dims (Some t) = Some (ds, b)" "ty_kind t = TYPE_ARRAY" "sint (ty_array_size t) > 0" for ds b
    using IH [of "Some b"] peel_dims_smaller [OF that] by (simp del: type_to_c_string.simps)
  show ?thesis
    apply (subst type_to_c_string_impl.simps)
    apply (intro no_overflow_intros)
    apply (auto simp: inner arg type_to_string_no_overflow
        simp del: type_to_string.simps type_to_c_string.simps dest: base intro: no_overflow_bindE)
    done
qed

lemma type_to_c_string_no_overflow: "no_overflow (type_to_c_string p m)"
proof (induction "size_option size p" arbitrary: p rule: less_induct)
  case less
  show ?case
  proof (cases p)
    case (Some t)
    have "no_overflow (type_to_c_string_impl t m)"
      by (rule type_to_c_string_impl_step) (use less Some in simp)
    with Some show ?thesis by (auto intro: no_overflow_bindE)
  qed simp
qed

text \<open>
  C36: the printers never write beyond a block they allocated: every \<open>sprintf\<close> and \<open>strcpy\<close> of
  \<open>type_to_string\<close> and \<open>type_to_c_string\<close> fits, for any type and any array size.
\<close>

theorem printers_never_overflow:
  "type_to_string p \<noteq> Inl Buffer_overflow \<and> type_to_c_string p m \<noteq> Inl Buffer_overflow"
  using type_to_string_no_overflow [of p] type_to_c_string_no_overflow [of p m] by (simp add: no_overflow_def)

text \<open>The entries that the printer spells as the table does.\<close>

definition spelled_alike :: "string \<times> TypeKind \<times> string \<Rightarrow> bool" where
  "spelled_alike e =
     (case e of (z, k, c) \<Rightarrow>
        find_primitive_kind z = k \<and> get_primitive_c_name z = c \<and> fixed_c_name False k = Some c)"

lemma primitives_spelled:
  "filter (\<lambda>e. \<not> spelled_alike e) primitives
     = [(''f128'', TYPE_F64, ''__float128''), (''ssize_t'', TYPE_ISIZE, ''ssize_t''),
        (''string'', TYPE_STRING, ''char*'')]"
  by code_simp

text \<open>
  The table of primitives and the printer agree: but for \<open>f128\<close>, \<open>ssize_t\<close> and \<open>string\<close>, looking
  up a primitive by its name gives the kind and the C name of its entry, and \<open>type_to_c_string\<close>
  spells a type of that kind with that C name.
\<close>

theorem primitives_agree:
  assumes "(z, k, c) \<in> set primitives" and "z \<noteq> ''f128''" "z \<noteq> ''ssize_t''" "z \<noteq> ''string''"
  shows "find_primitive_kind z = k \<and> get_primitive_c_name z = c
    \<and> type_to_c_string (Some (type_new a k)) False = Inr c"
proof -
  have "(z, k, c) \<notin> set (filter (\<lambda>e. \<not> spelled_alike e) primitives)"
    using assms(2-4) by (simp add: primitives_spelled)
  with assms(1) have "spelled_alike (z, k, c)" by simp
  then show ?thesis
    by (simp add: spelled_alike_def type_new_def type_to_c_string_impl.simps add_const_def)
qed

theorem primitives_agree_witness:
  "type_to_c_string (Some (type_new 7 TYPE_RUNE)) False = Inr ''int32_t''"
  using primitives_agree [of "''rune''" TYPE_RUNE "''int32_t''" 7] by (simp add: primitives_def)

text \<open>A const generic instance is printed with the qualifier twice: \<open>type_to_string\<close> has put it
  there already.\<close>

lemma const_generic_twice:
  "type_to_c_string (Some (Ty a TYPE_GENERIC (Some ''T'') None None [] True False False 0 False False)) m
     = Inr ''const const T''"
  by (simp add: type_to_c_string_impl.simps type_to_string_impl.simps add_const_def)

end
