(* ===== verification/ZcAst.thy ===== *)
theory ZcAst
  imports ZcTypeStr ZcLexer
begin

text \<open>
  The syntax tree of \<open>src/src/ast/ast.h\<close> and the child slots of \<open>ast_children\<close>
  (\<open>src/src/ast/ast.c\<close>). A child field holds the head of a list linked by \<open>next\<close>, or NULL: here it is
  the list of the nodes of that chain, \<open>[]\<close> for NULL. The kinds that an analysis modelled here looks
  into have a constructor with the fields it reads; the others are \<open>Other\<close>, with their kind and
  their child fields in order.
\<close>

datatype NodeType =
    NODE_ROOT | NODE_FUNCTION | NODE_BLOCK | NODE_RETURN | NODE_VAR_DECL | NODE_CONST |
    NODE_TYPE_ALIAS | NODE_IF | NODE_WHILE | NODE_FOR | NODE_FOR_RANGE | NODE_LOOP | NODE_BREAK |
    NODE_CONTINUE | NODE_MATCH | NODE_MATCH_CASE | NODE_EXPR_BINARY | NODE_EXPR_UNARY |
    NODE_EXPR_LITERAL | NODE_EXPR_VAR | NODE_EXPR_CALL | NODE_EXPR_MEMBER | NODE_EXPR_INDEX |
    NODE_EXPR_CAST | NODE_EXPR_SIZEOF | NODE_EXPR_STRUCT_INIT | NODE_FIELD_INIT |
    NODE_EXPR_ARRAY_LITERAL | NODE_EXPR_TUPLE_LITERAL | NODE_EXPR_SLICE | NODE_STRUCT |
    NODE_FIELD | NODE_ENUM | NODE_ENUM_VARIANT | NODE_TRAIT | NODE_IMPL | NODE_IMPL_TRAIT |
    NODE_INCLUDE | NODE_LINK | NODE_RAW_STMT | NODE_TEST | NODE_ASSERT | NODE_EXPECT |
    NODE_DEFER | NODE_DESTRUCT_VAR | NODE_TERNARY | NODE_ASM | NODE_LAMBDA | NODE_PLUGIN |
    NODE_GOTO | NODE_LABEL | NODE_TYPEOF | NODE_TRY | NODE_REFLECTION | NODE_REPL_PRINT |
    NODE_CUDA_LAUNCH | NODE_VA_START | NODE_VA_END | NODE_VA_COPY | NODE_VA_ARG |
    NODE_PREPROC_DIRECTIVE | NODE_IMPORT | NODE_COMPTIME | NODE_AST_COMMENT | NODE_ERRONEOUS

text \<open>The number of a kind, as \<open>%d\<close> prints it.\<close>

definition node_types :: "NodeType list" where
  "node_types =
   [NODE_ROOT, NODE_FUNCTION, NODE_BLOCK, NODE_RETURN, NODE_VAR_DECL, NODE_CONST,
    NODE_TYPE_ALIAS, NODE_IF, NODE_WHILE, NODE_FOR, NODE_FOR_RANGE, NODE_LOOP, NODE_BREAK,
    NODE_CONTINUE, NODE_MATCH, NODE_MATCH_CASE, NODE_EXPR_BINARY, NODE_EXPR_UNARY,
    NODE_EXPR_LITERAL, NODE_EXPR_VAR, NODE_EXPR_CALL, NODE_EXPR_MEMBER, NODE_EXPR_INDEX,
    NODE_EXPR_CAST, NODE_EXPR_SIZEOF, NODE_EXPR_STRUCT_INIT, NODE_FIELD_INIT,
    NODE_EXPR_ARRAY_LITERAL, NODE_EXPR_TUPLE_LITERAL, NODE_EXPR_SLICE, NODE_STRUCT, NODE_FIELD,
    NODE_ENUM, NODE_ENUM_VARIANT, NODE_TRAIT, NODE_IMPL, NODE_IMPL_TRAIT, NODE_INCLUDE,
    NODE_LINK, NODE_RAW_STMT, NODE_TEST, NODE_ASSERT, NODE_EXPECT, NODE_DEFER, NODE_DESTRUCT_VAR,
    NODE_TERNARY, NODE_ASM, NODE_LAMBDA, NODE_PLUGIN, NODE_GOTO, NODE_LABEL, NODE_TYPEOF,
    NODE_TRY, NODE_REFLECTION, NODE_REPL_PRINT, NODE_CUDA_LAUNCH, NODE_VA_START, NODE_VA_END,
    NODE_VA_COPY, NODE_VA_ARG, NODE_PREPROC_DIRECTIVE, NODE_IMPORT, NODE_COMPTIME,
    NODE_AST_COMMENT, NODE_ERRONEOUS]"

definition node_type_code :: "NodeType \<Rightarrow> nat" where
  "node_type_code k = length (takeWhile (\<lambda>j. j \<noteq> k) node_types)"

datatype LiteralKind = LITERAL_INT | LITERAL_FLOAT | LITERAL_STRING | LITERAL_CHAR | LITERAL_RAW_STRING

text \<open>A \<open>double\<close>: \<open>m * 2 ^ e\<close>, or an infinity or NaN.\<close>

datatype dbl = Finite int int | Not_finite

text \<open>Token and type of a node, and the names in the arrays it has: the bindings of a match case, the
  variables of a destructuring, the symbols a raw statement uses, the captures of a lambda.\<close>

datatype meta = Meta (m_token: token) (m_type: "ty option") (m_names: "string list")

datatype node =
    Literal (nd_meta: meta) LiteralKind i64 dbl "string option"
  | VarRef (nd_meta: meta) "string option" "nat option"
  | Binary (nd_meta: meta) "string option" "node list" "node list"
  | Unary (nd_meta: meta) "string option" "node list"
  | Call (nd_meta: meta) "node list" "node list"
  | Member (nd_meta: meta) "node list" "string option"
  | Index (nd_meta: meta) "node list" "node list" "node list"
  | Slice (nd_meta: meta) "node list" "node list" "node list"
  | Cast (nd_meta: meta) "node list"
  | StructInit (nd_meta: meta) "node list"
  | FieldInit (nd_meta: meta) "string option" "node list"
  | ArrayLiteral (nd_meta: meta) "node list"
  | TupleLiteral (nd_meta: meta) "node list"
  | VarDecl (nd_meta: meta) "string option" "node list" "ty option"
  | Assert (nd_meta: meta) bool "node list" "string option"
  | Return (nd_meta: meta) "node list"
  | If (nd_meta: meta) "node list" "node list" "node list"
  | While (nd_meta: meta) "node list" "node list" "string option"
  | For (nd_meta: meta) "node list" "node list" "node list" "node list" "string option"
  | ForRange (nd_meta: meta) "string option" "node list" "node list" bool "node list" "string option"
  | Loop (nd_meta: meta) "node list" "string option"
  | Block (nd_meta: meta) "node list"
  | Match (nd_meta: meta) "node list" "node list"
  | MatchCase (nd_meta: meta) "node list" "node list" bool
  | Defer (nd_meta: meta) "node list"
  | Break (nd_meta: meta) "string option"
  | Continue (nd_meta: meta) "string option"
  | Destruct (nd_meta: meta) "node list" "node list"
  | Function (nd_meta: meta) string "string option list" bool "node list"
  | Other (nd_meta: meta) NodeType "node list list"

text \<open>The flag of \<open>Assert\<close> tells \<open>expect\<close> from \<open>assert\<close>, that of \<open>ForRange\<close> is \<open>is_inclusive\<close>, that of
  \<open>MatchCase\<close> \<open>is_default\<close>, that of \<open>Function\<close> \<open>is_comptime\<close>; the last field of \<open>VarRef\<close> is the address
  of the resolved symbol.\<close>

abbreviation nd_token :: "node \<Rightarrow> token" where "nd_token n \<equiv> m_token (nd_meta n)"
abbreviation nd_type :: "node \<Rightarrow> ty option" where "nd_type n \<equiv> m_type (nd_meta n)"

fun nd_kind :: "node \<Rightarrow> NodeType" where
  "nd_kind (Literal _ _ _ _ _) = NODE_EXPR_LITERAL"
| "nd_kind (VarRef _ _ _) = NODE_EXPR_VAR"
| "nd_kind (Binary _ _ _ _) = NODE_EXPR_BINARY"
| "nd_kind (Unary _ _ _) = NODE_EXPR_UNARY"
| "nd_kind (Call _ _ _) = NODE_EXPR_CALL"
| "nd_kind (Member _ _ _) = NODE_EXPR_MEMBER"
| "nd_kind (Index _ _ _ _) = NODE_EXPR_INDEX"
| "nd_kind (Slice _ _ _ _) = NODE_EXPR_SLICE"
| "nd_kind (Cast _ _) = NODE_EXPR_CAST"
| "nd_kind (StructInit _ _) = NODE_EXPR_STRUCT_INIT"
| "nd_kind (FieldInit _ _ _) = NODE_FIELD_INIT"
| "nd_kind (ArrayLiteral _ _) = NODE_EXPR_ARRAY_LITERAL"
| "nd_kind (TupleLiteral _ _) = NODE_EXPR_TUPLE_LITERAL"
| "nd_kind (VarDecl _ _ _ _) = NODE_VAR_DECL"
| "nd_kind (Assert _ expect _ _) = (if expect then NODE_EXPECT else NODE_ASSERT)"
| "nd_kind (Return _ _) = NODE_RETURN"
| "nd_kind (If _ _ _ _) = NODE_IF"
| "nd_kind (While _ _ _ _) = NODE_WHILE"
| "nd_kind (For _ _ _ _ _ _) = NODE_FOR"
| "nd_kind (ForRange _ _ _ _ _ _ _) = NODE_FOR_RANGE"
| "nd_kind (Loop _ _ _) = NODE_LOOP"
| "nd_kind (Block _ _) = NODE_BLOCK"
| "nd_kind (Match _ _ _) = NODE_MATCH"
| "nd_kind (MatchCase _ _ _ _) = NODE_MATCH_CASE"
| "nd_kind (Defer _ _) = NODE_DEFER"
| "nd_kind (Break _ _) = NODE_BREAK"
| "nd_kind (Continue _ _) = NODE_CONTINUE"
| "nd_kind (Destruct _ _ _) = NODE_DESTRUCT_VAR"
| "nd_kind (Function _ _ _ _ _) = NODE_FUNCTION"
| "nd_kind (Other _ k _) = k"

section \<open>Child slots\<close>

definition AST_MAX_CHILDREN :: nat where "AST_MAX_CHILDREN = 8"

text \<open>\<open>add_child\<close> writes the next element of an array of \<open>AST_MAX_CHILDREN\<close> slots; \<open>None\<close> is a write
  beyond it.\<close>

definition add_child :: "'s list \<Rightarrow> 's \<Rightarrow> 's list option" where
  "add_child slots slot =
     (if length slots < AST_MAX_CHILDREN then Some (slots @ [slot]) else None)"

fun add_children :: "'s list \<Rightarrow> 's list \<Rightarrow> 's list option" where
  "add_children slots [] = Some slots"
| "add_children slots (s # ss) =
     (case add_child slots s of None \<Rightarrow> None | Some slots' \<Rightarrow> add_children slots' ss)"

text \<open>The fields whose addresses the \<open>switch\<close> adds for a kind, in its order.\<close>

fun child_fields :: "NodeType \<Rightarrow> string list" where
  "child_fields NODE_ROOT = [''children'']"
| "child_fields NODE_FUNCTION = [''body'']"
| "child_fields NODE_BLOCK = [''statements'']"
| "child_fields NODE_RETURN = [''value'']"
| "child_fields NODE_VAR_DECL = [''init_expr'']"
| "child_fields NODE_CONST = [''init_expr'']"
| "child_fields NODE_IF = [''condition'', ''then_body'', ''else_body'']"
| "child_fields NODE_WHILE = [''condition'', ''body'']"
| "child_fields NODE_FOR = [''init'', ''condition'', ''step'', ''body'']"
| "child_fields NODE_FOR_RANGE = [''start'', ''end'', ''body'']"
| "child_fields NODE_LOOP = [''body'']"
| "child_fields NODE_MATCH = [''expr'', ''cases'']"
| "child_fields NODE_MATCH_CASE = [''guard'', ''body'']"
| "child_fields NODE_EXPR_BINARY = [''left'', ''right'']"
| "child_fields NODE_EXPR_UNARY = [''operand'']"
| "child_fields NODE_EXPR_CALL = [''callee'', ''args'']"
| "child_fields NODE_EXPR_MEMBER = [''target'']"
| "child_fields NODE_EXPR_INDEX = [''array'', ''index'', ''extra_indices'']"
| "child_fields NODE_EXPR_CAST = [''expr'']"
| "child_fields NODE_EXPR_SIZEOF = [''expr'']"
| "child_fields NODE_EXPR_STRUCT_INIT = [''fields'']"
| "child_fields NODE_FIELD_INIT = [''init_expr'']"
| "child_fields NODE_EXPR_ARRAY_LITERAL = [''elements'']"
| "child_fields NODE_EXPR_TUPLE_LITERAL = [''elements'']"
| "child_fields NODE_EXPR_SLICE = [''array'', ''start'', ''end'']"
| "child_fields NODE_STRUCT = [''fields'']"
| "child_fields NODE_ENUM = [''variants'']"
| "child_fields NODE_TRAIT = [''methods'']"
| "child_fields NODE_IMPL = [''methods'']"
| "child_fields NODE_IMPL_TRAIT = [''methods'']"
| "child_fields NODE_TEST = [''body'']"
| "child_fields NODE_ASSERT = [''condition'']"
| "child_fields NODE_EXPECT = [''condition'']"
| "child_fields NODE_DEFER = [''stmt'']"
| "child_fields NODE_DESTRUCT_VAR = [''init_expr'', ''else_block'']"
| "child_fields NODE_TERNARY = [''cond'', ''true_expr'', ''false_expr'']"
| "child_fields NODE_LAMBDA = [''body'']"
| "child_fields NODE_GOTO = [''goto_expr'']"
| "child_fields NODE_TYPEOF = [''expr'']"
| "child_fields NODE_TRY = [''expr'']"
| "child_fields NODE_REPL_PRINT = [''expr'']"
| "child_fields NODE_CUDA_LAUNCH = [''call'', ''grid'', ''block'', ''shared_mem'', ''stream'']"
| "child_fields NODE_VA_START = [''ap'', ''last_arg'']"
| "child_fields NODE_VA_END = [''ap'']"
| "child_fields NODE_VA_COPY = [''dest'', ''src'']"
| "child_fields NODE_VA_ARG = [''ap'']"
| "child_fields NODE_COMPTIME = [''body'', ''generated'']"
| "child_fields _ = []"

text \<open>What those fields of a node hold, in the same order.\<close>

fun child_chains :: "node \<Rightarrow> node list list" where
  "child_chains (Literal _ _ _ _ _) = []"
| "child_chains (VarRef _ _ _) = []"
| "child_chains (Binary _ _ left right) = [left, right]"
| "child_chains (Unary _ _ operand) = [operand]"
| "child_chains (Call _ callee args) = [callee, args]"
| "child_chains (Member _ target _) = [target]"
| "child_chains (Index _ array index extra) = [array, index, extra]"
| "child_chains (Slice _ array start end) = [array, start, end]"
| "child_chains (Cast _ expr) = [expr]"
| "child_chains (StructInit _ fs) = [fs]"
| "child_chains (FieldInit _ _ init) = [init]"
| "child_chains (ArrayLiteral _ elements) = [elements]"
| "child_chains (TupleLiteral _ elements) = [elements]"
| "child_chains (VarDecl _ _ init _) = [init]"
| "child_chains (Assert _ _ cond _) = [cond]"
| "child_chains (Return _ val) = [val]"
| "child_chains (If _ cond thn els) = [cond, thn, els]"
| "child_chains (While _ cond body _) = [cond, body]"
| "child_chains (For _ init cond step body _) = [init, cond, step, body]"
| "child_chains (ForRange _ _ start end _ body _) = [start, end, body]"
| "child_chains (Loop _ body _) = [body]"
| "child_chains (Block _ stmts) = [stmts]"
| "child_chains (Match _ expr cases) = [expr, cases]"
| "child_chains (MatchCase _ guard body _) = [guard, body]"
| "child_chains (Defer _ stmt) = [stmt]"
| "child_chains (Break _ _) = []"
| "child_chains (Continue _ _) = []"
| "child_chains (Destruct _ init els) = [init, els]"
| "child_chains (Function _ _ _ _ body) = [body]"
| "child_chains (Other _ k css) = take (length (child_fields k)) css"

definition ast_children :: "node option \<Rightarrow> (string \<times> node list) list option" where
  "ast_children p =
     (case p of None \<Rightarrow> Some [] | Some n \<Rightarrow> add_children [] (zip (child_fields (nd_kind n)) (child_chains n)))"

text \<open>A node of a kind without a constructor of its own holds one chain per child field.\<close>

fun other_wf :: "node \<Rightarrow> bool" where
  "other_wf (Other _ k css) = (length css = length (child_fields k))"
| "other_wf _ = True"

lemma add_children_fits:
  "length slots + length ss \<le> AST_MAX_CHILDREN \<Longrightarrow> add_children slots ss = Some (slots @ ss)"
  by (induction ss arbitrary: slots) (auto simp: add_child_def)

lemma child_fields_few: "length (child_fields k) \<le> 5"
  by (cases k) simp_all

lemma child_fields_distinct: "distinct (child_fields k)"
  by (cases k) simp_all

lemma child_chains_complete: "other_wf n \<Longrightarrow> length (child_chains n) = length (child_fields (nd_kind n))"
  by (cases n) simp_all

lemma size_list_member: "x \<in> set xs \<Longrightarrow> size (x :: node) < Suc (size_list size xs)"
  by (induction xs) auto

lemma size_chains_member:
  "xs \<in> set xss \<Longrightarrow> x \<in> set xs \<Longrightarrow> size (x :: node) < Suc (size_list (size_list size) xss)"
  using size_list_member by (induction xss) fastforce+

text \<open>Every child is a proper part of its node, so a walk over the children ends.\<close>

lemma child_smaller: "xs \<in> set (child_chains n) \<Longrightarrow> x \<in> set xs \<Longrightarrow> size x < size n"
proof (cases n)
  case (Other m k css)
  then show "xs \<in> set (child_chains n) \<Longrightarrow> x \<in> set xs \<Longrightarrow> size x < size n"
    by (auto dest!: in_set_takeD intro: size_chains_member)
qed (auto dest!: size_list_member)

text \<open>A property of every node of a tree.\<close>

function every_node :: "(node \<Rightarrow> bool) \<Rightarrow> node \<Rightarrow> bool" where
  "every_node p n = (p n \<and> (\<forall>chain \<in> set (child_chains n). \<forall>c \<in> set chain. every_node p c))"
  by pat_completeness auto
termination by (relation "measure (\<lambda>(p, n). size n)") (auto dest: child_smaller)

declare every_node.simps [simp del]

lemma every_node_here: "every_node p n \<Longrightarrow> p n"
  by (subst (asm) every_node.simps) simp

lemma every_node_child: "every_node p n \<Longrightarrow> chain \<in> set (child_chains n) \<Longrightarrow> c \<in> set chain \<Longrightarrow> every_node p c"
  by (subst (asm) every_node.simps) blast

lemma every_nodeI:
  "p n \<Longrightarrow> (\<And>chain c. chain \<in> set (child_chains n) \<Longrightarrow> c \<in> set chain \<Longrightarrow> every_node p c) \<Longrightarrow> every_node p n"
  by (subst every_node.simps) blast

text \<open>
  \<open>ast_children\<close> never writes beyond its array of slots; it lists every child field of the node
  exactly once, with the chain the field holds, and the children are smaller than the node, so a
  walk over them ends.
\<close>

theorem ast_children_complete:
  assumes "other_wf n"
  shows "\<exists>cs. ast_children (Some n) = Some cs \<and> map fst cs = child_fields (nd_kind n) \<and> distinct (map fst cs)
    \<and> map snd cs = child_chains n \<and> length cs < AST_MAX_CHILDREN
    \<and> (\<forall>(f, chain) \<in> set cs. \<forall>c \<in> set chain. size c < size n)"
proof -
  let ?cs = "zip (child_fields (nd_kind n)) (child_chains n)"
  have len: "length ?cs < AST_MAX_CHILDREN"
    using child_fields_few [of "nd_kind n"] by (simp add: AST_MAX_CHILDREN_def)
  then have "ast_children (Some n) = Some ?cs"
    using add_children_fits [of "[]" ?cs] by (simp add: ast_children_def)
  moreover have "\<forall>(f, chain) \<in> set ?cs. \<forall>c \<in> set chain. size c < size n"
    using child_smaller set_zip_rightD by fastforce
  ultimately show ?thesis
    using child_chains_complete [OF assms] child_fields_distinct len by auto
qed

theorem ast_children_complete_witness:
  "\<exists>cs. ast_children (Some (Other (Meta TOKEN_UNKNOWN None []) NODE_CUDA_LAUNCH [[], [], [], [], []])) = Some cs
     \<and> length cs < AST_MAX_CHILDREN"
  using ast_children_complete [of "Other (Meta TOKEN_UNKNOWN None []) NODE_CUDA_LAUNCH [[], [], [], [], []]"]
  by auto

end
