(* ===== verification/ZcSymbols.thy ===== *)
theory ZcSymbols
  imports ZcAst
begin

text \<open>
  The symbol table: scopes and their lookups (\<open>src/src/ast/symbols.c\<close>), entering and leaving a scope
  and the record kept for the language server (\<open>src/src/parser/utils/utils_scope.c\<close>), registration of
  variables, generics and enum variants (\<open>src/src/parser/utils/utils_symbol.c\<close>).

  A scope with its parents is the list of the scopes from the innermost one outwards; \<open>pc_global\<close> tells
  that \<open>global_scope\<close> is set, and then it is the outermost scope of \<open>current_scope\<close>. The warnings of
  \<open>audit_section_5\<close> are not modelled. Of the members of a symbol those are kept that an operation
  here reads or writes.
\<close>

section \<open>Symbols and scopes\<close>

datatype SymbolKind =
    SYM_VARIABLE | SYM_FUNCTION | SYM_STRUCT | SYM_ENUM | SYM_ALIAS | SYM_CONSTANT | SYM_MODULE
  | SYM_TRAIT | SYM_PRIMITIVE | SYM_LABEL

record symbol =
  sy_name :: string
  sy_kind :: SymbolKind
  sy_type_name :: "string option"
  sy_type :: "ty option"
  sy_decl_token :: token
  sy_is_used :: bool
  sy_is_const_value :: bool
  sy_const_int_val :: i64
  sy_is_moved :: bool
  sy_is_local :: bool
  sy_is_export :: bool

record scope =
  sc_name :: "string option"
  sc_symbols :: "symbol list"

definition symbol_scope_create :: "scope list \<Rightarrow> string option \<Rightarrow> scope list" where
  "symbol_scope_create parent name = \<lparr>sc_name = name, sc_symbols = []\<rparr> # parent"

definition new_symbol :: "string \<Rightarrow> SymbolKind \<Rightarrow> symbol" where
  "new_symbol name kind =
     \<lparr>sy_name = name, sy_kind = kind, sy_type_name = None, sy_type = None,
      sy_decl_token = TOKEN_UNKNOWN, sy_is_used = False, sy_is_const_value = False,
      sy_const_int_val = 0, sy_is_moved = False, sy_is_local = False, sy_is_export = False\<rparr>"

text \<open>A NULL scope is left alone. The new symbol is the head of the list; what the caller then writes
  through the returned pointer it writes into that head.\<close>

fun symbol_add :: "scope list \<Rightarrow> symbol \<Rightarrow> scope list" where
  "symbol_add [] y = []"
| "symbol_add (s # parents) y = s\<lparr>sc_symbols := y # sc_symbols s\<rparr> # parents"

definition symbol_lookup_local :: "scope list \<Rightarrow> string \<Rightarrow> symbol option" where
  "symbol_lookup_local s name =
     (case s of [] \<Rightarrow> None | c # _ \<Rightarrow> List.find (\<lambda>y. sy_name y = name) (sc_symbols c))"

fun symbol_lookup :: "scope list \<Rightarrow> string \<Rightarrow> symbol option" where
  "symbol_lookup [] name = None"
| "symbol_lookup (c # parents) name =
     (case symbol_lookup_local (c # parents) name of
        Some y \<Rightarrow> Some y
      | None \<Rightarrow> symbol_lookup parents name)"

fun symbol_lookup_kind :: "scope list \<Rightarrow> string \<Rightarrow> SymbolKind \<Rightarrow> symbol option" where
  "symbol_lookup_kind [] name kind = None"
| "symbol_lookup_kind (c # parents) name kind =
     (case List.find (\<lambda>y. sy_kind y = kind \<and> sy_name y = name) (sc_symbols c) of
        Some y \<Rightarrow> Some y
      | None \<Rightarrow> symbol_lookup_kind parents name kind)"

text \<open>A write through the pointer that \<open>symbol_lookup\<close> returns.\<close>

fun update_first :: "('a \<Rightarrow> bool) \<Rightarrow> ('a \<Rightarrow> 'a) \<Rightarrow> 'a list \<Rightarrow> 'a list" where
  "update_first p f [] = []"
| "update_first p f (x # xs) = (if p x then f x # xs else x # update_first p f xs)"

fun symbol_update :: "scope list \<Rightarrow> string \<Rightarrow> (symbol \<Rightarrow> symbol) \<Rightarrow> scope list" where
  "symbol_update [] name f = []"
| "symbol_update (c # parents) name f =
     (case symbol_lookup_local (c # parents) name of
        Some _ \<Rightarrow> c\<lparr>sc_symbols := update_first (\<lambda>y. sy_name y = name) f (sc_symbols c)\<rparr> # parents
      | None \<Rightarrow> c # symbol_update parents name f)"

section \<open>The parser's context\<close>

record enum_variant =
  ev_enum_name :: string
  ev_variant_name :: string
  ev_tag_id :: i32

record pctx =
  pc_scopes :: "scope list"
  pc_global :: bool
  pc_all_symbols :: "symbol list"
  pc_mode_lsp :: bool
  pc_misra_mode :: bool
  pc_enum_variants :: "enum_variant list"

definition enter_scope :: "pctx \<Rightarrow> pctx" where
  "enter_scope ctx = ctx\<lparr>pc_scopes := symbol_scope_create (pc_scopes ctx) None\<rparr>"

definition exit_scope :: "pctx \<Rightarrow> pctx" where
  "exit_scope ctx =
     (if pc_scopes ctx = [] \<or> (pc_global ctx \<and> length (pc_scopes ctx) = 1) then ctx
      else ctx\<lparr>pc_scopes := tl (pc_scopes ctx)\<rparr>)"

definition same_declaration :: "symbol \<Rightarrow> symbol \<Rightarrow> bool" where
  "same_declaration c s \<longleftrightarrow>
     sy_kind c = sy_kind s \<and> tk_line (sy_decl_token c) = tk_line (sy_decl_token s)
     \<and> tk_col (sy_decl_token c) = tk_col (sy_decl_token s) \<and> sy_name c = sy_name s"

definition register_symbol_to_lsp :: "pctx \<Rightarrow> symbol \<Rightarrow> pctx" where
  "register_symbol_to_lsp ctx s =
     (if \<exists>c \<in> set (pc_all_symbols ctx). same_declaration c s then ctx
      else ctx\<lparr>pc_all_symbols := s # pc_all_symbols ctx\<rparr>)"

definition ensure_scope :: "pctx \<Rightarrow> pctx" where
  "ensure_scope ctx =
     (if pc_scopes ctx = []
      then ctx\<lparr>pc_scopes := symbol_scope_create [] (Some ''Global''), pc_global := True\<rparr>
      else ctx)"

definition add_symbol_with_token ::
    "pctx \<Rightarrow> string \<Rightarrow> string option \<Rightarrow> ty option \<Rightarrow> token \<Rightarrow> bool \<Rightarrow> pctx" where
  "add_symbol_with_token ctx0 n t type_info tok is_export =
     (let ctx = ensure_scope ctx0;
          update = (\<lambda>y. y\<lparr>sy_type_name := t, sy_type := type_info, sy_decl_token := tok\<rparr>)
      in if (pc_mode_lsp ctx \<or> pc_misra_mode ctx) \<and> symbol_lookup_local (pc_scopes ctx) n \<noteq> None then
           ctx\<lparr>pc_scopes := symbol_update (pc_scopes ctx) n update\<rparr>
         else
           let s = (update (new_symbol n SYM_VARIABLE))
                     \<lparr>sy_is_local := \<not> (pc_global ctx \<and> length (pc_scopes ctx) = 1),
                      sy_is_export := is_export\<rparr>
           in register_symbol_to_lsp (ctx\<lparr>pc_scopes := symbol_add (pc_scopes ctx) s\<rparr>) s)"

definition add_symbol :: "pctx \<Rightarrow> string \<Rightarrow> string option \<Rightarrow> ty option \<Rightarrow> bool \<Rightarrow> pctx" where
  "add_symbol ctx n t type_info is_export =
     add_symbol_with_token ctx n t type_info TOKEN_UNKNOWN is_export"

definition find_symbol_entry :: "pctx \<Rightarrow> string \<Rightarrow> symbol option" where
  "find_symbol_entry ctx n = symbol_lookup (pc_scopes ctx) n"

definition find_symbol_in_all :: "pctx \<Rightarrow> string \<Rightarrow> symbol option" where
  "find_symbol_in_all ctx n = List.find (\<lambda>y. sy_name y = n) (pc_all_symbols ctx)"

section \<open>Enum variants\<close>

definition find_enum_variant_of :: "pctx \<Rightarrow> string \<Rightarrow> string \<Rightarrow> enum_variant option" where
  "find_enum_variant_of ctx enum_name variant_name =
     List.find (\<lambda>r. ev_variant_name r = variant_name \<and> ev_enum_name r = enum_name) (pc_enum_variants ctx)"

definition register_enum_variant :: "pctx \<Rightarrow> string \<Rightarrow> string \<Rightarrow> i32 \<Rightarrow> pctx" where
  "register_enum_variant ctx vname ename tag =
     (if pc_mode_lsp ctx \<and> find_enum_variant_of ctx ename vname \<noteq> None then
        ctx\<lparr>pc_enum_variants :=
          update_first (\<lambda>r. ev_variant_name r = vname \<and> ev_enum_name r = ename)
            (\<lambda>r. r\<lparr>ev_tag_id := tag\<rparr>) (pc_enum_variants ctx)\<rparr>
      else
        ctx\<lparr>pc_enum_variants :=
          \<lparr>ev_enum_name = ename, ev_variant_name = vname, ev_tag_id = tag\<rparr> # pc_enum_variants ctx\<rparr>)"

text \<open>The enum part of a name, split at the first \<open>"::"\<close> or else at the first \<open>"__"\<close>.\<close>

definition split_variant :: "string \<Rightarrow> string option \<times> string" where
  "split_variant name =
     (case (case strstr name ''::'' of Some i \<Rightarrow> Some i | None \<Rightarrow> strstr name ''__'') of
        Some i \<Rightarrow> (Some (take i name), drop (i + 2) name)
      | None \<Rightarrow> (None, name))"

definition find_enum_variant :: "pctx \<Rightarrow> string \<Rightarrow> enum_variant option" where
  "find_enum_variant ctx name =
     (case split_variant name of (ename, vname) \<Rightarrow>
        List.find
          (\<lambda>r. ev_variant_name r = vname \<and> (case ename of None \<Rightarrow> True | Some e \<Rightarrow> ev_enum_name r = e))
          (pc_enum_variants ctx))"

section \<open>Known generics\<close>

text \<open>\<open>known_generics\<close> is an array of \<open>MAX_KNOWN_GENERICS\<close> pointers with an \<open>int\<close> count. A write
  outside of the array is \<open>None\<close>. \<open>strcmp\<close> reads the elements below the count only.\<close>

definition MAX_KNOWN_GENERICS :: nat where "MAX_KNOWN_GENERICS = 1024"

record generics =
  kg_slots :: "string list"
  kg_count :: int

definition is_known_generic :: "generics \<Rightarrow> string \<Rightarrow> bool" where
  "is_known_generic g name \<longleftrightarrow> name \<in> set (take (nat (kg_count g)) (kg_slots g))"

definition register_generic :: "generics \<Rightarrow> string \<Rightarrow> generics option" where
  "register_generic g name =
     (if is_known_generic g name then Some g
      else if 0 \<le> kg_count g \<and> kg_count g < int (length (kg_slots g))
      then Some (g\<lparr>kg_slots := (kg_slots g)[nat (kg_count g) := name], kg_count := kg_count g + 1\<rparr>)
      else None)"

fun register_generics :: "generics \<Rightarrow> string list \<Rightarrow> generics option" where
  "register_generics g [] = Some g"
| "register_generics g (n # ns) =
     (case register_generic g n of None \<Rightarrow> None | Some g' \<Rightarrow> register_generics g' ns)"

text \<open>\<open>ctx->known_generics_count -= n\<close>, as the parsers of \<open>struct\<close>, \<open>trait\<close> and \<open>impl\<close> do at the end
  for the \<open>n\<close> parameters they registered.\<close>

definition drop_generics :: "generics \<Rightarrow> nat \<Rightarrow> generics" where
  "drop_generics g n = g\<lparr>kg_count := kg_count g - int n\<rparr>"

section \<open>Lookup laws\<close>

lemma find_update_first:
  "(\<And>x. p (f x) = p x) \<Longrightarrow> List.find p (update_first p f xs) = map_option f (List.find p xs)"
  by (induction xs) auto

lemma find_update_first_other:
  "(\<And>x. p x \<Longrightarrow> \<not> q x) \<Longrightarrow> (\<And>x. p x \<Longrightarrow> \<not> q (f x)) \<Longrightarrow> List.find q (update_first p f xs) = List.find q xs"
  by (induction xs) auto

lemma lookup_local_add [simp]:
  "s \<noteq> [] \<Longrightarrow> symbol_lookup_local (symbol_add s y) name =
     (if sy_name y = name then Some y else symbol_lookup_local s name)"
  by (cases s) (auto simp: symbol_lookup_local_def)

lemma lookup_add [simp]:
  "s \<noteq> [] \<Longrightarrow> symbol_lookup (symbol_add s y) name =
     (if sy_name y = name then Some y else symbol_lookup s name)"
  by (cases s) (auto simp: symbol_lookup_local_def)

lemma lookup_name: "symbol_lookup s name = Some y \<Longrightarrow> sy_name y = name"
  by (induction s) (auto simp: symbol_lookup_local_def find_Some_iff split: option.splits)

lemma lookup_update:
  assumes "\<And>y. sy_name (f y) = sy_name y"
  shows "symbol_lookup (symbol_update s name f) m =
     (if m = name then map_option f (symbol_lookup s m) else symbol_lookup s m)"
proof (induction s)
  case (Cons c s)
  have "List.find (\<lambda>y. sy_name y = name) (update_first (\<lambda>y. sy_name y = name) f (sc_symbols c))
      = map_option f (List.find (\<lambda>y. sy_name y = name) (sc_symbols c))"
    by (rule find_update_first) (simp add: assms)
  moreover have "List.find (\<lambda>y. sy_name y = m) (update_first (\<lambda>y. sy_name y = name) f (sc_symbols c))
      = List.find (\<lambda>y. sy_name y = m) (sc_symbols c)" if "m \<noteq> name"
    by (rule find_update_first_other) (use assms that in auto)
  ultimately show ?case
    using Cons by (auto simp: symbol_lookup_local_def split: option.splits)
qed simp

lemma add_length [simp]: "length (symbol_add s y) = length s"
  by (cases s) auto

lemma update_length [simp]: "length (symbol_update s n f) = length s"
  by (induction s) (auto split: option.splits)

lemma add_tl [simp]: "tl (symbol_add s y) = tl s"
  by (cases s) auto

lemma update_local_tl: "symbol_lookup_local s n \<noteq> None \<Longrightarrow> tl (symbol_update s n f) = tl s"
  by (cases s) (auto simp: symbol_lookup_local_def)

text \<open>The innermost scope as an environment that binds names to kinds.\<close>

interpretation scope_env: name_env
  "\<lambda>c n. map_option sy_kind (symbol_lookup_local [c] n)"
  "\<lambda>c n k. hd (symbol_add [c] (new_symbol n k))"
  by unfold_locales (simp_all add: symbol_lookup_local_def new_symbol_def)

text \<open>
  A block's declarations shadow: after a run of \<open>symbol_add\<close>s of kinds to names in a scope, the
  lookup of a name in that scope finds the kind it was added with last, and a name that was not
  added is looked up as before.
\<close>

theorem scope_last_binding_wins:
  "map_option sy_kind
     (symbol_lookup_local [foldl (\<lambda>c (n, k). hd (symbol_add [c] (new_symbol n k))) c bs] m)
   = (case map_of (rev bs) m of
        Some k \<Rightarrow> Some k
      | None \<Rightarrow> map_option sy_kind (symbol_lookup_local [c] m))"
  by (rule scope_env.find_bind_all)

section \<open>The table through the context\<close>

definition scopes_ok :: "pctx \<Rightarrow> bool" where
  "scopes_ok ctx \<longleftrightarrow> (pc_global ctx \<longrightarrow> pc_scopes ctx \<noteq> [])"

lemma ensure_scope_facts [simp]:
  "pc_scopes (ensure_scope ctx) \<noteq> []"
  "symbol_lookup (pc_scopes (ensure_scope ctx)) m = symbol_lookup (pc_scopes ctx) m"
  "pc_enum_variants (ensure_scope ctx) = pc_enum_variants ctx"
  "pc_scopes ctx \<noteq> [] \<Longrightarrow> ensure_scope ctx = ctx"
  by (auto simp: ensure_scope_def symbol_scope_create_def symbol_lookup_local_def)

lemma register_lsp_scopes [simp]:
  "pc_scopes (register_symbol_to_lsp ctx s) = pc_scopes ctx"
  "pc_global (register_symbol_to_lsp ctx s) = pc_global ctx"
  by (simp_all add: register_symbol_to_lsp_def)

lemma new_symbol_name [simp]: "sy_name (new_symbol n k) = n" "sy_type (new_symbol n k) = None"
  by (simp_all add: new_symbol_def)

text \<open>
  A variable that was added is found: after \<open>add_symbol_with_token\<close>, in every mode, looking up its
  name gives a symbol with the type, type name and token it was added with, and looking up any
  other name gives what it gave before.
\<close>

theorem add_symbol_found:
  "map_option (\<lambda>y. (sy_type_name y, sy_type y, sy_decl_token y))
     (find_symbol_entry (add_symbol_with_token ctx n t ti tok ex) m)
   = (if m = n then Some (t, ti, tok)
      else map_option (\<lambda>y. (sy_type_name y, sy_type y, sy_decl_token y)) (find_symbol_entry ctx m))"
proof -
  let ?c = "ensure_scope ctx"
  have "symbol_lookup_local (pc_scopes ?c) n = Some y \<Longrightarrow> symbol_lookup (pc_scopes ?c) n = Some y" for y
    by (cases "pc_scopes ?c") (auto simp: symbol_lookup_local_def)
  then show ?thesis
    by (auto simp: find_symbol_entry_def add_symbol_with_token_def Let_def lookup_update)
qed

text \<open>The effect of a block: declarations between \<open>enter_scope\<close> and \<open>exit_scope\<close>.\<close>

definition declare_all :: "pctx \<Rightarrow> (string \<times> string option \<times> ty option \<times> token \<times> bool) list \<Rightarrow> pctx" where
  "declare_all ctx ds = foldl (\<lambda>c (n, t, ti, tok, ex). add_symbol_with_token c n t ti tok ex) ctx ds"

lemma add_symbol_tl:
  "pc_scopes ctx \<noteq> [] \<Longrightarrow> tl (pc_scopes (add_symbol_with_token ctx n t ti tok ex)) = tl (pc_scopes ctx)
     \<and> pc_scopes (add_symbol_with_token ctx n t ti tok ex) \<noteq> []
     \<and> pc_global (add_symbol_with_token ctx n t ti tok ex) = pc_global ctx"
proof -
  assume a: "pc_scopes ctx \<noteq> []"
  have ne: "s \<noteq> [] \<Longrightarrow> symbol_update s n f \<noteq> []" "s \<noteq> [] \<Longrightarrow> symbol_add s y \<noteq> []" for s f y
    using update_length [of s n f] add_length [of s y] by fastforce+
  show ?thesis
    using a ne by (auto simp: add_symbol_with_token_def Let_def update_local_tl)
qed

lemma declare_all_tl:
  "pc_scopes ctx \<noteq> [] \<Longrightarrow> tl (pc_scopes (declare_all ctx ds)) = tl (pc_scopes ctx)
     \<and> pc_scopes (declare_all ctx ds) \<noteq> [] \<and> pc_global (declare_all ctx ds) = pc_global ctx"
proof (induction ds arbitrary: ctx)
  case (Cons d ds)
  obtain n t ti tok ex where d: "d = (n, t, ti, tok, ex)" by (cases d)
  note step = add_symbol_tl [OF Cons.prems, of n t ti tok ex]
  then show ?case
    using Cons.IH [of "add_symbol_with_token ctx n t ti tok ex"] d by (auto simp: declare_all_def)
qed (simp add: declare_all_def)

text \<open>
  C13: the scope of a block ends with it: whatever variables are declared between \<open>enter_scope\<close> and
  \<open>exit_scope\<close>, in every mode, the scopes afterwards are those before, so every lookup is as before.
\<close>

theorem block_scope_restored:
  assumes "scopes_ok ctx"
  shows "pc_scopes (exit_scope (declare_all (enter_scope ctx) ds)) = pc_scopes ctx"
proof -
  have "pc_scopes (enter_scope ctx) \<noteq> []" by (simp add: enter_scope_def symbol_scope_create_def)
  note d = declare_all_tl [OF this, of ds]
  have tl: "tl (pc_scopes (enter_scope ctx)) = pc_scopes ctx" "pc_global (enter_scope ctx) = pc_global ctx"
    by (simp_all add: enter_scope_def symbol_scope_create_def)
  show ?thesis
  proof (cases "pc_scopes (declare_all (enter_scope ctx) ds)")
    case Nil
    with d show ?thesis by simp
  next
    case (Cons s ss)
    with d tl assms show ?thesis by (auto simp: exit_scope_def scopes_ok_def)
  qed
qed

definition empty_pctx :: pctx where
  "empty_pctx = \<lparr>pc_scopes = [], pc_global = False, pc_all_symbols = [], pc_mode_lsp = False,
     pc_misra_mode = True, pc_enum_variants = []\<rparr>"

theorem block_scope_restored_witness:
  "pc_scopes (exit_scope (declare_all (enter_scope (add_symbol empty_pctx ''x'' None None False))
       [(''x'', None, None, TOKEN_UNKNOWN, False), (''x'', Some ''T'', None, TOKEN_UNKNOWN, True)]))
   = pc_scopes (add_symbol empty_pctx ''x'' None None False)"
  by (rule block_scope_restored)
    (simp add: scopes_ok_def empty_pctx_def add_symbol_def add_symbol_with_token_def Let_def
      ensure_scope_def symbol_scope_create_def symbol_lookup_local_def)

text \<open>The list for the language server holds a declaration once.\<close>

definition lsp_distinct :: "pctx \<Rightarrow> bool" where
  "lsp_distinct ctx \<longleftrightarrow>
     distinct (map (\<lambda>y. (sy_kind y, tk_line (sy_decl_token y), tk_col (sy_decl_token y), sy_name y))
       (pc_all_symbols ctx))"

text \<open>
  \<open>all_symbols\<close> never lists a declaration (kind, line, column and name) twice: registering a
  symbol keeps the list free of duplicates, and afterwards the symbol's declaration is in it.
\<close>

theorem lsp_registered_once:
  assumes "lsp_distinct ctx"
  shows "lsp_distinct (register_symbol_to_lsp ctx s)
    \<and> (\<exists>c \<in> set (pc_all_symbols (register_symbol_to_lsp ctx s)). same_declaration c s)"
  using assms
  by (auto simp: lsp_distinct_def register_symbol_to_lsp_def same_declaration_def image_iff)

theorem lsp_registered_once_witness:
  "lsp_distinct (register_symbol_to_lsp empty_pctx (new_symbol ''x'' SYM_ENUM))"
  using lsp_registered_once [of empty_pctx "new_symbol ''x'' SYM_ENUM"]
  by (simp add: lsp_distinct_def empty_pctx_def)

section \<open>Looking up enum variants\<close>

lemma strstr_first:
  assumes "strstr s pat = None" "pat = [c, c]" "s \<noteq> [] \<Longrightarrow> last s \<noteq> c"
  shows "strstr (s @ pat @ v) pat = Some (length s)"
  using assms
proof (induction s)
  case (Cons a s)
  then show ?case by (cases s) (auto split: if_splits)
qed simp

lemma split_variant_qualified:
  assumes "strstr e ''::'' = None" "e \<noteq> [] \<Longrightarrow> last e \<noteq> CHR '':''"
  shows "split_variant (e @ ''::'' @ v) = (Some e, v)"
proof -
  have "strstr (e @ ''::'' @ v) ''::'' = Some (length e)"
    by (rule strstr_first) (use assms in auto)
  then show ?thesis by (simp add: split_variant_def)
qed

text \<open>
  A registered enum variant is found by its qualified name: after \<open>register_enum_variant\<close>, in
  either mode, \<open>find_enum_variant\<close> of \<open>"Enum::Variant"\<close> gives an entry of that enum and variant with the
  tag registered last (for an enum name without \<open>"::"\<close> that does not end in a colon).
\<close>

theorem enum_variant_found:
  assumes "strstr e ''::'' = None" and "e \<noteq> [] \<longrightarrow> last e \<noteq> CHR '':''"
  shows "find_enum_variant (register_enum_variant ctx v e tag) (e @ ''::'' @ v)
     = Some \<lparr>ev_enum_name = e, ev_variant_name = v, ev_tag_id = tag\<rparr>"
proof -
  have sp: "split_variant (e @ ''::'' @ v) = (Some e, v)"
    using assms by (intro split_variant_qualified) auto
  let ?p = "\<lambda>r. ev_variant_name r = v \<and> ev_enum_name r = e"
  have "List.find ?p (update_first ?p (\<lambda>r. r\<lparr>ev_tag_id := tag\<rparr>) rs)
      = map_option (\<lambda>r. r\<lparr>ev_tag_id := tag\<rparr>) (List.find ?p rs)" for rs :: "enum_variant list"
    by (rule find_update_first) simp
  moreover have "r\<lparr>ev_tag_id := tag\<rparr> = \<lparr>ev_enum_name = e, ev_variant_name = v, ev_tag_id = tag\<rparr>"
    if "List.find ?p rs = Some r" for r :: enum_variant and rs
  proof -
    have "ev_variant_name r = v" "ev_enum_name r = e" using that by (auto simp: find_Some_iff)
    then show ?thesis by (cases r) simp
  qed
  ultimately show ?thesis
    by (auto simp: find_enum_variant_def sp [simplified] register_enum_variant_def find_enum_variant_of_def)
qed

theorem enum_variant_found_witness:
  "find_enum_variant (register_enum_variant (register_enum_variant empty_pctx ''None'' ''Slot'' 3)
       ''None'' ''Option__i32'' 1) ''Option__i32::None''
     = Some \<lparr>ev_enum_name = ''Option__i32'', ev_variant_name = ''None'', ev_tag_id = 1\<rparr>"
  using enum_variant_found [of "''Option__i32''" "register_enum_variant empty_pctx ''None'' ''Slot'' 3" "''None''" 1]
  by simp

text \<open>
  The mangled name of a variant of a generic instance is not found: \<open>register_enum_constructor\<close>
  registers \<open>None\<close> of \<open>Option__i32\<close> and builds the name \<open>Option__i32__None\<close>, but the lookup splits
  that name at its first double underscore.
\<close>

theorem generic_variant_lost:
  "find_enum_variant (register_enum_variant empty_pctx ''None'' ''Option__i32'' tag) ''Option__i32__None'' = None
   \<and> find_enum_variant (register_enum_variant empty_pctx ''None'' ''Option'' tag) ''Option__None''
       = Some \<lparr>ev_enum_name = ''Option'', ev_variant_name = ''None'', ev_tag_id = tag\<rparr>"
  by (simp add: find_enum_variant_def register_enum_variant_def empty_pctx_def split_variant_def)

section \<open>Known generics stay balanced\<close>

definition generics_ok :: "generics \<Rightarrow> bool" where
  "generics_ok g \<longleftrightarrow>
     length (kg_slots g) = MAX_KNOWN_GENERICS \<and> 0 \<le> kg_count g \<and> kg_count g \<le> int MAX_KNOWN_GENERICS"

lemma register_generic_fresh:
  assumes "generics_ok g" "\<not> is_known_generic g n" "kg_count g < int MAX_KNOWN_GENERICS"
  obtains g' where "register_generic g n = Some g'" "generics_ok g'" "kg_count g' = kg_count g + 1"
    "take (nat (kg_count g')) (kg_slots g') = take (nat (kg_count g)) (kg_slots g) @ [n]"
proof -
  have lt: "nat (kg_count g) < length (kg_slots g)" using assms by (auto simp: generics_ok_def)
  have "take (nat (kg_count g + 1)) ((kg_slots g)[nat (kg_count g) := n])
      = take (nat (kg_count g)) (kg_slots g) @ [n]"
    using lt assms(1) by (simp add: generics_ok_def nat_add_distrib take_Suc_conv_app_nth)
  then show thesis
    using assms lt that [of "g\<lparr>kg_slots := (kg_slots g)[nat (kg_count g) := n], kg_count := kg_count g + 1\<rparr>"]
    by (auto simp: register_generic_def generics_ok_def)
qed

lemma register_generics_fresh:
  assumes "generics_ok g" "distinct ns" "\<forall>n \<in> set ns. \<not> is_known_generic g n"
    "kg_count g + int (length ns) \<le> int MAX_KNOWN_GENERICS"
  shows "\<exists>g'. register_generics g ns = Some g' \<and> generics_ok g' \<and> kg_count g' = kg_count g + int (length ns)
    \<and> take (nat (kg_count g')) (kg_slots g') = take (nat (kg_count g)) (kg_slots g) @ ns"
  using assms
proof (induction ns arbitrary: g)
  case (Cons n ns)
  obtain g1 where g1: "register_generic g n = Some g1" "generics_ok g1" "kg_count g1 = kg_count g + 1"
    "take (nat (kg_count g1)) (kg_slots g1) = take (nat (kg_count g)) (kg_slots g) @ [n]"
    using register_generic_fresh [of g n] Cons.prems by auto
  then have "\<forall>m \<in> set ns. \<not> is_known_generic g1 m"
    using Cons.prems by (auto simp: is_known_generic_def)
  with Cons.IH [of g1] Cons.prems g1 show ?case by (auto simp: algebra_simps)
qed simp

text \<open>
  Generic parameters are scoped: registering fresh, distinct parameters that fit the array makes
  each of them known, never writes outside of the array, and dropping as many at the end leaves
  exactly the names known that were known before.
\<close>

theorem generics_scoped:
  assumes "generics_ok g" and "distinct ns" and "\<forall>n \<in> set ns. \<not> is_known_generic g n"
    and "kg_count g + int (length ns) \<le> int MAX_KNOWN_GENERICS"
  shows "\<exists>g'. register_generics g ns = Some g' \<and> (\<forall>n \<in> set ns. is_known_generic g' n)
    \<and> generics_ok (drop_generics g' (length ns))
    \<and> (\<forall>n. is_known_generic (drop_generics g' (length ns)) n = is_known_generic g n)"
proof -
  obtain g' where g': "register_generics g ns = Some g'" "generics_ok g'"
    "kg_count g' = kg_count g + int (length ns)"
    "take (nat (kg_count g')) (kg_slots g') = take (nat (kg_count g)) (kg_slots g) @ ns"
    using register_generics_fresh [OF assms] by blast
  have c: "0 \<le> kg_count g" "nat (kg_count g) \<le> length (kg_slots g)"
    using assms(1) by (auto simp: generics_ok_def)
  have "take (nat (kg_count g)) (kg_slots g')
      = take (nat (kg_count g)) (take (nat (kg_count g')) (kg_slots g'))"
    using g'(3) c by simp
  also have "\<dots> = take (nat (kg_count g)) (kg_slots g)"
    using c by (simp add: g'(4))
  finally show ?thesis
    using g' c by (auto simp: is_known_generic_def drop_generics_def generics_ok_def)
qed

definition no_generics :: generics where
  "no_generics = \<lparr>kg_slots = replicate MAX_KNOWN_GENERICS [], kg_count = 0\<rparr>"

lemma no_generics_ok: "generics_ok no_generics" "\<not> is_known_generic no_generics n"
  by (simp_all add: generics_ok_def no_generics_def is_known_generic_def)

theorem generics_scoped_witness:
  "\<exists>g'. register_generics no_generics [''K'', ''V''] = Some g' \<and> is_known_generic g' ''K''
     \<and> \<not> is_known_generic (drop_generics g' 2) ''K''"
  using generics_scoped [of no_generics "[''K'', ''V'']"] no_generics_ok
  by (auto simp: MAX_KNOWN_GENERICS_def no_generics_def numeral_2_eq_2)

text \<open>
  A parameter written twice unbalances the count: \<open>impl Trait<T> for Struct<T>\<close> registers \<open>T\<close>
  twice, the second time without effect, but drops two; the count is then -1 and the next
  registration writes before the array.
\<close>

theorem duplicate_generic_underflow:
  "\<exists>g. register_generics no_generics [n, n] = Some g \<and> kg_count (drop_generics g 2) = -1
     \<and> register_generic (drop_generics g 2) m = None"
proof -
  obtain g where g: "register_generic no_generics n = Some g" "kg_count g = 1"
    "take (nat (kg_count g)) (kg_slots g) = [n]"
    using register_generic_fresh [OF no_generics_ok, of n]
    by (auto simp: no_generics_def MAX_KNOWN_GENERICS_def)
  then have "is_known_generic g n" by (simp add: is_known_generic_def)
  then show ?thesis
    using g by (auto simp: register_generic_def [of g] drop_generics_def register_generic_def is_known_generic_def)
qed

end
