(* ===== verification/ZcMoves.thy ===== *)
theory ZcMoves
  imports ZcSymbols
begin

text \<open>
  The move checker (\<open>src/src/analysis/move_check.c\<close>) with the joins of the branches of \<open>if\<close> and \<open>match\<close>
  (\<open>src/src/analysis/typecheck.c\<close>) and \<open>check_impl\<close> (\<open>src/src/parser/utils/utils_registry.c\<close>). A
  \<open>MoveState *\<close> is a \<open>move_state option\<close>. The \<open>switch\<close> of \<open>is_type_copy\<close> has the table of structs that
  \<open>find_struct_def\<close> searches as a field of its context. The panic of the recursion guard returns
  with the guard's value, as it does in the language server.
\<close>

section \<open>States\<close>

datatype MoveStatus = MOVE_STATE_VALID | MOVE_STATE_MOVED | MOVE_STATE_MAYBE_MOVED

record move_entry =
  me_symbol_name :: string
  me_status :: MoveStatus
  me_moved_at :: token

datatype move_state = MoveState (ms_entries: "move_entry list") (ms_parent: "move_state option")

definition move_state_create :: "move_state option \<Rightarrow> move_state" where
  "move_state_create parent = MoveState [] parent"

fun clone_entries :: "move_entry list \<Rightarrow> move_entry list" where
  "clone_entries [] = []"
| "clone_entries (e # es) =
     \<lparr>me_symbol_name = me_symbol_name e, me_status = me_status e, me_moved_at = me_moved_at e\<rparr>
       # clone_entries es"

definition move_state_clone :: "move_state option \<Rightarrow> move_state option" where
  "move_state_clone src =
     map_option (\<lambda>s. MoveState (clone_entries (ms_entries s)) (ms_parent (move_state_create (ms_parent s)))) src"

text \<open>\<open>mark_moved_in_state\<close> and \<open>mark_valid_in_state\<close> write a status into the first entry of the path, or
  put a new entry at the head.\<close>

definition mark_in_state :: "MoveStatus \<Rightarrow> move_state \<Rightarrow> string \<Rightarrow> token \<Rightarrow> move_state" where
  "mark_in_state st s path t =
     (if \<exists>e \<in> set (ms_entries s). me_symbol_name e = path then
        MoveState
          (update_first (\<lambda>e. me_symbol_name e = path) (\<lambda>e. e\<lparr>me_status := st, me_moved_at := t\<rparr>)
            (ms_entries s)) (ms_parent s)
      else
        MoveState (\<lparr>me_symbol_name = path, me_status = st, me_moved_at = t\<rparr> # ms_entries s) (ms_parent s))"

definition mark_moved_in_state :: "move_state \<Rightarrow> string \<Rightarrow> token \<Rightarrow> move_state" where
  "mark_moved_in_state s path t = mark_in_state MOVE_STATE_MOVED s path t"

definition mark_valid_in_state :: "move_state \<Rightarrow> string \<Rightarrow> token \<Rightarrow> move_state" where
  "mark_valid_in_state s path t = mark_in_state MOVE_STATE_VALID s path t"

definition entry_of :: "move_state \<Rightarrow> string \<Rightarrow> move_entry option" where
  "entry_of s path = List.find (\<lambda>e. me_symbol_name e = path) (ms_entries s)"

lemma size_option_parent [termination_simp]: "size_option size (ms_parent s) < Suc (size s)"
  by (cases s) auto

function get_move_status :: "move_state option \<Rightarrow> string \<Rightarrow> MoveStatus" where
  "get_move_status None path = MOVE_STATE_VALID"
| "get_move_status (Some s) path =
     (case entry_of s path of Some e \<Rightarrow> me_status e | None \<Rightarrow> get_move_status (ms_parent s) path)"
  by pat_completeness auto

termination
  by (relation "measure (\<lambda>(s, _). size_option size s)") (auto simp: size_option_parent)

text \<open>The second state of a merge: NULL, a state of its own, or the target itself (an \<open>if\<close> without
  \<open>else\<close>), which the merge reads while it writes it.\<close>

datatype branch = Null_state | Own_state move_state | Target_state

fun branch_status :: "move_state \<Rightarrow> branch \<Rightarrow> string \<Rightarrow> MoveStatus" where
  "branch_status target Null_state path = MOVE_STATE_VALID"
| "branch_status target (Own_state s) path = get_move_status (Some s) path"
| "branch_status target Target_state path = get_move_status (Some target) path"

text \<open>One turn of the loop over the entries of \<open>a\<close>, and over those of \<open>b\<close>.\<close>

definition merge_entry_a :: "branch \<Rightarrow> move_entry \<Rightarrow> move_state \<Rightarrow> move_state" where
  "merge_entry_a b e target =
     (if me_status e = MOVE_STATE_MOVED \<or> branch_status target b (me_symbol_name e) = MOVE_STATE_MOVED
      then mark_moved_in_state target (me_symbol_name e) (me_moved_at e) else target)"

definition merge_entry_b :: "move_state option \<Rightarrow> move_entry \<Rightarrow> move_state \<Rightarrow> move_state" where
  "merge_entry_b a e target =
     (if me_status e = MOVE_STATE_MOVED \<or> get_move_status a (me_symbol_name e) = MOVE_STATE_MOVED
      then mark_moved_in_state target (me_symbol_name e) (me_moved_at e) else target)"

text \<open>Over its own entries the target is walked by position: the marks change no position, since the
  name of every entry walked is there already.\<close>

definition move_state_merge :: "move_state \<Rightarrow> move_state option \<Rightarrow> branch \<Rightarrow> move_state" where
  "move_state_merge target a b =
     (let t1 = (case a of None \<Rightarrow> target | Some s \<Rightarrow> fold (merge_entry_a b) (ms_entries s) target)
      in case b of
           Null_state \<Rightarrow> t1
         | Own_state s \<Rightarrow> fold (merge_entry_b a) (ms_entries s) t1
         | Target_state \<Rightarrow>
             fold (\<lambda>i t. merge_entry_b a (ms_entries t ! i) t) [0 ..< length (ms_entries t1)] t1)"

definition merge_into_entry :: "move_entry \<Rightarrow> move_state \<Rightarrow> move_state" where
  "merge_into_entry e target =
     (if me_status e = MOVE_STATE_MOVED
      then mark_moved_in_state target (me_symbol_name e) (me_moved_at e) else target)"

definition move_state_merge_into :: "move_state option \<Rightarrow> move_state option \<Rightarrow> move_state option" where
  "move_state_merge_into target src =
     (case src of
        None \<Rightarrow> target
      | Some s \<Rightarrow>
          (case target of
             None \<Rightarrow> move_state_clone (Some s)
           | Some t \<Rightarrow> Some (fold merge_into_entry (ms_entries s) t)))"

text \<open>The end of the case \<open>NODE_IF\<close> of \<open>check_node\<close>: the states after the branches (\<open>after_else\<close> is
  the state after the \<open>else\<close> body, if there is one) joined into the state before.\<close>

definition if_join ::
    "move_state \<Rightarrow> move_state \<Rightarrow> bool \<Rightarrow> move_state option \<Rightarrow> bool \<Rightarrow> move_state" where
  "if_join initial after_then then_unreachable after_else else_unreachable =
     move_state_merge initial
       (if then_unreachable then None else Some after_then)
       (if else_unreachable then Null_state
        else (case after_else of Some s \<Rightarrow> Own_state s | None \<Rightarrow> Target_state))"

text \<open>\<open>NODE_MATCH\<close>: the states after the reachable cases, and the state before when there is no
  default case, merged in turn.\<close>

definition match_join :: "move_state \<Rightarrow> move_state list \<Rightarrow> bool \<Rightarrow> move_state option" where
  "match_join initial afters has_default =
     (let merged = fold (\<lambda>s m. move_state_merge_into m (Some s)) afters None;
          merged1 = (if has_default then merged else move_state_merge_into merged (Some initial))
      in case merged1 of None \<Rightarrow> Some initial | Some m \<Rightarrow> Some m)"

section \<open>Paths\<close>

definition MAX_RECURSION_DEPTH :: nat where "MAX_RECURSION_DEPTH = 1024"
definition MAX_ERROR_MSG_LEN :: nat where "MAX_ERROR_MSG_LEN = 2048"

text \<open>\<open>printf\<close> writes a NULL string as \<open>(null)\<close>. \<open>rd\<close> is \<open>ctx->recursion_depth\<close>.\<close>

definition field_text :: "string option \<Rightarrow> string" where
  "field_text f = (case f of None \<Rightarrow> ''(null)'' | Some s \<Rightarrow> s)"

function get_node_path :: "node list \<Rightarrow> nat \<Rightarrow> nat \<Rightarrow> string option" where
  "get_node_path [] depth rd = None"
| "get_node_path (n # ns) depth rd =
     (if depth > 32 then None
      else if Suc rd > MAX_RECURSION_DEPTH then None
      else
        (case n of
           VarRef _ name _ \<Rightarrow> name
         | Member _ target field \<Rightarrow>
             (case get_node_path target (Suc depth) (Suc rd) of
                None \<Rightarrow> None
              | Some target_path \<Rightarrow>
                  Some (snprintf_into MAX_ERROR_MSG_LEN (target_path @ ''.'' @ field_text field)))
         | _ \<Rightarrow> None))"
  by pat_completeness auto
termination by (relation "measure (\<lambda>(c, _, _). size_list size c)") auto

declare get_node_path.simps(2) [simp del]

section \<open>Copy types\<close>

record copy_ctx =
  cc_impls :: "(string \<times> string) list"
  cc_structs :: "string \<Rightarrow> ty option"

definition check_impl :: "copy_ctx \<Rightarrow> string \<Rightarrow> string \<Rightarrow> bool" where
  "check_impl ctx trait strct \<longleftrightarrow>
     (\<exists>(t, s) \<in> set (cc_impls ctx). t = trait \<and> s = strct)
     \<or> (\<exists>(t, s) \<in> set (cc_impls ctx).
          case strstr s ''<'' of
            None \<Rightarrow> False
          | Some i \<Rightarrow> take i strct = take i s \<and> at strct i = CHR ''_'' \<and> t = trait)"

text \<open>\<open>check_impl\<close> of a NULL name is not modelled: a struct type has a name.\<close>

function is_type_copy :: "copy_ctx \<Rightarrow> ty option \<Rightarrow> nat \<Rightarrow> bool" where
  "is_type_copy ctx None rd = True"
| "is_type_copy ctx (Some t) rd =
     (if Suc rd > MAX_RECURSION_DEPTH then True
      else if ty_has_drop t then False
      else if (case ty_name t of None \<Rightarrow> False | Some n \<Rightarrow> check_impl ctx ''Drop'' n) then False
      else if ty_kind t = TYPE_STRUCT then
        (case ty_name t of
           None \<Rightarrow> True
         | Some n \<Rightarrow>
             if check_impl ctx ''Copy'' n then True
             else if check_impl ctx ''Drop'' n then False
             else (case cc_structs ctx n of None \<Rightarrow> True | Some d \<Rightarrow> \<not> ty_has_drop d))
      else if ty_kind t = TYPE_ARRAY then is_type_copy ctx (ty_inner t) (Suc rd)
      else if ty_kind t = TYPE_ALIAS then
        (if ty_flag t then True else is_type_copy ctx (ty_inner t) (Suc rd))
      else True)"
  by pat_completeness auto
termination
  by (relation "measure (\<lambda>(_, t, _). size_option size t)") (auto simp: size_option_inner)

declare is_type_copy.simps(2) [simp del]

section \<open>Uses, moves and assignments\<close>

text \<open>The fields of the type checker and the parser context that the checks read and write.\<close>

record move_tc =
  mt_move_state :: "move_state option"
  mt_in_loop_pass2 :: bool
  mt_loop_start_state :: "move_state option"
  mt_is_forget_receiver :: bool
  mt_recursion_depth :: nat
  mt_copy :: copy_ctx
  mt_errors :: "(token \<times> string) list"

definition is_moved_status :: "MoveStatus \<Rightarrow> bool" where
  "is_moved_status st \<longleftrightarrow> st = MOVE_STATE_MOVED \<or> st = MOVE_STATE_MAYBE_MOVED"

definition check_path_validity :: "move_tc \<Rightarrow> string \<Rightarrow> token \<Rightarrow> move_tc" where
  "check_path_validity tc path t =
     (let status = get_move_status (mt_move_state tc) path
      in if is_moved_status status then
           (if mt_in_loop_pass2 tc
               \<and> (tk_line t = 0
                  \<or> is_moved_status (get_move_status (mt_loop_start_state tc) path)) then tc
            else tc\<lparr>mt_errors := mt_errors tc @
                     [(t, snprintf_into 255 (''Use of moved value '' @ [SQUOTE] @ path @ [SQUOTE]))]\<rparr>)
         else tc)"

definition check_use_validity :: "move_tc \<Rightarrow> node list \<Rightarrow> move_tc" where
  "check_use_validity tc use_node =
     (case use_node of
        [] \<Rightarrow> tc
      | n # _ \<Rightarrow>
          if mt_is_forget_receiver tc then tc
          else
            (let path = get_node_path use_node 0 (mt_recursion_depth tc);
                 path1 = (case path of
                            Some p \<Rightarrow> Some p
                          | None \<Rightarrow> (case n of VarRef _ name _ \<Rightarrow> name | _ \<Rightarrow> None))
             in case path1 of None \<Rightarrow> tc | Some p \<Rightarrow> check_path_validity tc p (nd_token n)))"

definition mark_symbol_moved ::
    "move_tc \<Rightarrow> symbol option \<Rightarrow> node list \<Rightarrow> move_tc \<times> symbol option" where
  "mark_symbol_moved tc y context_node =
     (case context_node of
        [] \<Rightarrow> (tc, y)
      | n # _ \<Rightarrow>
          (let t = (case nd_type n of Some ti \<Rightarrow> Some ti | None \<Rightarrow> Option.bind y sy_type)
           in if t \<noteq> None \<and> \<not> is_type_copy (mt_copy tc) t (mt_recursion_depth tc) then
                (let y1 = map_option (\<lambda>s. s\<lparr>sy_is_moved := True\<rparr>) y
                 in case mt_move_state tc of
                      None \<Rightarrow> (tc, y1)
                    | Some ms \<Rightarrow>
                        (case (case get_node_path context_node 0 (mt_recursion_depth tc) of
                                 Some p \<Rightarrow> Some p | None \<Rightarrow> map_option sy_name y) of
                           None \<Rightarrow> (tc, y1)
                         | Some p \<Rightarrow>
                             (tc\<lparr>mt_move_state := Some (mark_moved_in_state ms p (nd_token n))\<rparr>, y1)))
              else (tc, y)))"

definition mark_symbol_valid ::
    "move_tc \<Rightarrow> symbol option \<Rightarrow> node list \<Rightarrow> move_tc \<times> symbol option" where
  "mark_symbol_valid tc y context_node =
     (let y1 = map_option (\<lambda>s. s\<lparr>sy_is_moved := False\<rparr>) y
      in case mt_move_state tc of
           None \<Rightarrow> (tc, y1)
         | Some ms \<Rightarrow>
             (case (case get_node_path context_node 0 (mt_recursion_depth tc) of
                      Some p \<Rightarrow> Some p | None \<Rightarrow> map_option sy_name y) of
                None \<Rightarrow> (tc, y1)
              | Some p \<Rightarrow>
                  (tc\<lparr>mt_move_state := Some (mark_valid_in_state ms p
                        (case context_node of
                           n # _ \<Rightarrow> nd_token n
                         | [] \<Rightarrow> (case y of Some s \<Rightarrow> sy_decl_token s | None \<Rightarrow> TOKEN_UNKNOWN)))\<rparr>, y1)))"

section \<open>Laws of the entries\<close>

abbreviation entry_info :: "move_state \<Rightarrow> string \<Rightarrow> (MoveStatus \<times> token) option" where
  "entry_info s p \<equiv> map_option (\<lambda>e. (me_status e, me_moved_at e)) (entry_of s p)"

lemma entry_of_mark_same: "entry_info (mark_in_state st s p t) p = Some (st, t)"
proof (cases "\<exists>e \<in> set (ms_entries s). me_symbol_name e = p")
  case True
  then obtain z where "List.find (\<lambda>e. me_symbol_name e = p) (ms_entries s) = Some z"
    by (cases "List.find (\<lambda>e. me_symbol_name e = p) (ms_entries s)") (auto simp: find_None_iff)
  with True show ?thesis by (simp add: mark_in_state_def entry_of_def find_update_first)
next
  case False
  then show ?thesis by (auto simp: mark_in_state_def entry_of_def)
qed

lemma entry_of_mark_other: "q \<noteq> p \<Longrightarrow> entry_of (mark_in_state st s p t) q = entry_of s q"
  by (simp add: mark_in_state_def entry_of_def) (rule impI, rule find_update_first_other, auto)

lemma entry_of_mark:
  "entry_info (mark_in_state st s p t) q = (if q = p then Some (st, t) else entry_info s q)"
  by (simp add: entry_of_mark_same entry_of_mark_other)

text \<open>The entries as an environment that binds paths to a status and its place.\<close>

interpretation moves: name_env
  entry_info "\<lambda>s p (st, t). mark_in_state st s p t"
  by unfold_locales (simp_all only: split_paired_all split_conv entry_of_mark if_True if_False simp_thms)

lemma mark_parent [simp]: "ms_parent (mark_in_state st s p t) = ms_parent s"
  by (simp add: mark_in_state_def)

lemma status_mark:
  "get_move_status (Some (mark_in_state st s p t)) q = (if q = p then st else get_move_status (Some s) q)"
proof (cases "q = p")
  case True
  then show ?thesis using entry_of_mark_same [of st s p t] by auto
qed (simp add: entry_of_mark_other split: option.split)

lemma status_mark_moved [simp]:
  "get_move_status (Some (mark_moved_in_state s p t)) q =
     (if q = p then MOVE_STATE_MOVED else get_move_status (Some s) q)"
  by (simp add: mark_moved_in_state_def status_mark del: get_move_status.simps)

lemma status_mark_valid [simp]:
  "get_move_status (Some (mark_valid_in_state s p t)) q =
     (if q = p then MOVE_STATE_VALID else get_move_status (Some s) q)"
  by (simp add: mark_valid_in_state_def status_mark del: get_move_status.simps)

lemma clone_entries_id [simp]: "clone_entries es = es"
  by (induction es) auto

lemma move_state_clone_id [simp]: "move_state_clone p = p"
  by (cases p) (simp_all add: move_state_clone_def move_state_create_def)

declare get_move_status.simps(2) [simp del]

end
