(* ===== verification/ZcMovesProps.thy ===== *)
theory ZcMovesProps
  imports ZcMoves
begin

text \<open>What the move checker guarantees: the states that the analysis can build are well formed;
  which paths are unusable after the joins of \<open>if\<close> and \<open>match\<close>; which uses are reported. The
  documentation of \<open>move_state_merge\<close> has a third status, \<open>MOVE_STATE_MAYBE_MOVED\<close>, for the join of a
  moved and a valid branch; the code has \<open>MOVE_STATE_MOVED\<close> there (\<open>status_never_maybe\<close>). A use is an
  error in both.\<close>

section \<open>Reachable states\<close>

definition ms_ok :: "move_state \<Rightarrow> bool" where
  "ms_ok s \<longleftrightarrow> distinct (map me_symbol_name (ms_entries s))
     \<and> (\<forall>e \<in> set (ms_entries s). me_status e \<noteq> MOVE_STATE_MAYBE_MOVED) \<and> ms_parent s = None"

definition ms_ok_opt :: "move_state option \<Rightarrow> bool" where
  "ms_ok_opt p = (case p of None \<Rightarrow> True | Some s \<Rightarrow> ms_ok s)"

fun branch_ok :: "branch \<Rightarrow> bool" where
  "branch_ok (Own_state s) = ms_ok s"
| "branch_ok _ = True"

lemma update_first_map [simp]:
  "(\<And>x. g (f x) = g x) \<Longrightarrow> map g (update_first q f xs) = map g xs"
  by (induction xs) auto

lemma update_first_set: "x \<in> set (update_first q f xs) \<Longrightarrow> x \<in> set xs \<or> (\<exists>y \<in> set xs. x = f y)"
  by (induction xs) (auto split: if_splits)

lemma ms_ok_mark: "ms_ok s \<Longrightarrow> st \<noteq> MOVE_STATE_MAYBE_MOVED \<Longrightarrow> ms_ok (mark_in_state st s p t)"
  by (auto simp: ms_ok_def mark_in_state_def dest: update_first_set)

lemma ms_ok_mark_moved [simp]: "ms_ok s \<Longrightarrow> ms_ok (mark_moved_in_state s p t)"
  by (simp add: mark_moved_in_state_def ms_ok_mark)

lemma ms_ok_mark_valid [simp]: "ms_ok s \<Longrightarrow> ms_ok (mark_valid_in_state s p t)"
  by (simp add: mark_valid_in_state_def ms_ok_mark)

lemma ms_ok_create [simp]: "ms_ok (move_state_create None)"
  by (simp add: ms_ok_def move_state_create_def)

lemma ms_ok_steps [simp]:
  "ms_ok t \<Longrightarrow> ms_ok (merge_entry_a b e t)" "ms_ok t \<Longrightarrow> ms_ok (merge_entry_b a e t)"
  "ms_ok t \<Longrightarrow> ms_ok (merge_into_entry e t)"
  by (simp_all add: merge_entry_a_def merge_entry_b_def merge_into_entry_def)

lemma ms_ok_fold: "ms_ok t \<Longrightarrow> (\<And>x t. ms_ok t \<Longrightarrow> ms_ok (f x t)) \<Longrightarrow> ms_ok (fold f xs t)"
  by (induction xs arbitrary: t) auto

lemma ms_ok_merge: "ms_ok t \<Longrightarrow> ms_ok (move_state_merge t a b)"
  by (cases a; cases b) (simp_all add: move_state_merge_def Let_def ms_ok_fold)

lemma ms_ok_merge_into:
  "ms_ok_opt t \<Longrightarrow> ms_ok_opt s \<Longrightarrow> ms_ok_opt (move_state_merge_into t s)"
  by (cases t; cases s) (simp_all add: move_state_merge_into_def ms_ok_opt_def ms_ok_fold)

lemma status_entry: "ms_ok s \<Longrightarrow> e \<in> set (ms_entries s) \<Longrightarrow> get_move_status (Some s) (me_symbol_name e) = me_status e"
proof -
  assume a: "ms_ok s" "e \<in> set (ms_entries s)"
  have "distinct (map me_symbol_name es) \<Longrightarrow> e \<in> set es \<Longrightarrow>
      List.find (\<lambda>x. me_symbol_name x = me_symbol_name e) es = Some e" for es
    by (induction es) (auto simp: rev_image_eqI)
  with a have "entry_of s (me_symbol_name e) = Some e" by (simp add: ms_ok_def entry_of_def)
  then show ?thesis by (simp add: get_move_status.simps(2))
qed

lemma status_moved_entry:
  "ms_ok s \<Longrightarrow> get_move_status (Some s) p \<noteq> MOVE_STATE_VALID \<Longrightarrow>
     \<exists>e \<in> set (ms_entries s). me_symbol_name e = p \<and> me_status e = get_move_status (Some s) p"
proof (cases "entry_of s p")
  case None
  then show "ms_ok s \<Longrightarrow> get_move_status (Some s) p \<noteq> MOVE_STATE_VALID \<Longrightarrow> ?thesis"
    by (simp add: get_move_status.simps(2) ms_ok_def)
next
  case (Some e)
  then have "e \<in> set (ms_entries s)" "me_symbol_name e = p"
    by (auto simp: entry_of_def find_Some_iff)
  with Some show ?thesis by (auto simp: get_move_status.simps(2))
qed

lemma moved_iff_entry:
  "ms_ok s \<Longrightarrow> (\<exists>e \<in> set (ms_entries s). me_symbol_name e = p \<and> me_status e = MOVE_STATE_MOVED)
     \<longleftrightarrow> get_move_status (Some s) p = MOVE_STATE_MOVED"
  using status_entry status_moved_entry [of s p] by fastforce

lemma status_never_maybe: "ms_ok s \<Longrightarrow> get_move_status (Some s) p \<noteq> MOVE_STATE_MAYBE_MOVED"
  using status_moved_entry [of s p] by (auto simp: ms_ok_def)

text \<open>The states the analysis builds, from the empty one of a function on.\<close>

inductive move_reachable :: "move_state \<Rightarrow> bool" where
  fresh: "move_reachable (move_state_create None)"
| moved: "move_reachable s \<Longrightarrow> move_reachable (mark_moved_in_state s p t)"
| valid: "move_reachable s \<Longrightarrow> move_reachable (mark_valid_in_state s p t)"
| clone: "move_reachable s \<Longrightarrow> move_state_clone (Some s) = Some s' \<Longrightarrow> move_reachable s'"
| if_then: "move_reachable s \<Longrightarrow> move_reachable a \<Longrightarrow> move_reachable (if_join s a tu None eu)"
| if_else: "move_reachable s \<Longrightarrow> move_reachable a \<Longrightarrow> move_reachable b \<Longrightarrow>
    move_reachable (if_join s a tu (Some b) eu)"
| join: "move_reachable s \<Longrightarrow> move_reachable a \<Longrightarrow>
    move_state_merge_into (Some s) (Some a) = Some s' \<Longrightarrow> move_reachable s'"

lemma reachable_ok: "move_reachable s \<Longrightarrow> ms_ok s"
proof (induction rule: move_reachable.induct)
  case (join s a s')
  then show ?case using ms_ok_merge_into [of "Some s" "Some a"] by (simp add: ms_ok_opt_def)
qed (simp_all add: ms_ok_merge if_join_def)

text \<open>
  C31: every state the analysis can build is a finite map from paths to statuses: a path has at most
  one entry, the status read for a path is the status of that entry, and a path without an entry is
  valid.
\<close>

theorem reachable_states_ok:
  assumes "move_reachable s"
  shows "distinct (map me_symbol_name (ms_entries s))
    \<and> (\<forall>e \<in> set (ms_entries s). get_move_status (Some s) (me_symbol_name e) = me_status e)
    \<and> (p \<notin> set (map me_symbol_name (ms_entries s)) \<longrightarrow> get_move_status (Some s) p = MOVE_STATE_VALID)"
  using reachable_ok [OF assms] status_entry status_moved_entry [of s p]
  by (auto simp: ms_ok_def)

theorem reachable_states_ok_witness:
  "get_move_status (Some (if_join (move_state_create None)
       (mark_moved_in_state (move_state_create None) ''v'' TOKEN_UNKNOWN) False None False)) ''w''
     = MOVE_STATE_VALID"
  using reachable_states_ok [OF if_then [OF fresh moved [OF fresh, of "''v''" TOKEN_UNKNOWN], where tu = False and eu = False],
      where p = "''w''"]
  by (simp add: if_join_def move_state_merge_def merge_entry_a_def merge_entry_b_def mark_moved_in_state_def
      mark_in_state_def move_state_create_def)

section \<open>Joins\<close>

lemma status_loop_own:
  "get_move_status (Some (fold (merge_entry_a (Own_state b)) es t)) p =
     (if \<exists>e \<in> set es. me_symbol_name e = p
           \<and> (me_status e = MOVE_STATE_MOVED \<or> get_move_status (Some b) p = MOVE_STATE_MOVED)
      then MOVE_STATE_MOVED else get_move_status (Some t) p)"
  by (induction es arbitrary: t) (auto simp: merge_entry_a_def)

lemma status_loop_null:
  "get_move_status (Some (fold (merge_entry_a Null_state) es t)) p =
     (if \<exists>e \<in> set es. me_symbol_name e = p \<and> me_status e = MOVE_STATE_MOVED
      then MOVE_STATE_MOVED else get_move_status (Some t) p)"
  by (induction es arbitrary: t) (auto simp: merge_entry_a_def)

lemma status_loop_target:
  "get_move_status (Some (fold (merge_entry_a Target_state) es t)) p =
     (if \<exists>e \<in> set es. me_symbol_name e = p \<and> me_status e = MOVE_STATE_MOVED
      then MOVE_STATE_MOVED else get_move_status (Some t) p)"
  by (induction es arbitrary: t) (auto simp: merge_entry_a_def)


text \<open>The second loop of the merge is the first one with the roles exchanged.\<close>

lemma merge_entry_b_as_a:
  "merge_entry_b None = merge_entry_a Null_state" "merge_entry_b (Some s) = merge_entry_a (Own_state s)"
  by (simp_all add: merge_entry_a_def merge_entry_b_def fun_eq_iff)

text \<open>Once the moves of \<open>a\<close> are in the target, the loop over the target itself changes no status.\<close>

definition absorbed :: "move_state option \<Rightarrow> (string \<Rightarrow> MoveStatus) \<Rightarrow> move_state \<Rightarrow> bool" where
  "absorbed a st t \<longleftrightarrow> ms_ok t \<and> (\<forall>p. get_move_status (Some t) p = st p)
     \<and> (\<forall>p. get_move_status a p = MOVE_STATE_MOVED \<longrightarrow> st p = MOVE_STATE_MOVED)"

lemma absorbed_step:
  assumes "absorbed a st t" "i < length (ms_entries t)"
  shows "absorbed a st (merge_entry_b a (ms_entries t ! i) t)
    \<and> length (ms_entries (merge_entry_b a (ms_entries t ! i) t)) = length (ms_entries t)"
proof -
  let ?e = "ms_entries t ! i"
  have e: "?e \<in> set (ms_entries t)" using assms(2) by simp
  have "me_status ?e = st (me_symbol_name ?e)"
    using status_entry [OF _ e] assms(1) by (simp add: absorbed_def)
  then have moved: "st (me_symbol_name ?e) = MOVE_STATE_MOVED"
    if "me_status ?e = MOVE_STATE_MOVED \<or> get_move_status a (me_symbol_name ?e) = MOVE_STATE_MOVED"
    using that assms(1) by (auto simp: absorbed_def)
  have "length (update_first q f xs) = length xs" for q f and xs :: "move_entry list"
    by (induction xs) auto
  then have "length (ms_entries (mark_moved_in_state t (me_symbol_name ?e) tk)) = length (ms_entries t)" for tk
    using e by (auto simp: mark_moved_in_state_def mark_in_state_def)
  then show ?thesis
    using assms(1) moved by (auto simp: absorbed_def merge_entry_b_def)
qed

lemma absorbed_loop:
  assumes "absorbed a st t" "\<forall>i \<in> set is. i < length (ms_entries t)"
  shows "absorbed a st (fold (\<lambda>i t. merge_entry_b a (ms_entries t ! i) t) is t)"
  using assms
proof (induction "is" arbitrary: t)
  case (Cons i "is")
  then show ?case using absorbed_step [of a st t i] by simp
qed simp

lemma merge_status:
  assumes "ms_ok target" "ms_ok_opt a" "branch_ok b"
  shows "get_move_status (Some (move_state_merge target a b)) p =
    (if get_move_status a p = MOVE_STATE_MOVED \<or> branch_status target b p = MOVE_STATE_MOVED
     then MOVE_STATE_MOVED else get_move_status (Some target) p)"
proof (cases b)
  case Null_state
  with assms show ?thesis
    by (cases a) (auto simp: move_state_merge_def status_loop_null moved_iff_entry ms_ok_opt_def)
next
  case (Own_state s)
  with assms(3) have s: "ms_ok s" by simp
  show ?thesis
  proof (cases a)
    case None
    then show ?thesis
      using Own_state s
      by (auto simp: move_state_merge_def merge_entry_b_as_a status_loop_null moved_iff_entry)
  next
    case (Some r)
    then have r: "ms_ok r" using assms(2) by (simp add: ms_ok_opt_def)
    show ?thesis
      using Own_state Some moved_iff_entry [OF r, of p] moved_iff_entry [OF s, of p]
      by (auto simp: move_state_merge_def merge_entry_b_as_a status_loop_own)
  qed
next
  case Target_state
  define t1 where "t1 = (case a of None \<Rightarrow> target | Some s \<Rightarrow> fold (merge_entry_a b) (ms_entries s) target)"
  have st: "get_move_status (Some t1) q =
      (if get_move_status a q = MOVE_STATE_MOVED then MOVE_STATE_MOVED else get_move_status (Some target) q)" for q
    using assms Target_state
    by (cases a) (auto simp: t1_def status_loop_target moved_iff_entry ms_ok_opt_def)
  have "ms_ok t1"
    using assms by (cases a) (simp_all add: t1_def ms_ok_fold)
  then have "absorbed a (get_move_status (Some t1)) t1" using st by (auto simp: absorbed_def)
  note loop = absorbed_loop [OF this, of "[0 ..< length (ms_entries t1)]"]
  have "move_state_merge target a b
      = fold (\<lambda>i t. merge_entry_b a (ms_entries t ! i) t) [0 ..< length (ms_entries t1)] t1"
    unfolding t1_def move_state_merge_def Let_def Target_state by simp
  then have "get_move_status (Some (move_state_merge target a b)) p = get_move_status (Some t1) p"
    using loop by (simp add: absorbed_def)
  then show ?thesis using st Target_state by simp
qed

lemma moved_status_eq: "ms_ok s \<Longrightarrow>
    is_moved_status (get_move_status (Some s) p) \<longleftrightarrow> get_move_status (Some s) p = MOVE_STATE_MOVED"
  using status_never_maybe by (simp add: is_moved_status_def)

text \<open>
  C23: the join of an \<open>if\<close> is sound, and exact for the paths that are usable before it: a path that
  is unusable at the end of a branch that can be left (for a missing \<open>else\<close>, before the \<open>if\<close>) is
  unusable after the \<open>if\<close>, and a path that is unusable after it is unusable at the end of such a branch or
  was so before. Unusable is what the check of a use calls an error.
\<close>

theorem if_join_status:
  assumes "move_reachable initial" "move_reachable after_then" "move_reachable after_else"
  shows "(let unusable = (\<lambda>s. is_moved_status (get_move_status (Some s) p));
       joined = if_join initial after_then tu (Some after_else) eu;
       no_else = if_join initial after_then tu None False;
       branch = (\<not> tu \<and> unusable after_then \<or> \<not> eu \<and> unusable after_else)
     in (branch \<longrightarrow> unusable joined) \<and> (unusable joined \<longrightarrow> branch \<or> unusable initial)
      \<and> (unusable no_else \<longleftrightarrow> \<not> tu \<and> unusable after_then \<or> unusable initial))"
proof -
  note ok = assms(1-3) [THEN reachable_ok]
  have "ms_ok (if_join initial after_then tu (Some after_else) eu)" "ms_ok (if_join initial after_then tu None False)"
    using ok by (simp_all add: if_join_def ms_ok_merge)
  then show ?thesis
    using ok unfolding Let_def
    by (simp add: moved_status_eq ms_ok_merge if_join_def) (auto simp: merge_status ms_ok_opt_def)
qed

abbreviation fresh_state :: move_state where "fresh_state \<equiv> move_state_create None"

theorem if_join_status_witness:
  "is_moved_status (get_move_status (Some (if_join fresh_state
     (mark_moved_in_state fresh_state ''v'' TOKEN_UNKNOWN) False
     (Some (mark_valid_in_state fresh_state ''v'' TOKEN_UNKNOWN)) False)) ''v'')"
  using if_join_status [OF fresh moved [OF fresh] valid [OF fresh],
      where tu = False and eu = False and p = "''v''"]
  by (simp add: is_moved_status_def Let_def)

text \<open>
  A value that was moved before an \<open>if\<close> and is assigned again in both branches still counts as
  moved after it: the join only ever adds moves to the state before the \<open>if\<close>.
\<close>

theorem if_join_keeps_moved:
  assumes "move_reachable initial" "move_reachable after_then" "move_reachable after_else"
    and "get_move_status (Some initial) p = MOVE_STATE_MOVED"
  shows "get_move_status (Some (if_join initial
      (mark_valid_in_state after_then p t) False (Some (mark_valid_in_state after_else p t')) False)) p
    = MOVE_STATE_MOVED"
  using assms(1-3) [THEN reachable_ok] assms(4)
  by (simp add: if_join_def merge_status ms_ok_opt_def)

theorem if_join_keeps_moved_witness:
  "get_move_status (Some (if_join (mark_moved_in_state fresh_state ''v'' TOKEN_UNKNOWN)
     (mark_valid_in_state (mark_moved_in_state fresh_state ''v'' TOKEN_UNKNOWN) ''v'' TOKEN_UNKNOWN) False
     (Some (mark_valid_in_state (mark_moved_in_state fresh_state ''v'' TOKEN_UNKNOWN) ''v'' TOKEN_UNKNOWN))
     False)) ''v'' = MOVE_STATE_MOVED"
  using if_join_keeps_moved [OF moved [OF fresh] moved [OF fresh] moved [OF fresh]] by simp





section \<open>Paths\<close>

text \<open>\<open>x.f1.f2 ...\<close> and its path.\<close>

definition var_node :: "string \<Rightarrow> token \<Rightarrow> ty option \<Rightarrow> node" where
  "var_node x tk ti = VarRef (Meta tk ti []) (Some x) None"

definition member_node :: "node \<Rightarrow> string \<Rightarrow> token \<Rightarrow> ty option \<Rightarrow> node" where
  "member_node n f tk ti = Member (Meta tk ti []) [n] (Some f)"

definition field_chain :: "string \<Rightarrow> string list \<Rightarrow> token \<Rightarrow> ty option \<Rightarrow> node" where
  "field_chain x fs tk ti = foldl (\<lambda>n f. member_node n f tk ti) (var_node x tk ti) fs"

definition path_text :: "string \<Rightarrow> string list \<Rightarrow> string" where
  "path_text x fs = x @ concat (map (\<lambda>f. CHR ''.'' # f) fs)"

lemma field_chain_simps:
  "field_chain x [] tk ti = var_node x tk ti"
  "field_chain x (fs @ [f]) tk ti = member_node (field_chain x fs tk ti) f tk ti"
  by (simp_all add: field_chain_def)

lemma node_path_var:
  "get_node_path [var_node x tk ti] depth rd = (if depth \<le> 32 \<and> rd < MAX_RECURSION_DEPTH then Some x else None)"
  by (simp add: get_node_path.simps(2) var_node_def)

lemma node_path_member:
  "get_node_path [member_node n f tk ti] depth rd =
     (if depth \<le> 32 \<and> rd < MAX_RECURSION_DEPTH
      then map_option (\<lambda>p. snprintf_into MAX_ERROR_MSG_LEN (p @ ''.'' @ f)) (get_node_path [n] (Suc depth) (Suc rd))
      else None)"
  by (simp add: get_node_path.simps(2) member_node_def field_text_def split: option.split)

lemma node_path_chain:
  "length (path_text x fs) < MAX_ERROR_MSG_LEN \<Longrightarrow>
     get_node_path [field_chain x fs tk ti] depth rd =
       (if depth + length fs \<le> 32 \<and> rd + length fs < MAX_RECURSION_DEPTH then Some (path_text x fs) else None)"
proof (induction fs arbitrary: depth rd rule: rev_induct)
  case Nil
  then show ?case by (simp add: field_chain_simps node_path_var path_text_def)
next
  case (snoc f fs)
  then have "length (path_text x fs) < MAX_ERROR_MSG_LEN" by (simp add: path_text_def)
  with snoc show ?case
    by (auto simp: field_chain_simps node_path_member path_text_def)
qed

text \<open>
  The path of a field access is the variable and the fields joined by dots, for up to 32 fields;
  an access of more fields has no path, so moves of it are recorded under no path at all.
\<close>

theorem node_path_of_fields:
  assumes "length (path_text x fs) < MAX_ERROR_MSG_LEN" and "rd + length fs < MAX_RECURSION_DEPTH"
  shows "get_node_path [field_chain x fs tk ti] 0 rd = (if length fs \<le> 32 then Some (path_text x fs) else None)"
  using assms by (simp add: node_path_chain)

theorem node_path_of_fields_witness:
  "get_node_path [field_chain ''p'' [''q'', ''r''] TOKEN_UNKNOWN None] 0 0 = Some ''p.q.r''"
  using node_path_of_fields [of "''p''" "[''q'', ''r'']" 0 TOKEN_UNKNOWN None]
  by (simp add: path_text_def MAX_ERROR_MSG_LEN_def MAX_RECURSION_DEPTH_def)

section \<open>Uses\<close>

definition owned :: "move_tc \<Rightarrow> ty \<Rightarrow> bool" where
  "owned tc t \<longleftrightarrow> \<not> is_type_copy (mt_copy tc) (Some t) (mt_recursion_depth tc)"

text \<open>What a first pass over straight-line code assumes of the checker.\<close>

definition plain_pass :: "move_tc \<Rightarrow> move_state \<Rightarrow> bool" where
  "plain_pass tc ms \<longleftrightarrow> mt_move_state tc = Some ms \<and> \<not> mt_in_loop_pass2 tc
     \<and> \<not> mt_is_forget_receiver tc \<and> mt_recursion_depth tc < MAX_RECURSION_DEPTH"

lemma check_var_valid:
  "plain_pass tc ms \<Longrightarrow> get_move_status (Some ms) x = MOVE_STATE_VALID \<Longrightarrow>
     check_use_validity tc [var_node x tk ti] = tc"
  by (simp add: check_use_validity_def plain_pass_def Let_def node_path_var [unfolded var_node_def]
      var_node_def check_path_validity_def is_moved_status_def)

lemma plain_pass_update:
  "plain_pass tc ms \<Longrightarrow> plain_pass (tc\<lparr>mt_move_state := Some ms'\<rparr>) ms'"
  by (simp add: plain_pass_def)



section \<open>Straight-line code\<close>





















definition demo_type :: ty where
  "demo_type = Ty 1 TYPE_STRUCT (Some ''Box'') None None [] False False False 0 True False"

definition demo_tc :: move_tc where
  "demo_tc = \<lparr>mt_move_state = Some fresh_state, mt_in_loop_pass2 = False, mt_loop_start_state = None,
     mt_is_forget_receiver = False, mt_recursion_depth = 3,
     mt_copy = \<lparr>cc_impls = [(''Drop'', ''Box'')], cc_structs = (\<lambda>_. None)\<rparr>, mt_errors = []\<rparr>"

lemma demo_ok: "plain_pass demo_tc fresh_state" "owned demo_tc demo_type"
  by (simp_all add: plain_pass_def owned_def demo_tc_def demo_type_def is_type_copy.simps(2)
      MAX_RECURSION_DEPTH_def)


text \<open>
  A partial move does not hinder a use of the whole: after \<open>x.f\<close> is moved, a use of \<open>x\<close>, which
  takes the moved part along, reports no error.
\<close>

theorem partial_move_unseen:
  assumes "plain_pass tc ms" and "owned tc t" and "get_move_status (Some ms) x = MOVE_STATE_VALID"
    and "length x + length f + 1 < MAX_ERROR_MSG_LEN" and "Suc (mt_recursion_depth tc) < MAX_RECURSION_DEPTH"
  shows "(let moved = fst (mark_symbol_moved tc None [member_node (var_node x tk ti) f tk (Some t)])
        in get_move_status (mt_move_state moved) (x @ ''.'' @ f) = MOVE_STATE_MOVED
           \<and> check_use_validity moved [var_node x use ti'] = moved)"
proof -
  have "get_node_path [member_node (var_node x tk ti) f tk (Some t)] 0 (mt_recursion_depth tc) = Some (x @ ''.'' @ f)"
    using assms(1,4,5) by (simp add: node_path_member node_path_var plain_pass_def)
  then have m: "fst (mark_symbol_moved tc None [member_node (var_node x tk ti) f tk (Some t)])
      = tc\<lparr>mt_move_state := Some (mark_moved_in_state ms (x @ ''.'' @ f) tk)\<rparr>"
    using assms(1,2) by (simp add: mark_symbol_moved_def plain_pass_def owned_def Let_def member_node_def)
  have "x \<noteq> x @ ''.'' @ f" by simp
  then have "get_move_status (Some (mark_moved_in_state ms (x @ ''.'' @ f) tk)) x = MOVE_STATE_VALID"
    using assms(3) by (simp del: append.simps)
  then show ?thesis
    unfolding Let_def m using check_var_valid [OF plain_pass_update [OF assms(1)]]
    by (simp del: append.simps)
qed

theorem partial_move_unseen_witness:
  "mt_errors (check_use_validity
     (fst (mark_symbol_moved demo_tc None
        [member_node (var_node ''p'' TOKEN_UNKNOWN None) ''b'' TOKEN_UNKNOWN (Some demo_type)]))
     [var_node ''p'' TOKEN_UNKNOWN None]) = []"
proof -
  have "get_move_status (Some fresh_state) ''p'' = MOVE_STATE_VALID"
    by (simp add: move_state_create_def get_move_status.simps(2) entry_of_def)
  from partial_move_unseen [OF demo_ok this, of "''b''" TOKEN_UNKNOWN None TOKEN_UNKNOWN None]
  have "check_use_validity
     (fst (mark_symbol_moved demo_tc None
        [member_node (var_node ''p'' TOKEN_UNKNOWN None) ''b'' TOKEN_UNKNOWN (Some demo_type)]))
     [var_node ''p'' TOKEN_UNKNOWN None] =
     fst (mark_symbol_moved demo_tc None
        [member_node (var_node ''p'' TOKEN_UNKNOWN None) ''b'' TOKEN_UNKNOWN (Some demo_type)])"
    by (simp add: MAX_ERROR_MSG_LEN_def MAX_RECURSION_DEPTH_def demo_tc_def Let_def)
  then show ?thesis
    by (auto simp: mark_symbol_moved_def Let_def demo_tc_def split: option.splits)
qed

end
