(* ===== verification/ZcConstFold.thy ===== *)
theory ZcConstFold
  imports ZcSymbols
begin

unbundle bit_operations_syntax

text \<open>
  Constant folding of integer expressions: \<open>eval_const_int_expr\<close> of
  \<open>src/src/analysis/const_fold.c\<close>. Its result is no value (\<open>return 0\<close>), a \<open>long long\<close>, or \<open>UB\<close> where the
  C code computes an undefined expression: signed overflow, a shift by a bad count or of a
  negative value, the quotient of the least value by -1 (which traps), or \<open>strcmp\<close> of NULL. It also
  returns the context, in which it marks the constants it read as used.
\<close>

datatype fold = No_value | UB | Value i64

definition checked :: "int \<Rightarrow> fold" where
  "checked i = (if in_i64 i then Value (word_of_int i) else UB)"

definition truth :: "bool \<Rightarrow> fold" where
  "truth b = Value (if b then 1 else 0)"

definition fold_divide :: "i64 \<Rightarrow> i64 \<Rightarrow> fold" where
  "fold_divide left right =
     (if right = 0 then No_value else checked (c_div (sint left) (sint right)))"

definition fold_modulo :: "i64 \<Rightarrow> i64 \<Rightarrow> fold" where
  "fold_modulo left right =
     (if right = 0 then No_value
      else if \<not> in_i64 (c_div (sint left) (sint right)) then UB
      else Value (word_of_int (c_mod (sint left) (sint right))))"

definition fold_shl :: "i64 \<Rightarrow> i64 \<Rightarrow> fold" where
  "fold_shl left right =
     (if sint right < 0 \<or> 64 \<le> sint right \<or> sint left < 0 then UB
      else checked (sint left * 2 ^ nat (sint right)))"

definition fold_shr :: "i64 \<Rightarrow> i64 \<Rightarrow> fold" where
  "fold_shr left right =
     (if sint right < 0 \<or> 64 \<le> sint right then UB
      else Value (word_of_int (sint left div 2 ^ nat (sint right))))"

definition fold_binary :: "string \<Rightarrow> i64 \<Rightarrow> i64 \<Rightarrow> fold" where
  "fold_binary op left right =
     (if op = ''+'' then checked (sint left + sint right)
      else if op = ''-'' then checked (sint left - sint right)
      else if op = ''*'' then checked (sint left * sint right)
      else if op = ''/'' then fold_divide left right
      else if op = ''%'' then fold_modulo left right
      else if op = ''<<'' then fold_shl left right
      else if op = ''>>'' then fold_shr left right
      else if op = ''&'' then Value (left AND right)
      else if op = ''|'' then Value (left OR right)
      else if op = ''^'' then Value (left XOR right)
      else if op = ''=='' then truth (left = right)
      else if op = ''!='' then truth (left \<noteq> right)
      else if op = ''<'' then truth (sint left < sint right)
      else if op = ''>'' then truth (sint left > sint right)
      else if op = ''<='' then truth (sint left \<le> sint right)
      else if op = ''>='' then truth (sint left \<ge> sint right)
      else if op = ''&&'' then truth (left \<noteq> 0 \<and> right \<noteq> 0)
      else if op = ''||'' then truth (left \<noteq> 0 \<or> right \<noteq> 0)
      else No_value)"

definition fold_unary :: "string \<Rightarrow> i64 \<Rightarrow> fold" where
  "fold_unary op operand =
     (if op = ''-'' then checked (- sint operand)
      else if op = ''+'' then Value operand
      else if op = ''~'' then Value (NOT operand)
      else if op = ''!'' then truth (operand = 0)
      else No_value)"

definition fold_var :: "pctx \<Rightarrow> string option \<Rightarrow> fold \<times> pctx" where
  "fold_var ctx name =
     (case name of
        None \<Rightarrow> (UB, ctx)
      | Some n \<Rightarrow>
          if n = ''true'' then (Value 1, ctx)
          else if n = ''false'' then (Value 0, ctx)
          else
            (case find_symbol_entry ctx n of
               Some y \<Rightarrow>
                 if sy_is_const_value y then
                   (Value (sy_const_int_val y),
                    ctx\<lparr>pc_scopes := symbol_update (pc_scopes ctx) n (\<lambda>y. y\<lparr>sy_is_used := True\<rparr>)\<rparr>)
                 else
                   (case find_enum_variant ctx n of
                      Some ev \<Rightarrow> (Value (scast (ev_tag_id ev)), ctx)
                    | None \<Rightarrow> (No_value, ctx))
             | None \<Rightarrow>
                 (case find_enum_variant ctx n of
                    Some ev \<Rightarrow> (Value (scast (ev_tag_id ev)), ctx)
                  | None \<Rightarrow> (No_value, ctx))))"

text \<open>Both operands are evaluated before the operator is looked at; the first that has no value ends
  the evaluation.\<close>

function eval_const_int_expr :: "node list \<Rightarrow> pctx \<Rightarrow> fold \<times> pctx" where
  "eval_const_int_expr [] ctx = (No_value, ctx)"
| "eval_const_int_expr (n # _) ctx =
     (case n of
        Literal _ k i _ _ \<Rightarrow> (if k = LITERAL_INT then (Value i, ctx) else (No_value, ctx))
      | VarRef _ name _ \<Rightarrow> fold_var ctx name
      | Binary _ op left right \<Rightarrow>
          (case eval_const_int_expr left ctx of
             (Value a, ctx1) \<Rightarrow>
               (case eval_const_int_expr right ctx1 of
                  (Value b, ctx2) \<Rightarrow>
                    (case op of None \<Rightarrow> (UB, ctx2) | Some oper \<Rightarrow> (fold_binary oper a b, ctx2))
                | r \<Rightarrow> r)
           | r \<Rightarrow> r)
      | Unary _ op operand \<Rightarrow>
          (case eval_const_int_expr operand ctx of
             (Value a, ctx1) \<Rightarrow>
               (case op of None \<Rightarrow> (UB, ctx1) | Some oper \<Rightarrow> (fold_unary oper a, ctx1))
           | r \<Rightarrow> r)
      | _ \<Rightarrow> (No_value, ctx))"
  by pat_completeness auto
termination by (relation "measure (\<lambda>(c, _). size_list size c)") auto

declare eval_const_int_expr.simps(2) [simp del]

section \<open>What an integer expression means\<close>

text \<open>The value of an expression over the integers, with the short circuit of \<open>&&\<close> and \<open>||\<close>. An
  expression whose evaluation is an error in the source language has none. A literal is the number that
  was read, \<open>unsigned long long int_val\<close>.\<close>

definition exact_binary :: "string \<Rightarrow> int \<Rightarrow> int \<Rightarrow> int option" where
  "exact_binary op x y =
     (if op = ''+'' then Some (x + y)
      else if op = ''-'' then Some (x - y)
      else if op = ''*'' then Some (x * y)
      else if op = ''/'' then (if y = 0 then None else Some (c_div x y))
      else if op = ''%'' then (if y = 0 then None else Some (c_mod x y))
      else if op = ''<<'' then (if y < 0 \<or> x < 0 then None else Some (x * 2 ^ nat y))
      else if op = ''>>'' then (if y < 0 then None else Some (x div 2 ^ nat y))
      else if op = ''&'' then Some (x AND y)
      else if op = ''|'' then Some (x OR y)
      else if op = ''^'' then Some (x XOR y)
      else if op = ''=='' then Some (if x = y then 1 else 0)
      else if op = ''!='' then Some (if x \<noteq> y then 1 else 0)
      else if op = ''<'' then Some (if x < y then 1 else 0)
      else if op = ''>'' then Some (if x > y then 1 else 0)
      else if op = ''<='' then Some (if x \<le> y then 1 else 0)
      else if op = ''>='' then Some (if x \<ge> y then 1 else 0)
      else None)"

definition exact_unary :: "string \<Rightarrow> int \<Rightarrow> int option" where
  "exact_unary op x =
     (if op = ''-'' then Some (- x)
      else if op = ''+'' then Some x
      else if op = ''~'' then Some (NOT x)
      else if op = ''!'' then Some (if x = 0 then 1 else 0)
      else None)"

definition boolean :: "int \<Rightarrow> int" where "boolean x = (if x \<noteq> 0 then 1 else 0)"

function exact :: "(string \<Rightarrow> int option) \<Rightarrow> node list \<Rightarrow> int option" where
  "exact env [] = None"
| "exact env (n # _) =
     (case n of
        Literal _ k i _ _ \<Rightarrow> (if k = LITERAL_INT then Some (uint i) else None)
      | VarRef _ name _ \<Rightarrow> (case name of None \<Rightarrow> None | Some x \<Rightarrow> env x)
      | Binary _ (Some op) left right \<Rightarrow>
          (case exact env left of
             None \<Rightarrow> None
           | Some x \<Rightarrow>
               if op = ''&&'' \<and> x = 0 then Some 0
               else if op = ''||'' \<and> x \<noteq> 0 then Some 1
               else (case exact env right of
                       None \<Rightarrow> None
                     | Some y \<Rightarrow>
                         if op = ''&&'' \<or> op = ''||'' then Some (boolean y) else exact_binary op x y))
      | Unary _ (Some op) operand \<Rightarrow>
          (case exact env operand of None \<Rightarrow> None | Some x \<Rightarrow> exact_unary op x)
      | _ \<Rightarrow> None)"
  by pat_completeness auto
termination by (relation "measure (\<lambda>(_, c). size_list size c)") auto

declare exact.simps(2) [simp del]

text \<open>The integer literals of an expression are below \<open>2^63\<close>: the numbers that the cast of
  \<open>int_val\<close> to \<open>long long\<close> keeps.\<close>

function literals_fit :: "node list \<Rightarrow> bool" where
  "literals_fit [] \<longleftrightarrow> True"
| "literals_fit (n # _) \<longleftrightarrow>
     (case n of
        Literal _ k i _ _ \<Rightarrow> k = LITERAL_INT \<longrightarrow> uint i < 2 ^ 63
      | Binary _ _ left right \<Rightarrow> literals_fit left \<and> literals_fit right
      | Unary _ _ operand \<Rightarrow> literals_fit operand
      | _ \<Rightarrow> True)"
  by pat_completeness auto
termination by (relation "measure (size_list size)") auto

declare literals_fit.simps(2) [simp del]

text \<open>What the names of a context denote.\<close>

definition const_env :: "pctx \<Rightarrow> string \<Rightarrow> int option" where
  "const_env ctx n =
     (if n = ''true'' then Some 1
      else if n = ''false'' then Some 0
      else
        (case find_symbol_entry ctx n of
           Some y \<Rightarrow>
             if sy_is_const_value y then Some (sint (sy_const_int_val y))
             else map_option (\<lambda>ev. sint (ev_tag_id ev)) (find_enum_variant ctx n)
         | None \<Rightarrow> map_option (\<lambda>ev. sint (ev_tag_id ev)) (find_enum_variant ctx n)))"

section \<open>Soundness\<close>

lemma sint_zero_iff [simp]: "sint (a :: i64) = 0 \<longleftrightarrow> a = 0"
  by (simp add: signed_eq_0_iff)

lemma sint_inject [simp]: "sint (a :: i64) = sint b \<longleftrightarrow> a = b"
  by (rule signed_word_eqI [THEN iffI [OF _ arg_cong]])

lemma sint_small: "uint (i :: i64) < 2 ^ 63 \<Longrightarrow> sint i = uint i"
proof -
  assume "uint i < 2 ^ 63"
  then show ?thesis
    using uint_ge_0 [of i] by (simp add: sint_uint signed_take_bit_int_eq_self_iff order_trans [of _ 0])
qed

lemma sint_not: "sint (NOT (a :: i64)) = NOT (sint a)"
proof -
  have "in_i64 (NOT (sint a))"
    using sint_i64_bounds [of a] by (simp add: in_i64_def not_int_def)
  moreover have "NOT a = word_of_int (NOT (sint a))" by (simp add: not_eq_complement)
  ultimately show ?thesis using sint_of_int_i64 by metis
qed

lemma sint_scast_i32: "sint (scast (w :: i32) :: i64) = sint w"
proof -
  have "- (2 ^ 31) \<le> sint w" "sint w < 2 ^ 31" using sint_ge [of w] sint_lt [of w] by simp_all
  then have "in_i64 (sint w)" by (simp add: in_i64_def)
  then show ?thesis unfolding scast_eq by (rule sint_of_int_i64)
qed

lemma c_div_mod_0 [simp]: "c_div 0 b = 0" "c_mod 0 b = 0"
  by (simp_all add: c_div_def c_mod_def)

lemma checked_Value: "checked i = Value v \<Longrightarrow> sint v = i"
  by (auto simp: checked_def sint_of_int_i64 split: if_splits)

lemma truth_Value: "truth b = Value v \<Longrightarrow> sint v = (if b then 1 else 0)"
  by (auto simp: truth_def split: if_splits)

lemma shift_right_in_i64: "in_i64 (sint (a :: i64) div 2 ^ k)"
proof -
  have "sint a div 2 ^ k < 2 ^ 63"
    using sint_i64_bounds(2) [of a] by (smt (verit) div_le_dividend pos_imp_zdiv_neg_iff zdiv_mono2 int_div_less_self zero_less_power div_by_1 one_le_power)
  moreover have "- (2 ^ 63) \<le> sint a div 2 ^ k"
  proof -
    have "2 ^ 63 * 1 \<le> 2 ^ 63 * (2 ^ k :: int)" by (rule mult_left_mono) simp_all
    then have "- (2 ^ 63 * 2 ^ k) \<le> sint a" using sint_i64_bounds(1) [of a] by linarith
    then have "- (2 ^ 63) * 2 ^ k \<le> sint a" by (simp only: mult_minus_left)
    then have "(- (2 ^ 63) * 2 ^ k) div 2 ^ k \<le> sint a div 2 ^ k" by (rule zdiv_mono1) simp
    moreover have "(- (2 ^ 63) * 2 ^ k) div 2 ^ k = (- (2 ^ 63) :: int)"
      by (rule nonzero_mult_div_cancel_right) simp
    ultimately show ?thesis by (simp only:)
  qed
  ultimately show ?thesis by (simp add: in_i64_def)
qed

lemma c_mod_in_i64: "b \<noteq> 0 \<Longrightarrow> in_i64 (c_mod (sint (a :: i64)) (sint (b :: i64)))"
proof -
  assume "b \<noteq> 0"
  then have "0 < \<bar>sint b\<bar>" by (simp add: signed_eq_0_iff)
  then have "0 \<le> \<bar>sint a\<bar> mod \<bar>sint b\<bar>" "\<bar>sint a\<bar> mod \<bar>sint b\<bar> < \<bar>sint b\<bar>" by simp_all
  then show ?thesis
    using sint_i64_bounds [of b] by (auto simp: c_mod_def in_i64_def sgn_if)
qed

lemma fold_binary_sound:
  assumes "fold_binary op a b = Value v" "op \<noteq> ''&&''" "op \<noteq> ''||''"
  shows "exact_binary op (sint a) (sint b) = Some (sint v)"
  using assms
  by (auto simp: fold_binary_def exact_binary_def fold_divide_def fold_modulo_def fold_shl_def
      fold_shr_def signed_and_eq signed_or_eq signed_xor_eq sint_of_int_i64 shift_right_in_i64
      c_mod_in_i64 dest!: checked_Value truth_Value split: if_splits)

lemma fold_logic_sound:
  assumes "fold_binary op a b = Value v"
  shows "op = ''&&'' \<Longrightarrow> sint v = (if sint a = 0 then 0 else boolean (sint b))"
    and "op = ''||'' \<Longrightarrow> sint v = (if sint a \<noteq> 0 then 1 else boolean (sint b))"
  using assms by (auto simp: fold_binary_def truth_def boolean_def split: if_splits)

lemma fold_unary_sound: "fold_unary op a = Value v \<Longrightarrow> exact_unary op (sint a) = Some (sint v)"
  by (auto simp: fold_unary_def exact_unary_def sint_not dest!: checked_Value truth_Value
      split: if_splits)

text \<open>Evaluation only sets \<open>is_used\<close>.\<close>

definition unused :: "symbol \<Rightarrow> symbol" where "unused y = y\<lparr>sy_is_used := False\<rparr>"

definition same_but_used :: "pctx \<Rightarrow> pctx \<Rightarrow> bool" where
  "same_but_used c d \<longleftrightarrow>
     (\<forall>n. map_option unused (find_symbol_entry c n) = map_option unused (find_symbol_entry d n))
     \<and> pc_enum_variants c = pc_enum_variants d \<and> pc_all_symbols c = pc_all_symbols d
     \<and> length (pc_scopes c) = length (pc_scopes d)"

lemma same_but_used_refl [simp]: "same_but_used c c"
  by (simp add: same_but_used_def)

lemma same_but_used_trans: "same_but_used c d \<Longrightarrow> same_but_used d e \<Longrightarrow> same_but_used c e"
  by (simp add: same_but_used_def)

lemma same_but_used_enum: "same_but_used c d \<Longrightarrow> find_enum_variant c n = find_enum_variant d n"
  by (simp add: same_but_used_def find_enum_variant_def)

lemma same_but_used_env: "same_but_used c d \<Longrightarrow> const_env c = const_env d"
proof (rule ext)
  fix n
  assume s: "same_but_used c d"
  then have "map_option unused (find_symbol_entry c n) = map_option unused (find_symbol_entry d n)"
    by (simp add: same_but_used_def)
  then have "map_option (\<lambda>y. (sy_is_const_value y, sy_const_int_val y)) (find_symbol_entry c n)
      = map_option (\<lambda>y. (sy_is_const_value y, sy_const_int_val y)) (find_symbol_entry d n)"
    by (cases "find_symbol_entry c n"; cases "find_symbol_entry d n")
      (auto simp: unused_def, (metis symbol.select_convs symbol.surjective symbol.update_convs)+)
  then show "const_env c n = const_env d n"
    using same_but_used_enum [OF s] by (auto simp: const_env_def split: option.splits)
qed

lemma fold_var_frame: "same_but_used ctx (snd (fold_var ctx name))"
  by (auto simp: fold_var_def same_but_used_def find_symbol_entry_def lookup_update unused_def
      option.map_comp comp_def split: option.split)

lemma fold_var_sound: "fold_var ctx (Some n) = (Value v, ctx') \<Longrightarrow> const_env ctx n = Some (sint v)"
  by (auto simp: fold_var_def const_env_def sint_scast_i32 split: option.splits if_splits)

text \<open>The result of evaluating with the context changed only in \<open>is_used\<close>.\<close>

lemma eval_frame: "same_but_used ctx (snd (eval_const_int_expr c ctx))"
proof (induction c ctx rule: eval_const_int_expr.induct)
  case (2 n ns ctx)
  show ?case
  proof (cases n)
    case (Binary m op left right)
    obtain r1 c1 where l: "eval_const_int_expr left ctx = (r1, c1)" by (cases "eval_const_int_expr left ctx")
    obtain r2 c2 where r: "eval_const_int_expr right c1 = (r2, c2)" by (cases "eval_const_int_expr right c1")
    have "same_but_used ctx c1" using 2(1) [OF Binary] l by simp
    moreover have "same_but_used c1 c2" if "r1 = Value a" for a
      using 2(2) [OF Binary l [unfolded that, symmetric] refl] r by simp
    ultimately show ?thesis
      using Binary l r same_but_used_trans
      by (auto simp: eval_const_int_expr.simps(2) split: fold.splits option.splits)
  next
    case (Unary m op operand)
    with 2(3) [OF Unary] show ?thesis
      by (auto simp: eval_const_int_expr.simps(2) split: fold.splits option.splits prod.splits)
  qed (auto simp: eval_const_int_expr.simps(2) fold_var_frame)
qed simp

lemma eval_sound:
  "eval_const_int_expr c ctx = (Value v, ctx') \<Longrightarrow> literals_fit c \<Longrightarrow>
     exact (const_env ctx) c = Some (sint v)"
proof (induction c ctx arbitrary: v ctx' rule: eval_const_int_expr.induct)
  case (2 n ns ctx)
  show ?case
  proof (cases n)
    case (Literal m k i f s)
    with 2(4,5) show ?thesis
      by (auto simp: eval_const_int_expr.simps(2) exact.simps(2) literals_fit.simps(2) sint_small
          split: if_splits)
  next
    case (VarRef m name y)
    with 2(4) fold_var_sound show ?thesis
      by (cases name) (auto simp: eval_const_int_expr.simps(2) exact.simps(2) fold_var_def)
  next
    case (Binary m op left right)
    obtain a c1 b oper where l: "eval_const_int_expr left ctx = (Value a, c1)"
      and r: "eval_const_int_expr right c1 = (Value b, ctx')"
      and op: "op = Some oper" and v: "fold_binary oper a b = Value v"
      using 2(4) Binary
      by (auto simp: eval_const_int_expr.simps(2) split: fold.splits option.splits prod.splits)
    have "const_env c1 = const_env ctx"
      using same_but_used_env [OF eval_frame [of ctx left]] l by simp
    moreover have "literals_fit left" "literals_fit right"
      using 2(5) Binary by (simp_all add: literals_fit.simps(2))
    ultimately have "exact (const_env ctx) left = Some (sint a)" "exact (const_env ctx) right = Some (sint b)"
      using 2(1) [OF Binary l] 2(2) [OF Binary l [symmetric] refl r] by simp_all
    then show ?thesis
      using Binary op fold_binary_sound [OF v] fold_logic_sound [OF v]
      by (auto simp: exact.simps(2))
  next
    case (Unary m op operand)
    obtain a oper where l: "eval_const_int_expr operand ctx = (Value a, ctx')"
      and op: "op = Some oper" and v: "fold_unary oper a = Value v"
      using 2(4) Unary
      by (auto simp: eval_const_int_expr.simps(2) split: fold.splits option.splits prod.splits)
    then show ?thesis
      using Unary 2(3) [OF Unary l] 2(5) fold_unary_sound [OF v]
      by (simp add: exact.simps(2) literals_fit.simps(2))
  qed (use 2(4) in \<open>auto simp: eval_const_int_expr.simps(2)\<close>)
qed simp

text \<open>
  C2: folding is exact: when \<open>eval_const_int_expr\<close> returns a value for an expression whose integer
  literals are below \<open>2^63\<close>, the expression has a value over the unbounded integers (with
  short-circuit logic, C division, and the constants and enum variants in scope as its names) and it
  is that value; no result is wrapped around.
\<close>

theorem const_fold_exact:
  assumes "eval_const_int_expr c ctx = (Value v, ctx')" and "literals_fit c"
  shows "exact (const_env ctx) c = Some (sint v)"
  using assms by (rule eval_sound)

definition int_lit :: "i64 \<Rightarrow> node" where
  "int_lit i = Literal (Meta TOKEN_UNKNOWN None []) LITERAL_INT i (Finite 0 0) None"

definition bin :: "string \<Rightarrow> node \<Rightarrow> node \<Rightarrow> node" where
  "bin op l r = Binary (Meta TOKEN_UNKNOWN None []) (Some op) [l] [r]"

lemmas fold_eval =
  eval_const_int_expr.simps(2) int_lit_def bin_def fold_binary_def fold_unary_def checked_def truth_def
  fold_divide_def fold_modulo_def fold_shl_def fold_shr_def in_i64_def c_div_def c_mod_def

theorem const_fold_exact_witness:
  "exact (const_env empty_pctx) [bin ''-'' (int_lit 3) (bin ''*'' (int_lit 4) (int_lit 5))] = Some (-17)"
proof -
  have "eval_const_int_expr [bin ''-'' (int_lit 3) (bin ''*'' (int_lit 4) (int_lit 5))] empty_pctx
      = (Value (-17), empty_pctx)"
    by (simp add: fold_eval)
  moreover have "literals_fit [bin ''-'' (int_lit 3) (bin ''*'' (int_lit 4) (int_lit 5))]"
    by (simp add: literals_fit.simps(2) int_lit_def bin_def)
  ultimately show ?thesis using const_fold_exact by fastforce
qed

text \<open>A literal from \<open>2^63\<close> up is folded to a negative number: \<open>int_val\<close> is unsigned, the result
  is a \<open>long long\<close>. So \<open>0x8000000000000000 < 1\<close> is folded to true.\<close>

theorem const_fold_large_literal:
  "fst (eval_const_int_expr [int_lit 0x8000000000000000] ctx) = Value (- 0x8000000000000000)
   \<and> exact (const_env ctx) [int_lit 0x8000000000000000] = Some (2 ^ 63)
   \<and> fst (eval_const_int_expr [bin ''<'' (int_lit 0x8000000000000000) (int_lit 1)] ctx) = Value 1
   \<and> exact (const_env ctx) [bin ''<'' (int_lit 0x8000000000000000) (int_lit 1)] = Some 0"
  by (simp add: fold_eval exact.simps(2) exact_binary_def)

text \<open>
  Folding leaves the symbol table as it is but for the marks: every name looks up the same symbol
  up to \<open>is_used\<close>, and variants, scopes and the list of all symbols are unchanged.
\<close>

theorem const_fold_marks_only:
  "map_option unused (find_symbol_entry (snd (eval_const_int_expr c ctx)) n)
     = map_option unused (find_symbol_entry ctx n)
   \<and> pc_enum_variants (snd (eval_const_int_expr c ctx)) = pc_enum_variants ctx
   \<and> pc_all_symbols (snd (eval_const_int_expr c ctx)) = pc_all_symbols ctx"
  using eval_frame [of ctx c] by (simp add: same_but_used_def)

text \<open>
  The guards against a zero divisor do not cover every division and shift: folding the quotient
  or the remainder of the least integer by -1 (which traps), a shift by 64, or the sum of the
  greatest integer and 1 executes undefined behaviour in the compiler.
\<close>

theorem const_fold_unguarded:
  "fst (eval_const_int_expr [bin ''/'' (int_lit 0x8000000000000000) (int_lit (-1))] ctx) = UB
   \<and> fst (eval_const_int_expr [bin ''%'' (int_lit 0x8000000000000000) (int_lit (-1))] ctx) = UB
   \<and> fst (eval_const_int_expr [bin ''<<'' (int_lit 1) (int_lit 64)] ctx) = UB
   \<and> fst (eval_const_int_expr [bin ''+'' (int_lit 0x7FFFFFFFFFFFFFFF) (int_lit 1)] ctx) = UB"
  by (simp add: fold_eval)

end
