(* ===== verification/ZcComptime.thy ===== *)
theory ZcComptime
  imports ZcConstFold
begin

text \<open>
  The compile-time interpreter \<open>src/src/analysis/comptime_interpreter.c\<close>. Values and the interpreter's
  state are those of the source. A result is \<open>None\<close> when the fuel of the model runs out. Every
  function of the source that calls \<open>eval_expr\<close> or \<open>exec_stmt\<close> takes them here as arguments (\<open>ev\<close> and
  \<open>ex\<close>); the recursive functions that close the knot come last.

  \<open>ci_ub\<close> records that the C code has run into undefined behaviour: signed overflow, the conversion
  of a \<open>double\<close> out of range, or a NULL pointer, which also ends the run.
\<close>

section \<open>Values, scope and state\<close>

definition MAX_STEPS :: nat where "MAX_STEPS = 1000000"
definition MAX_RECURSION :: nat where "MAX_RECURSION = 64"
definition MAX_YIELD :: nat where "MAX_YIELD = 1024 * 1024"

datatype CValue =
  VAL_NULL | VAL_INT i64 | VAL_BOOL bool | VAL_STRING string | VAL_ARRAY "CValue list"

type_synonym CScope = "(string \<times> CValue) list"

record interp =
  ci_funcs :: "node list"
  ci_scope :: CScope
  ci_yield :: string
  ci_yield_cap :: nat
  ci_source_file :: "string option"
  ci_system_name :: string
  ci_step_count :: nat
  ci_rec_depth :: nat
  ci_error :: bool
  ci_errors :: "(token \<times> string) list"
  ci_warnings :: "string list"
  ci_ub :: bool

definition scope_push :: "CScope \<Rightarrow> string \<Rightarrow> CValue \<Rightarrow> CScope" where
  "scope_push head name val = (name, val) # head"

definition scope_pop :: "CScope \<Rightarrow> CScope" where
  "scope_pop head = tl head"

definition scope_find :: "CScope \<Rightarrow> string \<Rightarrow> CValue option" where
  "scope_find head name = map_option snd (List.find (\<lambda>(n, _). n = name) head)"

text \<open>A write through the pointer that \<open>scope_find\<close> returned.\<close>

definition scope_store :: "CScope \<Rightarrow> string \<Rightarrow> CValue \<Rightarrow> CScope" where
  "scope_store head name val = update_first (\<lambda>(n, _). n = name) (\<lambda>(n, _). (n, val)) head"

definition zerror :: "token \<Rightarrow> string \<Rightarrow> interp \<Rightarrow> interp" where
  "zerror t msg ci =
     ci\<lparr>ci_errors := ci_errors ci @ [(t, snprintf_into 2048 msg)], ci_error := True\<rparr>"

definition crash :: "interp \<Rightarrow> interp" where
  "crash ci = ci\<lparr>ci_ub := True, ci_error := True\<rparr>"

text \<open>\<open>zerror_at(node->token, ...)\<close> of a node that may be NULL.\<close>

definition zerror_node :: "node list \<Rightarrow> string \<Rightarrow> interp \<Rightarrow> interp" where
  "zerror_node c msg ci = (case c of [] \<Rightarrow> crash ci | n # _ \<Rightarrow> zerror (nd_token n) msg ci)"

section \<open>String literals\<close>

definition simple_escape :: "char \<Rightarrow> char option" where
  "simple_escape c =
     (if c = CHR ''n'' then Some NL
      else if c = CHR ''t'' then Some (CHR 0x09)
      else if c = CHR ''r'' then Some CR
      else if c = CHR ''a'' then Some (CHR 0x07)
      else if c = CHR ''b'' then Some (CHR 0x08)
      else if c = CHR ''f'' then Some (CHR 0x0C)
      else if c = CHR ''v'' then Some (CHR 0x0B)
      else if c = CHR ''e'' then Some (CHR 0x1B)
      else None)"

definition is_octal_digit :: "char \<Rightarrow> bool" where
  "is_octal_digit c \<longleftrightarrow> 48 \<le> ord c \<and> ord c \<le> 55"

definition hex_digit_value :: "char \<Rightarrow> nat" where
  "hex_digit_value c =
     (if ord c \<le> 57 then ord c - 48 else if ord c \<le> 70 then ord c - 65 + 10 else ord c - 97 + 10)"

definition digits_value :: "nat \<Rightarrow> string \<Rightarrow> nat" where
  "digits_value base ds = foldl (\<lambda>v c. v * base + hex_digit_value c) 0 ds"

function unescape_c_string :: "string \<Rightarrow> string" where
  "unescape_c_string [] = []"
| "unescape_c_string (c # s) =
     (if c \<noteq> BSLASH \<or> s = [] then c # unescape_c_string s
      else
        (let d = hd s; s1 = tl s in
         case simple_escape d of
           Some x \<Rightarrow> x # unescape_c_string s1
         | None \<Rightarrow>
             if d = CHR ''x'' then
               (let ds = takeWhile isxdigit (take 2 s1)
                in char_of (digits_value 16 ds) # unescape_c_string (drop (length ds) s1))
             else if is_octal_digit d then
               (let ds = takeWhile is_octal_digit (take 2 s1)
                in char_of (digits_value 8 (d # ds)) # unescape_c_string (drop (length ds) s1))
             else d # unescape_c_string s1))"
  by pat_completeness auto
termination by (relation "measure length") auto

declare unescape_c_string.simps(2) [simp del]

text \<open>The bytes are stored as a C string: what follows a NUL is lost.\<close>

definition string_literal_value :: "LiteralKind \<Rightarrow> string option \<Rightarrow> CValue" where
  "string_literal_value kind string_val =
     (let txt = (case string_val of None \<Rightarrow> [] | Some s \<Rightarrow> s)
      in if kind = LITERAL_RAW_STRING then VAL_STRING txt
         else VAL_STRING (cstr (unescape_c_string txt)))"

section \<open>The yield buffer\<close>

function grow_to :: "nat \<Rightarrow> nat \<Rightarrow> nat" where
  "grow_to need cap = (if need \<le> cap \<or> cap = 0 then cap else grow_to need (cap * 2))"
  by pat_completeness auto
termination by (relation "measure (\<lambda>(need, cap). need - cap)") auto

declare grow_to.simps [simp del]

definition yield_new_cap :: "interp \<Rightarrow> nat \<Rightarrow> nat" where
  "yield_new_cap ci len =
     grow_to (length (ci_yield ci) + len + 1) (if ci_yield_cap ci \<noteq> 0 then ci_yield_cap ci * 2 else 4096)"

definition yield_append :: "interp \<Rightarrow> string \<Rightarrow> interp" where
  "yield_append ci s =
     (if length (ci_yield ci) + length s + 1 > ci_yield_cap ci then
        (let new_cap = yield_new_cap ci (length s)
         in if new_cap > MAX_YIELD then
              zerror TOKEN_UNKNOWN ''comptime yield buffer exceeded max size (1 MiB)'' ci
            else ci\<lparr>ci_yield_cap := new_cap, ci_yield := ci_yield ci @ s\<rparr>)
      else ci\<lparr>ci_yield := ci_yield ci @ s\<rparr>)"

section \<open>Expressions\<close>

type_synonym eval_fn = "interp \<Rightarrow> node list \<Rightarrow> (CValue \<times> interp) option"
type_synonym exec_fn = "interp \<Rightarrow> node list \<Rightarrow> interp option"

definition and_then :: "('a \<times> interp) option \<Rightarrow> ('a \<Rightarrow> interp \<Rightarrow> 'b option) \<Rightarrow> 'b option" where
  "and_then m f = (case m of None \<Rightarrow> None | Some (v, ci) \<Rightarrow> f v ci)"

definition float_to_int :: "dbl \<Rightarrow> interp \<Rightarrow> CValue \<times> interp" where
  "float_to_int d ci =
     (case d of
        Not_finite \<Rightarrow> (VAL_INT 0, ci\<lparr>ci_ub := True\<rparr>)
      | Finite m e \<Rightarrow>
          (let i = (if 0 \<le> e then m * 2 ^ nat e else c_div m (2 ^ nat (- e)))
           in (VAL_INT (word_of_int i), if in_i64 i then ci else ci\<lparr>ci_ub := True\<rparr>)))"

fun eval_literal :: "interp \<Rightarrow> LiteralKind \<Rightarrow> i64 \<Rightarrow> dbl \<Rightarrow> string option \<Rightarrow> CValue \<times> interp" where
  "eval_literal ci LITERAL_INT i d s = (VAL_INT i, ci)"
| "eval_literal ci LITERAL_FLOAT i d s = float_to_int d ci"
| "eval_literal ci LITERAL_CHAR i d s = (VAL_INT i, ci)"
| "eval_literal ci k i d s = (string_literal_value k s, ci)"

definition eval_var :: "interp \<Rightarrow> token \<Rightarrow> string option \<Rightarrow> CValue \<times> interp" where
  "eval_var ci t name =
     (case name of
        None \<Rightarrow> (VAL_NULL, ci)
      | Some n \<Rightarrow>
          if n = ''__COMPTIME_TARGET__'' then (VAL_STRING (ci_system_name ci), ci)
          else if n = ''__COMPTIME_FILE__'' then
            (VAL_STRING (case ci_source_file ci of None \<Rightarrow> [] | Some f \<Rightarrow> f), ci)
          else if n = ''true'' then (VAL_BOOL True, ci)
          else if n = ''false'' then (VAL_BOOL False, ci)
          else
            (case scope_find (ci_scope ci) n of
               Some v \<Rightarrow> (v, ci)
             | None \<Rightarrow> (VAL_NULL, zerror t (''comptime: undefined variable '' @ [SQUOTE] @ n @ [SQUOTE]) ci)))"

definition eval_int :: "eval_fn \<Rightarrow> interp \<Rightarrow> node list \<Rightarrow> (i64 \<times> interp) option" where
  "eval_int ev ci c =
     and_then (ev ci c) (\<lambda>v ci.
       if ci_error ci then Some (0, ci)
       else (case v of
               VAL_INT i \<Rightarrow> Some (i, ci)
             | _ \<Rightarrow> Some (0, zerror_node c ''comptime: expected integer expression'' ci)))"

text \<open>The result of an operation whose exact value is \<open>i\<close>.\<close>

definition int_result :: "int \<Rightarrow> interp \<Rightarrow> CValue \<times> interp" where
  "int_result i ci =
     (VAL_INT (word_of_int i), if in_i64 i then ci else ci\<lparr>ci_ub := True\<rparr>)"

definition compare_ops :: "string list" where
  "compare_ops = [''=='', ''!='', ''<'', ''>'', ''<='', ''>='']"

definition compare_ints :: "string \<Rightarrow> i64 \<Rightarrow> i64 \<Rightarrow> bool" where
  "compare_ints op a b =
     (if op = ''=='' then a = b
      else if op = ''!='' then a \<noteq> b
      else if op = ''<'' then sint a < sint b
      else if op = ''>'' then sint a > sint b
      else if op = ''<='' then sint a \<le> sint b
      else sint a \<ge> sint b)"

definition int_binary :: "token \<Rightarrow> string \<Rightarrow> i64 \<Rightarrow> i64 \<Rightarrow> interp \<Rightarrow> CValue \<times> interp" where
  "int_binary t op a b ci =
     (if op = ''+'' then int_result (sint a + sint b) ci
      else if op = ''-'' then int_result (sint a - sint b) ci
      else if op = ''*'' then int_result (sint a * sint b) ci
      else if op = ''/'' then
        (if b = 0 then (VAL_NULL, zerror t ''comptime: division by zero'' ci)
         else int_result (c_div (sint a) (sint b)) ci)
      else if op = ''%'' then
        (if b = 0 then (VAL_NULL, zerror t ''comptime: modulo by zero'' ci)
         else (VAL_INT (word_of_int (c_mod (sint a) (sint b))),
               if in_i64 (c_div (sint a) (sint b)) then ci else ci\<lparr>ci_ub := True\<rparr>))
      else if op \<in> set compare_ops then (VAL_BOOL (compare_ints op a b), ci)
      else (VAL_INT 0, zerror t (''comptime: unsupported binary operator '' @ [SQUOTE] @ op @ [SQUOTE]) ci))"

text \<open>The truth of an operand of a logical operator, and of a condition.\<close>

fun truthy :: "CValue \<Rightarrow> bool" where
  "truthy (VAL_INT i) = (i \<noteq> 0)"
| "truthy (VAL_BOOL b) = b"
| "truthy _ = False"

definition binary_values :: "token \<Rightarrow> string \<Rightarrow> CValue \<Rightarrow> CValue \<Rightarrow> interp \<Rightarrow> CValue \<times> interp" where
  "binary_values t op left right ci =
     (if op = ''&&'' then (VAL_BOOL (truthy left \<and> truthy right), ci)
      else if op = ''||'' then (VAL_BOOL (truthy left \<or> truthy right), ci)
      else
        (case (left, right) of
           (VAL_INT a, VAL_INT b) \<Rightarrow> int_binary t op a b ci
         | _ \<Rightarrow> (VAL_NULL,
             zerror t (''comptime: operator '' @ [SQUOTE] @ op @ [SQUOTE] @ '' requires integer operands'') ci)))"

definition eval_binary ::
    "eval_fn \<Rightarrow> interp \<Rightarrow> token \<Rightarrow> string option \<Rightarrow> node list \<Rightarrow> node list \<Rightarrow> (CValue \<times> interp) option" where
  "eval_binary ev ci t op left right =
     and_then (ev ci left) (\<lambda>l ci.
       if ci_error ci then Some (VAL_NULL, ci)
       else
         (case op of
            None \<Rightarrow> Some (VAL_NULL, ci)
          | Some oper \<Rightarrow>
              and_then (ev ci right) (\<lambda>r ci.
                if ci_error ci then Some (VAL_NULL, ci)
                else
                  (case l of
                     VAL_STRING a \<Rightarrow>
                       if oper = ''+'' then
                         (case r of
                            VAL_STRING b \<Rightarrow> Some (VAL_STRING (a @ b), ci)
                          | _ \<Rightarrow> Some (VAL_NULL, zerror t ''comptime: cannot concatenate string with non-string'' ci))
                       else Some (binary_values t oper l r ci)
                   | _ \<Rightarrow> Some (binary_values t oper l r ci)))))"

definition eval_unary ::
    "eval_fn \<Rightarrow> interp \<Rightarrow> token \<Rightarrow> string option \<Rightarrow> node list \<Rightarrow> (CValue \<times> interp) option" where
  "eval_unary ev ci t op operand =
     (case op of
        None \<Rightarrow> Some (VAL_NULL, ci)
      | Some oper \<Rightarrow>
          if oper = ''-'' then
            and_then (ev ci operand) (\<lambda>v ci.
              if ci_error ci then Some (VAL_NULL, ci)
              else (case v of VAL_INT i \<Rightarrow> Some (int_result (- sint i) ci) | _ \<Rightarrow> Some (VAL_NULL, ci)))
          else if oper = ''!'' then
            and_then (ev ci operand) (\<lambda>v ci.
              if ci_error ci then Some (VAL_NULL, ci)
              else (case v of
                      VAL_INT i \<Rightarrow> Some (VAL_BOOL (i = 0), ci)
                    | VAL_BOOL b \<Rightarrow> Some (VAL_BOOL (\<not> b), ci)
                    | _ \<Rightarrow> Some (v, ci)))
          else Some (VAL_NULL,
            zerror t (''comptime: unsupported unary operator '' @ [SQUOTE] @ oper @ [SQUOTE]) ci))"

text \<open>The index is reported with the length of the array after \<open>val_free\<close> has reset it.\<close>

definition index_error :: "int \<Rightarrow> nat \<Rightarrow> string" where
  "index_error idx len =
     ''comptime: array index '' @ show_int idx @ '' out of bounds (length '' @ show_nat len @ '')''"

definition eval_index ::
    "eval_fn \<Rightarrow> interp \<Rightarrow> token \<Rightarrow> node list \<Rightarrow> node list \<Rightarrow> (CValue \<times> interp) option" where
  "eval_index ev ci t array index =
     and_then (ev ci array) (\<lambda>arr ci.
       if ci_error ci then Some (VAL_NULL, ci)
       else
         (case arr of
            VAL_ARRAY xs \<Rightarrow>
              and_then (eval_int ev ci index) (\<lambda>idx ci.
                if ci_error ci then Some (VAL_NULL, ci)
                else if sint idx < 0 \<or> nat (sint idx) \<ge> length xs then
                  Some (VAL_NULL, zerror t (index_error (sint idx) 0) ci)
                else Some (xs ! nat (sint idx), ci))
          | _ \<Rightarrow> Some (VAL_NULL, zerror t ''comptime: cannot index a non-array value'' ci)))"

section \<open>Calls\<close>

definition builtin_names :: "string list" where
  "builtin_names = [''yield'', ''code'', ''compile_error'', ''compile_warn'']"

definition builtin_effect :: "string \<Rightarrow> CValue \<Rightarrow> interp \<Rightarrow> interp" where
  "builtin_effect name arg ci =
     (if name = ''yield'' \<or> name = ''code'' then
        yield_append ci
          (case arg of VAL_STRING s \<Rightarrow> s | VAL_INT i \<Rightarrow> snprintf_into 32 (show_int (sint i)) | _ \<Rightarrow> [])
      else if name = ''compile_error'' then
        zerror TOKEN_UNKNOWN
          (''comptime error: '' @ (case arg of VAL_STRING s \<Rightarrow> s | _ \<Rightarrow> ''comptime error'')) ci
      else if name = ''compile_warn'' then
        ci\<lparr>ci_warnings := ci_warnings ci @
             [''comptime warning: '' @ (case arg of VAL_STRING s \<Rightarrow> s | _ \<Rightarrow> ''comptime warning'')]\<rparr>
      else ci)"

definition builtin_argument ::
    "eval_fn \<Rightarrow> interp \<Rightarrow> string \<Rightarrow> node list \<Rightarrow> (CValue \<times> interp) option" where
  "builtin_argument ev ci name args =
     (case args of
        [] \<Rightarrow> Some (VAL_NULL, ci)
      | a # _ \<Rightarrow>
          if (case nd_type a of None \<Rightarrow> False | Some ti \<Rightarrow> ty_kind ti = TYPE_STRING) then
            (if nd_kind a = NODE_EXPR_LITERAL \<or> nd_kind a = NODE_EXPR_VAR \<or> nd_kind a = NODE_EXPR_CALL
             then ev ci args
             else
               (case a of
                  Binary _ None _ _ \<Rightarrow> Some (VAL_NULL, crash ci)
                | Binary _ (Some op) _ _ \<Rightarrow>
                    if op = ''+'' then ev ci args
                    else Some (VAL_NULL, zerror (nd_token a)
                      (''comptime: argument to '' @ [SQUOTE] @ name @ [SQUOTE] @ '' must be a compile-time constant'') ci)
                | _ \<Rightarrow> Some (VAL_NULL, zerror (nd_token a)
                      (''comptime: argument to '' @ [SQUOTE] @ name @ [SQUOTE] @ '' must be a compile-time constant'') ci)))
          else ev ci args)"

definition call_builtin ::
    "eval_fn \<Rightarrow> interp \<Rightarrow> string \<Rightarrow> node list \<Rightarrow> (CValue \<times> interp) option" where
  "call_builtin ev ci name args =
     and_then (builtin_argument ev ci name args) (\<lambda>arg ci.
       if ci_error ci then Some (VAL_NULL, ci) else Some (VAL_NULL, builtin_effect name arg ci))"

text \<open>The arguments are bound in turn, in the scope of the new call. A parameter without a name takes
  its argument and drops it.\<close>

fun bind_params :: "eval_fn \<Rightarrow> interp \<Rightarrow> string option list \<Rightarrow> node list \<Rightarrow> interp option" where
  "bind_params ev ci (p # ps) (a # as) =
     and_then (ev ci (a # as)) (\<lambda>v ci.
       if ci_error ci then Some ci
       else bind_params ev
              (case p of Some n \<Rightarrow> ci\<lparr>ci_scope := scope_push (ci_scope ci) n v\<rparr> | None \<Rightarrow> ci) ps as)"
| "bind_params ev ci _ _ = Some ci"

text \<open>The body is run up to a \<open>return\<close> among its own statements.\<close>

fun run_body :: "eval_fn \<Rightarrow> exec_fn \<Rightarrow> interp \<Rightarrow> node list \<Rightarrow> (CValue \<times> interp) option" where
  "run_body ev ex ci [] = Some (VAL_NULL, ci)"
| "run_body ev ex ci (s # ss) =
     (if ci_error ci then Some (VAL_NULL, ci)
      else
        (case s of
           Return _ val \<Rightarrow> (if val \<noteq> [] then ev ci val else Some (VAL_NULL, ci))
         | _ \<Rightarrow>
             (case ex ci (s # ss) of
                None \<Rightarrow> None
              | Some ci \<Rightarrow>
                  if ci_error ci then Some (VAL_NULL, ci) else run_body ev ex ci ss)))"

definition block_statements :: "node list \<Rightarrow> node list" where
  "block_statements body = (case body of Block _ ss # _ \<Rightarrow> ss | _ \<Rightarrow> [])"

definition call_comptime_fn ::
    "eval_fn \<Rightarrow> exec_fn \<Rightarrow> interp \<Rightarrow> node \<Rightarrow> node list \<Rightarrow> (CValue \<times> interp) option" where
  "call_comptime_fn ev ex ci fn_node args =
     (case fn_node of
        Function m name params is_comptime body \<Rightarrow>
          if ci_rec_depth ci \<ge> MAX_RECURSION then
            Some (VAL_NULL, zerror (m_token m) ''comptime: recursion depth limit exceeded'' ci)
          else
            (case bind_params ev (ci\<lparr>ci_scope := [], ci_rec_depth := Suc (ci_rec_depth ci)\<rparr>) params args of
               None \<Rightarrow> None
             | Some ci1 \<Rightarrow>
                 and_then
                   (if ci_error ci1 then Some (VAL_NULL, ci1) else run_body ev ex ci1 (block_statements body))
                   (\<lambda>ret ci2. Some (ret,
                      ci2\<lparr>ci_scope := ci_scope ci, ci_rec_depth := ci_rec_depth ci2 - 1\<rparr>)))
      | _ \<Rightarrow> Some (VAL_NULL, ci))"

definition is_comptime_fn :: "string \<Rightarrow> node \<Rightarrow> bool" where
  "is_comptime_fn name n = (case n of Function _ fname _ ct _ \<Rightarrow> ct \<and> fname = name | _ \<Rightarrow> False)"

definition callee_name :: "node list \<Rightarrow> string option" where
  "callee_name callee = (case callee of VarRef _ name _ # _ \<Rightarrow> name | _ \<Rightarrow> None)"

definition eval_call ::
    "eval_fn \<Rightarrow> exec_fn \<Rightarrow> interp \<Rightarrow> token \<Rightarrow> node list \<Rightarrow> node list \<Rightarrow> (CValue \<times> interp) option" where
  "eval_call ev ex ci t callee args =
     (case callee_name callee of
        None \<Rightarrow> Some (VAL_NULL, zerror t ''comptime: cannot call indirect expressions'' ci)
      | Some name \<Rightarrow>
          if name \<in> set builtin_names then call_builtin ev ci name args
          else
            (case List.find (is_comptime_fn name) (ci_funcs ci) of
               Some fn_node \<Rightarrow> call_comptime_fn ev ex ci fn_node args
             | None \<Rightarrow> Some (VAL_NULL,
                 zerror t (''comptime: undefined function '' @ [SQUOTE] @ name @ [SQUOTE]) ci)))"

section \<open>\<open>eval_expr\<close>\<close>

definition eval_node :: "eval_fn \<Rightarrow> exec_fn \<Rightarrow> interp \<Rightarrow> node \<Rightarrow> (CValue \<times> interp) option" where
  "eval_node ev ex ci n =
     (case n of
        Literal _ k i d s \<Rightarrow> Some (eval_literal ci k i d s)
      | VarRef m name _ \<Rightarrow> Some (eval_var ci (m_token m) name)
      | Binary m op left right \<Rightarrow> eval_binary ev ci (m_token m) op left right
      | Unary m op operand \<Rightarrow> eval_unary ev ci (m_token m) op operand
      | Call m callee args \<Rightarrow> eval_call ev ex ci (m_token m) callee args
      | Index m array index _ \<Rightarrow> eval_index ev ci (m_token m) array index
      | Cast _ expr \<Rightarrow> ev ci expr
      | Member m _ _ \<Rightarrow> Some (VAL_NULL, zerror (m_token m) ''comptime: member access not supported yet'' ci)
      | _ \<Rightarrow> Some (VAL_NULL,
          zerror (nd_token n)
            (''comptime: unsupported expression type '' @ show_nat (node_type_code (nd_kind n))) ci))"

definition count_step :: "interp \<Rightarrow> interp" where
  "count_step ci = ci\<lparr>ci_step_count := Suc (ci_step_count ci)\<rparr>"

definition eval_step :: "eval_fn \<Rightarrow> exec_fn \<Rightarrow> eval_fn" where
  "eval_step ev ex ci c =
     (if ci_step_count ci > MAX_STEPS then
        Some (VAL_NULL, zerror (case c of [] \<Rightarrow> TOKEN_UNKNOWN | n # _ \<Rightarrow> nd_token n)
          ''comptime: step limit exceeded (possible infinite loop)'' (count_step ci))
      else
        (case c of
           [] \<Rightarrow> Some (VAL_NULL, count_step ci)
         | n # _ \<Rightarrow>
             if ci_error ci then Some (VAL_NULL, count_step ci)
             else eval_node ev ex (count_step ci) n))"

section \<open>Statements\<close>

definition exec_let :: "eval_fn \<Rightarrow> interp \<Rightarrow> string option \<Rightarrow> node list \<Rightarrow> ty option \<Rightarrow> interp option" where
  "exec_let ev ci name init_expr type_info =
     (case name of
        None \<Rightarrow> Some ci
      | Some n \<Rightarrow>
          if init_expr \<noteq> [] then
            and_then (ev ci init_expr) (\<lambda>v ci.
              if ci_error ci then Some ci else Some (ci\<lparr>ci_scope := scope_push (ci_scope ci) n v\<rparr>))
          else
            Some (ci\<lparr>ci_scope := scope_push (ci_scope ci) n
              (case type_info of
                 Some ti \<Rightarrow>
                   if ty_kind ti = TYPE_ARRAY \<and> sint (ty_array_size ti) > 0
                   then VAL_ARRAY (replicate (nat (sint (ty_array_size ti))) VAL_NULL)
                   else VAL_NULL
               | None \<Rightarrow> VAL_NULL)\<rparr>))"

definition undefined_variable :: "string \<Rightarrow> string" where
  "undefined_variable name = ''comptime: undefined variable '' @ [SQUOTE] @ name @ [SQUOTE]"

definition exec_assign_index ::
    "eval_fn \<Rightarrow> interp \<Rightarrow> token \<Rightarrow> node list \<Rightarrow> node list \<Rightarrow> node list \<Rightarrow> interp option" where
  "exec_assign_index ev ci t array index right =
     (case array of
        VarRef _ (Some name) _ # _ \<Rightarrow>
          (case scope_find (ci_scope ci) name of
             None \<Rightarrow> Some (zerror t (undefined_variable name) ci)
           | Some (VAL_ARRAY xs) \<Rightarrow>
               and_then (eval_int ev ci index) (\<lambda>idx ci.
                 if ci_error ci then Some ci
                 else if sint idx < 0 \<or> nat (sint idx) \<ge> length xs then
                   Some (zerror t (index_error (sint idx) (length xs)) ci)
                 else
                   and_then (ev ci right) (\<lambda>v ci.
                     if ci_error ci then Some ci
                     else Some (ci\<lparr>ci_scope :=
                            scope_store (ci_scope ci) name (VAL_ARRAY (xs[nat (sint idx) := v]))\<rparr>)))
           | Some _ \<Rightarrow> Some (zerror t ''comptime: cannot index a non-array value'' ci))
      | VarRef _ None _ # _ \<Rightarrow> Some (crash ci)
      | _ \<Rightarrow> Some (zerror t ''comptime: can only assign to an element of an array variable'' ci))"

definition exec_assign ::
    "eval_fn \<Rightarrow> interp \<Rightarrow> token \<Rightarrow> node list \<Rightarrow> node list \<Rightarrow> interp option" where
  "exec_assign ev ci t left right =
     (case left of
        Index _ array index _ # _ \<Rightarrow> exec_assign_index ev ci t array index right
      | VarRef _ (Some name) _ # _ \<Rightarrow>
          (case scope_find (ci_scope ci) name of
             None \<Rightarrow> Some (zerror t (undefined_variable name) ci)
           | Some _ \<Rightarrow>
               and_then (ev ci right) (\<lambda>v ci.
                 if ci_error ci then Some ci
                 else Some (ci\<lparr>ci_scope := scope_store (ci_scope ci) name v\<rparr>)))
      | VarRef _ None _ # _ \<Rightarrow> Some (crash ci)
      | _ \<Rightarrow> Some (zerror t ''comptime: assignment target must be a variable'' ci))"

text \<open>\<open>while (s && !ci->error_happened) { exec_stmt(ci, s); s = s->next; }\<close>\<close>

fun exec_chain :: "exec_fn \<Rightarrow> exec_fn" where
  "exec_chain ex ci [] = Some ci"
| "exec_chain ex ci (s # ss) =
     (if ci_error ci then Some ci
      else (case ex ci (s # ss) of None \<Rightarrow> None | Some ci \<Rightarrow> exec_chain ex ci ss))"

definition branch_statements :: "node list \<Rightarrow> node list" where
  "branch_statements body = (case body of Block _ ss # _ \<Rightarrow> ss | _ \<Rightarrow> body)"

definition exec_if :: "eval_fn \<Rightarrow> exec_fn \<Rightarrow> interp \<Rightarrow> node list \<Rightarrow> node list \<Rightarrow> node list \<Rightarrow> interp option" where
  "exec_if ev ex ci condition then_body else_body =
     and_then (ev ci condition) (\<lambda>cond ci.
       if ci_error ci then Some ci
       else exec_chain ex ci (branch_statements (if truthy cond then then_body else else_body)))"

definition exec_opt :: "exec_fn \<Rightarrow> exec_fn" where
  "exec_opt ex ci c = (if c = [] then Some ci else ex ci c)"

text \<open>The loops, with the fuel of the model as their first argument.\<close>

fun for_loop :: "nat \<Rightarrow> eval_fn \<Rightarrow> exec_fn \<Rightarrow> interp \<Rightarrow> node list \<Rightarrow> node list \<Rightarrow> node list \<Rightarrow> interp option" where
  "for_loop 0 ev ex ci condition step body = None"
| "for_loop (Suc k) ev ex ci condition step body =
     (if ci_error ci then Some ci
      else
        and_then (if condition \<noteq> [] then ev ci condition else Some (VAL_BOOL True, ci)) (\<lambda>cv ci.
          if \<not> truthy cv then Some ci
          else
            (case exec_opt ex ci body of
               None \<Rightarrow> None
             | Some ci \<Rightarrow>
                 if ci_error ci then Some ci
                 else
                   (case exec_opt ex ci step of
                      None \<Rightarrow> None
                    | Some ci \<Rightarrow> for_loop k ev ex ci condition step body))))"

fun while_loop :: "nat \<Rightarrow> eval_fn \<Rightarrow> exec_fn \<Rightarrow> interp \<Rightarrow> node list \<Rightarrow> node list \<Rightarrow> interp option" where
  "while_loop 0 ev ex ci condition body = None"
| "while_loop (Suc k) ev ex ci condition body =
     (if ci_error ci then Some ci
      else
        and_then (ev ci condition) (\<lambda>cv ci.
          if \<not> truthy cv then Some ci
          else
            (case exec_opt ex ci body of
               None \<Rightarrow> None
             | Some ci \<Rightarrow> while_loop k ev ex ci condition body)))"

fun infinite_loop :: "nat \<Rightarrow> exec_fn \<Rightarrow> interp \<Rightarrow> node list \<Rightarrow> interp option" where
  "infinite_loop 0 ex ci body = None"
| "infinite_loop (Suc k) ex ci body =
     (if ci_error ci then Some ci
      else if ci_step_count ci > MAX_STEPS then Some (count_step ci)
      else
        (case exec_opt ex (count_step ci) body of
           None \<Rightarrow> None
         | Some ci \<Rightarrow> infinite_loop k ex ci body))"

text \<open>The step \<open>i++\<close> from the greatest \<open>int64_t\<close> is undefined.\<close>

fun range_loop ::
    "nat \<Rightarrow> exec_fn \<Rightarrow> interp \<Rightarrow> token \<Rightarrow> string option \<Rightarrow> int \<Rightarrow> int \<Rightarrow> bool \<Rightarrow> node list \<Rightarrow> interp option" where
  "range_loop 0 ex ci t var_name i stop inclusive body = None"
| "range_loop (Suc k) ex ci t var_name i stop inclusive body =
     (if \<not> (if inclusive then i \<le> stop else i < stop) then Some ci
      else if ci_step_count ci > MAX_STEPS then
        Some (zerror t ''comptime: step limit exceeded in for-range loop'' (count_step ci))
      else
        (let ci1 = count_step ci;
             ci2 = (case var_name of
                      Some n \<Rightarrow> ci1\<lparr>ci_scope := scope_push (ci_scope ci1) n (VAL_INT (word_of_int i))\<rparr>
                    | None \<Rightarrow> ci1)
         in case exec_opt ex ci2 body of
              None \<Rightarrow> None
            | Some ci3 \<Rightarrow>
                (let ci4 = (case var_name of
                              Some _ \<Rightarrow> ci3\<lparr>ci_scope := scope_pop (ci_scope ci3)\<rparr>
                            | None \<Rightarrow> ci3)
                 in if ci_error ci4 then Some ci4
                    else if \<not> in_i64 (i + 1) then Some (crash ci4)
                    else range_loop k ex ci4 t var_name (i + 1) stop inclusive body)))"

definition exec_for_range ::
    "nat \<Rightarrow> eval_fn \<Rightarrow> exec_fn \<Rightarrow> interp \<Rightarrow> token \<Rightarrow> string option \<Rightarrow> node list \<Rightarrow> node list \<Rightarrow> bool \<Rightarrow>
     node list \<Rightarrow> interp option" where
  "exec_for_range k ev ex ci t var_name start stop inclusive body =
     and_then (if start \<noteq> [] then eval_int ev ci start else Some (0, ci)) (\<lambda>a ci.
       and_then (if stop \<noteq> [] then eval_int ev ci stop else Some (0, ci)) (\<lambda>b ci.
         if ci_error ci then Some ci
         else range_loop k ex ci t var_name (sint a) (sint b) inclusive body))"

definition exec_assert :: "eval_fn \<Rightarrow> interp \<Rightarrow> token \<Rightarrow> node list \<Rightarrow> string option \<Rightarrow> interp option" where
  "exec_assert ev ci t condition message =
     and_then (ev ci condition) (\<lambda>cv ci.
       if truthy cv then Some ci
       else Some (zerror t (''comptime: '' @
              (case message of Some s \<Rightarrow> s | None \<Rightarrow> ''comptime assertion failed'')) ci))"

text \<open>An expression statement: its value is dropped.\<close>

definition exec_expr :: "eval_fn \<Rightarrow> interp \<Rightarrow> node list \<Rightarrow> interp option" where
  "exec_expr ev ci c = and_then (ev ci c) (\<lambda>_ ci. Some ci)"

definition exec_node :: "nat \<Rightarrow> eval_fn \<Rightarrow> exec_fn \<Rightarrow> interp \<Rightarrow> node \<Rightarrow> node list \<Rightarrow> interp option" where
  "exec_node k ev ex ci n c =
     (case n of
        Assert m _ condition message \<Rightarrow> exec_assert ev ci (m_token m) condition message
      | VarDecl _ name init_expr type_info \<Rightarrow> exec_let ev ci name init_expr type_info
      | Binary m op left right \<Rightarrow>
          if op = Some ''='' then exec_assign ev ci (m_token m) left right else exec_expr ev ci c
      | Call _ _ _ \<Rightarrow> exec_expr ev ci c
      | VarRef _ _ _ \<Rightarrow> exec_expr ev ci c
      | Literal _ _ _ _ _ \<Rightarrow> exec_expr ev ci c
      | Unary _ _ _ \<Rightarrow> exec_expr ev ci c
      | If _ condition then_body else_body \<Rightarrow> exec_if ev ex ci condition then_body else_body
      | Block _ stmts \<Rightarrow> exec_chain ex ci stmts
      | For _ init condition step body _ \<Rightarrow>
          (case exec_opt ex ci init of
             None \<Rightarrow> None
           | Some ci \<Rightarrow> for_loop k ev ex ci condition step body)
      | ForRange m var_name start stop inclusive body _ \<Rightarrow>
          exec_for_range k ev ex ci (m_token m) var_name start stop inclusive body
      | While _ condition body _ \<Rightarrow> while_loop k ev ex ci condition body
      | Loop _ body _ \<Rightarrow> infinite_loop k ex ci body
      | _ \<Rightarrow> Some ci)"

definition exec_step :: "nat \<Rightarrow> eval_fn \<Rightarrow> exec_fn \<Rightarrow> exec_fn" where
  "exec_step k ev ex ci c =
     (case c of
        [] \<Rightarrow> Some ci
      | n # _ \<Rightarrow>
          if ci_error ci then Some ci
          else if ci_step_count ci > MAX_STEPS then
            Some (zerror (nd_token n) ''comptime: step limit exceeded (possible infinite loop)'' (count_step ci))
          else exec_node k ev ex (count_step ci) n c)"

section \<open>The knot\<close>

fun eval_expr :: "nat \<Rightarrow> eval_fn" and exec_stmt :: "nat \<Rightarrow> exec_fn" where
  "eval_expr 0 ci c = None"
| "eval_expr (Suc k) ci c = eval_step (eval_expr k) (exec_stmt k) ci c"
| "exec_stmt 0 ci c = None"
| "exec_stmt (Suc k) ci c = exec_step k (eval_expr k) (exec_stmt k) ci c"

text \<open>\<open>interpret_comptime\<close> on the functions and the system name of the context: the final state, and the
  text that was generated, NULL after an error.\<close>

definition initial_interp :: "node list \<Rightarrow> string \<Rightarrow> string option \<Rightarrow> interp" where
  "initial_interp funcs system_name source_file =
     \<lparr>ci_funcs = funcs, ci_scope = [], ci_yield = [], ci_yield_cap = 0,
      ci_source_file = source_file, ci_system_name = system_name, ci_step_count = 0,
      ci_rec_depth = 0, ci_error = False, ci_errors = [], ci_warnings = [], ci_ub = False\<rparr>"

definition interpret_comptime ::
    "nat \<Rightarrow> node list \<Rightarrow> string \<Rightarrow> node list \<Rightarrow> string option \<Rightarrow> (string option \<times> interp) option" where
  "interpret_comptime fuel funcs system_name body source_file =
     (case exec_chain (exec_stmt fuel) (initial_interp funcs system_name source_file) body of
        None \<Rightarrow> None
      | Some ci \<Rightarrow> Some (if ci_error ci then None else Some (ci_yield ci), ci))"

end
