(* ===== verification/ZcComptimeFrame.thy ===== *)
theory ZcComptimeFrame
  imports ZcComptime
begin

text \<open>
  The invariants of the compile-time interpreter, proved once for every function that takes
  \<open>eval_expr\<close> and \<open>exec_stmt\<close> as arguments and then for the knot: what an evaluation leaves alone and
  what it can only extend, and that it ends. The two are one proof: the flag \<open>b\<close> asks for a result,
  where the fuel and the loops of the program allow it.
\<close>

section \<open>What a run may change\<close>

text \<open>The buffer holds its text and the terminator, and an error has been reported (or is a crash).\<close>

definition interp_ok :: "interp \<Rightarrow> bool" where
  "interp_ok ci \<longleftrightarrow> ci_yield_cap ci \<le> MAX_YIELD \<and> (ci_error ci \<longrightarrow> ci_errors ci \<noteq> [] \<or> ci_ub ci)
     \<and> (if ci_yield_cap ci = 0 then ci_yield ci = [] else length (ci_yield ci) < ci_yield_cap ci)"

definition grows :: "interp \<Rightarrow> interp \<Rightarrow> bool" where
  "grows ci ci' \<longleftrightarrow>
     ci_funcs ci' = ci_funcs ci \<and> ci_source_file ci' = ci_source_file ci
     \<and> ci_system_name ci' = ci_system_name ci \<and> ci_rec_depth ci' = ci_rec_depth ci
     \<and> ci_step_count ci \<le> ci_step_count ci' \<and> (ci_error ci \<longrightarrow> ci_error ci') \<and> (ci_ub ci \<longrightarrow> ci_ub ci')
     \<and> (\<exists>ys. ci_yield ci' = ci_yield ci @ ys) \<and> (interp_ok ci \<longrightarrow> interp_ok ci')"

text \<open>An evaluation keeps the scope; a statement may bind more names and store into bound ones.\<close>

definition keeps :: "interp \<Rightarrow> interp \<Rightarrow> bool" where
  "keeps ci ci' \<longleftrightarrow> grows ci ci' \<and> ci_scope ci' = ci_scope ci"

definition extends :: "interp \<Rightarrow> interp \<Rightarrow> bool" where
  "extends ci ci' \<longleftrightarrow> grows ci ci' \<and> (\<exists>ns. map fst (ci_scope ci') = ns @ map fst (ci_scope ci))"

lemma grows_refl [simp]: "grows ci ci"
  by (simp add: grows_def)

lemma grows_trans: "grows a b \<Longrightarrow> grows b c \<Longrightarrow> grows a c"
  by (auto simp: grows_def)

lemma keeps_refl [simp]: "keeps ci ci"
  by (simp add: keeps_def)

lemma keeps_trans: "keeps a b \<Longrightarrow> keeps b c \<Longrightarrow> keeps a c"
  using grows_trans by (auto simp: keeps_def)

lemma extends_refl [simp]: "extends ci ci"
  by (simp add: extends_def)

lemma extends_trans: "extends a b \<Longrightarrow> extends b c \<Longrightarrow> extends a c"
  unfolding extends_def by (metis grows_trans append.assoc)

lemma extends_le: "extends a b \<Longrightarrow> ci_step_count a \<le> ci_step_count b"
  by (simp add: extends_def grows_def)

lemma keeps_le: "keeps a b \<Longrightarrow> ci_step_count a \<le> ci_step_count b"
  by (simp add: keeps_def grows_def)

lemma extends_keeps: "extends a b \<Longrightarrow> keeps b c \<Longrightarrow> extends a c"
  by (auto simp: extends_def keeps_def intro: grows_trans)

lemma grow_to_big: "0 < cap \<Longrightarrow> need \<le> grow_to need cap \<and> 0 < grow_to need cap"
proof (induction need cap rule: grow_to.induct)
  case (1 need cap)
  then show ?case by (subst (1 2) grow_to.simps) auto
qed

lemma yield_append_grows: "keeps ci (yield_append ci s)"
proof -
  have "length (ci_yield ci) + length s + 1 \<le> yield_new_cap ci (length s)" "0 < yield_new_cap ci (length s)"
    using grow_to_big [of "if ci_yield_cap ci \<noteq> 0 then ci_yield_cap ci * 2 else 4096"
        "length (ci_yield ci) + length s + 1"] by (simp_all add: yield_new_cap_def)
  then show ?thesis
    by (auto simp: keeps_def grows_def interp_ok_def yield_append_def Let_def zerror_def)
qed

lemma keeps_steps [intro!]:
  "keeps ci0 ci \<Longrightarrow> keeps ci0 (zerror t msg ci)"
  "keeps ci0 ci \<Longrightarrow> keeps ci0 (crash ci)"
  "keeps ci0 ci \<Longrightarrow> keeps ci0 (count_step ci)"
  "keeps ci0 ci \<Longrightarrow> keeps ci0 (zerror_node c msg ci)"
  "keeps ci0 ci \<Longrightarrow> keeps ci0 (ci\<lparr>ci_ub := True\<rparr>)"
  "keeps ci0 ci \<Longrightarrow> keeps ci0 (ci\<lparr>ci_warnings := w\<rparr>)"
  "keeps ci0 ci \<Longrightarrow> keeps ci0 (yield_append ci s)"
proof -
  have "keeps ci (zerror t msg ci)" "keeps ci (crash ci)" "keeps ci (count_step ci)"
    "keeps ci (zerror_node c msg ci)" "keeps ci (ci\<lparr>ci_ub := True\<rparr>)" "keeps ci (ci\<lparr>ci_warnings := w\<rparr>)"
    by (auto simp: zerror_def crash_def count_step_def zerror_node_def keeps_def grows_def interp_ok_def
        split: list.split)
  note one = this yield_append_grows [of ci s]
  show
    "keeps ci0 ci \<Longrightarrow> keeps ci0 (zerror t msg ci)" "keeps ci0 ci \<Longrightarrow> keeps ci0 (crash ci)"
    "keeps ci0 ci \<Longrightarrow> keeps ci0 (count_step ci)" "keeps ci0 ci \<Longrightarrow> keeps ci0 (zerror_node c msg ci)"
    "keeps ci0 ci \<Longrightarrow> keeps ci0 (ci\<lparr>ci_ub := True\<rparr>)" "keeps ci0 ci \<Longrightarrow> keeps ci0 (ci\<lparr>ci_warnings := w\<rparr>)"
    "keeps ci0 ci \<Longrightarrow> keeps ci0 (yield_append ci s)"
    using one [THEN keeps_trans [rotated]] by blast+
qed

lemma step_counts [simp]:
  "ci_step_count (zerror t msg ci) = ci_step_count ci"
  "ci_step_count (count_step ci) = Suc (ci_step_count ci)"
  "ci_error (zerror t msg ci)" "ci_error (count_step ci) = ci_error ci" "ci_error (crash ci)"
  by (simp_all add: zerror_def count_step_def crash_def)

lemma extends_steps [intro!]:
  "extends ci0 ci \<Longrightarrow> extends ci0 (zerror t msg ci)"
  "extends ci0 ci \<Longrightarrow> extends ci0 (crash ci)"
  "extends ci0 ci \<Longrightarrow> extends ci0 (count_step ci)"
  "extends ci0 ci \<Longrightarrow> extends ci0 (zerror_node c msg ci)"
  using keeps_steps [OF keeps_refl] extends_keeps by blast+

lemma extends_push [intro!]:
  "extends ci0 ci \<Longrightarrow> extends ci0 (ci\<lparr>ci_scope := scope_push (ci_scope ci) n v\<rparr>)"
  by (auto simp: extends_def grows_def interp_ok_def scope_push_def)

lemma store_names [simp]: "map fst (scope_store s n v) = map fst s"
  unfolding scope_store_def by (induction s) auto

lemma extends_store [intro!]:
  "extends ci0 ci \<Longrightarrow> extends ci0 (ci\<lparr>ci_scope := scope_store (ci_scope ci) n v\<rparr>)"
  by (auto simp: extends_def grows_def interp_ok_def)

text \<open>Binding the loop variable, running the body and popping one entry.\<close>

lemma interp_ok_scope [simp]:
  "interp_ok (ci\<lparr>ci_scope := s\<rparr>) = interp_ok ci" "interp_ok (ci\<lparr>ci_rec_depth := d\<rparr>) = interp_ok ci"
  by (simp_all add: interp_ok_def)

lemma grows_scope [simp]:
  "grows (ci\<lparr>ci_scope := s\<rparr>) ci' = grows ci ci'" "grows ci (ci'\<lparr>ci_scope := s\<rparr>) = grows ci ci'"
  by (simp_all add: grows_def)

lemma extends_pop:
  assumes "extends (ci\<lparr>ci_scope := scope_push (ci_scope ci) n v\<rparr>) ci3"
  shows "extends ci (ci3\<lparr>ci_scope := scope_pop (ci_scope ci3)\<rparr>)"
proof -
  obtain ns where ns: "map fst (ci_scope ci3) = ns @ n # map fst (ci_scope ci)"
    using assms by (auto simp: extends_def scope_push_def)
  have "\<exists>ms. map fst (tl (ci_scope ci3)) = ms @ map fst (ci_scope ci)"
  proof (cases ns)
    case Nil
    with ns show ?thesis by (simp add: map_tl)
  next
    case (Cons z zs)
    then have "map fst (tl (ci_scope ci3)) = (zs @ [n]) @ map fst (ci_scope ci)"
      using ns by (simp add: map_tl)
    then show ?thesis by blast
  qed
  with assms show ?thesis by (simp add: extends_def scope_pop_def)
qed

text \<open>Leaving a call restores the caller's scope and depth.\<close>

lemma keeps_return:
  "extends (ci\<lparr>ci_scope := [], ci_rec_depth := Suc (ci_rec_depth ci)\<rparr>) ci2 \<Longrightarrow>
     keeps ci (ci2\<lparr>ci_scope := ci_scope ci, ci_rec_depth := ci_rec_depth ci2 - 1\<rparr>)"
  by (auto simp: extends_def keeps_def grows_def)

section \<open>Loops that count steps\<close>

text \<open>A \<open>for\<close> with neither condition nor step nor body does nothing for ever and counts no step.\<close>

definition for_ok :: "node \<Rightarrow> bool" where
  "for_ok n = (case n of For _ _ c s b _ \<Rightarrow> c \<noteq> [] \<or> s \<noteq> [] \<or> b \<noteq> [] | _ \<Rightarrow> True)"

definition loops_ok :: "node \<Rightarrow> bool" where
  "loops_ok n = every_node for_ok n"

definition chain_ok :: "node list \<Rightarrow> bool" where
  "chain_ok c \<longleftrightarrow> (\<forall>n \<in> set c. loops_ok n)"

lemma chain_ok_simps [simp]: "chain_ok []" "chain_ok (n # ns) \<longleftrightarrow> loops_ok n \<and> chain_ok ns"
  by (simp_all add: chain_ok_def)

lemma loops_ok_children: "loops_ok n \<Longrightarrow> chain \<in> set (child_chains n) \<Longrightarrow> chain_ok chain"
  by (auto simp: chain_ok_def loops_ok_def intro: every_node_child)

lemma loops_ok_for: "loops_ok n \<Longrightarrow> for_ok n"
  by (simp add: loops_ok_def every_node_here)

lemma loops_ok_block: "loops_ok (Block m ss) \<Longrightarrow> chain_ok ss"
  by (rule loops_ok_children) auto

lemma chain_ok_block: "chain_ok c \<Longrightarrow> chain_ok (block_statements c)"
  by (auto simp: block_statements_def split: list.split node.split dest: loops_ok_block)

lemma chain_ok_branch: "chain_ok c \<Longrightarrow> chain_ok (branch_statements c)"
  by (auto simp: branch_statements_def split: list.split node.split dest: loops_ok_block)

section \<open>Results\<close>

definition ev_post :: "bool \<Rightarrow> ('a \<Rightarrow> interp \<Rightarrow> bool) \<Rightarrow> ('a \<times> interp) option \<Rightarrow> bool" where
  "ev_post b P m = (case m of None \<Rightarrow> \<not> b | Some (v, ci) \<Rightarrow> P v ci)"

definition exp_post :: "bool \<Rightarrow> (interp \<Rightarrow> bool) \<Rightarrow> interp option \<Rightarrow> bool" where
  "exp_post b P m = (case m of None \<Rightarrow> \<not> b | Some ci \<Rightarrow> P ci)"

definition pre :: "bool \<Rightarrow> nat \<Rightarrow> interp \<Rightarrow> bool" where
  "pre b L ci \<longleftrightarrow> (b \<longrightarrow> L \<le> ci_step_count ci \<and> chain_ok (ci_funcs ci))"

lemma pre_grows: "pre b L ci \<Longrightarrow> grows ci ci' \<Longrightarrow> pre b L ci'"
  by (auto simp: pre_def grows_def)

text \<open>The condition on the chains that are run, where a result is asked for.\<close>

definition okc :: "bool \<Rightarrow> node list \<Rightarrow> bool" where
  "okc b c \<longleftrightarrow> (b \<longrightarrow> chain_ok c)"

lemma okc_child: "okc b (n # ns) \<Longrightarrow> chain \<in> set (child_chains n) \<Longrightarrow> okc b chain"
  by (auto simp: okc_def dest: loops_ok_children)

lemma okc_simps [simp]:
  "okc b []" "okc b c \<Longrightarrow> okc b (tl c)" "okc b c \<Longrightarrow> okc b (block_statements c)"
  "okc b c \<Longrightarrow> okc b (branch_statements c)" "okc b (n # ns) \<Longrightarrow> okc b ns"
  using chain_ok_block chain_ok_branch by (cases c; auto simp: okc_def)+

definition good_ev :: "bool \<Rightarrow> nat \<Rightarrow> eval_fn \<Rightarrow> bool" where
  "good_ev b L ev \<longleftrightarrow>
     (\<forall>ci c. pre b L ci \<and> okc b c \<longrightarrow>
        ev_post b (\<lambda>v ci'. keeps ci ci' \<and> ci_step_count ci < ci_step_count ci'
                 \<and> (MAX_STEPS < ci_step_count ci \<longrightarrow> v = VAL_NULL)) (ev ci c))"

definition good_ex :: "bool \<Rightarrow> nat \<Rightarrow> exec_fn \<Rightarrow> bool" where
  "good_ex b L ex \<longleftrightarrow>
     (\<forall>ci c. pre b L ci \<and> okc b c \<longrightarrow>
        exp_post b (\<lambda>ci'. extends ci ci' \<and> (c \<noteq> [] \<and> \<not> ci_error ci \<longrightarrow> ci_step_count ci < ci_step_count ci')
                 \<and> (c \<noteq> [] \<and> MAX_STEPS < ci_step_count ci \<longrightarrow> ci_error ci')) (ex ci c))"

lemma evp_Some [simp]: "ev_post b P (Some (v, ci)) = P v ci"
  by (simp add: ev_post_def)

lemma xp_Some [simp]: "exp_post b P (Some ci) = P ci"
  by (simp add: exp_post_def)

lemma evp_pair: "P (fst r) (snd r) \<Longrightarrow> ev_post b P (Some r)"
  by (cases r) simp

lemma evp_mono: "ev_post b P m \<Longrightarrow> (\<And>v ci. P v ci \<Longrightarrow> Q v ci) \<Longrightarrow> ev_post b Q m"
  by (auto simp: ev_post_def split: option.splits)

lemma xp_mono: "exp_post b P m \<Longrightarrow> (\<And>ci. P ci \<Longrightarrow> Q ci) \<Longrightarrow> exp_post b Q m"
  by (auto simp: exp_post_def split: option.splits)

lemma evp_and_then: "ev_post b P m \<Longrightarrow> (\<And>v c. P v c \<Longrightarrow> ev_post b Q (f v c)) \<Longrightarrow> ev_post b Q (and_then m f)"
  by (cases m) (auto simp: ev_post_def and_then_def)

lemma xp_and_then: "ev_post b P m \<Longrightarrow> (\<And>v c. P v c \<Longrightarrow> exp_post b Q (f v c)) \<Longrightarrow> exp_post b Q (and_then m f)"
  by (cases m) (auto simp: ev_post_def exp_post_def and_then_def)

lemma xp_bind:
  "exp_post b P m \<Longrightarrow> (\<And>c. P c \<Longrightarrow> exp_post b Q (f c)) \<Longrightarrow> exp_post b Q (case m of None \<Rightarrow> None | Some c \<Rightarrow> f c)"
  by (cases m) (auto simp: exp_post_def)

lemma evp_bind:
  "exp_post b P m \<Longrightarrow> (\<And>c. P c \<Longrightarrow> ev_post b Q (f c)) \<Longrightarrow> ev_post b Q (case m of None \<Rightarrow> None | Some c \<Rightarrow> f c)"
  by (cases m) (auto simp: exp_post_def ev_post_def)

lemma evp_if: "(q \<Longrightarrow> ev_post b P x) \<Longrightarrow> (\<not> q \<Longrightarrow> ev_post b P y) \<Longrightarrow> ev_post b P (if q then x else y)"
  by simp

lemma xp_if: "(q \<Longrightarrow> exp_post b P x) \<Longrightarrow> (\<not> q \<Longrightarrow> exp_post b P y) \<Longrightarrow> exp_post b P (if q then x else y)"
  by simp

text \<open>A call of the evaluator from a state that has kept, or extended, the first one.\<close>

lemma call_ev:
  assumes "good_ev b L ev" "pre b L ci0" "keeps ci0 ci" "okc b c"
  shows "ev_post b (\<lambda>v ci'. keeps ci0 ci') (ev ci c)"
proof -
  have "pre b L ci" using assms(2,3) pre_grows by (auto simp: keeps_def)
  with assms(1,4) have "ev_post b (\<lambda>v ci'. keeps ci ci' \<and> ci_step_count ci < ci_step_count ci'
                 \<and> (MAX_STEPS < ci_step_count ci \<longrightarrow> v = VAL_NULL)) (ev ci c)"
    unfolding good_ev_def by blast
  then show ?thesis by (rule evp_mono) (use assms(3) keeps_trans in blast)
qed

lemma call_ev_x:
  assumes "good_ev b L ev" "pre b L ci0" "extends ci0 ci" "okc b c"
  shows "ev_post b (\<lambda>v ci'. extends ci0 ci' \<and> ci_step_count ci < ci_step_count ci'
                 \<and> (MAX_STEPS < ci_step_count ci \<longrightarrow> v = VAL_NULL)) (ev ci c)"
proof -
  have "pre b L ci" using assms(2,3) pre_grows by (auto simp: extends_def)
  with assms(1,4) have "ev_post b (\<lambda>v ci'. keeps ci ci' \<and> ci_step_count ci < ci_step_count ci'
                 \<and> (MAX_STEPS < ci_step_count ci \<longrightarrow> v = VAL_NULL)) (ev ci c)"
    unfolding good_ev_def by blast
  then show ?thesis by (rule evp_mono) (use assms(3) extends_keeps in blast)
qed

lemma call_ex:
  assumes "good_ex b L ex" "pre b L ci0" "extends ci0 ci" "okc b c"
  shows "exp_post b (\<lambda>ci'. extends ci0 ci' \<and> (c \<noteq> [] \<and> \<not> ci_error ci \<longrightarrow> ci_step_count ci < ci_step_count ci')
                 \<and> ci_step_count ci \<le> ci_step_count ci'
                 \<and> (c \<noteq> [] \<and> MAX_STEPS < ci_step_count ci \<longrightarrow> ci_error ci')) (ex ci c)"
proof -
  have "pre b L ci" using assms(2,3) pre_grows by (auto simp: extends_def)
  with assms(1,4) have "exp_post b (\<lambda>ci'. extends ci ci' \<and> (c \<noteq> [] \<and> \<not> ci_error ci \<longrightarrow> ci_step_count ci < ci_step_count ci')
                 \<and> (c \<noteq> [] \<and> MAX_STEPS < ci_step_count ci \<longrightarrow> ci_error ci')) (ex ci c)"
    unfolding good_ex_def by blast
  then show ?thesis
    by (rule xp_mono) (auto intro: extends_trans [OF assms(3)] dest: extends_le)
qed

lemma call_opt:
  assumes "good_ex b L ex" "pre b L ci0" "extends ci0 ci" "okc b c"
  shows "exp_post b (\<lambda>ci'. extends ci0 ci' \<and> (c \<noteq> [] \<and> \<not> ci_error ci \<longrightarrow> ci_step_count ci < ci_step_count ci')
                 \<and> ci_step_count ci \<le> ci_step_count ci'
                 \<and> (c \<noteq> [] \<and> MAX_STEPS < ci_step_count ci \<longrightarrow> ci_error ci')) (exec_opt ex ci c)"
proof (cases "c = []")
  case True
  with assms(3) show ?thesis by (simp add: exec_opt_def)
next
  case False
  then have "exec_opt ex ci c = ex ci c" by (simp add: exec_opt_def)
  then show ?thesis using call_ex [OF assms] by (simp only:)
qed

section \<open>The functions of an expression\<close>

text \<open>The shape of every proof: after an evaluation the state is one the first state grows into, and
  what comes next is again such a call or an end.\<close>

lemma then_ev:
  assumes "good_ev b L ev" "pre b L ci0" "keeps ci0 ci" "okc b c"
    and "\<And>v ci'. keeps ci0 ci' \<Longrightarrow> ev_post b Q (f v ci')"
  shows "ev_post b Q (and_then (ev ci c) f)"
  by (rule evp_and_then [OF call_ev [OF assms(1-4)] assms(5)])

lemma good_eval_int:
  assumes "good_ev b L ev" "pre b L ci0" "keeps ci0 ci" "okc b c"
  shows "ev_post b (\<lambda>_ ci'. keeps ci0 ci') (eval_int ev ci c)"
  unfolding eval_int_def
  by (rule then_ev [OF assms]) (auto split: CValue.split)

lemma int_result_keeps: "keeps ci0 ci \<Longrightarrow> keeps ci0 (snd (int_result i ci))"
  by (auto simp: int_result_def)

lemma int_binary_keeps: "keeps ci0 ci \<Longrightarrow> keeps ci0 (snd (int_binary t op x y ci))"
  by (auto simp: int_binary_def int_result_keeps)

lemma binary_values_keeps: "keeps ci0 ci \<Longrightarrow> keeps ci0 (snd (binary_values t op l r ci))"
  by (auto simp: binary_values_def int_binary_keeps split: CValue.split)

lemma good_eval_binary:
  assumes "good_ev b L ev" "pre b L ci" "okc b left" "okc b right"
  shows "ev_post b (\<lambda>_ ci'. keeps ci ci') (eval_binary ev ci t op left right)"
proof -
  note ev = then_ev [OF assms(1,2)]
  have fin: "ev_post b (\<lambda>_. keeps ci) (Some (binary_values t oper l r ci'))" if "keeps ci ci'" for oper l r ci'
    using binary_values_keeps [OF that] by (rule evp_pair)
  show ?thesis
    unfolding eval_binary_def
    by (rule ev) (use assms(3,4) in \<open>auto split: option.split intro!: ev simp: fin split: CValue.split\<close>)
qed

lemma good_eval_unary:
  assumes "good_ev b L ev" "pre b L ci" "okc b operand"
  shows "ev_post b (\<lambda>_ ci'. keeps ci ci') (eval_unary ev ci t op operand)"
proof -
  note ev = then_ev [OF assms(1,2)]
  have fin: "ev_post b (\<lambda>_. keeps ci) (Some (int_result i ci'))" if "keeps ci ci'" for i ci'
    using int_result_keeps [OF that] by (rule evp_pair)
  show ?thesis
    unfolding eval_unary_def
    using assms(3) by (auto split: option.split intro!: ev simp: fin split: CValue.split)
qed

lemma good_eval_index:
  assumes "good_ev b L ev" "pre b L ci" "okc b array" "okc b index"
  shows "ev_post b (\<lambda>_ ci'. keeps ci ci') (eval_index ev ci t array index)"
proof -
  note ev = then_ev [OF assms(1,2)]
  have idx: "ev_post b (\<lambda>_. keeps ci) (and_then (eval_int ev ci' index) f)"
    if "keeps ci ci'" "\<And>i ci'. keeps ci ci' \<Longrightarrow> ev_post b (\<lambda>_. keeps ci) (f i ci')" for ci' f
    by (rule evp_and_then [OF good_eval_int [OF assms(1,2) that(1)]]) (use assms(4) that(2) in auto)
  show ?thesis
    unfolding eval_index_def
    by (rule ev) (use assms(3,4) in \<open>auto split: CValue.split intro!: idx\<close>)
qed

lemma builtin_effect_keeps: "keeps ci0 ci \<Longrightarrow> keeps ci0 (builtin_effect name arg ci)"
  by (auto simp: builtin_effect_def)

lemma good_call_builtin:
  assumes "good_ev b L ev" "pre b L ci" "okc b args"
  shows "ev_post b (\<lambda>_ ci'. keeps ci ci') (call_builtin ev ci name args)"
proof -
  have "ev_post b (\<lambda>_ ci'. keeps ci ci') (builtin_argument ev ci name args)"
    using call_ev [OF assms(1,2) keeps_refl, of args] assms(3)
    by (auto simp: builtin_argument_def split: list.split node.split option.split)
  then show ?thesis
    unfolding call_builtin_def
    by (rule evp_and_then) (auto simp: builtin_effect_keeps)
qed

section \<open>Calls\<close>

lemma then_ev_x:
  assumes "good_ev b L ev" "pre b L ci0" "extends ci0 ci" "okc b c"
    and "\<And>v ci'. extends ci0 ci' \<Longrightarrow> exp_post b Q (f v ci')"
  shows "exp_post b Q (and_then (ev ci c) f)"
  by (rule xp_and_then [OF call_ev_x [OF assms(1-4)]]) (use assms(5) in blast)

lemma then_ex:
  assumes "good_ex b L ex" "pre b L ci0" "extends ci0 ci" "okc b c"
    and "\<And>ci'. extends ci0 ci' \<Longrightarrow> exp_post b Q (f ci')"
  shows "exp_post b Q (case ex ci c of None \<Rightarrow> None | Some ci \<Rightarrow> f ci)"
  by (rule xp_bind [OF call_ex [OF assms(1-4)]]) (use assms(5) in blast)

lemma good_bind_params:
  assumes "good_ev b L ev" "pre b L ci0"
  shows "extends ci0 ci \<Longrightarrow> okc b as \<Longrightarrow> exp_post b (extends ci0) (bind_params ev ci ps as)"
proof (induction ps arbitrary: ci as)
  case (Cons p ps)
  show ?case
  proof (cases as)
    case (Cons a as')
    have ok: "okc b as'" using Cons.prems(2) Cons by simp
    show ?thesis
      unfolding Cons bind_params.simps
      by (rule then_ev_x [OF assms Cons.prems(1) Cons.prems(2) [unfolded Cons]])
        (auto intro!: Cons.IH ok split: option.split)
  qed (use Cons.prems in simp)
qed simp

lemma good_run_body:
  assumes "good_ev b L ev" "good_ex b L ex" "pre b L ci0"
  shows "extends ci0 ci \<Longrightarrow> okc b ss \<Longrightarrow> ev_post b (\<lambda>_. extends ci0) (run_body ev ex ci ss)"
proof (induction ss arbitrary: ci)
  case (Cons s ss)
  have ok: "okc b ss" using Cons.prems(2) by simp
  have ret: "ev_post b (\<lambda>_. extends ci0) (ev ci val)" if "s = Return m val" for m val
    by (rule evp_mono [OF call_ev_x [OF assms(1,3) Cons.prems(1)]])
      (use that Cons.prems(2) okc_child [of b s ss val] in auto)
  have go: "ev_post b (\<lambda>_. extends ci0)
      (case ex ci (s # ss) of None \<Rightarrow> None
       | Some ci \<Rightarrow> if ci_error ci then Some (VAL_NULL, ci) else run_body ev ex ci ss)"
    by (rule evp_bind [OF call_ex [OF assms(2,3) Cons.prems]]) (auto intro!: Cons.IH ok)
  show ?case
    using Cons.prems(1) go ret by (cases s) simp_all
qed simp

lemma good_call_fn:
  assumes "good_ev b L ev" "good_ex b L ex" "pre b L ci" "okc b args" "okc b [fn_node]"
  shows "ev_post b (\<lambda>_. keeps ci) (call_comptime_fn ev ex ci fn_node args)"
proof (cases fn_node)
  case (Function m name params ct body)
  let ?ci1 = "ci\<lparr>ci_scope := [], ci_rec_depth := Suc (ci_rec_depth ci)\<rparr>"
  have p: "pre b L ?ci1" using assms(3) by (simp add: pre_def)
  have body: "okc b (block_statements body)"
    using okc_child [OF assms(5)] Function by simp
  show ?thesis
  proof (cases "ci_rec_depth ci \<ge> MAX_RECURSION")
    case True
    with Function show ?thesis by (auto simp: call_comptime_fn_def)
  next
    case False
    have fin: "ev_post b (\<lambda>_. extends ?ci1)
        (if ci_error c then Some (VAL_NULL, c) else run_body ev ex c (block_statements body))"
      if "extends ?ci1 c" for c
      using good_run_body [OF assms(1,2) p that body] that by simp
    have "ev_post b (\<lambda>_. keeps ci)
      (case bind_params ev ?ci1 params args of None \<Rightarrow> None
       | Some ci1 \<Rightarrow> and_then
           (if ci_error ci1 then Some (VAL_NULL, ci1) else run_body ev ex ci1 (block_statements body))
           (\<lambda>ret ci2. Some (ret, ci2\<lparr>ci_scope := ci_scope ci, ci_rec_depth := ci_rec_depth ci2 - 1\<rparr>)))"
      by (rule evp_bind [OF good_bind_params [OF assms(1) p extends_refl assms(4)]])
        (rule evp_and_then [OF fin], assumption, simp only: evp_Some, erule keeps_return)
    with Function False show ?thesis by (simp add: call_comptime_fn_def)
  qed
qed (auto simp: call_comptime_fn_def)

lemma good_eval_call:
  assumes "good_ev b L ev" "good_ex b L ex" "pre b L ci" "okc b args"
  shows "ev_post b (\<lambda>_. keeps ci) (eval_call ev ex ci t callee args)"
proof -
  have "okc b [f]" if "List.find q (ci_funcs ci) = Some f" for q f
  proof -
    have "f \<in> set (ci_funcs ci)" using that by (auto simp: find_Some_iff)
    with assms(3) show ?thesis by (auto simp: pre_def okc_def chain_ok_def)
  qed
  then show ?thesis
    using good_call_builtin [OF assms(1,3,4)] good_call_fn [OF assms(1-4)]
    by (auto simp: eval_call_def split: option.split)
qed

lemma eval_literal_keeps: "keeps ci0 ci \<Longrightarrow> keeps ci0 (snd (eval_literal ci k i d s))"
  by (cases k) (auto simp: float_to_int_def Let_def split: dbl.split)

lemma eval_var_keeps: "keeps ci0 ci \<Longrightarrow> keeps ci0 (snd (eval_var ci t name))"
  by (auto simp: eval_var_def split: option.split)

lemma good_eval_node:
  assumes "good_ev b L ev" "good_ex b L ex" "pre b L ci" "okc b (n # ns)"
  shows "ev_post b (\<lambda>_. keeps ci) (eval_node ev ex ci n)"
proof -
  note child = okc_child [OF assms(4)]
  note calls = good_eval_binary [OF assms(1,3)] good_eval_unary [OF assms(1,3)]
    good_eval_index [OF assms(1,3)] good_eval_call [OF assms(1-3)] call_ev [OF assms(1,3) keeps_refl]
  show ?thesis
    using child
    by (cases n) (simp_all add: eval_node_def calls evp_pair eval_literal_keeps eval_var_keeps keeps_steps(1))
qed

lemma good_eval_step:
  assumes "\<And>s. (b \<Longrightarrow> L \<le> s) \<Longrightarrow> s \<le> MAX_STEPS \<Longrightarrow> good_ev b (Suc s) ev \<and> good_ex b (Suc s) ex"
  shows "good_ev b L (eval_step ev ex)"
  unfolding good_ev_def
proof (intro allI impI)
  fix ci c
  assume p: "pre b L ci \<and> okc b c"
  let ?s = "ci_step_count ci"
  show "ev_post b (\<lambda>v ci'. keeps ci ci' \<and> ?s < ci_step_count ci' \<and> (MAX_STEPS < ?s \<longrightarrow> v = VAL_NULL))
      (eval_step ev ex ci c)"
  proof (cases "MAX_STEPS < ?s")
    case True
    have "keeps ci (zerror t m (count_step ci))" for t m by auto
    with True show ?thesis by (simp add: eval_step_def)
  next
    case False
    have "keeps ci (count_step ci)" by auto
    then have up: "keeps ci ci' \<and> ?s < ci_step_count ci'" if "keeps (count_step ci) ci'" for ci'
      using keeps_trans that keeps_le [OF that] by (simp add: count_step_def Suc_le_eq) 
    have "good_ev b (Suc ?s) ev" "good_ex b (Suc ?s) ex"
      using assms [of ?s] p False by (auto simp: pre_def)
    moreover have "pre b (Suc ?s) (count_step ci)" using p by (simp add: pre_def count_step_def)
    ultimately have node: "ev_post b (\<lambda>_. keeps (count_step ci)) (eval_node ev ex (count_step ci) n)"
      if "c = n # ns" for n ns
      using good_eval_node p that by blast
    have "ev_post b (\<lambda>v ci'. keeps ci ci' \<and> ?s < ci_step_count ci') (eval_node ev ex (count_step ci) n)"
      if "c = n # ns" for n ns
      by (rule evp_mono [OF node [OF that]]) (rule up)
    then show ?thesis
      using False up [OF keeps_refl] by (cases c) (simp_all add: eval_step_def)
  qed
qed

section \<open>The functions of a statement\<close>

lemma good_exec_let:
  assumes "good_ev b L ev" "pre b L ci" "okc b init"
  shows "exp_post b (extends ci) (exec_let ev ci name init ti)"
  by (auto simp: exec_let_def split: option.split intro!: then_ev_x [OF assms(1,2) extends_refl assms(3)])

lemma good_eval_int_x:
  assumes "good_ev b L ev" "pre b L ci0" "extends ci0 ci" "okc b c"
  shows "ev_post b (\<lambda>_ ci'. extends ci0 ci') (eval_int ev ci c)"
  unfolding eval_int_def
  by (rule evp_and_then [OF call_ev_x [OF assms]]) (auto split: CValue.split)

lemma good_exec_assign_index:
  assumes "good_ev b L ev" "pre b L ci" "okc b index" "okc b right"
  shows "exp_post b (extends ci) (exec_assign_index ev ci t array index right)"
proof -
  note right = then_ev_x [OF assms(1,2) _ assms(4)]
  have idx: "exp_post b (extends ci) (and_then (eval_int ev ci index) f)"
    if "\<And>i ci'. extends ci ci' \<Longrightarrow> exp_post b (extends ci) (f i ci')" for f
    by (rule xp_and_then [OF good_eval_int_x [OF assms(1,2) extends_refl assms(3)]]) (rule that)
  show ?thesis
    unfolding exec_assign_index_def
    by (auto split: list.split node.split option.split CValue.split intro!: idx right)
qed

lemma good_exec_assign:
  assumes "good_ev b L ev" "pre b L ci" "okc b left" "okc b right"
  shows "exp_post b (extends ci) (exec_assign ev ci t left right)"
proof -
  have "okc b index" if "left = Index m array index extra # ns" for m array index extra ns
    using okc_child [of b "Index m array index extra" ns index] assms(3) that by simp
  then show ?thesis
    unfolding exec_assign_def
    by (auto split: list.split node.split option.split
        intro!: then_ev_x [OF assms(1,2) extends_refl assms(4)] good_exec_assign_index [OF assms(1,2) _ assms(4)])
qed

lemma good_exec_chain:
  assumes "good_ex b L ex" "pre b L ci0"
  shows "extends ci0 ci \<Longrightarrow> okc b ss \<Longrightarrow> exp_post b (extends ci0) (exec_chain ex ci ss)"
proof (induction ss arbitrary: ci)
  case (Cons s ss)
  have "exp_post b (extends ci0) (case ex ci (s # ss) of None \<Rightarrow> None | Some ci \<Rightarrow> exec_chain ex ci ss)"
    by (rule then_ex [OF assms Cons.prems]) (use Cons in simp)
  with Cons.prems show ?case by simp
qed simp

lemma good_exec_if:
  assumes "good_ev b L ev" "good_ex b L ex" "pre b L ci" "okc b condition" "okc b thn" "okc b els"
  shows "exp_post b (extends ci) (exec_if ev ex ci condition thn els)"
  unfolding exec_if_def
  by (rule then_ev_x [OF assms(1,3) extends_refl assms(4)])
    (use good_exec_chain [OF assms(2,3)] assms(5,6) in simp)

lemma good_exec_assert:
  assumes "good_ev b L ev" "pre b L ci" "okc b condition"
  shows "exp_post b (extends ci) (exec_assert ev ci t condition message)"
  unfolding exec_assert_def
  by (rule then_ev_x [OF assms(1,2) extends_refl assms(3)]) auto

lemma good_exec_expr:
  assumes "good_ev b L ev" "pre b L ci" "okc b c"
  shows "exp_post b (extends ci) (exec_expr ev ci c)"
  unfolding exec_expr_def
  by (rule then_ev_x [OF assms(1,2) extends_refl assms(3)]) simp

section \<open>Loops\<close>

text \<open>Fuel for a loop: while no error has happened there are as many turns left as steps, and two more.\<close>

definition turns :: "bool \<Rightarrow> nat \<Rightarrow> interp \<Rightarrow> bool" where
  "turns b k ci \<longleftrightarrow>
     (b \<longrightarrow> 1 \<le> k \<and> (\<not> ci_error ci \<longrightarrow> 2 \<le> k \<and> MAX_STEPS + 3 \<le> k + ci_step_count ci))"

lemma turns_next:
  assumes "turns b (Suc k) ci" "\<not> ci_error ci" "ci_step_count ci < ci_step_count ci'"
    and "MAX_STEPS < ci_step_count ci \<Longrightarrow> ci_error ci'"
  shows "turns b k ci'"
  using assms by (cases "MAX_STEPS < ci_step_count ci") (auto simp: turns_def)

lemma turns_0 [simp]: "turns b 0 ci \<longleftrightarrow> \<not> b"
  by (simp add: turns_def)

lemma xp_None [simp]: "exp_post b P None \<longleftrightarrow> \<not> b"
  by (simp add: exp_post_def)

lemma good_while:
  assumes "good_ev b L ev" "good_ex b L ex" "pre b L ci0" "okc b condition" "okc b body"
  shows "extends ci0 ci \<Longrightarrow> turns b k ci \<Longrightarrow> exp_post b (extends ci0) (while_loop k ev ex ci condition body)"
proof (induction k arbitrary: ci)
  case (Suc k)
  show ?case
  proof (cases "ci_error ci")
    case False
    have "exp_post b (extends ci0)
      (case exec_opt ex ci1 body of None \<Rightarrow> None | Some ci \<Rightarrow> while_loop k ev ex ci condition body)"
      if c: "extends ci0 ci1" "ci_step_count ci < ci_step_count ci1" "ci_step_count ci \<le> MAX_STEPS" for ci1
    proof (rule xp_bind [OF call_opt [OF assms(2,3) c(1) assms(5)]])
      fix ci2
      assume d: "extends ci0 ci2 \<and> (body \<noteq> [] \<and> \<not> ci_error ci1 \<longrightarrow> ci_step_count ci1 < ci_step_count ci2)
        \<and> ci_step_count ci1 \<le> ci_step_count ci2
        \<and> (body \<noteq> [] \<and> MAX_STEPS < ci_step_count ci1 \<longrightarrow> ci_error ci2)"
      have "turns b k ci2"
        by (rule turns_next [OF Suc.prems(2) False]) (use d c in auto)
      then show "exp_post b (extends ci0) (while_loop k ev ex ci2 condition body)" using Suc.IH d by blast
    qed
    then show ?thesis
      using False
      by (auto intro!: xp_and_then [OF call_ev_x [OF assms(1,3) Suc.prems(1) assms(4)]] simp: not_less)
  qed (use Suc.prems in simp)
qed simp

lemma good_infinite:
  assumes "good_ex b L ex" "pre b L ci0" "okc b body"
  shows "extends ci0 ci \<Longrightarrow> turns b k ci \<Longrightarrow> exp_post b (extends ci0) (infinite_loop k ex ci body)"
proof (induction k arbitrary: ci)
  case (Suc k)
  show ?case
  proof (cases "ci_error ci \<or> MAX_STEPS < ci_step_count ci")
    case False
    have "extends ci0 (count_step ci)" using Suc.prems(1) by auto
    then have "exp_post b (extends ci0)
      (case exec_opt ex (count_step ci) body of None \<Rightarrow> None | Some ci \<Rightarrow> infinite_loop k ex ci body)"
    proof (rule xp_bind [OF call_opt [OF assms(1,2) _ assms(3)]])
      fix ci2
      assume d: "extends ci0 ci2 \<and> (body \<noteq> [] \<and> \<not> ci_error (count_step ci) \<longrightarrow> ci_step_count (count_step ci) < ci_step_count ci2)
        \<and> ci_step_count (count_step ci) \<le> ci_step_count ci2
        \<and> (body \<noteq> [] \<and> MAX_STEPS < ci_step_count (count_step ci) \<longrightarrow> ci_error ci2)"
      have "turns b k ci2"
        by (rule turns_next [OF Suc.prems(2)]) (use d False in auto)
      then show "exp_post b (extends ci0) (infinite_loop k ex ci2 body)" using Suc.IH d by blast
    qed
    then show ?thesis using False by simp
  qed (use Suc.prems in auto)
qed simp

lemma good_range:
  assumes "good_ex b L ex" "pre b L ci0" "okc b body"
  shows "extends ci0 ci \<Longrightarrow> turns b k ci \<Longrightarrow>
    exp_post b (extends ci0) (range_loop k ex ci t var_name i stop inclusive body)"
proof (induction k arbitrary: ci i)
  case (Suc k)
  let ?c1 = "count_step ci"
  let ?c2 = "case var_name of Some n \<Rightarrow> ?c1\<lparr>ci_scope := scope_push (ci_scope ?c1) n (VAL_INT (word_of_int i))\<rparr> | None \<Rightarrow> ?c1"
  let ?pop = "\<lambda>c. case var_name of Some _ \<Rightarrow> c\<lparr>ci_scope := scope_pop (ci_scope c)\<rparr> | None \<Rightarrow> c"
  show ?case
  proof (cases "(if inclusive then i \<le> stop else i < stop) \<and> ci_step_count ci \<le> MAX_STEPS")
    case True
    have x1: "extends ci0 ?c1" using Suc.prems(1) by auto
    have c1: "pre b L ?c1" by (rule pre_grows [OF assms(2)]) (use x1 in \<open>simp add: extends_def\<close>)
    have c2: "pre b L ?c2" "ci_step_count ?c2 = Suc (ci_step_count ci)"
      using c1 by (auto simp: pre_def split: option.split)
    have pop: "extends ?c1 (?pop c)" if "extends ?c2 c" for c
      using that extends_pop [of ?c1] by (cases var_name) simp_all
    have "exp_post b (extends ci0)
      (case exec_opt ex ?c2 body of None \<Rightarrow> None
       | Some ci3 \<Rightarrow> (let ci4 = ?pop ci3 in
            if ci_error ci4 then Some ci4
            else if \<not> in_i64 (i + 1) then Some (crash ci4)
            else range_loop k ex ci4 t var_name (i + 1) stop inclusive body))"
    proof (rule xp_bind [OF call_opt [OF assms(1) c2(1) extends_refl assms(3)]])
      fix ci3
      assume "extends ?c2 ci3 \<and> (body \<noteq> [] \<and> \<not> ci_error ?c2 \<longrightarrow> ci_step_count ?c2 < ci_step_count ci3)
        \<and> ci_step_count ?c2 \<le> ci_step_count ci3 \<and> (body \<noteq> [] \<and> MAX_STEPS < ci_step_count ?c2 \<longrightarrow> ci_error ci3)"
      then have e: "extends ?c1 (?pop ci3)" using pop by blast
      then have x: "extends ci0 (?pop ci3)" using extends_trans [OF x1] by blast
      have le: "Suc (ci_step_count ci) \<le> ci_step_count (?pop ci3)" using extends_le [OF e] by simp
      have "exp_post b (extends ci0) (range_loop k ex (?pop ci3) t var_name (i + 1) stop inclusive body)"
        if "\<not> ci_error (?pop ci3)"
      proof (rule Suc.IH [OF x])
        have "ci_error ci \<longrightarrow> ci_error (?pop ci3)" using e by (simp add: extends_def grows_def)
        then show "turns b k (?pop ci3)"
          by (intro turns_next [OF Suc.prems(2)]) (use that le True in auto)
      qed
      then show "exp_post b (extends ci0) (let ci4 = ?pop ci3 in
            if ci_error ci4 then Some ci4
            else if \<not> in_i64 (i + 1) then Some (crash ci4)
            else range_loop k ex ci4 t var_name (i + 1) stop inclusive body)"
        using x extends_steps(2) [OF x] by (simp add: Let_def)
    qed
    then show ?thesis using True by (simp add: Let_def)
  next
    case False
    then show ?thesis using Suc.prems by auto
  qed
qed simp

lemma good_for:
  assumes "good_ev b L ev" "good_ex b L ex" "pre b L ci0" "okc b condition" "okc b step" "okc b body"
    and work: "b \<Longrightarrow> condition \<noteq> [] \<or> step \<noteq> [] \<or> body \<noteq> []"
  shows "extends ci0 ci \<Longrightarrow> turns b k ci \<Longrightarrow> exp_post b (extends ci0) (for_loop k ev ex ci condition step body)"
proof (induction k arbitrary: ci)
  case (Suc k)
  show ?case
  proof (cases "ci_error ci")
    case False
    define moved where "moved = (\<lambda>c :: interp. ci_step_count ci < ci_step_count c \<and> (MAX_STEPS < ci_step_count ci \<longrightarrow> ci_error c))"
    have go: "exp_post b (extends ci0)
      (case exec_opt ex ci1 body of None \<Rightarrow> None
       | Some ci \<Rightarrow> if ci_error ci then Some ci
           else (case exec_opt ex ci step of None \<Rightarrow> None | Some ci \<Rightarrow> for_loop k ev ex ci condition step body))"
      if c: "extends ci0 ci1" "ci_step_count ci \<le> ci_step_count ci1" "ci_error ci1 \<longrightarrow> condition \<noteq> []"
        "condition \<noteq> [] \<Longrightarrow> ci_step_count ci < ci_step_count ci1 \<and> ci_step_count ci \<le> MAX_STEPS" for ci1
    proof (rule xp_bind [OF call_opt [OF assms(2,3) c(1) assms(6)]], rule xp_if)
      fix ci2
      assume d: "extends ci0 ci2 \<and> (body \<noteq> [] \<and> \<not> ci_error ci1 \<longrightarrow> ci_step_count ci1 < ci_step_count ci2)
        \<and> ci_step_count ci1 \<le> ci_step_count ci2
        \<and> (body \<noteq> [] \<and> MAX_STEPS < ci_step_count ci1 \<longrightarrow> ci_error ci2)"
      { assume "ci_error ci2" then show "exp_post b (extends ci0) (Some ci2)" using d by simp }
      assume e2: "\<not> ci_error ci2"
      have "extends ci0 ci2" using d by simp
      then show "exp_post b (extends ci0)
          (case exec_opt ex ci2 step of None \<Rightarrow> None | Some ci \<Rightarrow> for_loop k ev ex ci condition step body)"
      proof (rule xp_bind [OF call_opt [OF assms(2,3) _ assms(5)]])
        fix ci3
        assume s: "extends ci0 ci3 \<and> (step \<noteq> [] \<and> \<not> ci_error ci2 \<longrightarrow> ci_step_count ci2 < ci_step_count ci3)
          \<and> ci_step_count ci2 \<le> ci_step_count ci3
          \<and> (step \<noteq> [] \<and> MAX_STEPS < ci_step_count ci2 \<longrightarrow> ci_error ci3)"
        have "turns b k ci3"
        proof (cases b)
          case True
          from work [OF True] consider "condition \<noteq> []" | "condition = []" "body \<noteq> []" | "condition = []" "body = []" "step \<noteq> []"
            by blast
          then show ?thesis
          proof cases
            case 1
            then show ?thesis using c(4) d s by (intro turns_next [OF Suc.prems(2) False]) auto
          next
            case 2
            then show ?thesis using c d s e2 by (intro turns_next [OF Suc.prems(2) False]) auto
          next
            case 3
            then show ?thesis using c d s e2 by (intro turns_next [OF Suc.prems(2) False]) auto
          qed
        qed (simp add: turns_def)
        then show "exp_post b (extends ci0) (for_loop k ev ex ci3 condition step body)" using Suc.IH s by blast
      qed
    qed
    show ?thesis
    proof (cases "condition = []")
      case True
      then show ?thesis
        using go [OF Suc.prems(1)] False unfolding True by (simp add: and_then_def)
    next
      case cond: False
      have "exp_post b (extends ci0) (and_then (ev ci condition) (\<lambda>cv ci. if \<not> truthy cv then Some ci else
        (case exec_opt ex ci body of None \<Rightarrow> None
         | Some ci \<Rightarrow> if ci_error ci then Some ci
           else (case exec_opt ex ci step of None \<Rightarrow> None | Some ci \<Rightarrow> for_loop k ev ex ci condition step body))))"
      proof (rule xp_and_then [OF call_ev_x [OF assms(1,3) Suc.prems(1) assms(4)]], rule xp_if)
        fix v ci1
        assume v: "extends ci0 ci1 \<and> ci_step_count ci < ci_step_count ci1 \<and> (MAX_STEPS < ci_step_count ci \<longrightarrow> v = VAL_NULL)"
        { assume "\<not> truthy v" then show "exp_post b (extends ci0) (Some ci1)" using v by simp }
        assume "\<not> \<not> truthy v"
        then have "ci_step_count ci \<le> MAX_STEPS" using v by (auto simp: not_less [symmetric])
        then show "exp_post b (extends ci0)
          (case exec_opt ex ci1 body of None \<Rightarrow> None
           | Some ci \<Rightarrow> if ci_error ci then Some ci
           else (case exec_opt ex ci step of None \<Rightarrow> None | Some ci \<Rightarrow> for_loop k ev ex ci condition step body))"
          using v cond by (intro go) auto
      qed
      then show ?thesis using False cond by simp
    qed
  qed (use Suc.prems in simp)
qed simp

section \<open>The knot\<close>

lemma good_exec_for_range:
  assumes "good_ev b L ev" "good_ex b L ex" "pre b L ci" "okc b start" "okc b stop" "okc b body"
    and "turns b k ci" "\<not> ci_error ci" "ci_step_count ci \<le> Suc MAX_STEPS"
  shows "exp_post b (extends ci) (exec_for_range k ev ex ci t var_name start stop inclusive body)"
proof -
  have int: "ev_post b (\<lambda>_. extends ci) (if c \<noteq> [] then eval_int ev ci' c else Some (0, ci'))"
    if "extends ci ci'" "okc b c" for ci' c
    using good_eval_int_x [OF assms(1,3) that] that by simp
  have turns: "turns b k ci'" if "extends ci ci'" for ci'
    using assms(7,8) extends_le [OF that] by (auto simp: turns_def)
  show ?thesis
    unfolding exec_for_range_def
    by (rule xp_and_then [OF int [OF extends_refl assms(4)]], rule xp_and_then [OF int [OF _ assms(5)]])
      (auto intro!: good_range [OF assms(2,3,6)] turns)
qed

lemma good_exec_node:
  assumes "good_ev b L ev" "good_ex b L ex" "pre b L ci" "okc b (n # ns)" "turns b k ci" "\<not> ci_error ci"
    and "ci_step_count ci \<le> Suc MAX_STEPS"
  shows "exp_post b (extends ci) (exec_node k ev ex ci n (n # ns))"
proof -
  note child = okc_child [OF assms(4)]
  note ev = assms(1,3)
  have loop: "condition \<noteq> [] \<or> step \<noteq> [] \<or> body \<noteq> []"
    if "b" "n = For m init condition step body label" for m init condition step body label
    using assms(4) that loops_ok_for [of n] by (auto simp: okc_def for_ok_def)
  have forl: "exp_post b (extends ci)
      (case exec_opt ex ci init of None \<Rightarrow> None | Some ci \<Rightarrow> for_loop k ev ex ci condition step body)"
    if n: "n = For m init condition step body label" for m init condition step body label
  proof (rule xp_bind [OF call_opt [OF assms(2,3) extends_refl]])
    show "okc b init" using child n by simp
    fix ci1
    assume x: "extends ci ci1 \<and> (init \<noteq> [] \<and> \<not> ci_error ci \<longrightarrow> ci_step_count ci < ci_step_count ci1)
        \<and> ci_step_count ci \<le> ci_step_count ci1 \<and> (init \<noteq> [] \<and> MAX_STEPS < ci_step_count ci \<longrightarrow> ci_error ci1)"
    then have "turns b k ci1" using assms(5,6) by (auto simp: turns_def)
    with x show "exp_post b (extends ci) (for_loop k ev ex ci1 condition step body)"
      using child n loop [OF _ n] by (intro good_for [OF assms(1-3)]) auto
  qed
  show ?thesis
    using child forl assms(4-7) good_exec_expr [OF ev assms(4)]
    by (cases n)
      (simp_all add: exec_node_def good_exec_let [OF ev] good_exec_assign [OF ev] good_exec_assert [OF ev]
        good_exec_if [OF assms(1-3)] good_exec_chain [OF assms(2,3)] good_exec_for_range [OF assms(1-3)]
        good_while [OF assms(1-3)] good_infinite [OF assms(2,3)])
qed

lemma good_exec_step:
  assumes "\<And>s. (b \<Longrightarrow> L \<le> s) \<Longrightarrow> s \<le> MAX_STEPS \<Longrightarrow> good_ev b (Suc s) ev \<and> good_ex b (Suc s) ex"
    and "b \<Longrightarrow> MAX_STEPS + 3 \<le> Suc k + L"
  shows "good_ex b L (exec_step k ev ex)"
  unfolding good_ex_def
proof (intro allI impI)
  fix ci c
  assume p: "pre b L ci \<and> okc b c"
  let ?s = "ci_step_count ci"
  show "exp_post b (\<lambda>ci'. extends ci ci' \<and> (c \<noteq> [] \<and> \<not> ci_error ci \<longrightarrow> ?s < ci_step_count ci')
      \<and> (c \<noteq> [] \<and> MAX_STEPS < ?s \<longrightarrow> ci_error ci')) (exec_step k ev ex ci c)"
  proof (cases "c = [] \<or> ci_error ci \<or> MAX_STEPS < ?s")
    case True
    have "extends ci (zerror t m (count_step ci))" for t m by auto
    with True show ?thesis by (auto simp: exec_step_def split: list.split)
  next
    case False
    then obtain n ns where c: "c = n # ns" by (cases c) auto
    have "extends ci (count_step ci)" by auto
    then have up: "extends ci ci' \<and> ?s < ci_step_count ci'" if "extends (count_step ci) ci'" for ci'
      using extends_trans that extends_le [OF that] by (simp add: Suc_le_eq)
    have "good_ev b (Suc ?s) ev" "good_ex b (Suc ?s) ex"
      using assms(1) [of ?s] p False by (auto simp: pre_def)
    moreover have "pre b (Suc ?s) (count_step ci)" using p by (simp add: pre_def count_step_def)
    moreover have "turns b k (count_step ci)"
      using p assms(2) False by (auto simp: turns_def pre_def)
    ultimately have "exp_post b (extends (count_step ci)) (exec_node k ev ex (count_step ci) n (n # ns))"
      using p c False by (intro good_exec_node) auto
    then have "exp_post b (\<lambda>ci'. extends ci ci' \<and> ?s < ci_step_count ci') (exec_node k ev ex (count_step ci) n (n # ns))"
      by (rule xp_mono) (rule up)
    then show ?thesis using False c by (simp add: exec_step_def)
  qed
qed

text \<open>The two evaluators, with any fuel, and with enough of it.\<close>

lemma good_knot:
  "(b \<longrightarrow> 1 \<le> k \<and> MAX_STEPS + 3 \<le> k + L) \<Longrightarrow> good_ev b L (eval_expr k) \<and> good_ex b L (exec_stmt k)"
proof (induction k arbitrary: L)
  case 0
  then show ?case by (simp add: good_ev_def good_ex_def ev_post_def)
next
  case (Suc k)
  have inner: "good_ev b (Suc s) (eval_expr k) \<and> good_ex b (Suc s) (exec_stmt k)"
    if "b \<Longrightarrow> L \<le> s" "s \<le> MAX_STEPS" for s
    by (rule Suc.IH) (use that Suc.prems in auto)
  have ev: "eval_expr (Suc k) = eval_step (eval_expr k) (exec_stmt k)"
    and ex: "exec_stmt (Suc k) = exec_step k (eval_expr k) (exec_stmt k)"
    by (simp_all add: fun_eq_iff)
  show ?case
    unfolding ev ex using good_eval_step [OF inner] good_exec_step [OF inner] Suc.prems by auto
qed

end
