(* ===== verification/ZcComptimeProps.thy ===== *)
theory ZcComptimeProps
  imports ZcComptimeFrame
begin

text \<open>What the compile-time interpreter promises: it ends, it reports every failure, its output is
  bounded, an expression has no effect on the variables; and what a variable holds after a \<open>let\<close> or
  an assignment. The last sections hold what it does that its users would not expect.\<close>

section \<open>The interfaces it provides\<close>

text \<open>The scope binds names; the yield buffer grows.\<close>

lemma scope_find_push: "scope_find (scope_push s n v) m = (if m = n then Some v else scope_find s m)"
  by (simp add: scope_find_def scope_push_def)

interpretation cscope: name_env scope_find scope_push
  by unfold_locales (simp_all add: scope_find_push)

definition yield_accepts :: "interp \<Rightarrow> string \<Rightarrow> bool" where
  "yield_accepts ci s \<longleftrightarrow>
     length (ci_yield ci) + length s + 1 \<le> ci_yield_cap ci \<or> yield_new_cap ci (length s) \<le> MAX_YIELD"

interpretation yieldbuf: growable_buffer ci_yield yield_append yield_accepts interp_ok
proof
  fix ci s
  show "interp_ok ci \<Longrightarrow> interp_ok (yield_append ci s)"
    using yield_append_grows [of ci s] by (simp add: keeps_def grows_def)
qed (auto simp: yield_append_def yield_accepts_def Let_def zerror_def)

text \<open>
  What a program yields is never reordered, overwritten or lost but at the limit: after any run
  of \<open>yield_append\<close>s the text is the text before followed by more, and it is exactly the
  concatenation when every append was accepted.
\<close>

theorem yield_appends_in_order:
  assumes "interp_ok ci"
  shows "(\<exists>ys. ci_yield (foldl yield_append ci ss) = ci_yield ci @ ys)
    \<and> (yieldbuf.all_accepted ci ss \<longrightarrow> ci_yield (foldl yield_append ci ss) = ci_yield ci @ concat ss)"
  using yieldbuf.content_grows [OF assms] yieldbuf.content_append_all [OF assms] by blast

lemma initial_ok: "interp_ok (initial_interp funcs nm f)"
  by (simp add: interp_ok_def initial_interp_def)

theorem yield_appends_in_order_witness:
  "\<exists>ys. ci_yield (foldl yield_append (initial_interp [] ''linux'' None) [''a'', ''b'']) = ys"
  using yield_appends_in_order [OF initial_ok, of "[]" "''linux''" None] by simp

section \<open>Termination\<close>

text \<open>
  C1: the interpreter always ends: with fuel for \<open>MAX_STEPS\<close> steps and three more, every program has a
  result, whatever its loops and calls do, provided that each \<open>for\<close> of the program and of its functions
  has a condition, a step or a body.
\<close>

theorem comptime_terminates:
  assumes "chain_ok funcs" and "chain_ok body" and "MAX_STEPS + 3 \<le> fuel"
  shows "\<exists>r ci. interpret_comptime fuel funcs nm body f = Some (r, ci)"
proof -
  let ?ci = "initial_interp funcs nm f"
  have "good_ex True 0 (exec_stmt fuel)" using good_knot [of True fuel 0] assms(3) by simp
  moreover have "pre True 0 ?ci" using assms(1) by (simp add: pre_def initial_interp_def)
  ultimately have "exp_post True (extends ?ci) (exec_chain (exec_stmt fuel) ?ci body)"
    using assms(2) by (intro good_exec_chain) (simp_all add: okc_def)
  then show ?thesis by (auto simp: exp_post_def interpret_comptime_def split: option.splits)
qed

definition no_meta :: meta where "no_meta = Meta TOKEN_UNKNOWN None []"

definition endless_program :: "node list" where
  "endless_program = [While no_meta [VarRef no_meta (Some ''true'') None] [Block no_meta []] None]"

lemma loops_okI: "for_ok n \<Longrightarrow> (\<And>c. c \<in> set (child_chains n) \<Longrightarrow> chain_ok c) \<Longrightarrow> loops_ok n"
  by (auto simp: chain_ok_def loops_ok_def intro: every_nodeI)

lemma endless_ok: "chain_ok endless_program"
  by (auto simp: endless_program_def for_ok_def intro!: loops_okI)

theorem comptime_terminates_witness:
  "\<exists>r ci. interpret_comptime 1000003 [] ''linux'' endless_program None = Some (r, ci)"
  using comptime_terminates [OF chain_ok_simps(1) endless_ok, of 1000003] by (simp add: MAX_STEPS_def)

section \<open>Results and errors\<close>

lemma run_extends:
  assumes "exec_chain (exec_stmt fuel) ci body = Some ci'"
  shows "extends ci ci'"
proof -
  have "good_ex False 0 (exec_stmt fuel)" using good_knot [of False] by blast
  then have "exp_post False (extends ci) (exec_chain (exec_stmt fuel) ci body)"
    by (rule good_exec_chain) (simp_all add: pre_def okc_def)
  with assms show ?thesis by simp
qed

text \<open>
  C35: the result is text or an error, never both: \<open>interpret_comptime\<close> returns NULL exactly when the run
  failed, a failed run has reported at least one error (or has crashed), and the text of a run that did
  not fail is what was yielded and fits a buffer of 1 MiB with its terminator.
\<close>

theorem comptime_result:
  assumes "interpret_comptime fuel funcs nm body f = Some (r, ci)"
  shows "(r = None \<longleftrightarrow> ci_error ci) \<and> (ci_error ci \<longrightarrow> ci_errors ci \<noteq> [] \<or> ci_ub ci)
    \<and> (\<forall>out. r = Some out \<longrightarrow> out = ci_yield ci \<and> length out < MAX_YIELD)"
proof -
  obtain c where c: "exec_chain (exec_stmt fuel) (initial_interp funcs nm f) body = Some c"
    "ci = c" "r = (if ci_error c then None else Some (ci_yield c))"
    using assms by (auto simp: interpret_comptime_def split: option.splits)
  have "interp_ok ci"
    using run_extends [OF c(1)] initial_ok c(2) by (auto simp: extends_def grows_def)
  then show ?thesis
    using c(2,3) by (auto simp: interp_ok_def MAX_YIELD_def split: if_splits)
qed

lemma knot_numeral [simp]:
  "eval_expr (numeral k) ci c = eval_step (eval_expr (pred_numeral k)) (exec_stmt (pred_numeral k)) ci c"
  "exec_stmt (numeral k) ci c =
     exec_step (pred_numeral k) (eval_expr (pred_numeral k)) (exec_stmt (pred_numeral k)) ci c"
  by (simp_all add: numeral_eq_Suc)

lemmas run_eval =
  interpret_comptime_def initial_interp_def exec_step_def exec_node_def eval_step_def eval_node_def
  count_step_def exec_expr_def and_then_def MAX_STEPS_def eval_call_def callee_name_def
  builtin_names_def call_builtin_def builtin_argument_def builtin_effect_def no_meta_def zerror_def
  eval_var_def scope_find_def scope_push_def exec_let_def eval_binary_def binary_values_def int_binary_def
  int_result_def in_i64_def exec_assign_def scope_store_def exec_for_range_def eval_int_def
  exec_opt_def scope_pop_def exec_if_def branch_statements_def call_comptime_fn_def is_comptime_fn_def
  MAX_RECURSION_def block_statements_def

definition int_node :: "i64 \<Rightarrow> node" where
  "int_node i = Literal no_meta LITERAL_INT i (Finite 0 0) None"

definition call_node :: "string \<Rightarrow> node list \<Rightarrow> node" where
  "call_node name args = Call no_meta [VarRef no_meta (Some name) None] args"

theorem comptime_result_witness:
  "\<exists>ci. interpret_comptime 5 [] ''linux'' [call_node ''nowhere'' []] None = Some (None, ci) \<and> ci_errors ci \<noteq> []"
proof -
  have "\<exists>r ci. interpret_comptime 5 [] ''linux'' [call_node ''nowhere'' []] None = Some (r, ci)
      \<and> ci_error ci \<and> \<not> ci_ub ci"
    by (simp add: run_eval call_node_def)
  then obtain r ci where r: "interpret_comptime 5 [] ''linux'' [call_node ''nowhere'' []] None = Some (r, ci)"
    and e: "ci_error ci" "\<not> ci_ub ci" by blast
  from comptime_result [OF r] e r show ?thesis by auto
qed

text \<open>
  An expression has no effect on variables: evaluating it leaves the scope and the call depth as
  they were, counts at least one step, only ever appends to the yielded text and never clears an error.
\<close>

theorem eval_expr_frame:
  assumes "eval_expr k ci c = Some (v, ci')"
  shows "ci_scope ci' = ci_scope ci \<and> ci_rec_depth ci' = ci_rec_depth ci
    \<and> ci_step_count ci < ci_step_count ci' \<and> (\<exists>ys. ci_yield ci' = ci_yield ci @ ys)
    \<and> (ci_error ci \<longrightarrow> ci_error ci')"
proof -
  have "good_ev False 0 (eval_expr k)" using good_knot [of False] by blast
  then have "ev_post False (\<lambda>v ci'. keeps ci ci' \<and> ci_step_count ci < ci_step_count ci'
      \<and> (MAX_STEPS < ci_step_count ci \<longrightarrow> v = VAL_NULL)) (eval_expr k ci c)"
    by (simp add: good_ev_def pre_def okc_def)
  with assms show ?thesis by (auto simp: keeps_def grows_def)
qed

theorem eval_expr_frame_witness:
  "\<exists>v ci'. eval_expr 5 (initial_interp [] ''linux'' None) [call_node ''yield'' [int_node 7]] = Some (v, ci')
     \<and> ci_scope ci' = [] \<and> ci_yield ci' = ''7''"
proof -
  have "\<exists>v ci'. eval_expr 5 (initial_interp [] ''linux'' None) [call_node ''yield'' [int_node 7]] = Some (v, ci')
      \<and> ci_yield ci' = ''7''"
    by (simp add: run_eval call_node_def int_node_def yield_append_def yield_new_cap_def grow_to.simps
        MAX_YIELD_def show_int_def show_nat.simps char_of_def bit_0)
  then show ?thesis using eval_expr_frame by (fastforce simp: initial_interp_def)
qed

text \<open>
  A statement never unbinds: the names in scope before it are still there after it, innermost
  names first, and the call depth is as before.
\<close>

theorem exec_stmt_frame:
  assumes "exec_stmt k ci c = Some ci'"
  shows "(\<exists>ns. map fst (ci_scope ci') = ns @ map fst (ci_scope ci)) \<and> ci_rec_depth ci' = ci_rec_depth ci"
proof -
  have "good_ex False 0 (exec_stmt k)" using good_knot [of False] by blast
  then have "exp_post False (\<lambda>ci'. extends ci ci' \<and> (c \<noteq> [] \<and> \<not> ci_error ci \<longrightarrow> ci_step_count ci < ci_step_count ci')
      \<and> (c \<noteq> [] \<and> MAX_STEPS < ci_step_count ci \<longrightarrow> ci_error ci')) (exec_stmt k ci c)"
    by (simp add: good_ex_def pre_def okc_def)
  with assms show ?thesis by (auto simp: extends_def grows_def)
qed

definition let_node :: "string \<Rightarrow> node list \<Rightarrow> node" where
  "let_node n init = VarDecl no_meta (Some n) init None"

theorem exec_stmt_frame_witness:
  "\<exists>ci'. exec_stmt 5 (initial_interp [] ''linux'' None) [let_node ''x'' [int_node 7]] = Some ci'
     \<and> (\<exists>ns. map fst (ci_scope ci') = ns)"
proof -
  have "\<exists>ci'. exec_stmt 5 (initial_interp [] ''linux'' None) [let_node ''x'' [int_node 7]] = Some ci'"
    by (simp add: run_eval let_node_def int_node_def)
  then show ?thesis using exec_stmt_frame by (fastforce simp: initial_interp_def)
qed

section \<open>Variables\<close>

lemma scope_find_store:
  "scope_find (scope_store s n v) m = (if m = n \<and> scope_find s n \<noteq> None then Some v else scope_find s m)"
  unfolding scope_store_def scope_find_def by (induction s) auto

definition assign_node :: "meta \<Rightarrow> string \<Rightarrow> node list \<Rightarrow> node" where
  "assign_node m n rhs = Binary m (Some ''='') [VarRef no_meta (Some n) None] rhs"

text \<open>The value of a right hand side.\<close>

lemma eval_keeps_scope: "eval_expr k ci c = Some (v, ci') \<Longrightarrow> ci_scope ci' = ci_scope ci"
proof -
  assume e: "eval_expr k ci c = Some (v, ci')"
  have "good_ev False 0 (eval_expr k)" using good_knot [of False] by blast
  then have "ev_post False (\<lambda>v ci'. keeps ci ci' \<and> ci_step_count ci < ci_step_count ci'
      \<and> (MAX_STEPS < ci_step_count ci \<longrightarrow> v = VAL_NULL)) (eval_expr k ci c)"
    by (simp add: good_ev_def pre_def okc_def)
  with e show ?thesis by (auto simp: keeps_def)
qed

lemma zerror_error [simp]: "ci_error (zerror t msg ci)" by (simp add: zerror_def)

text \<open>
  An assignment \<open>n = rhs;\<close> that succeeds found \<open>n\<close> bound, binds it to the value of \<open>rhs\<close>, and leaves
  every other variable as it was.
\<close>

theorem assign_then_read:
  assumes "exec_stmt (Suc k) ci [assign_node m n rhs] = Some ci'" and "\<not> ci_error ci'"
  shows "\<exists>v ci1. eval_expr k (count_step ci) rhs = Some (v, ci1) \<and> scope_find (ci_scope ci) n \<noteq> None
    \<and> scope_find (ci_scope ci') n = Some v
    \<and> (\<forall>x. x \<noteq> n \<longrightarrow> scope_find (ci_scope ci') x = scope_find (ci_scope ci) x)"
proof -
  have e: "\<not> ci_error ci" "\<not> ci_step_count ci > MAX_STEPS"
    using assms by (auto simp: exec_step_def split: if_splits)
  then have a: "exec_assign (eval_expr k) (count_step ci) (m_token m) [VarRef no_meta (Some n) None] rhs = Some ci'"
    using assms(1) by (simp add: exec_step_def exec_node_def assign_node_def)
  then obtain w where w: "scope_find (ci_scope ci) n = Some w"
    using assms(2) by (auto simp: exec_assign_def count_step_def split: option.splits)
  then obtain v ci1 where v: "eval_expr k (count_step ci) rhs = Some (v, ci1)" "\<not> ci_error ci1"
      "ci' = ci1\<lparr>ci_scope := scope_store (ci_scope ci1) n v\<rparr>"
    using a assms(2) by (auto simp: exec_assign_def and_then_def count_step_def split: option.splits if_splits)
  moreover have "ci_scope ci1 = ci_scope ci"
    using eval_keeps_scope [OF v(1)] by (simp add: count_step_def)
  ultimately show ?thesis using w by (simp add: scope_find_store)
qed

definition one_variable :: interp where
  "one_variable = (initial_interp [] ''linux'' None)\<lparr>ci_scope := [(''x'', VAL_INT 1)]\<rparr>"

theorem assign_then_read_witness:
  "\<exists>ci'. exec_stmt (Suc 4) one_variable [assign_node no_meta ''x'' [int_node 7]] = Some ci'
     \<and> scope_find (ci_scope ci') ''x'' = Some (VAL_INT 7)"
proof -
  have r: "\<exists>ci'. exec_stmt (Suc 4) one_variable [assign_node no_meta ''x'' [int_node 7]] = Some ci' \<and> \<not> ci_error ci'"
    by (simp add: run_eval one_variable_def assign_node_def int_node_def)
  have v: "eval_expr 4 (count_step one_variable) [int_node 7] = Some (u, c) \<Longrightarrow> u = VAL_INT 7" for u c
    by (simp add: run_eval one_variable_def int_node_def)
  from r show ?thesis using assign_then_read [of 4 one_variable no_meta "''x''" "[int_node 7]"] v by blast
qed

section \<open>Agreement with constant folding\<close>

definition arith_ops :: "string list" where
  "arith_ops = [''+'', ''-'', ''*'', ''/'', ''%'']"

lemma arith_agrees:
  assumes "op \<in> set arith_ops"
  shows "case fold_binary op a b of
      Value v \<Rightarrow> int_binary t op a b ci = (VAL_INT v, ci)
    | UB \<Rightarrow> snd (int_binary t op a b ci) = ci\<lparr>ci_ub := True\<rparr>
    | No_value \<Rightarrow> b = 0 \<and> fst (int_binary t op a b ci) = VAL_NULL \<and> ci_error (snd (int_binary t op a b ci))"
proof -
  have "op = ''+'' \<or> op = ''-'' \<or> op = ''*'' \<or> op = ''/'' \<or> op = ''%''"
    using assms by (auto simp: arith_ops_def)
  then show ?thesis
    by (elim disjE) (simp_all add: fold_binary_def int_binary_def checked_def int_result_def
        fold_divide_def fold_modulo_def)
qed

lemma compare_agrees:
  assumes "op \<in> set compare_ops"
  shows "\<exists>v. fold_binary op a b = Value v \<and> int_binary t op a b ci = (VAL_BOOL (v \<noteq> 0), ci)"
proof -
  have "op = ''=='' \<or> op = ''!='' \<or> op = ''<'' \<or> op = ''>'' \<or> op = ''<='' \<or> op = ''>=''"
    using assms by (auto simp: compare_ops_def)
  then show ?thesis
    by (elim disjE) (simp_all add: fold_binary_def int_binary_def compare_ops_def compare_ints_def truth_def)
qed

text \<open>
  C34: on 64-bit integers the interpreter and the constant folder agree on \<open>+ - * / %\<close> and on the six
  comparisons: an arithmetic operator gives the value that folding gives and changes nothing else, is
  undefined exactly where folding is, and a division that folding refuses is an error; a comparison
  gives the truth value of the folded one. The bitwise operators and shifts are not among them.
\<close>

theorem comptime_agrees_with_folding:
  "(op \<in> set arith_ops \<longrightarrow>
      (case fold_binary op a b of
         Value v \<Rightarrow> int_binary t op a b ci = (VAL_INT v, ci)
       | UB \<Rightarrow> snd (int_binary t op a b ci) = ci\<lparr>ci_ub := True\<rparr>
       | No_value \<Rightarrow> b = 0 \<and> fst (int_binary t op a b ci) = VAL_NULL \<and> ci_error (snd (int_binary t op a b ci))))
   \<and> (op \<in> set compare_ops \<longrightarrow>
      (\<exists>v. fold_binary op a b = Value v \<and> int_binary t op a b ci = (VAL_BOOL (v \<noteq> 0), ci)))"
  using arith_agrees [where ?op = op] compare_agrees [where ?op = op] by blast

theorem comptime_agrees_with_folding_witness:
  "int_binary TOKEN_UNKNOWN ''/'' 7 2 (initial_interp [] ''linux'' None)
     = (VAL_INT 3, initial_interp [] ''linux'' None)"
proof -
  have "fold_binary ''/'' 7 2 = Value 3"
    by (simp add: fold_binary_def fold_divide_def checked_def c_div_def in_i64_def)
  then show ?thesis
    using comptime_agrees_with_folding [where ?op = "''/''" and ?a = 7 and ?b = 2] by (simp add: arith_ops_def)
qed

section \<open>Escapes\<close>

text \<open>
  \<open>unescape_c_string\<close> never writes past its buffer of \<open>strlen(s) + 1\<close> bytes: the result is at most as
  long as the literal; and a literal without a backslash is copied as it is.
\<close>

theorem unescape_fits:
  "length (unescape_c_string s) \<le> length s \<and> (BSLASH \<notin> set s \<longrightarrow> unescape_c_string s = s)"
proof (induction s rule: unescape_c_string.induct)
  case (2 c s)
  show ?case
  proof (cases "c \<noteq> BSLASH \<or> s = []")
    case True
    with 2 show ?thesis by (auto simp: unescape_c_string.simps(2))
  next
    case False
    then obtain d s1 where s: "c = BSLASH" "s = d # s1" by (cases s) auto
    show ?thesis
    proof (cases "simple_escape d")
      case (Some x)
      have "length (unescape_c_string s1) \<le> length s1"
        using 2 False s Some by auto
      then show ?thesis using s Some by (simp add: unescape_c_string.simps(2))
    next
      case None
      define n where "n = (if d = CHR ''x'' then length (takeWhile isxdigit (take 2 s1))
        else if is_octal_digit d then length (takeWhile is_octal_digit (take 2 s1)) else 0)"
      have r: "\<exists>x. unescape_c_string (c # s) = x # unescape_c_string (drop n s1)"
        using s None by (simp add: unescape_c_string.simps(2) n_def Let_def)
      have "length (unescape_c_string (drop n s1)) \<le> length (drop n s1)"
        using 2 False s None by (auto simp: n_def)
      with r s show ?thesis by auto
    qed
  qed
qed simp

theorem unescape_fits_witness: "unescape_c_string ''ab'' = ''ab''"
  using unescape_fits [of "''ab''"] by simp

section \<open>What its users would not expect\<close>

text \<open>An argument is evaluated after the scope of the caller has been put aside: a variable of the caller
  is undefined in it.\<close>

lemma arguments_lose_the_caller:
  assumes "ci_rec_depth ci < MAX_RECURSION" and "\<not> ci_error ci" and "ci_step_count ci \<le> MAX_STEPS"
    and "x \<notin> {''__COMPTIME_TARGET__'', ''__COMPTIME_FILE__'', ''true'', ''false''}"
  shows "\<exists>ci'. call_comptime_fn (eval_expr (Suc k)) ex ci (Function m f (p # ps) ct body) (VarRef mx (Some x) t # as)
      = Some (VAL_NULL, ci')
    \<and> ci_errors ci' = ci_errors ci @ [(m_token mx, snprintf_into 2048 (undefined_variable x))]"
proof -
  have s: "x \<noteq> ''__COMPTIME_TARGET__''" "x \<noteq> ''__COMPTIME_FILE__''" "x \<noteq> ''true''" "x \<noteq> ''false''"
    using assms(4) by auto
  have e: "\<exists>c. eval_expr (Suc k) (ci\<lparr>ci_scope := [], ci_rec_depth := Suc (ci_rec_depth ci)\<rparr>)
         (VarRef mx (Some x) t # as) = Some (VAL_NULL, c) \<and> ci_error c
      \<and> ci_errors c = ci_errors ci @ [(m_token mx, snprintf_into 2048 (undefined_variable x))]"
    unfolding eval_expr.simps eval_step_def eval_node_def eval_var_def undefined_variable_def
    using assms(1-3) s by (simp add: count_step_def scope_find_def zerror_def)
  then obtain c where c: "eval_expr (Suc k) (ci\<lparr>ci_scope := [], ci_rec_depth := Suc (ci_rec_depth ci)\<rparr>)
         (VarRef mx (Some x) t # as) = Some (VAL_NULL, c)" "ci_error c"
      "ci_errors c = ci_errors ci @ [(m_token mx, snprintf_into 2048 (undefined_variable x))]" by blast
  show ?thesis
    using assms(1) c by (simp add: call_comptime_fn_def and_then_def del: eval_expr.simps)
qed

text \<open>\<open>loop {}\<close> counts its own steps: at the limit it stops, and nothing is reported. \<open>while true {}\<close>
  and \<open>for\<close> report \<open>step limit exceeded\<close> instead.\<close>

lemma infinite_loop_empty:
  assumes "\<not> ci_error ci" and "ci_step_count ci \<le> Suc MAX_STEPS" and "Suc MAX_STEPS - ci_step_count ci < k"
  shows "infinite_loop k ex ci [] = Some (ci\<lparr>ci_step_count := MAX_STEPS + 2\<rparr>)"
  using assms
proof (induction k arbitrary: ci)
  case (Suc k)
  show ?case
  proof (cases "ci_step_count ci > MAX_STEPS")
    case True
    with Suc.prems have "ci_step_count ci = Suc MAX_STEPS" by simp
    with Suc.prems show ?thesis by (simp add: count_step_def)
  next
    case False
    with Suc.prems Suc.IH [of "count_step ci"] show ?thesis
      by (simp add: count_step_def exec_opt_def)
  qed
qed simp

lemma endless_loop_is_silent:
  assumes "MAX_STEPS + 2 \<le> fuel"
  shows "interpret_comptime (Suc fuel) funcs nm [Loop m [] lbl] f
    = Some (Some [], (initial_interp funcs nm f)\<lparr>ci_step_count := MAX_STEPS + 2\<rparr>)"
proof -
  let ?c = "count_step (initial_interp funcs nm f)"
  have "infinite_loop fuel (exec_stmt fuel) ?c [] = Some (?c\<lparr>ci_step_count := MAX_STEPS + 2\<rparr>)"
    by (rule infinite_loop_empty) (use assms in \<open>simp_all add: count_step_def initial_interp_def\<close>)
  then show ?thesis
    by (simp add: interpret_comptime_def exec_step_def exec_node_def initial_interp_def count_step_def)
qed

text \<open>A \<open>return\<close> inside an \<open>if\<close> or a loop is skipped: this function yields 2.\<close>

definition early_return :: node where
  "early_return = Function no_meta ''f'' [] True
     [Block no_meta [If no_meta [VarRef no_meta (Some ''true'') None]
                       [Block no_meta [Return no_meta [int_node 1]]] [],
                     Return no_meta [int_node 2]]]"

lemma nested_return_is_skipped:
  "\<exists>ci'. eval_expr 6 (initial_interp [early_return] ''linux'' None) [call_node ''f'' []] = Some (VAL_INT 2, ci')
     \<and> \<not> ci_error ci'"
  by (simp add: run_eval call_node_def int_node_def early_return_def)

text \<open>A \<open>let\<close> in the body of a \<open>for\<close> over a range is what is popped at the end of the round: the loop
  variable is still bound after the loop.\<close>

definition leaking_loop :: node where
  "leaking_loop = ForRange no_meta (Some ''i'') [int_node 0] [int_node 1] False
     [Block no_meta [let_node ''x'' [int_node 5]]] None"

lemma loop_variable_leaks:
  "\<exists>ci'. exec_stmt 6 (initial_interp [] ''linux'' None) [leaking_loop] = Some ci'
     \<and> ci_scope ci' = [(''i'', VAL_INT 0)]"
proof -
  have five: "range_loop 5 = range_loop (Suc (Suc (Suc (Suc (Suc 0)))))" by (simp add: eval_nat_numeral)
  show ?thesis by (simp add: run_eval five leaking_loop_def let_node_def int_node_def)
qed

text \<open>The elements of an array declared without an initialiser are null, not zero: adding one to them is
  an error.\<close>

definition fresh_array :: "ty \<Rightarrow> node" where
  "fresh_array t = VarDecl no_meta (Some ''a'') [] (Some t)"

lemma fresh_array_elements_are_null:
  assumes "ty_kind t = TYPE_ARRAY" and "ty_array_size t = 2"
  shows "\<exists>ci'. exec_stmt 6 (initial_interp [] ''linux'' None) [fresh_array t] = Some ci'
    \<and> scope_find (ci_scope ci') ''a'' = Some (VAL_ARRAY [VAL_NULL, VAL_NULL])"
  using assms by (simp add: run_eval fresh_array_def numeral_2_eq_2)

end
