(* ===== verification/ZcFlow.thy ===== *)
theory ZcFlow
  imports ZcAst
begin

text \<open>
  The test that a function returns on all paths (\<open>src/src/analysis/typecheck_stmt.c\<close>), an outcome semantics
  of statements to judge it by, and where it is sound. An \<open>ASTNode *\<close> is the list of the node and what
  follows it; NULL is \<open>[]\<close>.
\<close>

section \<open>The analysis\<close>

fun loop_body :: "node \<Rightarrow> node list" where
  "loop_body (Loop _ body _) = body"
| "loop_body (While _ _ body _) = body"
| "loop_body (For _ _ _ _ body _) = body"
| "loop_body (ForRange _ _ _ _ _ body _) = body"
| "loop_body _ = []"

function stmt_has_exit_break :: "node list \<Rightarrow> string option \<Rightarrow> bool \<Rightarrow> bool" where
  "stmt_has_exit_break [] loop_label nested = False"
| "stmt_has_exit_break (n # ns) loop_label nested =
     (case n of
        Break _ target \<Rightarrow> (case target of Some t \<Rightarrow> loop_label = Some t | None \<Rightarrow> \<not> nested)
      | Block _ ss \<Rightarrow> (\<exists>s \<in> set ss. stmt_has_exit_break [s] loop_label nested)
      | If _ _ thn els \<Rightarrow> stmt_has_exit_break thn loop_label nested \<or> stmt_has_exit_break els loop_label nested
      | Match _ _ cases \<Rightarrow> (\<exists>c \<in> set cases. stmt_has_exit_break [c] loop_label nested)
      | MatchCase _ _ body _ \<Rightarrow> stmt_has_exit_break body loop_label nested
      | Defer _ stmt \<Rightarrow> stmt_has_exit_break stmt loop_label nested
      | Loop _ _ _ \<Rightarrow> stmt_has_exit_break (loop_body n) loop_label True
      | While _ _ _ _ \<Rightarrow> stmt_has_exit_break (loop_body n) loop_label True
      | For _ _ _ _ _ _ \<Rightarrow> stmt_has_exit_break (loop_body n) loop_label True
      | ForRange _ _ _ _ _ _ _ \<Rightarrow> stmt_has_exit_break (loop_body n) loop_label True
      | _ \<Rightarrow> False)"
  by pat_completeness auto
termination
  by (relation "measure (\<lambda>(p, _, _). size_list size p)") (auto dest: size_list_member)

declare stmt_has_exit_break.simps(2) [simp del]

definition stmt_loop_has_exit_break :: "node \<Rightarrow> bool" where
  "stmt_loop_has_exit_break n =
     (case n of Loop _ body loop_label \<Rightarrow> stmt_has_exit_break body loop_label False | _ \<Rightarrow> False)"

text \<open>The kinds whose value a block may end with.\<close>

definition value_kinds :: "NodeType list" where
  "value_kinds =
     [NODE_EXPR_BINARY, NODE_EXPR_UNARY, NODE_EXPR_LITERAL, NODE_EXPR_VAR, NODE_EXPR_CALL,
      NODE_EXPR_MEMBER, NODE_EXPR_INDEX, NODE_EXPR_CAST, NODE_EXPR_SIZEOF, NODE_EXPR_STRUCT_INIT,
      NODE_EXPR_ARRAY_LITERAL, NODE_EXPR_TUPLE_LITERAL, NODE_EXPR_SLICE, NODE_TERNARY, NODE_MATCH]"

lemma size_butlast: "x \<in> set (butlast ss) \<Longrightarrow> size (x :: node) < Suc (size_list size ss)"
  by (auto dest: in_set_butlastD size_list_member)

lemma size_last: "ss \<noteq> [] \<Longrightarrow> size (last ss :: node) < Suc (size_list size ss)"
  using size_list_member [OF last_in_set, of ss] by simp

function stmt_always_returns :: "node list \<Rightarrow> bool" and block_always_returns :: "node list \<Rightarrow> bool" where
  "stmt_always_returns [] = False"
| "stmt_always_returns (n # ns) =
     (case n of
        Return _ _ \<Rightarrow> True
      | Block _ _ \<Rightarrow> block_always_returns (n # ns)
      | If _ _ thn els \<Rightarrow> thn \<noteq> [] \<and> els \<noteq> [] \<and> stmt_always_returns thn \<and> stmt_always_returns els
      | Match _ _ cases \<Rightarrow>
          (\<forall>c \<in> set cases. case c of MatchCase _ _ body _ \<Rightarrow> stmt_always_returns body | _ \<Rightarrow> True)
          \<and> (\<exists>c \<in> set cases. case c of MatchCase _ _ _ is_default \<Rightarrow> is_default | _ \<Rightarrow> False)
      | Loop _ _ _ \<Rightarrow> \<not> stmt_loop_has_exit_break n
      | _ \<Rightarrow> False)"
| "block_always_returns [] = False"
| "block_always_returns (n # ns) =
     (case n of
        Block _ ss \<Rightarrow>
          if ss = [] then False
          else ((\<exists>s \<in> set (butlast ss). stmt_always_returns [s])
             \<or> stmt_always_returns [last ss]
             \<or> (nd_kind (last ss) = NODE_BLOCK \<and> block_always_returns [last ss])
             \<or> nd_kind (last ss) \<in> set value_kinds)
      | _ \<Rightarrow> False)"
  by pat_completeness auto

termination
proof (relation "measure (\<lambda>x. case x of Inl p \<Rightarrow> 2 * size_list size p + 1 | Inr p \<Rightarrow> 2 * size_list size p)")
qed (auto dest!: size_list_member size_butlast size_last)

declare stmt_always_returns.simps(2) [simp del] block_always_returns.simps(2) [simp del]

lemma stmt_returns [simp]:
  "stmt_always_returns (Return m v # ns)"
  "stmt_always_returns (Block m ss # ns) = block_always_returns (Block m ss # ns)"
  "stmt_always_returns (If m c thn els # ns) =
     (thn \<noteq> [] \<and> els \<noteq> [] \<and> stmt_always_returns thn \<and> stmt_always_returns els)"
  "stmt_always_returns (Match m e cases # ns) =
     ((\<forall>c \<in> set cases. case c of MatchCase _ _ body _ \<Rightarrow> stmt_always_returns body | _ \<Rightarrow> True)
      \<and> (\<exists>c \<in> set cases. case c of MatchCase _ _ _ is_default \<Rightarrow> is_default | _ \<Rightarrow> False))"
  "stmt_always_returns (Loop m body l # ns) = (\<not> stmt_has_exit_break body l False)"
  by (simp_all only: stmt_always_returns.simps(2) node.case stmt_loop_has_exit_break_def)

lemma stmt_returns_form:
  "stmt_always_returns (n # ns) \<Longrightarrow>
     (\<exists>m v. n = Return m v) \<or> (\<exists>m ss. n = Block m ss) \<or> (\<exists>m c thn els. n = If m c thn els)
     \<or> (\<exists>m e cases. n = Match m e cases) \<or> (\<exists>m body l. n = Loop m body l)"
  by (subst (asm) stmt_always_returns.simps(2)) (cases n; simp)

lemma block_returns [simp]:
  "block_always_returns (Block m ss # ns) =
     (ss \<noteq> [] \<and> ((\<exists>s \<in> set (butlast ss). stmt_always_returns [s])
        \<or> stmt_always_returns [last ss] \<or> (nd_kind (last ss) = NODE_BLOCK \<and> block_always_returns [last ss])
        \<or> nd_kind (last ss) \<in> set value_kinds))"
  by (subst block_always_returns.simps(2)) simp

lemma block_returns_block: "block_always_returns (n # ns) \<Longrightarrow> \<exists>m ss. n = Block m ss"
  by (subst (asm) block_always_returns.simps(2)) (cases n; simp)

section \<open>What a statement does\<close>

text \<open>How a statement ends. The conditions of the language are not evaluated: both ways are possible.\<close>

datatype outcome = Normal | Broken "string option" | Continued "string option" | Returned

fun conditional_loop :: "node \<Rightarrow> bool" where
  "conditional_loop (While _ _ _ _) = True"
| "conditional_loop (For _ _ _ _ _ _) = True"
| "conditional_loop (ForRange _ _ _ _ _ _ _) = True"
| "conditional_loop _ = False"

fun is_loop :: "node \<Rightarrow> bool" where
  "is_loop (Loop _ _ _) = True"
| "is_loop n = conditional_loop n"

fun label_of :: "node \<Rightarrow> string option" where
  "label_of (Loop _ _ l) = l"
| "label_of (While _ _ _ l) = l"
| "label_of (For _ _ _ _ _ l) = l"
| "label_of (ForRange _ _ _ _ _ _ l) = l"
| "label_of _ = None"

text \<open>A jump without a label is for the innermost loop.\<close>

definition own :: "node \<Rightarrow> string option \<Rightarrow> bool" where
  "own n target \<longleftrightarrow> target = None \<or> target = label_of n"

definition structured :: "node \<Rightarrow> bool" where
  "structured n \<longleftrightarrow>
     is_loop n \<or> nd_kind n \<in> {NODE_RETURN, NODE_BREAK, NODE_CONTINUE, NODE_BLOCK, NODE_IF, NODE_MATCH}"

text \<open>A case that is taken whatever the value: \<open>_\<close> without a guard.\<close>

fun catches_all :: "node \<Rightarrow> bool" where
  "catches_all (MatchCase _ guard _ is_default) = (is_default \<and> guard = [])"
| "catches_all _ = False"

inductive runs :: "node \<Rightarrow> outcome \<Rightarrow> bool" and runs_at :: "node list \<Rightarrow> outcome \<Rightarrow> bool"
  and runs_seq :: "node list \<Rightarrow> outcome \<Rightarrow> bool" where
  ReturnR: "runs (Return m v) Returned"
| BreakR: "runs (Break m t) (Broken t)"
| ContinueR: "runs (Continue m t) (Continued t)"
| BlockR: "runs_seq ss r \<Longrightarrow> runs (Block m ss) r"
| ThenR: "runs_at thn r \<Longrightarrow> runs (If m c thn els) r"
| ElseR: "runs_at els r \<Longrightarrow> runs (If m c thn els) r"
| CaseR: "MatchCase mc g body d \<in> set cases \<Longrightarrow> runs_at body r \<Longrightarrow> runs (Match m e cases) r"
| NoCaseR: "\<forall>c \<in> set cases. \<not> catches_all c \<Longrightarrow> runs (Match m e cases) Normal"
| DoneR: "conditional_loop n \<Longrightarrow> runs n Normal"
| AgainR: "is_loop n \<Longrightarrow> runs_at (loop_body n) r0 \<Longrightarrow> r0 = Normal \<or> (\<exists>t. r0 = Continued t \<and> own n t) \<Longrightarrow>
    runs n r \<Longrightarrow> runs n r"
| LeaveR: "is_loop n \<Longrightarrow> runs_at (loop_body n) (Broken t) \<Longrightarrow> own n t \<Longrightarrow> runs n Normal"
| PassBreakR: "is_loop n \<Longrightarrow> runs_at (loop_body n) (Broken t) \<Longrightarrow> \<not> own n t \<Longrightarrow> runs n (Broken t)"
| PassContinueR: "is_loop n \<Longrightarrow> runs_at (loop_body n) (Continued t) \<Longrightarrow> \<not> own n t \<Longrightarrow> runs n (Continued t)"
| PassReturnR: "is_loop n \<Longrightarrow> runs_at (loop_body n) Returned \<Longrightarrow> runs n Returned"
| ElseBlockR: "runs_at els r \<Longrightarrow> runs (Destruct m init els) r"
| OtherR: "\<not> structured n \<Longrightarrow> runs n Normal"
| NullR: "runs_at [] Normal"
| HeadR: "runs n r \<Longrightarrow> runs_at (n # ns) r"
| EmptyR: "runs_seq [] Normal"
| StepR: "runs s Normal \<Longrightarrow> runs_seq ss r \<Longrightarrow> runs_seq (s # ss) r"
| StopR: "runs s r \<Longrightarrow> r \<noteq> Normal \<Longrightarrow> runs_seq (s # ss) r"

inductive_cases runs_atE: "runs_at p r"

text \<open>What the analysis takes for granted of a tree: a destructuring has no \<open>else\<close> block, a default case
  has no guard, no statement is a \<open>goto\<close>, and no block ends with a value or a \<open>match\<close>.\<close>

definition flow_ok :: "node \<Rightarrow> bool" where
  "flow_ok n \<longleftrightarrow>
     nd_kind n \<noteq> NODE_GOTO
     \<and> (case n of
          Destruct _ _ els \<Rightarrow> els = []
        | MatchCase _ guard _ is_default \<Rightarrow> is_default \<longrightarrow> guard = []
        | Block _ ss \<Rightarrow> ss \<noteq> [] \<longrightarrow> nd_kind (last ss) \<notin> set value_kinds
        | _ \<Rightarrow> True)"

section \<open>Breaks are found\<close>

text \<open>A \<open>break\<close> that leaves a statement is seen by the search for it: one without a label outside of a
  nested loop, one with a label everywhere.\<close>

definition seen :: "node list \<Rightarrow> outcome \<Rightarrow> bool" where
  "seen p r \<longleftrightarrow>
     (case r of
        Broken None \<Rightarrow> (\<forall>l. stmt_has_exit_break p l False)
      | Broken (Some t) \<Rightarrow> stmt_has_exit_break p (Some t) False \<and> stmt_has_exit_break p (Some t) True
      | _ \<Rightarrow> True)"

lemma seen_simps [simp]:
  "seen p Normal" "seen p (Continued t)" "seen p Returned"
  by (simp_all add: seen_def)

lemma exit_break_head: "stmt_has_exit_break (n # ns) l b = stmt_has_exit_break [n] l b"
  by (simp add: stmt_has_exit_break.simps(2))

lemma seen_head: "seen (n # ns) r = seen [n] r"
  by (auto simp: seen_def exit_break_head [of n ns] split: outcome.split option.split)

lemma seen_mono:
  "(\<And>l b. stmt_has_exit_break p l b \<Longrightarrow> stmt_has_exit_break q l b) \<Longrightarrow> seen p r \<Longrightarrow> seen q r"
  by (auto simp: seen_def split: outcome.splits option.splits)

lemma seen_loop:
  assumes "is_loop n" and "seen (loop_body n) (Broken t)" and "\<not> own n t"
  shows "seen [n] (Broken t)"
proof -
  obtain l where t: "t = Some l" using assms(3) by (cases t) (auto simp: own_def)
  have "stmt_has_exit_break [n] lab b = stmt_has_exit_break (loop_body n) lab True" for lab b
    using assms(1) by (cases n) (simp_all add: stmt_has_exit_break.simps(2))
  moreover have "stmt_has_exit_break (loop_body n) (Some l) True" using assms(2) t by (simp add: seen_def)
  ultimately show ?thesis using t by (simp add: seen_def)
qed

definition flow_tree :: "node \<Rightarrow> bool" where "flow_tree n \<longleftrightarrow> every_node flow_ok n"

abbreviation flow_chain :: "node list \<Rightarrow> bool" where "flow_chain p \<equiv> (\<forall>n \<in> set p. flow_tree n)"

lemma flow_here: "flow_tree n \<Longrightarrow> flow_ok n"
  by (simp add: flow_tree_def every_node_here)

lemma flow_child: "flow_tree n \<Longrightarrow> p \<in> set (child_chains n) \<Longrightarrow> flow_chain p"
  by (auto simp: flow_tree_def intro: every_node_child)

lemma flow_loop_body: "flow_tree n \<Longrightarrow> flow_chain (loop_body n)"
  by (cases n) (auto dest: flow_child)

lemma breaks_seen:
  shows "runs n r \<Longrightarrow> flow_tree n \<Longrightarrow> seen [n] r"
    and "runs_at p r \<Longrightarrow> flow_chain p \<Longrightarrow> seen p r"
    and "runs_seq ss r \<Longrightarrow> flow_chain ss \<Longrightarrow> seen [Block m ss] r"
proof (induction rule: runs_runs_at_runs_seq.inducts)
  case (BlockR ss r m')
  have "seen [Block m ss] r" using BlockR.IH flow_child [OF BlockR.prems, of ss] by simp
  then show ?case by (rule seen_mono [rotated]) (simp add: stmt_has_exit_break.simps(2))
next
  case (ThenR thn r m' c els)
  have "seen thn r" using ThenR.IH flow_child [OF ThenR.prems, of thn] by simp
  then show ?case by (rule seen_mono [rotated]) (simp add: stmt_has_exit_break.simps(2))
next
  case (ElseR els r m' c thn)
  have "seen els r" using ElseR.IH flow_child [OF ElseR.prems, of els] by simp
  then show ?case by (rule seen_mono [rotated]) (simp add: stmt_has_exit_break.simps(2))
next
  case (CaseR mc g body d cases r m' e)
  have c: "flow_tree (MatchCase mc g body d)" using CaseR.prems CaseR.hyps(1) by (auto dest: flow_child)
  have "stmt_has_exit_break body l b \<Longrightarrow> stmt_has_exit_break [Match m' e cases] l b" for l b
    using CaseR.hyps(1) by (force simp: stmt_has_exit_break.simps(2))
  moreover have "seen body r" using CaseR.IH flow_child [OF c, of body] by simp
  ultimately show ?case by (rule seen_mono)
next
  case (PassBreakR n t)
  then show ?case using seen_loop flow_loop_body by blast
next
  case (ElseBlockR els r m' init)
  then show ?case using flow_here [OF ElseBlockR.prems] by (auto simp: flow_ok_def elim: runs_atE)
next
  case (HeadR n r ns)
  then show ?case using seen_head [of n ns] by simp
next
  case (StepR s ss r)
  then have "seen [Block m ss] r" by simp
  then show ?case by (rule seen_mono [rotated]) (simp add: stmt_has_exit_break.simps(2))
next
  case (StopR s r ss)
  then have "seen [s] r" by simp
  then show ?case by (rule seen_mono [rotated]) (simp add: stmt_has_exit_break.simps(2))
qed (simp_all add: seen_def stmt_has_exit_break.simps(2) split: option.split)

section \<open>Soundness\<close>

lemma last_in_block:
  assumes "flow_tree (Block m ss)" and "ss \<noteq> []"
  shows "nd_kind (last ss) \<notin> set value_kinds"
  using flow_here [OF assms(1)] assms(2) by (simp add: flow_ok_def)

text \<open>A block that always returns has a statement that does, or ends with a value.\<close>

lemma block_is_stmt: "block_always_returns [b] \<Longrightarrow> stmt_always_returns [b]"
  by (frule block_returns_block) (elim exE, simp only: stmt_returns)

lemma block_returns_cases:
  assumes "block_always_returns [Block m ss]"
  shows "(\<exists>s \<in> set ss. stmt_always_returns [s]) \<or> (ss \<noteq> [] \<and> nd_kind (last ss) \<in> set value_kinds)"
proof -
  have "ss \<noteq> []" and "(\<exists>s \<in> set (butlast ss). stmt_always_returns [s]) \<or> stmt_always_returns [last ss]
      \<or> block_always_returns [last ss] \<or> nd_kind (last ss) \<in> set value_kinds"
    using assms by (simp_all only: block_returns) blast+
  then show ?thesis
    using block_is_stmt [of "last ss"] last_in_set [of ss] by (auto dest: in_set_butlastD)
qed

lemma always_head: "stmt_always_returns (n # ns) = stmt_always_returns [n]"
  by (subst (1 2) stmt_always_returns.simps(2), subst (1 2) block_always_returns.simps(2)) (rule refl)

lemma always_returns_sound:
  shows "runs n r \<Longrightarrow> flow_tree n \<Longrightarrow> stmt_always_returns [n] \<Longrightarrow> r \<noteq> Normal"
    and "runs_at p r \<Longrightarrow> flow_chain p \<Longrightarrow> stmt_always_returns p \<Longrightarrow> r \<noteq> Normal"
    and "runs_seq ss r \<Longrightarrow> flow_chain ss \<Longrightarrow> \<exists>s \<in> set ss. stmt_always_returns [s] \<Longrightarrow> r \<noteq> Normal"
proof (induction rule: runs_runs_at_runs_seq.inducts)
  case (BlockR ss r m)
  have "\<exists>s \<in> set ss. stmt_always_returns [s]"
    using BlockR.prems block_returns_cases [of m ss] last_in_block [of m ss]
    by auto
  with BlockR flow_child [OF BlockR.prems(1), of ss] show ?case by simp
next
  case (ThenR thn r m c els)
  with flow_child [OF ThenR.prems(1), of thn] show ?case by simp
next
  case (ElseR els r m c thn)
  with flow_child [OF ElseR.prems(1), of els] show ?case by simp
next
  case (CaseR mc g body d cases r m e)
  have c: "flow_tree (MatchCase mc g body d)" using CaseR.prems CaseR.hyps(1) by (auto dest: flow_child)
  have "stmt_always_returns body"
    using CaseR.prems(2) CaseR.hyps(1) by force
  with CaseR.IH flow_child [OF c, of body] show ?case by simp
next
  case (NoCaseR cases m e)
  obtain c where c: "c \<in> set cases" "case c of MatchCase _ _ _ d \<Rightarrow> d | _ \<Rightarrow> False"
    using NoCaseR.prems(2) by auto
  then obtain mc g body where mc: "c = MatchCase mc g body True" by (auto split: node.splits)
  have "flow_tree c" using NoCaseR.prems(1) c(1) by (auto dest: flow_child)
  then have "g = []" using flow_here [of c] mc by (simp add: flow_ok_def)
  then have "catches_all c" using mc by simp
  with NoCaseR.hyps c(1) show ?case by blast
next
  case (DoneR n)
  then show ?case using stmt_returns_form [OF DoneR.prems(2)] by (elim disjE exE) simp_all
next
  case (LeaveR n t)
  obtain m body l where n: "n = Loop m body l"
    using LeaveR.hyps(1) stmt_returns_form [OF LeaveR.prems(2)] by (elim disjE exE) simp_all
  have "seen body (Broken t)" using LeaveR.hyps(2) LeaveR.prems(1) n by (auto intro: breaks_seen(2) dest: flow_child)
  then have "stmt_has_exit_break body l False"
    using LeaveR.hyps(3) n by (auto simp: seen_def own_def split: option.splits)
  with LeaveR.prems(2) n show ?case by simp
next
  case (ElseBlockR els r m init)
  then show ?case using stmt_returns_form [OF ElseBlockR.prems(2)] by simp
next
  case (OtherR n)
  then show ?case using stmt_returns_form [OF OtherR.prems(2)] by (elim disjE exE) (simp_all add: structured_def)
next
  case (HeadR n r ns)
  then show ?case using always_head [of n ns] by simp
qed auto










definition no_pos :: meta where "no_pos = Meta TOKEN_UNKNOWN None []"

definition ret_node :: node where "ret_node = Return no_pos []"

definition looping :: node where
  "looping = Loop no_pos [Block no_pos [If no_pos [] [ret_node] []]] None"

lemma flow_tree_simps:
  "flow_tree (Return m v) = (flow_ok (Return m v) \<and> flow_chain v)"
  "flow_tree (Block m ss) = (flow_ok (Block m ss) \<and> flow_chain ss)"
  "flow_tree (If m c thn els) = (flow_ok (If m c thn els) \<and> flow_chain c \<and> flow_chain thn \<and> flow_chain els)"
  "flow_tree (Loop m body l) = (flow_ok (Loop m body l) \<and> flow_chain body)"
  unfolding flow_tree_def by (subst every_node.simps, simp)+


text \<open>
  The test of a function body is sound: an execution of a body that \<open>block_always_returns\<close> accepts
  can only fall through to a last statement that is a value (which is then the result).
\<close>

theorem function_body_returns:
  assumes "block_always_returns [Block m ss]" and "\<forall>s \<in> set ss. flow_tree s" and "runs (Block m ss) r"
  shows "r \<noteq> Normal \<or> nd_kind (last ss) \<in> set value_kinds"
proof -
  have "runs_seq ss r" using assms(3) by (cases rule: runs.cases) (auto simp: structured_def)
  with block_returns_cases [OF assms(1)] assms(2) show ?thesis
    using always_returns_sound(3) by blast
qed

theorem function_body_returns_witness: "\<not> runs (Block no_pos [looping, looping]) Normal"
proof -
  have "block_always_returns [Block no_pos [looping, looping]]"
    by (simp add: looping_def ret_node_def stmt_has_exit_break.simps(2))
  moreover have "flow_tree looping"
    by (simp add: looping_def ret_node_def flow_tree_simps flow_ok_def value_kinds_def)
  moreover have "nd_kind (last [looping, looping]) \<notin> set value_kinds"
    by (simp add: looping_def value_kinds_def)
  ultimately show ?thesis
    using function_body_returns [of no_pos "[looping, looping]" Normal] by auto
qed

section \<open>Where it is not sound\<close>

text \<open>A block that ends with an expression statement counts as returning wherever it stands: a function
  whose first statement is an \<open>if\<close> that calls something in both branches is accepted, although it goes
  on to its end.\<close>

definition call_block :: "node list" where
  "call_block = [Block no_pos [Call no_pos [] []]]"

lemma value_block_accepted:
  "block_always_returns [Block no_pos [If no_pos [] call_block call_block, VarDecl no_pos None [] None]]
   \<and> runs (Block no_pos [If no_pos [] call_block call_block, VarDecl no_pos None [] None]) Normal"
proof
  show "block_always_returns [Block no_pos [If no_pos [] call_block call_block, VarDecl no_pos None [] None]]"
    by (simp add: call_block_def value_kinds_def)
  have "runs (Call no_pos [] []) Normal" by (rule OtherR) (simp add: structured_def)
  then have "runs (Block no_pos [Call no_pos [] []]) Normal" by (blast intro: BlockR StepR EmptyR)
  then have "runs (If no_pos [] call_block call_block) Normal"
    unfolding call_block_def by (blast intro: ThenR HeadR)
  moreover have "runs (VarDecl no_pos None [] None) Normal" by (rule OtherR) (simp add: structured_def)
  ultimately show "runs (Block no_pos [If no_pos [] call_block call_block, VarDecl no_pos None [] None]) Normal"
    by (blast intro: BlockR StepR EmptyR)
qed

text \<open>A default case with a guard counts as a default.\<close>

lemma guarded_default_accepted:
  "stmt_always_returns [Match no_pos [] [MatchCase no_pos [ret_node] [ret_node] True]]
   \<and> runs (Match no_pos [] [MatchCase no_pos [ret_node] [ret_node] True]) Normal"
  by (auto simp: ret_node_def intro!: NoCaseR)

text \<open>A \<open>break\<close> in the \<open>else\<close> block of a destructuring is not seen.\<close>

lemma destructuring_break_unseen:
  "stmt_always_returns [Loop no_pos [Destruct no_pos [] [Break no_pos None]] None]
   \<and> runs (Loop no_pos [Destruct no_pos [] [Break no_pos None]] None) Normal"
proof -
  have "runs_at [Destruct no_pos [] [Break no_pos None]] (Broken None)"
    by (intro HeadR ElseBlockR BreakR)
  then have "runs (Loop no_pos [Destruct no_pos [] [Break no_pos None]] None) Normal"
    by (intro LeaveR) (auto simp: own_def)
  then show ?thesis
    by (simp add: stmt_has_exit_break.simps(2))
qed

end
