(* ===== verification/ZcFormatter.thy ===== *)
theory ZcFormatter
  imports ZcMangle
begin

text \<open>
  The source formatter of the language server, \<open>lsp_format_source\<close> of \<open>src/src/lsp/lsp_formatter.c\<close>. It
  walks over the text once and replaces the white space at the start of a line by four blanks for each
  open brace, outside of strings, character literals and block comments. The text is a string without
  NUL; the buffer of the result has twice the length of the source and one byte.
\<close>

record fmt_state =
  fs_indent_level :: nat
  fs_at_start_of_line :: bool
  fs_in_string :: bool
  fs_in_char :: bool
  fs_in_single_comment :: bool
  fs_in_multi_comment :: bool
  fs_escape_next :: bool

definition fmt_init :: fmt_state where
  "fmt_init =
     \<lparr>fs_indent_level = 0, fs_at_start_of_line = True, fs_in_string = False, fs_in_char = False,
      fs_in_single_comment = False, fs_in_multi_comment = False, fs_escape_next = False\<rparr>"

definition blank :: "char \<Rightarrow> bool" where
  "blank c \<longleftrightarrow> c = CHR '' '' \<or> c = CHR 0x09"

text \<open>The blanks in front of a line that starts with \<open>c\<close>.\<close>

definition line_indent :: "nat \<Rightarrow> char \<Rightarrow> string" where
  "line_indent level c =
     (if c = NL \<or> c = CR then [] else replicate (4 * (if c = CHR ''}'' then level - 1 else level)) (CHR '' ''))"

text \<open>The first section of the loop: what is written, and what is left of the text.\<close>

definition line_start :: "fmt_state \<Rightarrow> string \<Rightarrow> string \<times> string" where
  "line_start st s =
     (if fs_at_start_of_line st \<and> \<not> fs_in_string st \<and> \<not> fs_in_multi_comment st \<and> \<not> fs_in_char st then
        (let s1 = dropWhile blank s
         in case s1 of [] \<Rightarrow> ([], []) | c # _ \<Rightarrow> (line_indent (fs_indent_level st) c, s1))
      else ([], s))"

text \<open>The last section: a character that is copied.\<close>

definition copy_char :: "fmt_state \<Rightarrow> char \<Rightarrow> string \<Rightarrow> string \<times> string \<times> fmt_state" where
  "copy_char st c cs =
     ([c], cs,
      if c = NL then st\<lparr>fs_at_start_of_line := True, fs_in_single_comment := False\<rparr> else st)"

definition fmt_plain :: "fmt_state \<Rightarrow> char \<Rightarrow> string \<Rightarrow> string \<times> string \<times> fmt_state" where
  "fmt_plain st c cs =
     (if c = CHR ''/'' \<and> at cs 0 = CHR ''/'' then
        ([c, at cs 0], drop 1 cs, st\<lparr>fs_in_single_comment := True\<rparr>)
      else if c = CHR ''/'' \<and> at cs 0 = CHR ''*'' then
        ([c, at cs 0], drop 1 cs, st\<lparr>fs_in_multi_comment := True\<rparr>)
      else if c = DQUOTE then copy_char (st\<lparr>fs_in_string := True\<rparr>) c cs
      else if c = SQUOTE then copy_char (st\<lparr>fs_in_char := True\<rparr>) c cs
      else if c = CHR ''{'' then ([c], cs, st\<lparr>fs_indent_level := Suc (fs_indent_level st)\<rparr>)
      else if c = CHR ''}'' then ([c], cs, st\<lparr>fs_indent_level := fs_indent_level st - 1\<rparr>)
      else copy_char st c cs)"

definition fmt_char :: "fmt_state \<Rightarrow> char \<Rightarrow> string \<Rightarrow> string \<times> string \<times> fmt_state" where
  "fmt_char st c cs =
     (if fs_escape_next st then ([c], cs, st\<lparr>fs_escape_next := False\<rparr>)
      else if fs_in_single_comment st then copy_char st c cs
      else if fs_in_multi_comment st then
        (if c = CHR ''*'' \<and> at cs 0 = CHR ''/'' then
           ([c, at cs 0], drop 1 cs, st\<lparr>fs_in_multi_comment := False\<rparr>)
         else copy_char st c cs)
      else if fs_in_string st then
        copy_char (if c = BSLASH then st\<lparr>fs_escape_next := True\<rparr>
                   else if c = DQUOTE then st\<lparr>fs_in_string := False\<rparr> else st) c cs
      else if fs_in_char st then
        copy_char (if c = BSLASH then st\<lparr>fs_escape_next := True\<rparr>
                   else if c = SQUOTE then st\<lparr>fs_in_char := False\<rparr> else st) c cs
      else fmt_plain st c cs)"

lemma fmt_char_rest: "fmt_char st c cs = (out, rest, st') \<Longrightarrow> length rest \<le> length cs"
  by (auto simp: fmt_char_def fmt_plain_def copy_char_def split: if_splits)

lemma line_start_rest: "line_start st s = (ind, s1) \<Longrightarrow> length s1 \<le> length s"
  by (auto simp: line_start_def Let_def length_dropWhile_le split: if_splits list.splits)

function fmt_loop :: "fmt_state \<Rightarrow> string \<Rightarrow> string" where
  "fmt_loop st s =
     (case line_start st s of
        (ind, []) \<Rightarrow> []
      | (ind, c # cs) \<Rightarrow>
          (case fmt_char (st\<lparr>fs_at_start_of_line := False\<rparr>) c cs of
             (out, rest, st') \<Rightarrow> ind @ out @ fmt_loop st' rest))"
  by pat_completeness auto
termination
  by (relation "measure (\<lambda>(st, s). length s)") (auto dest!: fmt_char_rest fmt_char_rest [OF sym] line_start_rest line_start_rest [OF sym])

declare fmt_loop.simps [simp del]

definition lsp_format_source :: "string option \<Rightarrow> str_fault + string option" where
  "lsp_format_source src =
     (case src of
        None \<Rightarrow> Inr None
      | Some s \<Rightarrow> bindE (sprintf_into (length s * 2 + 1) (fmt_loop fmt_init s)) (\<lambda>out. Inr (Some out)))"

section \<open>What it keeps\<close>

lemma filter_drop_blank: "filter (\<lambda>c. \<not> blank c) (dropWhile blank s) = filter (\<lambda>c. \<not> blank c) s"
  by (induction s) auto

lemma line_start_cases: "line_start st s = (ind, s1) \<Longrightarrow> s1 = s \<or> s1 = dropWhile blank s"
  by (cases "dropWhile blank s") (auto simp only: line_start_def Let_def list.case Pair_inject split: if_splits)

lemma filter_line_start:
  assumes "line_start st s = (ind, s1)"
  shows "filter (\<lambda>c. \<not> blank c) s1 = filter (\<lambda>c. \<not> blank c) s" and "filter (\<lambda>c. \<not> blank c) ind = []"
proof -
  show "filter (\<lambda>c. \<not> blank c) s1 = filter (\<lambda>c. \<not> blank c) s"
    using line_start_cases [OF assms] filter_drop_blank by blast
  show "filter (\<lambda>c. \<not> blank c) ind = []"
    using assms by (auto simp: line_start_def Let_def line_indent_def blank_def split: if_splits list.splits)
qed

lemma fmt_char_text: "fmt_char st c cs = (out, rest, st') \<Longrightarrow> out @ rest = c # cs"
  by (cases cs) (auto simp: fmt_char_def fmt_plain_def copy_char_def split: if_splits)

text \<open>
  Formatting changes white space only: without its blanks and tabs the result is the source without
  its blanks and tabs.
\<close>

theorem format_keeps_text:
  assumes "lsp_format_source (Some s) = Inr (Some out)"
  shows "filter (\<lambda>c. \<not> blank c) out = filter (\<lambda>c. \<not> blank c) s"
proof -
  have "filter (\<lambda>c. \<not> blank c) (fmt_loop st s) = filter (\<lambda>c. \<not> blank c) s" for st
  proof (induction st s rule: fmt_loop.induct)
    case (1 st s)
    obtain ind s1 where l: "line_start st s = (ind, s1)" by (cases "line_start st s")
    note f = filter_line_start [OF l]
    show ?case
    proof (cases s1)
      case Nil
      with l f show ?thesis by (subst fmt_loop.simps) simp
    next
      case (Cons c cs)
      obtain out rest st' where o: "fmt_char (st\<lparr>fs_at_start_of_line := False\<rparr>) c cs = (out, rest, st')"
        by (cases "fmt_char (st\<lparr>fs_at_start_of_line := False\<rparr>) c cs")
      have "filter (\<lambda>c. \<not> blank c) (fmt_loop st' rest) = filter (\<lambda>c. \<not> blank c) rest"
        using 1 l Cons o by simp
      moreover have "filter (\<lambda>c. \<not> blank c) (out @ rest) = filter (\<lambda>c. \<not> blank c) s"
        using fmt_char_text [OF o] Cons f(1) by simp
      ultimately show ?thesis using l Cons o f(2) by (subst fmt_loop.simps) simp
    qed
  qed
  with assms show ?thesis by (auto simp: lsp_format_source_def sprintf_into_def split: if_splits)
qed

definition two_lines :: string where
  "two_lines = [CHR ''{'', NL, CHR ''a'', NL, CHR ''}'']"

lemmas fmt_eval =
  fmt_loop.simps line_start_def fmt_char_def fmt_plain_def copy_char_def fmt_init_def line_indent_def blank_def
  at_def two_lines_def

lemma format_two_lines:
  "lsp_format_source (Some (two_lines @ [NL, NL, NL]))
     = Inr (Some ([CHR ''{'', NL, CHR '' '', CHR '' '', CHR '' '', CHR '' '', CHR ''a'', NL, CHR ''}'', NL, NL, NL]))"
  by code_simp

theorem format_keeps_text_witness:
  "\<exists>out. lsp_format_source (Some (two_lines @ [NL, NL, NL])) = Inr (Some out)
     \<and> filter (\<lambda>c. \<not> blank c) out = two_lines @ [NL, NL, NL]"
  using format_keeps_text [OF format_two_lines] format_two_lines by (simp add: two_lines_def blank_def)

section \<open>Formatting twice\<close>

lemma fmt_loop_head:
  assumes "\<not> fs_at_start_of_line st"
  shows "at (fmt_loop st s) 0 = at s 0"
proof (cases s)
  case (Cons c cs)
  obtain out rest st' where o: "fmt_char (st\<lparr>fs_at_start_of_line := False\<rparr>) c cs = (out, rest, st')"
    by (cases "fmt_char (st\<lparr>fs_at_start_of_line := False\<rparr>) c cs")
  then have "\<exists>out'. out = c # out'"
    by (auto simp: fmt_char_def fmt_plain_def copy_char_def split: if_splits)
  then show ?thesis using Cons assms o by (subst fmt_loop.simps) (auto simp: line_start_def)
qed (use assms in \<open>subst fmt_loop.simps, simp add: line_start_def\<close>)

text \<open>One step on the result of a step: the look-ahead sees the same character, or is not used.\<close>

lemmas fmt_char_defs = fmt_char_def fmt_plain_def copy_char_def

lemma fmt_char_cases:
  assumes "fmt_char st c cs = (out, rest, st')"
  shows "out = [c] \<and> rest = cs \<or> out = [c, at cs 0] \<and> rest = drop 1 cs \<and> at cs 0 \<noteq> NUL"
  using assms unfolding fmt_char_defs by (simp split: if_splits)

lemma fmt_char_look:
  assumes "at cs' 0 = at cs 0 \<or> c \<noteq> CHR ''/'' \<and> c \<noteq> CHR ''*''"
  shows "fst (fmt_char st c cs') = fst (fmt_char st c cs)"
    and "snd (snd (fmt_char st c cs')) = snd (snd (fmt_char st c cs))"
  using assms
  by (elim disjE; simp add: fmt_char_defs if_distrib [of fst] if_distrib [of snd] cong: if_cong)+

lemma fmt_char_line: "fmt_char st c cs = (out, rest, st') \<Longrightarrow> c \<noteq> NL \<Longrightarrow>
    fs_at_start_of_line st' = fs_at_start_of_line st"
  unfolding fmt_char_defs by (auto split: if_splits)

lemma fmt_char_again:
  assumes o: "fmt_char st c cs = (out, rest, st')" and "\<not> fs_at_start_of_line st"
  shows "fmt_char st c (tl out @ fmt_loop st' rest) = (out, fmt_loop st' rest, st') \<and> out \<noteq> [] \<and> hd out = c"
proof -
  let ?cs = "tl out @ fmt_loop st' rest"
  have "at ?cs 0 = at cs 0 \<or> c \<noteq> CHR ''/'' \<and> c \<noteq> CHR ''*''"
    using fmt_char_cases [OF o]
  proof
    assume out: "out = [c] \<and> rest = cs"
    show ?thesis
    proof (cases "c = NL")
      case False
      with assms(2) fmt_char_line [OF o] fmt_loop_head [of st'] out show ?thesis by simp
    qed simp
  qed simp
  from fmt_char_look [OF this, of st] o
  have e: "fst (fmt_char st c ?cs) = out" "snd (snd (fmt_char st c ?cs)) = st'" by simp_all
  obtain out2 rest2 st2 where o2: "fmt_char st c ?cs = (out2, rest2, st2)" by (cases "fmt_char st c ?cs")
  have "rest2 = fmt_loop st' rest"
    using fmt_char_cases [OF o2] fmt_char_cases [OF o] e o2 by auto
  with o2 e fmt_char_cases [OF o] show ?thesis by auto
qed

lemma line_start_again:
  assumes "line_start st s = (ind, c # cs)"
  shows "line_start st (ind @ c # xs) = (ind, c # xs)"
proof (cases "fs_at_start_of_line st \<and> \<not> fs_in_string st \<and> \<not> fs_in_multi_comment st \<and> \<not> fs_in_char st")
  case True
  then have d: "dropWhile blank s = c # cs" and ind: "ind = line_indent (fs_indent_level st) c"
    using assms by (auto simp: line_start_def Let_def split: list.splits)
  have "\<not> blank c" using d by (metis hd_dropWhile list.distinct(1) list.sel(1))
  moreover have "dropWhile blank (ind @ x) = dropWhile blank x" for x
    unfolding ind line_indent_def by (subst dropWhile_append2) (auto simp: blank_def split: if_splits)
  ultimately show ?thesis using True ind by (simp add: line_start_def)
qed (use assms in \<open>auto simp: line_start_def\<close>)

lemma fmt_loop_idem: "fmt_loop st (fmt_loop st s) = fmt_loop st s"
proof (induction st s rule: fmt_loop.induct)
  case (1 st s)
  obtain ind s1 where l: "line_start st s = (ind, s1)" by (cases "line_start st s")
  let ?st = "st\<lparr>fs_at_start_of_line := False\<rparr>"
  show ?case
  proof (cases s1)
    case Nil
    with l have "fmt_loop st s = []" by (subst fmt_loop.simps) simp
    moreover have "fmt_loop st [] = []" by (subst fmt_loop.simps) (simp add: line_start_def)
    ultimately show ?thesis by simp
  next
    case (Cons c cs)
    obtain out rest st' where o: "fmt_char ?st c cs = (out, rest, st')" by (cases "fmt_char ?st c cs")
    have r: "fmt_loop st s = ind @ out @ fmt_loop st' rest"
      using l Cons o by (subst fmt_loop.simps) simp
    have a: "fmt_char ?st c (tl out @ fmt_loop st' rest) = (out, fmt_loop st' rest, st')" "out = c # tl out"
      using fmt_char_again [OF o] by (auto simp: neq_Nil_conv)
    have "line_start st (ind @ c # tl out @ fmt_loop st' rest) = (ind, c # tl out @ fmt_loop st' rest)"
      using l Cons line_start_again by blast
    moreover have "fmt_loop st' (fmt_loop st' rest) = fmt_loop st' rest" using 1 l Cons o by simp
    ultimately show ?thesis
      using a r by (subst fmt_loop.simps) (metis append_Cons case_prod_conv list.simps(5))
  qed
qed

text \<open>
  C25: formatting is idempotent: formatting a formatted source changes nothing (and, as long as it fits,
  gives the same text).
\<close>

theorem format_idempotent:
  assumes "lsp_format_source (Some s) = Inr (Some out)"
  shows "fmt_loop fmt_init out = out \<and> lsp_format_source (Some out) = Inr (Some out)"
proof -
  have "out = fmt_loop fmt_init s"
    using assms by (auto simp: lsp_format_source_def sprintf_into_def split: if_splits)
  then have "fmt_loop fmt_init out = out" by (simp add: fmt_loop_idem)
  then show ?thesis by (simp add: lsp_format_source_def)
qed

theorem format_idempotent_witness:
  "\<exists>out. lsp_format_source (Some (two_lines @ [NL, NL, NL])) = Inr (Some out)
     \<and> lsp_format_source (Some out) = Inr (Some out)"
  using format_idempotent [OF format_two_lines] format_two_lines by simp

section \<open>The size of the result\<close>

abbreviation line_breaks :: "string \<Rightarrow> nat" where "line_breaks s \<equiv> count_list s NL"
abbreviation open_braces :: "string \<Rightarrow> nat" where "open_braces s \<equiv> count_list s (CHR ''{'')"

lemma count_drop_blank: "count_list (dropWhile blank s) NL = count_list s NL"
  "count_list (dropWhile blank s) (CHR ''{'') = count_list s (CHR ''{'')"
  by (induction s) (auto simp: blank_def)

lemma line_start_bound:
  assumes "line_start st s = (ind, s1)"
  shows "length ind \<le> 4 * fs_indent_level st * (if fs_at_start_of_line st then 1 else 0)"
    and "length s1 \<le> length s" and "line_breaks s1 = line_breaks s" and "open_braces s1 = open_braces s"
proof -
  show "length ind \<le> 4 * fs_indent_level st * (if fs_at_start_of_line st then 1 else 0)"
    using assms by (auto simp: line_start_def Let_def line_indent_def split: if_splits list.splits)
  show "length s1 \<le> length s" "line_breaks s1 = line_breaks s" "open_braces s1 = open_braces s"
    using line_start_cases [OF assms] count_drop_blank length_dropWhile_le [of blank s] by auto
qed

lemma fmt_char_level:
  assumes "fmt_char st c cs = (out, rest, st')"
  shows "fs_indent_level st' \<le> fs_indent_level st + (if c = CHR ''{'' then 1 else 0)"
    and "(if fs_at_start_of_line st' then 1 else 0 :: nat) \<le> (if fs_at_start_of_line st then 1 else 0) + (if c = NL then 1 else 0)"
  using assms unfolding fmt_char_defs by (auto split: if_splits)

lemma fmt_loop_bound:
  "length (fmt_loop st s) \<le> length s + 4 * (fs_indent_level st + open_braces s)
     * ((if fs_at_start_of_line st then 1 else 0) + line_breaks s)"
proof (induction st s rule: fmt_loop.induct)
  case (1 st s)
  obtain ind s1 where l: "line_start st s = (ind, s1)" by (cases "line_start st s")
  let ?st = "st\<lparr>fs_at_start_of_line := False\<rparr>"
  note b = line_start_bound [OF l]
  show ?case
  proof (cases s1)
    case Nil
    with l show ?thesis by (subst fmt_loop.simps) simp
  next
    case (Cons c cs)
    obtain out rest st' where o: "fmt_char ?st c cs = (out, rest, st')" by (cases "fmt_char ?st c cs")
    let ?v = "fs_indent_level st + open_braces s"
    let ?a = "if fs_at_start_of_line st then 1 else 0 :: nat"
    have t: "out @ rest = c # cs" using fmt_char_text [OF o] .
    have v: "fs_indent_level st' + open_braces rest \<le> ?v"
      and n: "(if fs_at_start_of_line st' then 1 else 0) + line_breaks rest \<le> line_breaks s"
      using fmt_char_level [OF o] b(3,4) Cons fmt_char_cases [OF o] by (cases cs; auto split: if_splits)+
    have "length (fmt_loop st' rest) \<le> length rest + 4 * (fs_indent_level st' + open_braces rest)
        * ((if fs_at_start_of_line st' then 1 else 0) + line_breaks rest)" using 1 l Cons o by simp
    also have "\<dots> \<le> length rest + 4 * ?v * line_breaks s" using v n by (intro add_left_mono mult_le_mono) auto
    finally have "length (fmt_loop st' rest) \<le> length rest + 4 * ?v * line_breaks s" .
    moreover have "length ind \<le> 4 * ?v * ?a" using b(1) by (rule order_trans) (intro mult_le_mono; simp)
    moreover have "length out + length rest \<le> length s" using t b(2) Cons by (metis length_append)
    moreover have "fmt_loop st s = ind @ out @ fmt_loop st' rest" using l Cons o by (subst fmt_loop.simps) simp
    ultimately show ?thesis by (simp only: length_append distrib_left)
  qed
qed

text \<open>
  The buffer is large enough for a source that is not nested deeply: where four times its opening
  braces times its lines is at most its length, the source is formatted.
\<close>

theorem format_fits:
  assumes "4 * open_braces s * Suc (line_breaks s) \<le> length s"
  shows "\<exists>out. lsp_format_source (Some s) = Inr (Some out) \<and> length out \<le> 2 * length s"
proof -
  have "length (fmt_loop fmt_init s) \<le> 2 * length s"
    using fmt_loop_bound [of fmt_init s] assms by (simp add: fmt_init_def)
  then show ?thesis by (auto simp: lsp_format_source_def)
qed

theorem format_fits_witness: "\<exists>out. lsp_format_source (Some ''a = { 1 };'') = Inr (Some out) \<and> length out \<le> 20"
  using format_fits [of "''a = { 1 };''"] by simp

text \<open>Otherwise it is not: three nested blocks, each on a line of its own, overflow the buffer.\<close>

lemma format_overflow:
  "lsp_format_source (Some [CHR ''{'', NL, CHR ''{'', NL, CHR ''{'', NL, CHR ''x'', NL]) = Inl Buffer_overflow"
  by code_simp

end
