(* ===== verification/ZcEmitter.thy ===== *)
theory ZcEmitter
  imports ZcMangle
begin

text \<open>
  The emitter that the code generator prints through (\<open>src/src/utils/emitter.c\<close>), and its use in
  \<open>format_expression_as_c\<close> (\<open>src/src/utils/format_expr.c\<close>). It writes to a file or to a block that grows.
  Files are named by numbers and their contents are part of the state. A block has a number of its own,
  which tells a block that was released from the others; \<open>em_ub\<close> records that one was used. A format
  and its arguments are the text that \<open>vsnprintf\<close> makes of them; \<open>xrealloc\<close> does not fail.
\<close>

definition EMITTER_INDENT_SIZE :: nat where "EMITTER_INDENT_SIZE = 4"
definition EMITTER_SAVED_STACK_MAX :: nat where "EMITTER_SAVED_STACK_MAX = 8"

text \<open>The mode and its union: a file, which may be NULL, or a block with its bytes and capacity.\<close>

datatype em_mode = EMITTER_FILE "nat option" | EMITTER_BUFFER "nat option" string nat

record em_saved =
  es_mode :: em_mode
  es_indent_level :: nat
  es_output_line :: nat

record emitter =
  em_mode :: em_mode
  em_indent_level :: nat
  em_pending_indent :: bool
  em_output_line :: nat
  em_saved_stack :: "em_saved list"
  em_files :: "nat \<Rightarrow> string"
  em_next_block :: nat
  em_freed :: "nat list"
  em_ub :: bool

section \<open>Operations\<close>

text \<open>\<open>emitter_grow\<close>: the capacity, and whether the block is reallocated.\<close>

definition emitter_grow :: "nat \<Rightarrow> nat \<Rightarrow> nat \<times> bool" where
  "emitter_grow cap needed = (if needed \<le> cap then (cap, False) else (needed + needed div 2, True))"

definition use_block :: "nat option \<Rightarrow> emitter \<Rightarrow> emitter" where
  "use_block b e = (case b of Some k \<Rightarrow> (if k \<in> set (em_freed e) then e\<lparr>em_ub := True\<rparr> else e) | None \<Rightarrow> e)"

definition free_block :: "nat option \<Rightarrow> emitter \<Rightarrow> emitter" where
  "free_block b e = (case b of Some k \<Rightarrow> (use_block b e)\<lparr>em_freed := k # em_freed e\<rparr> | None \<Rightarrow> e)"

text \<open>The bytes \<open>s\<close> and a terminator at the end of the target.\<close>

definition emitter_store :: "emitter \<Rightarrow> string \<Rightarrow> emitter" where
  "emitter_store e s =
     (case em_mode e of
        EMITTER_FILE None \<Rightarrow> e
      | EMITTER_FILE (Some f) \<Rightarrow> e\<lparr>em_files := (em_files e)(f := em_files e f @ s)\<rparr>
      | EMITTER_BUFFER b t cap \<Rightarrow>
          (case emitter_grow cap (length t + length s + 1) of
             (cap', False) \<Rightarrow> (use_block b e)\<lparr>em_mode := EMITTER_BUFFER b (t @ s) cap'\<rparr>
           | (cap', True) \<Rightarrow>
               (free_block b e)\<lparr>em_mode := EMITTER_BUFFER (Some (em_next_block e)) (t @ s) cap',
                               em_next_block := Suc (em_next_block e)\<rparr>))"

definition emitter_write_indent :: "emitter \<Rightarrow> emitter" where
  "emitter_write_indent e =
     (if em_indent_level e = 0 then e
      else emitter_store e (replicate (em_indent_level e * EMITTER_INDENT_SIZE) (CHR '' '')))"

fun emitter_flush_buffered :: "emitter \<Rightarrow> string \<Rightarrow> emitter" where
  "emitter_flush_buffered e [] = e"
| "emitter_flush_buffered e (c # cs) =
     (let e1 = (if em_pending_indent e \<and> c \<noteq> NL
                then (emitter_write_indent e)\<lparr>em_pending_indent := False\<rparr> else e);
          e2 = emitter_store e1 [c];
          e3 = (if c = NL then e2\<lparr>em_pending_indent := True, em_output_line := Suc (em_output_line e2)\<rparr>
                else e2)
      in emitter_flush_buffered e3 cs)"

definition emitter_init_file :: "emitter \<Rightarrow> nat option \<Rightarrow> emitter" where
  "emitter_init_file e f =
     e\<lparr>em_mode := EMITTER_FILE f, em_indent_level := 0, em_pending_indent := True, em_output_line := 1,
       em_saved_stack := []\<rparr>"

definition emitter_init_buffer :: "emitter \<Rightarrow> emitter" where
  "emitter_init_buffer e =
     e\<lparr>em_mode := EMITTER_BUFFER None [] 0, em_indent_level := 0, em_pending_indent := True,
       em_output_line := 1, em_saved_stack := []\<rparr>"

definition emitter_vprintf :: "emitter \<Rightarrow> string \<Rightarrow> emitter" where
  "emitter_vprintf e text =
     (if text = [] then
        (if em_pending_indent e then (emitter_write_indent e)\<lparr>em_pending_indent := False\<rparr> else e)
      else emitter_flush_buffered e text)"

definition emitter_write :: "emitter \<Rightarrow> string \<Rightarrow> emitter" where
  "emitter_write e bytes =
     (if bytes = [] then e
      else emitter_store
        (if em_pending_indent e then (emitter_write_indent e)\<lparr>em_pending_indent := False\<rparr> else e) bytes)"

definition emitter_take_string :: "emitter \<Rightarrow> string option \<times> emitter" where
  "emitter_take_string e =
     (case em_mode e of
        EMITTER_FILE _ \<Rightarrow> (None, e)
      | EMITTER_BUFFER b t _ \<Rightarrow> (map_option (\<lambda>_. t) b, e\<lparr>em_mode := EMITTER_BUFFER None [] 0\<rparr>))"

definition emitter_indent :: "emitter \<Rightarrow> emitter" where
  "emitter_indent e = e\<lparr>em_indent_level := Suc (em_indent_level e)\<rparr>"

definition emitter_dedent :: "emitter \<Rightarrow> emitter" where
  "emitter_dedent e = (if em_indent_level e > 0 then e\<lparr>em_indent_level := em_indent_level e - 1\<rparr> else e)"

definition emitter_push :: "emitter \<Rightarrow> bool \<times> emitter" where
  "emitter_push e =
     (if length (em_saved_stack e) \<ge> EMITTER_SAVED_STACK_MAX then (False, e)
      else (True, e\<lparr>em_saved_stack :=
              \<lparr>es_mode = em_mode e, es_indent_level = em_indent_level e, es_output_line = em_output_line e\<rparr>
              # em_saved_stack e\<rparr>))"

definition emitter_pop :: "emitter \<Rightarrow> bool \<times> emitter" where
  "emitter_pop e =
     (case em_saved_stack e of
        [] \<Rightarrow> (False, e)
      | s # ss \<Rightarrow>
          (True, (case em_mode e of EMITTER_BUFFER b _ _ \<Rightarrow> free_block b e | EMITTER_FILE _ \<Rightarrow> e)
            \<lparr>em_mode := es_mode s, em_indent_level := es_indent_level s, em_output_line := es_output_line s,
             em_saved_stack := ss\<rparr>))"

text \<open>\<open>format_expression_as_c\<close>, with \<open>codegen_expression\<close> as a function on the emitter: the text, and
  whether the pop restored anything.\<close>

definition format_expression_as_c :: "(emitter \<Rightarrow> emitter) \<Rightarrow> emitter \<Rightarrow> string option \<times> bool \<times> emitter" where
  "format_expression_as_c codegen e =
     (case emitter_take_string (codegen (emitter_init_buffer (snd (emitter_push e)))) of
        (result, e1) \<Rightarrow> (case emitter_pop e1 of (ok, e2) \<Rightarrow> (result, ok, e2)))"

section \<open>What is printed\<close>

text \<open>The text of the current target.\<close>

definition em_output :: "emitter \<Rightarrow> string" where
  "em_output e =
     (case em_mode e of EMITTER_FILE None \<Rightarrow> [] | EMITTER_FILE (Some f) \<Rightarrow> em_files e f | EMITTER_BUFFER _ t _ \<Rightarrow> t)"

definition em_open :: "emitter \<Rightarrow> bool" where
  "em_open e \<longleftrightarrow> em_mode e \<noteq> EMITTER_FILE None"

text \<open>The bytes of a block and their terminator fit it; its number is in use and it is not released.\<close>

definition em_ok :: "emitter \<Rightarrow> bool" where
  "em_ok e \<longleftrightarrow>
     \<not> em_ub e \<and> (\<forall>k \<in> set (em_freed e). k < em_next_block e)
     \<and> (case em_mode e of
          EMITTER_FILE _ \<Rightarrow> True
        | EMITTER_BUFFER None t cap \<Rightarrow> t = [] \<and> cap = 0
        | EMITTER_BUFFER (Some k) t cap \<Rightarrow> length t < cap \<and> k < em_next_block e \<and> k \<notin> set (em_freed e))"

lemma store_ok: "em_ok e \<Longrightarrow> em_ok (emitter_store e s)"
  by (auto simp: em_ok_def emitter_store_def emitter_grow_def use_block_def free_block_def
      split: em_mode.splits option.splits)

lemma store_output: "em_open e \<Longrightarrow> em_output (emitter_store e s) = em_output e @ s"
  by (auto simp: em_output_def em_open_def emitter_store_def emitter_grow_def use_block_def free_block_def
      split: em_mode.splits option.splits)

lemma store_closed: "\<not> em_open e \<Longrightarrow> emitter_store e s = e"
  by (auto simp: em_open_def emitter_store_def)

lemma store_frame [simp]:
  "em_indent_level (emitter_store e s) = em_indent_level e"
  "em_pending_indent (emitter_store e s) = em_pending_indent e"
  "em_output_line (emitter_store e s) = em_output_line e"
  "em_saved_stack (emitter_store e s) = em_saved_stack e"
  "em_open (emitter_store e s) = em_open e"
  by (auto simp: emitter_store_def emitter_grow_def use_block_def free_block_def em_open_def
      split: em_mode.splits option.splits)

text \<open>The emitter's target as a buffer that grows; a NULL file accepts nothing.\<close>

interpretation embuf: growable_buffer em_output emitter_store "\<lambda>e s. em_open e" em_ok
  by unfold_locales (simp_all add: store_output store_ok store_closed)

text \<open>What printing means: the text with every line that is not empty indented, where \<open>pending\<close> says
  that the text starts a line.\<close>

fun indented :: "nat \<Rightarrow> bool \<Rightarrow> string \<Rightarrow> string" where
  "indented level pending [] = []"
| "indented level pending (c # cs) =
     (if pending \<and> c \<noteq> NL then replicate (4 * level) (CHR '' '') else []) @ c # indented level (c = NL) cs"

lemma indented_append:
  "indented level p (s @ t) = indented level p s @ indented level (if s = [] then p else last s = NL) t"
  by (induction s arbitrary: p) auto

text \<open>The operations that print keep the rest of the state.\<close>

definition prints :: "emitter \<Rightarrow> emitter \<Rightarrow> string \<Rightarrow> bool" where
  "prints e e' t \<longleftrightarrow>
     em_output e' = em_output e @ t \<and> em_ok e' \<and> em_open e' \<and> em_indent_level e' = em_indent_level e
     \<and> em_saved_stack e' = em_saved_stack e"

lemma prints_store: "em_ok e \<Longrightarrow> em_open e \<Longrightarrow> prints e (emitter_store e s) s"
  by (simp add: prints_def store_output store_ok)

lemma prints_trans: "prints e e1 s \<Longrightarrow> prints e1 e2 t \<Longrightarrow> prints e e2 (s @ t)"
  by (simp add: prints_def)

lemma prints_flags [simp]:
  "prints e (e'\<lparr>em_pending_indent := b\<rparr>) t = prints e e' t"
  "prints e (e'\<lparr>em_output_line := n\<rparr>) t = prints e e' t"
  by (simp_all add: prints_def em_output_def em_ok_def em_open_def cong: option.case_cong em_mode.case_cong)

lemma prints_indent:
  assumes "em_ok e" and "em_open e"
  shows "prints e (emitter_write_indent e) (replicate (4 * em_indent_level e) (CHR '' ''))"
  using assms prints_store [OF assms]
  by (auto simp: emitter_write_indent_def EMITTER_INDENT_SIZE_def mult.commute prints_def)

lemma write_indent_line [simp]: "em_output_line (emitter_write_indent e) = em_output_line e"
  by (simp add: emitter_write_indent_def)

lemma flush_prints:
  assumes "em_ok e" and "em_open e"
  shows "prints e (emitter_flush_buffered e s) (indented (em_indent_level e) (em_pending_indent e) s)
    \<and> em_output_line (emitter_flush_buffered e s) = em_output_line e + count_list s NL
    \<and> em_pending_indent (emitter_flush_buffered e s) = (if s = [] then em_pending_indent e else last s = NL)"
  using assms
proof (induction s arbitrary: e)
  case Nil
  then show ?case by (simp add: prints_def)
next
  case (Cons c cs)
  let ?w = "em_pending_indent e \<and> c \<noteq> NL"
  define e1 where "e1 = (if ?w then (emitter_write_indent e)\<lparr>em_pending_indent := False\<rparr> else e)"
  define e2 where "e2 = emitter_store e1 [c]"
  define e3 where "e3 = (if c = NL then e2\<lparr>em_pending_indent := True, em_output_line := Suc (em_output_line e2)\<rparr> else e2)"
  have p1: "prints e e1 (if ?w then replicate (4 * em_indent_level e) (CHR '' '') else [])"
  proof (cases ?w)
    case True
    then show ?thesis using prints_indent [OF Cons.prems] by (simp add: e1_def)
  next
    case False
    then show ?thesis using Cons.prems by (auto simp: e1_def prints_def)
  qed
  then have "prints e1 e2 [c]" unfolding e2_def by (intro prints_store) (auto simp: prints_def)
  note p2 = prints_trans [OF p1 this]
  have p3: "prints e e3 ((if ?w then replicate (4 * em_indent_level e) (CHR '' '') else []) @ [c])"
    using p2 unfolding e3_def by (cases "c = NL") (simp_all only: if_True if_False simp_thms prints_flags)
  have flags: "em_pending_indent e3 = (c = NL)" "em_output_line e3 = em_output_line e + (if c = NL then 1 else 0)"
    by (auto simp: e3_def e2_def e1_def)
  have ok: "em_ok e3" "em_open e3" "em_indent_level e3 = em_indent_level e" using p3 by (auto simp: prints_def)
  have "emitter_flush_buffered e (c # cs) = emitter_flush_buffered e3 cs"
    by (simp add: e1_def e2_def e3_def Let_def)
  with Cons.IH [OF ok(1,2)] prints_trans [OF p3] flags ok(3) show ?case by auto
qed

text \<open>
  C39: what is printed reaches the target in order, each line that is not empty indented by the level,
  for a text that is not empty and a target that is a block or an open file; the line number advances
  with the line breaks, and a block that is in use and holds its text still does so, never
  overrun and never used after its release.
\<close>

theorem emitter_prints:
  assumes "em_ok e" and "em_open e" and "t \<noteq> []"
  shows "em_output (emitter_vprintf e t)
      = em_output e @ indented (em_indent_level e) (em_pending_indent e) t
    \<and> em_output_line (emitter_vprintf e t) = em_output_line e + count_list t NL
    \<and> em_pending_indent (emitter_vprintf e t) = (last t = NL)
    \<and> em_ok (emitter_vprintf e t)"
  using flush_prints [OF assms(1,2), of t] assms(3) by (simp add: emitter_vprintf_def prints_def)

definition fresh_emitter :: emitter where
  "fresh_emitter =
     \<lparr>em_mode = EMITTER_FILE (Some 0), em_indent_level = 1, em_pending_indent = True, em_output_line = 1,
      em_saved_stack = [], em_files = (\<lambda>_. []), em_next_block = 0, em_freed = [], em_ub = False\<rparr>"

lemma fresh_ok: "em_ok fresh_emitter" "em_open fresh_emitter"
  by (simp_all add: fresh_emitter_def em_ok_def em_open_def)

theorem emitter_prints_witness:
  "em_output (emitter_vprintf fresh_emitter ''x;'') = ''    x;''"
  using emitter_prints [OF fresh_ok, of "''x;''"] by (simp add: fresh_emitter_def em_output_def numeral_eq_Suc)

text \<open>
  The pieces in which a text is printed do not matter: printing it at once or in two parts leaves
  the same output, line number and pending indentation.
\<close>

theorem emitter_pieces:
  assumes "em_ok e" and "em_open e" and "s \<noteq> []" and "t \<noteq> []"
  shows "em_output (emitter_vprintf (emitter_vprintf e s) t) = em_output (emitter_vprintf e (s @ t))
    \<and> em_output_line (emitter_vprintf (emitter_vprintf e s) t) = em_output_line (emitter_vprintf e (s @ t))
    \<and> em_pending_indent (emitter_vprintf (emitter_vprintf e s) t) = em_pending_indent (emitter_vprintf e (s @ t))"
proof -
  note f = flush_prints [OF assms(1,2)]
  then have p: "em_ok (emitter_vprintf e s)" "em_open (emitter_vprintf e s)"
    using assms(3) by (auto simp: emitter_vprintf_def prints_def)
  show ?thesis
    using flush_prints [OF p, of t] f [of s] f [of "s @ t"] assms(3,4)
    by (simp add: emitter_vprintf_def prints_def indented_append)
qed

theorem emitter_pieces_witness:
  "em_output (emitter_vprintf (emitter_vprintf fresh_emitter ''a'') ''b'') = em_output (emitter_vprintf fresh_emitter ''ab'')"
  using emitter_pieces [OF fresh_ok, of "''a''" "''b''"] by simp

section \<open>Saving and restoring\<close>

datatype em_op = Print string | Write string | Indent | Dedent

fun em_do :: "emitter \<Rightarrow> em_op \<Rightarrow> emitter" where
  "em_do e (Print s) = emitter_vprintf e s"
| "em_do e (Write s) = emitter_write e s"
| "em_do e Indent = emitter_indent e"
| "em_do e Dedent = emitter_dedent e"

lemma file_mode_store: "em_mode e = EMITTER_FILE f \<Longrightarrow> em_mode (emitter_store e s) = EMITTER_FILE f"
  by (auto simp: emitter_store_def split: option.split)

lemma file_mode_indent: "em_mode e = EMITTER_FILE f \<Longrightarrow> em_mode (emitter_write_indent e) = EMITTER_FILE f"
  by (simp add: emitter_write_indent_def file_mode_store)

lemma file_mode_flush: "em_mode e = EMITTER_FILE f \<Longrightarrow> em_mode (emitter_flush_buffered e s) = EMITTER_FILE f"
  by (induction s arbitrary: e) (simp_all add: Let_def file_mode_store file_mode_indent)

lemma flush_stack [simp]: "em_saved_stack (emitter_flush_buffered e s) = em_saved_stack e"
  by (induction s arbitrary: e) (simp_all add: Let_def emitter_write_indent_def)

lemma em_do_frame:
  assumes "em_mode e = EMITTER_FILE f"
  shows "em_mode (em_do e a) = EMITTER_FILE f" and "em_saved_stack (em_do e a) = em_saved_stack e"
  using assms by (cases a;
    auto simp: emitter_vprintf_def emitter_write_def emitter_indent_def emitter_dedent_def file_mode_store
      file_mode_indent file_mode_flush emitter_write_indent_def)+

lemma em_run_frame:
  "em_mode e = EMITTER_FILE f \<Longrightarrow>
     em_mode (foldl em_do e as) = EMITTER_FILE f \<and> em_saved_stack (foldl em_do e as) = em_saved_stack e"
  by (induction as arbitrary: e) (simp_all add: em_do_frame)

text \<open>
  On a file, what a push saves the matching pop restores: the file, the indentation level, the line
  number and the stack are those of before, whatever was printed and however the level was changed.
\<close>

theorem emitter_push_pop:
  assumes "em_mode e = EMITTER_FILE f" and "emitter_push e = (True, e1)"
    and "emitter_pop (foldl em_do e1 as) = (ok, e2)"
  shows "ok \<and> em_mode e2 = EMITTER_FILE f \<and> em_indent_level e2 = em_indent_level e
    \<and> em_output_line e2 = em_output_line e \<and> em_saved_stack e2 = em_saved_stack e"
proof -
  have e1: "em_mode e1 = EMITTER_FILE f" "em_saved_stack e1 =
      \<lparr>es_mode = em_mode e, es_indent_level = em_indent_level e, es_output_line = em_output_line e\<rparr> # em_saved_stack e"
    using assms(1,2) by (auto simp: emitter_push_def split: if_splits)
  from em_run_frame [OF e1(1), of as] e1(2) assms(1,3) show ?thesis
    by (auto simp: emitter_pop_def)
qed

theorem emitter_push_pop_witness:
  "\<exists>e2. emitter_pop (foldl em_do (snd (emitter_push fresh_emitter)) [Indent, Print ''x'']) = (True, e2)
     \<and> em_indent_level e2 = 1"
proof -
  have "emitter_push fresh_emitter = (True, snd (emitter_push fresh_emitter))"
    by (simp add: emitter_push_def fresh_emitter_def EMITTER_SAVED_STACK_MAX_def)
  from emitter_push_pop [OF _ this, of "Some 0" "[Indent, Print ''x'']"] show ?thesis
    by (cases "emitter_pop (foldl em_do (snd (emitter_push fresh_emitter)) [Indent, Print ''x''])")
      (auto simp: fresh_emitter_def)
qed

text \<open>\<open>emitter_init_buffer\<close> empties the stack, so the pop of \<open>format_expression_as_c\<close> restores nothing:
  whatever the emitter wrote to before, afterwards it has an empty block and an empty stack.\<close>

lemma format_expression_loses_target:
  assumes "em_saved_stack (codegen (emitter_init_buffer (snd (emitter_push e)))) = []"
    and "em_mode (codegen (emitter_init_buffer (snd (emitter_push e)))) = EMITTER_BUFFER b t cap"
    and "format_expression_as_c codegen e = (result, ok, e')"
  shows "\<not> ok \<and> em_mode e' = EMITTER_BUFFER None [] 0 \<and> em_saved_stack e' = []"
  using assms by (auto simp: format_expression_as_c_def emitter_take_string_def emitter_pop_def)

text \<open>On a block, a push and a pop with nothing between release the block that is restored.\<close>

lemma push_pop_releases_block:
  assumes "em_mode e = EMITTER_BUFFER (Some k) t cap" and "emitter_push e = (True, e1)"
  shows "em_mode (snd (emitter_pop e1)) = EMITTER_BUFFER (Some k) t cap \<and> k \<in> set (em_freed (snd (emitter_pop e1)))"
  using assms by (auto simp: emitter_push_def emitter_pop_def free_block_def use_block_def split: if_splits)

end
