(* ===== verification/ZcStructHash.thy ===== *)
theory ZcStructHash
  imports ZcPrelude
begin

unbundle bit_operations_syntax

text \<open>
  The hash table of struct and enum definitions (\<open>struct_name_hash\<close>, \<open>struct_hash_insert\<close> and
  \<open>struct_hash_lookup\<close> of \<open>src/src/parser/utils/utils_registry.c\<close>): open addressing with linear probing,
  names cut to 255 bytes, the empty name for an empty slot. A definition is the address of its node,
  NULL is \<open>None\<close>.
\<close>

definition STRUCT_HASH_SIZE :: nat where "STRUCT_HASH_SIZE = 2048"
definition STRUCT_NAME_SIZE :: nat where "STRUCT_NAME_SIZE = 256"

type_synonym struct_table = "(string \<times> nat option) list"

definition struct_name_hash :: "string \<Rightarrow> 32 word" where
  "struct_name_hash name = foldl (\<lambda>h c. (h XOR of_char c) * 16777619) 2166136261 name"

definition probe_slot :: "32 word \<Rightarrow> nat \<Rightarrow> nat" where
  "probe_slot idx i = unat ((idx + of_nat i + 2048) AND (2048 - 1) :: 32 word)"

text \<open>The loops, with the number of turns that are left.\<close>

fun insert_probe :: "nat \<Rightarrow> struct_table \<Rightarrow> string \<Rightarrow> nat option \<Rightarrow> 32 word \<Rightarrow> nat \<Rightarrow> struct_table" where
  "insert_probe 0 tab name nd idx i = tab"
| "insert_probe (Suc k) tab name nd idx i =
     (let slot = probe_slot idx i; nm = fst (tab ! slot) in
      if nm = [] \<or> nm = name then tab[slot := (take (STRUCT_NAME_SIZE - 1) name, nd)]
      else insert_probe k tab name nd idx (Suc i))"

definition struct_hash_insert :: "struct_table \<Rightarrow> string \<Rightarrow> nat option \<Rightarrow> struct_table" where
  "struct_hash_insert tab name nd =
     insert_probe STRUCT_HASH_SIZE tab name nd (struct_name_hash name AND (2048 - 1)) 0"

fun lookup_probe :: "nat \<Rightarrow> struct_table \<Rightarrow> string \<Rightarrow> 32 word \<Rightarrow> nat \<Rightarrow> nat option" where
  "lookup_probe 0 tab name idx i = None"
| "lookup_probe (Suc k) tab name idx i =
     (let slot = probe_slot idx i; (nm, nd) = tab ! slot in
      if nm = [] then None
      else if nm = name then nd
      else lookup_probe k tab name idx (Suc i))"

definition struct_hash_lookup :: "struct_table \<Rightarrow> string \<Rightarrow> nat option" where
  "struct_hash_lookup tab name = lookup_probe STRUCT_HASH_SIZE tab name (struct_name_hash name AND (2048 - 1)) 0"

definition empty_table :: struct_table where
  "empty_table = replicate STRUCT_HASH_SIZE ([], None)"

section \<open>The slot of a name\<close>

definition slots :: "string \<Rightarrow> nat list" where
  "slots name = map (probe_slot (struct_name_hash name AND (2048 - 1))) [0..<STRUCT_HASH_SIZE]"

definition slot_for :: "struct_table \<Rightarrow> string \<Rightarrow> nat option" where
  "slot_for tab name = List.find (\<lambda>s. fst (tab ! s) = [] \<or> fst (tab ! s) = name) (slots name)"

lemma upt_first: "[i..<Suc (i + k)] = i # [Suc i..<Suc (i + k)]"
  by (rule upt_conv_Cons) simp

lemma insert_probe_find:
  "insert_probe k tab name nd idx i =
     (case List.find (\<lambda>s. fst (tab ! s) = [] \<or> fst (tab ! s) = name) (map (probe_slot idx) [i..<i + k]) of
        None \<Rightarrow> tab | Some s \<Rightarrow> tab[s := (take (STRUCT_NAME_SIZE - 1) name, nd)])"
  by (induction k arbitrary: i) (simp_all add: Let_def upt_first del: upt_Suc)

lemma lookup_probe_find:
  "lookup_probe k tab name idx i =
     (case List.find (\<lambda>s. fst (tab ! s) = [] \<or> fst (tab ! s) = name) (map (probe_slot idx) [i..<i + k]) of
        None \<Rightarrow> None | Some s \<Rightarrow> if fst (tab ! s) = [] then None else snd (tab ! s))"
  by (induction k arbitrary: i)
    (auto simp: Let_def upt_first split: prod.split simp del: upt_Suc)

lemma insert_slot:
  "struct_hash_insert tab name nd =
     (case slot_for tab name of None \<Rightarrow> tab | Some s \<Rightarrow> tab[s := (take (STRUCT_NAME_SIZE - 1) name, nd)])"
  by (simp add: struct_hash_insert_def insert_probe_find slot_for_def slots_def)

lemma lookup_slot:
  "struct_hash_lookup tab name =
     (case slot_for tab name of None \<Rightarrow> None | Some s \<Rightarrow> if fst (tab ! s) = [] then None else snd (tab ! s))"
  by (simp add: struct_hash_lookup_def lookup_probe_find slot_for_def slots_def)

lemma probe_slot_bound: "probe_slot idx i < STRUCT_HASH_SIZE"
proof -
  have "x AND 2047 \<le> (2047 :: 32 word)" for x by (rule word_and_le1)
  then have "unat (x AND 2047 :: 32 word) \<le> 2047" for x by (simp add: word_le_nat_alt)
  from this [of "idx + word_of_nat i + 2048"] show ?thesis
    by (simp add: probe_slot_def STRUCT_HASH_SIZE_def)
qed

section \<open>The table as a map\<close>

text \<open>Every name that is stored is found by its own probe sequence, and none was cut.\<close>

definition table_ok :: "struct_table \<Rightarrow> bool" where
  "table_ok tab \<longleftrightarrow>
     length tab = STRUCT_HASH_SIZE
     \<and> (\<forall>s < STRUCT_HASH_SIZE. fst (tab ! s) \<noteq> [] \<longrightarrow>
          slot_for tab (fst (tab ! s)) = Some s \<and> length (fst (tab ! s)) < STRUCT_NAME_SIZE)"

text \<open>A name that the table can take: it fits the array of a slot, and a slot is free or holds it.\<close>

definition table_takes :: "struct_table \<Rightarrow> string \<Rightarrow> bool" where
  "table_takes tab name \<longleftrightarrow> name \<noteq> [] \<and> length name < STRUCT_NAME_SIZE \<and> slot_for tab name \<noteq> None"

lemma find_first:
  "List.find p xs = Some x \<longleftrightarrow> (\<exists>ys zs. xs = ys @ x # zs \<and> p x \<and> (\<forall>y \<in> set ys. \<not> p y))"
proof (induction xs)
  case (Cons a xs)
  show ?case
  proof (cases "p a")
    case True
    then show ?thesis by (auto simp: Cons_eq_append_conv)
  next
    case False
    then have "(\<exists>ys zs. a # xs = ys @ x # zs \<and> p x \<and> (\<forall>y \<in> set ys. \<not> p y))
        \<longleftrightarrow> (\<exists>ys zs. xs = ys @ x # zs \<and> p x \<and> (\<forall>y \<in> set ys. \<not> p y))"
      by (auto simp: Cons_eq_append_conv) (metis append_Cons set_ConsD)
    with False Cons show ?thesis by simp
  qed
qed simp

text \<open>When a predicate changes at one place only, from true to false or not at all, the first hit stays
  unless it was there.\<close>

lemma find_changed:
  assumes "List.find p xs = Some x" and "q x" and "\<And>y. q y \<Longrightarrow> p y"
  shows "List.find q xs = Some x"
  using assms by (auto simp: find_first)

lemma slot_for_bound: "slot_for tab name = Some s \<Longrightarrow> s < STRUCT_HASH_SIZE"
  using probe_slot_bound by (auto simp: slot_for_def slots_def find_Some_iff)

lemma slot_for_hit: "slot_for tab name = Some s \<Longrightarrow> fst (tab ! s) = [] \<or> fst (tab ! s) = name"
  by (auto simp: slot_for_def find_Some_iff)

lemma slot_for_update_same:
  assumes "slot_for tab n = Some s" and "length tab = STRUCT_HASH_SIZE"
  shows "slot_for (tab[s := (n, nd)]) n = Some s"
  unfolding slot_for_def
proof (rule find_changed [OF assms(1) [unfolded slot_for_def]])
  show "fst (tab[s := (n, nd)] ! s) = [] \<or> fst (tab[s := (n, nd)] ! s) = n"
    using slot_for_bound [OF assms(1)] assms(2) by simp
next
  fix y assume "fst (tab[s := (n, nd)] ! y) = [] \<or> fst (tab[s := (n, nd)] ! y) = n"
  then show "fst (tab ! y) = [] \<or> fst (tab ! y) = n"
    using slot_for_hit [OF assms(1)] by (cases "y = s") auto
qed

lemma slot_for_update_other:
  assumes "slot_for tab n = Some s" and "length tab = STRUCT_HASH_SIZE" and "n \<noteq> []" and "m \<noteq> n"
    and "slot_for tab m = Some t" and "t \<noteq> s"
  shows "slot_for (tab[s := (n, nd)]) m = Some t"
  unfolding slot_for_def
proof (rule find_changed [OF assms(5) [unfolded slot_for_def]])
  show "fst (tab[s := (n, nd)] ! t) = [] \<or> fst (tab[s := (n, nd)] ! t) = m"
    using slot_for_hit [OF assms(5)] assms(6) by simp
next
  fix y assume "fst (tab[s := (n, nd)] ! y) = [] \<or> fst (tab[s := (n, nd)] ! y) = m"
  then show "fst (tab ! y) = [] \<or> fst (tab ! y) = m"
    using slot_for_bound [OF assms(1)] assms(2-4) by (cases "y = s") auto
qed

lemma table_ok_insert:
  assumes ok: "table_ok tab" and t: "table_takes tab n"
  shows "table_ok (struct_hash_insert tab n nd)"
proof -
  obtain s where s: "slot_for tab n = Some s" using t by (auto simp: table_takes_def)
  have len: "length tab = STRUCT_HASH_SIZE" using ok by (simp add: table_ok_def)
  have n: "n \<noteq> []" "length n < STRUCT_NAME_SIZE" using t by (auto simp: table_takes_def)
  then have ins: "struct_hash_insert tab n nd = tab[s := (n, nd)]"
    using s by (simp add: insert_slot STRUCT_NAME_SIZE_def)
  have "slot_for (tab[s := (n, nd)]) (fst (tab[s := (n, nd)] ! k)) = Some k
      \<and> length (fst (tab[s := (n, nd)] ! k)) < STRUCT_NAME_SIZE"
    if k: "k < STRUCT_HASH_SIZE" "fst (tab[s := (n, nd)] ! k) \<noteq> []" for k
  proof (cases "k = s")
    case True
    with slot_for_update_same [OF s len] n len k(1) show ?thesis by simp
  next
    case False
    then have own: "slot_for tab (fst (tab ! k)) = Some k" "length (fst (tab ! k)) < STRUCT_NAME_SIZE"
      using ok k by (auto simp: table_ok_def)
    then have "fst (tab ! k) \<noteq> n" using s False by auto
    from slot_for_update_other [OF s len n(1) this own(1) False] own(2) False show ?thesis by simp
  qed
  with len show ?thesis by (simp add: ins table_ok_def)
qed

lemma lookup_insert:
  assumes ok: "table_ok tab" and t: "table_takes tab n"
  shows "struct_hash_lookup (struct_hash_insert tab n (Some v)) m
    = (if m = n then Some v else struct_hash_lookup tab m)"
proof -
  obtain s where s: "slot_for tab n = Some s" using t by (auto simp: table_takes_def)
  have len: "length tab = STRUCT_HASH_SIZE" using ok by (simp add: table_ok_def)
  have n: "n \<noteq> []" "length n < STRUCT_NAME_SIZE" using t by (auto simp: table_takes_def)
  let ?tab = "tab[s := (n, Some v)]"
  have ins: "struct_hash_insert tab n (Some v) = ?tab"
    using s n by (simp add: insert_slot STRUCT_NAME_SIZE_def)
  have sb: "s < STRUCT_HASH_SIZE" by (rule slot_for_bound [OF s])
  show ?thesis
  proof (cases "m = n")
    case True
    with slot_for_update_same [OF s len] n sb len ins show ?thesis by (simp add: lookup_slot)
  next
    case False
    show ?thesis
    proof (cases "slot_for tab m = Some s \<or> slot_for tab m = None")
      case True
      have before: "struct_hash_lookup tab m = None"
        using True slot_for_hit [OF s] slot_for_hit [of tab m s] False by (auto simp: lookup_slot)
      have "fst (?tab ! k) = []" if "slot_for ?tab m = Some k" for k
      proof (rule ccontr)
        assume ne: "fst (?tab ! k) \<noteq> []"
        then have "fst (?tab ! k) = m" using slot_for_hit [OF that] by simp
        then have k: "fst (tab ! k) = m" "k \<noteq> s" "m \<noteq> []" using False sb len ne by (cases "k = s"; auto)+
        then have "slot_for tab m = Some k" using ok slot_for_bound [OF that] by (auto simp: table_ok_def)
        with True k show False by auto
      qed
      then have "struct_hash_lookup ?tab m = None" by (auto simp: lookup_slot split: option.split)
      with before False ins show ?thesis by simp
    next
      case neq: False
      then obtain k where k: "slot_for tab m = Some k" "k \<noteq> s" by auto
      from slot_for_update_other [OF s len n(1) False k] k False ins show ?thesis by (simp add: lookup_slot)
    qed
  qed
qed

interpretation structs: guarded_env struct_hash_lookup "\<lambda>tab n v. struct_hash_insert tab n (Some v)"
  table_takes table_ok
  by unfold_locales (simp_all add: lookup_insert table_ok_insert)

lemma empty_table_ok: "table_ok empty_table"
  by (simp add: table_ok_def empty_table_def)

section \<open>When a name is refused\<close>

lemma probe_slot_nat: "probe_slot idx i = (unat idx + i) mod STRUCT_HASH_SIZE"
proof -
  have "unat (x AND 2047 :: 32 word) = unat x mod 2048" for x
  proof -
    have "x AND 2047 = take_bit 11 x" by (simp add: take_bit_eq_mask mask_eq_exp_minus_1)
    then have "unat (x AND 2047) = take_bit 11 (unat x)" by (simp only: unsigned_take_bit_eq)
    then show ?thesis by (simp add: take_bit_eq_mod)
  qed
  then have "probe_slot idx i = unat (idx + word_of_nat i + 2048) mod 2048"
    by (simp add: probe_slot_def)
  also have "unat (idx + word_of_nat i + 2048) = (unat idx + i + 2048) mod 2 ^ 32"
    by (simp add: unat_word_ariths unat_of_nat mod_simps)
  also have "(unat idx + i + 2048) mod 2 ^ 32 mod 2048 = (unat idx + i) mod 2048"
    by (simp add: mod_mod_cancel)
  finally show ?thesis by (simp add: STRUCT_HASH_SIZE_def)
qed

lemma slots_all: "s < STRUCT_HASH_SIZE \<Longrightarrow> s \<in> set (slots name)"
proof -
  assume s: "s < STRUCT_HASH_SIZE"
  let ?h = "unat (struct_name_hash name AND 2047)"
  have h: "?h < STRUCT_HASH_SIZE"
    using probe_slot_bound [of "struct_name_hash name - 2048" 0] by (simp add: probe_slot_def)
  define i where "i = (if ?h \<le> s then s - ?h else s + STRUCT_HASH_SIZE - ?h)"
  have "i < STRUCT_HASH_SIZE" and "(?h + i) mod STRUCT_HASH_SIZE = s"
    using s h by (auto simp: i_def)
  then show ?thesis by (force simp: slots_def probe_slot_nat)
qed

definition free_slots :: "struct_table \<Rightarrow> nat" where
  "free_slots tab = length (filter (\<lambda>(nm, _). nm = []) tab)"

lemma free_slot_takes:
  assumes "length tab = STRUCT_HASH_SIZE" and "0 < free_slots tab" and "name \<noteq> []" and "length name < STRUCT_NAME_SIZE"
  shows "table_takes tab name"
proof -
  obtain e where "e \<in> set tab" "fst e = []"
    using assms(2) by (auto simp: free_slots_def filter_empty_conv)
  then obtain s where "s < STRUCT_HASH_SIZE" "fst (tab ! s) = []"
    using assms(1) by (auto simp: in_set_conv_nth)
  then have "slot_for tab name \<noteq> None"
    using slots_all [of s name] by (auto simp: slot_for_def find_None_iff)
  with assms(3,4) show ?thesis by (simp add: table_takes_def)
qed

lemma free_slots_update:
  "free_slots tab \<le> Suc (free_slots (tab[s := e]))"
proof (cases "s < length tab")
  case True
  have parts: "free_slots (xs @ x # ys) = free_slots xs + free_slots [x] + free_slots ys" for xs x ys
    by (simp add: free_slots_def)
  have "free_slots tab = free_slots (take s tab) + free_slots [tab ! s] + free_slots (drop (Suc s) tab)"
    by (subst id_take_nth_drop [OF True]) (rule parts)
  moreover have "free_slots (tab[s := e]) = free_slots (take s tab) + free_slots [e] + free_slots (drop (Suc s) tab)"
    by (subst upd_conv_take_nth_drop [OF True]) (rule parts)
  moreover have "free_slots [tab ! s] \<le> 1" by (simp add: free_slots_def)
  ultimately show ?thesis by simp
qed (simp add: list_update_beyond)

lemma accepts_up_to_size:
  assumes "table_ok tab" and "length bs \<le> free_slots tab"
    and "\<forall>(n, v) \<in> set bs. n \<noteq> [] \<and> length n < STRUCT_NAME_SIZE"
  shows "structs.accepts_all tab bs"
  using assms
proof (induction bs arbitrary: tab)
  case (Cons b bs)
  obtain n v where b: "b = (n, v)" by (cases b)
  have t: "table_takes tab n"
    using Cons.prems b by (intro free_slot_takes) (auto simp: table_ok_def)
  obtain s where s: "slot_for tab n = Some s" using t by (auto simp: table_takes_def)
  have "free_slots tab \<le> Suc (free_slots (struct_hash_insert tab n (Some v)))"
    using s by (simp add: insert_slot free_slots_update)
  then have "structs.accepts_all (struct_hash_insert tab n (Some v)) bs"
    using Cons.prems t b by (intro Cons.IH) (auto simp: table_ok_insert)
  with t b show ?case by simp
qed simp

text \<open>
  C16: the hash table is a map: after up to 2048 insertions of names that fit a slot, in any order and with
  repetitions, looking up a name gives the node inserted for it last, and NULL for every other name.
\<close>

theorem struct_table_is_map:
  assumes "length bs \<le> STRUCT_HASH_SIZE" and "\<forall>(n, v) \<in> set bs. n \<noteq> [] \<and> length n < STRUCT_NAME_SIZE"
  shows "struct_hash_lookup (foldl (\<lambda>tab (n, v). struct_hash_insert tab n (Some v)) empty_table bs) m
    = map_of (rev bs) m"
proof -
  have "free_slots empty_table = STRUCT_HASH_SIZE"
    by (simp add: free_slots_def empty_table_def)
  then have "structs.accepts_all empty_table bs"
    using assms by (intro accepts_up_to_size) (simp_all add: empty_table_ok)
  moreover have "struct_hash_lookup empty_table m = None"
    by (auto simp: lookup_slot empty_table_def dest: slot_for_bound split: option.split)
  ultimately show ?thesis
    using structs.find_accepted_all [OF empty_table_ok, of bs m] by (simp split: option.split)
qed

theorem struct_table_is_map_witness:
  "struct_hash_lookup (struct_hash_insert (struct_hash_insert empty_table ''P'' (Some 1)) ''Q'' (Some 2)) ''P'' = Some 1"
  using struct_table_is_map [of "[(''P'', 1), (''Q'', 2)]" "''P''"]
  by (simp add: STRUCT_HASH_SIZE_def STRUCT_NAME_SIZE_def)

text \<open>A name of 256 bytes or more is never found: what is stored is cut. \<open>find_struct_def\<close> then inserts it
  again at every call, each time in a new slot.\<close>

lemma long_name_not_found:
  assumes "\<forall>e \<in> set tab. length (fst e) < STRUCT_NAME_SIZE" and "length tab = STRUCT_HASH_SIZE"
    and "STRUCT_NAME_SIZE \<le> length name"
  shows "struct_hash_lookup (struct_hash_insert tab name nd) name = None"
proof -
  have short: "length (fst e) < STRUCT_NAME_SIZE" if "e \<in> set (struct_hash_insert tab name nd)" for e
    using that assms(1,3) by (auto simp: insert_slot STRUCT_NAME_SIZE_def dest!: set_update_subset_insert [THEN subsetD] split: option.splits)
  have "fst (struct_hash_insert tab name nd ! s) = []" if "slot_for (struct_hash_insert tab name nd) name = Some s" for s
  proof -
    have "s < length (struct_hash_insert tab name nd)"
      using slot_for_bound [OF that] assms(2) by (simp add: insert_slot split: option.split)
    then have "fst (struct_hash_insert tab name nd ! s) \<noteq> name" using short [OF nth_mem] assms(3) by fastforce
    with slot_for_hit [OF that] show ?thesis by blast
  qed
  then show ?thesis by (auto simp: lookup_slot split: option.split)
qed

end
