(* ===== verification/ZcModules.thy ===== *)
theory ZcModules
  imports ZcMangle "HOL-Library.AList"
begin

text \<open>
  Symbol prefixes of imported modules: \<open>extract_module_name\<close> and \<open>module_prefix_for\<close> of
  \<open>src/src/parser/utils/utils_registry.c\<close>. The maps of \<open>zmap.h\<close> (a generated library header) are
  association lists: \<open>zmap_get\<close> is \<open>map_of\<close>, \<open>zmap_put\<close> binds a key anew.
\<close>

record module_state =
  ms_module_prefixes :: "(string \<times> string) list"
  ms_prefix_owners :: "(string \<times> string) list"

definition is_path_sep :: "char \<Rightarrow> bool" where
  "is_path_sep c \<longleftrightarrow> c = CHR ''/'' \<or> c = BSLASH"

text \<open>What follows the last separator, and that without its extension.\<close>

definition base_of :: "string \<Rightarrow> string" where
  "base_of path = rev (takeWhile (\<lambda>c. \<not> is_path_sep c) (rev path))"

definition strip_extension :: "string \<Rightarrow> string" where
  "strip_extension base =
     (if CHR ''.'' \<in> set base then rev (tl (dropWhile (\<lambda>c. c \<noteq> CHR ''.'') (rev base))) else base)"

definition ident_text :: "string \<Rightarrow> string" where
  "ident_text s = map (\<lambda>c. if isalnum c then c else CHR ''_'') s"

definition extract_module_name :: "string \<Rightarrow> string" where
  "extract_module_name path = ident_text (strip_extension (base_of path))"

text \<open>The name of the directory of the file: what lies between the last two separators.\<close>

definition parent_dir :: "string \<Rightarrow> string" where
  "parent_dir path =
     (case dropWhile (\<lambda>c. \<not> is_path_sep c) (rev path) of
        [] \<Rightarrow> []
      | _ # before \<Rightarrow> rev (takeWhile (\<lambda>c. \<not> is_path_sep c) before))"

definition qualified_prefix :: "string \<Rightarrow> string \<Rightarrow> string" where
  "qualified_prefix path prefix =
     ident_text (snprintf_into (length (parent_dir path) + length prefix + 16) (parent_dir path @ CHR ''_'' # prefix))"

definition taken :: "module_state \<Rightarrow> string \<Rightarrow> string \<Rightarrow> bool" where
  "taken st path prefix \<longleftrightarrow>
     (case map_of (ms_prefix_owners st) prefix of Some owner \<Rightarrow> owner \<noteq> path | None \<Rightarrow> False)"

text \<open>The loop over the candidates, on fuel.\<close>

fun pick_candidate :: "nat \<Rightarrow> module_state \<Rightarrow> string \<Rightarrow> nat \<Rightarrow> string \<Rightarrow> string \<Rightarrow> nat \<Rightarrow> string option" where
  "pick_candidate 0 st path cap qualified candidate counter = None"
| "pick_candidate (Suc k) st path cap qualified candidate counter =
     (if taken st path candidate then
        pick_candidate k st path cap qualified (snprintf_into cap (qualified @ show_nat counter)) (Suc counter)
      else Some candidate)"

definition module_prefix_for :: "nat \<Rightarrow> module_state \<Rightarrow> string \<Rightarrow> (string \<times> module_state) option" where
  "module_prefix_for fuel st path =
     (case map_of (ms_module_prefixes st) path of
        Some known \<Rightarrow> Some (known, st)
      | None \<Rightarrow>
          (let name = extract_module_name path;
               qualified = qualified_prefix path name
           in case (if taken st path name then
                      pick_candidate fuel st path (length (parent_dir path) + length name + 16) qualified qualified 2
                    else Some name) of
                None \<Rightarrow> None
              | Some prefix \<Rightarrow>
                  Some (prefix, st\<lparr>ms_module_prefixes := AList.update path prefix (ms_module_prefixes st),
                                  ms_prefix_owners := AList.update prefix path (ms_prefix_owners st)\<rparr>)))"

definition no_modules :: module_state where
  "no_modules = \<lparr>ms_module_prefixes = [], ms_prefix_owners = []\<rparr>"

section \<open>Numbers are written in one way\<close>

definition read_nat :: "string \<Rightarrow> nat" where
  "read_nat s = foldl (\<lambda>n c. 10 * n + (ord c - 48)) 0 s"

lemma read_nat_append: "read_nat (s @ [c]) = 10 * read_nat s + (ord c - 48)"
  by (simp add: read_nat_def)

lemma ord_digit: "d < 10 \<Longrightarrow> ord (char_of (48 + d)) = 48 + d"
  by (simp add: of_char_of)

lemma read_show_nat: "read_nat (show_nat n) = n"
proof (induction n rule: show_nat.induct)
  case (1 n)
  show ?case
  proof (cases "n < 10")
    case True
    then show ?thesis by (simp add: show_nat.simps [of n] read_nat_def ord_digit)
  next
    case False
    have "read_nat (show_nat n) = 10 * (n div 10) + n mod 10"
      using 1 False by (simp add: show_nat.simps [of n] read_nat_append ord_digit)
    then show ?thesis by simp
  qed
qed

lemma show_nat_inject [simp]: "show_nat m = show_nat n \<longleftrightarrow> m = n"
  by (metis read_show_nat)

section \<open>A candidate is free\<close>

definition candidate :: "nat \<Rightarrow> string \<Rightarrow> nat \<Rightarrow> string" where
  "candidate cap q k = (if k = 0 then q else snprintf_into cap (q @ show_nat (Suc k)))"

lemma pick_candidate_free:
  assumes "\<exists>i < k. \<not> taken st path (candidate cap q (j + i))"
  shows "\<exists>x. pick_candidate k st path cap q (candidate cap q j) (j + 2) = Some x \<and> \<not> taken st path x"
  using assms
proof (induction k arbitrary: j)
  case (Suc k)
  show ?case
  proof (cases "taken st path (candidate cap q j)")
    case True
    then obtain i where i: "i < Suc k" "\<not> taken st path (candidate cap q (j + i))" "i \<noteq> 0"
      using Suc.prems by (metis add_0_right)
    then have "\<exists>i < k. \<not> taken st path (candidate cap q (Suc j + i))"
      by (intro exI [of _ "i - 1"]) auto
    from Suc.IH [OF this] True show ?thesis by (simp add: candidate_def)
  qed simp
qed simp

lemma candidate_inject:
  assumes "length q + 15 \<le> cap" and "i < 10 ^ 14 - 1" and "k < 10 ^ 14 - 1"
    and "candidate cap q i = candidate cap q k"
  shows "i = k"
proof -
  have "length (show_nat (Suc n)) \<le> 14" if "n < 10 ^ 14 - 1" for n
    using that by (intro length_show_nat) auto
  with assms(1-3) have fits: "length (q @ show_nat (Suc i)) < cap" "length (q @ show_nat (Suc k)) < cap"
    by fastforce+
  with assms(4) show ?thesis by (auto simp: candidate_def split: if_splits)
qed

lemma some_candidate_free:
  assumes "length q + 15 \<le> cap" and "length (ms_prefix_owners st) < 2 ^ 31 - 2"
  shows "\<exists>i \<le> length (ms_prefix_owners st). \<not> taken st path (candidate cap q i)"
proof (rule ccontr)
  let ?n = "length (ms_prefix_owners st)"
  assume "\<not> (\<exists>i \<le> ?n. \<not> taken st path (candidate cap q i))"
  then have "map_of (ms_prefix_owners st) (candidate cap q i) \<noteq> None" if "i \<le> ?n" for i
    using that by (cases "map_of (ms_prefix_owners st) (candidate cap q i)") (auto simp: taken_def)
  then have "candidate cap q ` {0..?n} \<subseteq> fst ` set (ms_prefix_owners st)"
    by (auto simp: map_of_eq_None_iff)
  then have "card (candidate cap q ` {0..?n}) \<le> card (fst ` set (ms_prefix_owners st))"
    by (intro card_mono) auto
  also have "\<dots> \<le> ?n" by (metis card_image_le card_length finite_set le_trans)
  finally have "card (candidate cap q ` {0..?n}) \<le> ?n" .
  moreover have "inj_on (candidate cap q) {0..?n}"
    using assms by (intro inj_onI candidate_inject [OF assms(1)]) auto
  ultimately show False by (simp add: card_image)
qed

lemma qualified_length: "length (qualified_prefix path n) + 15 = length (parent_dir path) + length n + 16"
  by (simp add: qualified_prefix_def ident_text_def)

section \<open>Prefixes and modules correspond\<close>

definition prefixes_ok :: "module_state \<Rightarrow> bool" where
  "prefixes_ok st \<longleftrightarrow>
     (\<forall>path prefix. map_of (ms_module_prefixes st) path = Some prefix \<longleftrightarrow> map_of (ms_prefix_owners st) prefix = Some path)"

lemma not_taken_fresh:
  assumes "prefixes_ok st" and "map_of (ms_module_prefixes st) path = None" and "\<not> taken st path x"
  shows "map_of (ms_prefix_owners st) x = None"
proof (cases "map_of (ms_prefix_owners st) x")
  case (Some owner)
  with assms(3) have "map_of (ms_prefix_owners st) x = Some path" by (simp add: taken_def)
  with assms(1,2) show ?thesis by (metis option.distinct(1) prefixes_ok_def)
qed

text \<open>
  C38: A module always gets a prefix, and one prefix stands for one module: while less than \<open>2^31 - 2\<close>
  prefixes are registered and the maps from modules to prefixes and back are inverse to each other,
  \<open>module_prefix_for\<close> has a result with fuel for one candidate per registered prefix and one more,
  keeps the maps inverse, gives the same prefix when it is asked again, and leaves the prefixes of
  other modules, none of which has this prefix.
\<close>

theorem module_prefix_unique:
  assumes "prefixes_ok st" and "length (ms_prefix_owners st) < 2 ^ 31 - 2" and "length (ms_prefix_owners st) < fuel"
  shows "\<exists>prefix st'. module_prefix_for fuel st path = Some (prefix, st') \<and> prefixes_ok st'
    \<and> module_prefix_for fuel st' path = Some (prefix, st')
    \<and> (\<forall>q. q \<noteq> path \<longrightarrow> map_of (ms_module_prefixes st') q = map_of (ms_module_prefixes st) q
          \<and> map_of (ms_module_prefixes st') q \<noteq> Some prefix)"
proof (cases "map_of (ms_module_prefixes st) path")
  case (Some known)
  then have "map_of (ms_module_prefixes st) q \<noteq> Some known" if "q \<noteq> path" for q
    using assms(1) that by (auto simp: prefixes_ok_def)
  with Some assms(1) show ?thesis by (auto simp: module_prefix_for_def)
next
  case None
  let ?name = "extract_module_name path"
  let ?cap = "length (parent_dir path) + length ?name + 16"
  let ?q = "qualified_prefix path ?name"
  have "\<exists>i < fuel. \<not> taken st path (candidate ?cap ?q (0 + i))"
    using some_candidate_free [of ?q ?cap st path] assms(2,3) qualified_length [of path ?name]
    by (metis add_0 le_less_trans order_refl)
  from pick_candidate_free [OF this]
  have "\<exists>x. (if taken st path ?name then pick_candidate fuel st path ?cap ?q ?q 2 else Some ?name) = Some x
      \<and> \<not> taken st path x"
    by (simp add: candidate_def numeral_2_eq_2)
  then obtain x where x: "(if taken st path ?name then pick_candidate fuel st path ?cap ?q ?q 2 else Some ?name) = Some x"
    "\<not> taken st path x" by blast
  let ?st = "st\<lparr>ms_module_prefixes := AList.update path x (ms_module_prefixes st),
                ms_prefix_owners := AList.update x path (ms_prefix_owners st)\<rparr>"
  have r: "module_prefix_for fuel st path = Some (x, ?st)"
    using None x(1) by (simp add: module_prefix_for_def Let_def)
  have fresh: "map_of (ms_prefix_owners st) x = None" by (rule not_taken_fresh [OF assms(1) None x(2)])
  have "map_of (ms_prefix_owners st) p \<noteq> Some path" for p
    using assms(1) None by (metis option.distinct(1) prefixes_ok_def)
  then have "prefixes_ok ?st"
    using assms(1) None fresh by (auto simp: prefixes_ok_def update_conv')
  moreover have "module_prefix_for fuel ?st path = Some (x, ?st)"
    by (simp add: module_prefix_for_def update_conv')
  moreover have "map_of (ms_module_prefixes st) q \<noteq> Some x" for q
    using assms(1) fresh by (auto simp: prefixes_ok_def)
  ultimately show ?thesis using r by (auto simp: update_conv')
qed

theorem module_prefix_unique_witness:
  "\<exists>st'. module_prefix_for 1 no_modules ''net/helpers.zc'' = Some (''helpers'', st') \<and> prefixes_ok st'"
proof -
  have "\<exists>prefix st'. module_prefix_for 1 no_modules ''net/helpers.zc'' = Some (prefix, st') \<and> prefixes_ok st'"
    using module_prefix_unique [of no_modules 1 "''net/helpers.zc''"]
    by (auto simp: no_modules_def prefixes_ok_def)
  moreover have "map_option fst (module_prefix_for 1 no_modules ''net/helpers.zc'') = Some ''helpers''"
    by code_simp
  ultimately show ?thesis by auto
qed

end
