(* ===== verification/ZcTemplates.thy ===== *)
theory ZcTemplates
  imports ZcTypeStr
begin

text \<open>
  Substitution of type parameters in names (\<open>src/src/parser/utils/utils_template_replace.c\<close>):
  \<open>replace_in_string\<close>, \<open>replace_mangled_part\<close>, \<open>replace_type_str\<close> and \<open>unmangle_ptr_suffix\<close>, with the
  sizes of the blocks they write to. A loop that does not advance is the fault \<open>Endless_recursion\<close>.
\<close>

definition ident_char :: "char \<Rightarrow> bool" where
  "ident_char c \<longleftrightarrow> isalnum c \<or> c = CHR ''_''"

abbreviation starts :: "string \<Rightarrow> string \<Rightarrow> bool" where
  "starts s w \<equiv> take (length w) s = w"

section \<open>\<open>replace_in_string\<close>\<close>

text \<open>The word \<open>w\<close> at the start of \<open>rest\<close>, after the character \<open>prev\<close>, not as a part of a longer word and
  not as the head of a generic type.\<close>

definition word_at :: "char option \<Rightarrow> string \<Rightarrow> string \<Rightarrow> bool" where
  "word_at prev rest w \<longleftrightarrow>
     starts rest w
     \<and> \<not> (case prev of Some c \<Rightarrow> ident_char c | None \<Rightarrow> False)
     \<and> \<not> (ident_char (at rest (length w)) \<or> at rest (length w) = CHR ''<'')"

definition toggle_string :: "char option \<Rightarrow> char \<Rightarrow> bool \<Rightarrow> bool" where
  "toggle_string prev c in_string = (if c = DQUOTE \<and> prev \<noteq> Some BSLASH then \<not> in_string else in_string)"

text \<open>The first pass counts. With an empty word it stays at a match for ever, but for a closing quote, which
  it reads a second time as an opening one.\<close>

function count_words :: "string \<Rightarrow> char option \<Rightarrow> bool \<Rightarrow> string \<Rightarrow> nat option" where
  "count_words old_w prev in_string [] = Some 0"
| "count_words old_w prev in_string (c # cs) =
     (let ins = toggle_string prev c in_string in
      if \<not> ins \<and> word_at prev (c # cs) old_w then
        (if old_w = [] then
           (if ins = in_string then None else map_option Suc (count_words old_w (Some c) True cs))
         else map_option Suc (count_words old_w (Some (last old_w)) ins (drop (length old_w) (c # cs))))
      else count_words old_w (Some c) ins cs)"
  by pat_completeness auto
termination by (relation "measure (\<lambda>(_, _, _, s). length s)") auto

text \<open>The second pass, where the first has ended.\<close>

function replace_words :: "string \<Rightarrow> string \<Rightarrow> char option \<Rightarrow> bool \<Rightarrow> string \<Rightarrow> string" where
  "replace_words old_w new_w prev in_string [] = []"
| "replace_words old_w new_w prev in_string (c # cs) =
     (let ins = toggle_string prev c in_string in
      if \<not> ins \<and> word_at prev (c # cs) old_w then
        new_w @ (if old_w = [] then c # replace_words old_w new_w (Some c) True cs
                 else replace_words old_w new_w (Some (last old_w)) ins (drop (length old_w) (c # cs)))
      else c # replace_words old_w new_w (Some c) ins cs)"
  by pat_completeness auto
termination by (relation "measure (\<lambda>(_, _, _, _, s). length s)") auto

declare count_words.simps(2) [simp del] replace_words.simps(2) [simp del]

definition replace_one :: "string \<Rightarrow> string \<Rightarrow> string \<Rightarrow> str_fault + string" where
  "replace_one src old_w new_w =
     (case count_words old_w None False src of
        None \<Rightarrow> Inl Endless_recursion
      | Some cnt \<Rightarrow>
          sprintf_into (nat (int (length src) + int cnt * (int (length new_w) - int (length old_w)) + 1))
            (replace_words old_w new_w None False src))"

text \<open>The parts of two lists that are separated by commas, as far as both go.\<close>

function param_pairs :: "string \<Rightarrow> string \<Rightarrow> (string \<times> string) list" where
  "param_pairs p c =
     (if p = [] \<or> c = [] then []
      else
        (takeWhile (\<lambda>x. x \<noteq> CHR '','') p, takeWhile (\<lambda>x. x \<noteq> CHR '','') c)
        # (case dropWhile (\<lambda>x. x \<noteq> CHR '','') p of
             [] \<Rightarrow> []
           | _ # p' \<Rightarrow>
               (case dropWhile (\<lambda>x. x \<noteq> CHR '','') c of [] \<Rightarrow> [] | _ # c' \<Rightarrow> param_pairs p' c')))"
  by pat_completeness auto
termination
proof (relation "measure (\<lambda>(p, _). length p)", goal_cases)
  case (2 p c x p' y c')
  then show ?case using length_dropWhile_le [of "\<lambda>x. x \<noteq> CHR '',''" p] by simp
qed simp

declare param_pairs.simps [simp del]

lemma param_pairs_cases:
  assumes "p \<noteq> []" "c \<noteq> []"
  obtains "param_pairs p c = [(takeWhile (\<lambda>x. x \<noteq> CHR '','') p, takeWhile (\<lambda>x. x \<noteq> CHR '','') c)]"
  | x p' y c' where "dropWhile (\<lambda>x. x \<noteq> CHR '','') p = x # p'" "dropWhile (\<lambda>x. x \<noteq> CHR '','') c = y # c'"
    "param_pairs p c
      = (takeWhile (\<lambda>x. x \<noteq> CHR '','') p, takeWhile (\<lambda>x. x \<noteq> CHR '','') c) # param_pairs p' c'"
  using assms by (fastforce simp: param_pairs.simps [of p c] split: list.splits)

definition replace_in_string :: "string \<Rightarrow> string \<Rightarrow> string \<Rightarrow> str_fault + string" where
  "replace_in_string src old_w new_w =
     (if CHR '','' \<in> set old_w then
        foldl (\<lambda>r (p, c). bindE r (\<lambda>s. replace_one s p c)) (Inr src) (param_pairs old_w new_w)
      else replace_one src old_w new_w)"

lemma count_words_fits:
  assumes "old_w \<noteq> []"
  shows "\<exists>cnt. count_words old_w prev ins src = Some cnt
    \<and> int (length (replace_words old_w new_w prev ins src))
        = int (length src) + int cnt * (int (length new_w) - int (length old_w))"
proof (induction src arbitrary: prev ins rule: length_induct)
  case (1 src)
  show ?case
  proof (cases src)
    case (Cons c cs)
    let ?ins = "toggle_string prev c ins"
    show ?thesis
    proof (cases "\<not> ?ins \<and> word_at prev (c # cs) old_w")
      case True
      let ?rest = "drop (length old_w) (c # cs)"
      have len: "length old_w \<le> length (c # cs)"
        using True by (metis length_take min.absorb_iff2 min.commute word_at_def)
      have "length ?rest < length src" using assms Cons by (cases old_w) auto
      then obtain cnt where "count_words old_w (Some (last old_w)) ?ins ?rest = Some cnt"
        "int (length (replace_words old_w new_w (Some (last old_w)) ?ins ?rest))
          = int (length ?rest) + int cnt * (int (length new_w) - int (length old_w))"
        using 1 by blast
      with True assms Cons len show ?thesis
        by (simp add: count_words.simps(2) replace_words.simps(2) Let_def algebra_simps of_nat_diff del: length_drop)
          (simp add: of_nat_diff algebra_simps)
    next
      case False
      obtain cnt where "count_words old_w (Some c) ?ins cs = Some cnt"
        "int (length (replace_words old_w new_w (Some c) ?ins cs))
          = int (length cs) + int cnt * (int (length new_w) - int (length old_w))"
        using 1 Cons by force
      with False Cons show ?thesis by (auto simp: count_words.simps(2) replace_words.simps(2) Let_def)
    qed
  qed simp
qed

lemma replace_one_fits: "old_w \<noteq> [] \<Longrightarrow> replace_one src old_w new_w = Inr (replace_words old_w new_w None False src)"
  using count_words_fits [of old_w None False src new_w] by (auto simp: replace_one_def)

section \<open>\<open>replace_mangled_part\<close>\<close>

text \<open>A match of the parameter at \<open>rest\<close>; \<open>seen\<close> is what stands before, backwards.\<close>

definition mangled_match :: "string \<Rightarrow> string \<Rightarrow> string \<Rightarrow> bool" where
  "mangled_match seen rest param =
     (let next = at rest (length param) in
      starts rest param
      \<and> (case seen of [] \<Rightarrow> True | c # _ \<Rightarrow> c = US \<or> \<not> ident_char c)
      \<and> (next = NUL \<or> next = US \<or> \<not> ident_char next \<or> starts (drop (length param) rest) ''Ptr'')
      \<and> ((case seen of [] \<Rightarrow> False | c # _ \<Rightarrow> c = US) \<or> next = US
          \<or> (case seen of [] \<Rightarrow> False | c # _ \<Rightarrow> c \<in> set ''<,([ '')))"

text \<open>A single underscore on either side of the match is doubled.\<close>

definition us_before :: "string \<Rightarrow> string" where
  "us_before seen = (if at seen 0 = US \<and> at seen 1 \<noteq> US then [US] else [])"

definition us_after :: "string \<Rightarrow> string \<Rightarrow> string" where
  "us_after rest param =
     (if at rest (length param) = US \<and> at rest (Suc (length param)) \<noteq> US then [US] else [])"

definition grow_block :: "nat \<Rightarrow> nat \<Rightarrow> nat \<Rightarrow> nat" where
  "grow_block current_len clen res_cap =
     (if current_len + max clen 1 + 1 \<ge> res_cap then res_cap * 2 + clen else res_cap)"

text \<open>The loop writes to a block of \<open>cap\<close> bytes that it replaces by a larger one when it runs short.\<close>

function mangled_loop :: "string \<Rightarrow> string \<Rightarrow> string \<Rightarrow> string \<Rightarrow> string \<Rightarrow> nat \<Rightarrow> str_fault + string" where
  "mangled_loop param concrete seen [] out res_cap =
     (if length out < res_cap then Inr out else Inl Buffer_overflow)"
| "mangled_loop param concrete seen (c # cs) out res_cap =
     (let cap = grow_block (length out) (length concrete) res_cap
      in if mangled_match seen (c # cs) param then
           (let out1 = out @ us_before seen @ concrete @ us_after (c # cs) param
            in if param = [] then Inl Endless_recursion
               else if length out1 > cap then Inl Buffer_overflow
               else mangled_loop param concrete (rev param @ seen) (drop (length param) (c # cs)) out1 cap)
         else if length out + 1 > cap then Inl Buffer_overflow
         else mangled_loop param concrete (c # seen) cs (out @ [c]) cap)"
  by pat_completeness auto
termination by (relation "measure (\<lambda>(_, _, _, s, _, _). length s)") auto

declare mangled_loop.simps(2) [simp del]

definition replace_mangled_part :: "string \<Rightarrow> string \<Rightarrow> string \<Rightarrow> str_fault + string" where
  "replace_mangled_part src param concrete = mangled_loop param concrete [] src [] (length src + 512)"

text \<open>The text it stands for, without the block.\<close>

function mangled_text :: "string \<Rightarrow> string \<Rightarrow> string \<Rightarrow> string \<Rightarrow> string" where
  "mangled_text param concrete seen [] = []"
| "mangled_text param concrete seen (c # cs) =
     (if param \<noteq> [] \<and> mangled_match seen (c # cs) param then
        us_before seen @ concrete @ us_after (c # cs) param
        @ mangled_text param concrete (rev param @ seen) (drop (length param) (c # cs))
      else c # mangled_text param concrete (c # seen) cs)"
  by pat_completeness auto
termination by (relation "measure (\<lambda>(_, _, _, s). length s)") auto

declare mangled_text.simps(2) [simp del]

lemma us_before_length: "length (us_before seen) \<le> 1"
  by (simp add: us_before_def)

lemma us_after_length: "length (us_after rest param) \<le> (if drop (length param) rest = [] then 0 else 1)"
  by (auto simp: us_after_def)

lemma mangled_loop_text:
  assumes "param \<noteq> []" "512 \<le> cap" "length out \<le> cap" "rest = [] \<Longrightarrow> length out < cap"
  shows "mangled_loop param concrete seen rest out cap = Inr (out @ mangled_text param concrete seen rest)"
  using assms
proof (induction param concrete seen rest out cap rule: mangled_loop.induct)
  case (2 param concrete seen c cs out res_cap)
  define cap where "cap = grow_block (length out) (length concrete) res_cap"
  have room: "length out + max (length concrete) 1 + 1 < cap" "512 \<le> cap"
    using "2.prems" by (auto simp: cap_def grow_block_def)
  show ?case
  proof (cases "mangled_match seen (c # cs) param")
    case True
    let ?rest = "drop (length param) (c # cs)"
    let ?out = "out @ us_before seen @ concrete @ us_after (c # cs) param"
    have fits: "length ?out \<le> cap" "?rest = [] \<Longrightarrow> length ?out < cap"
      using us_before_length [of seen] us_after_length [of "c # cs" param] room by (auto split: if_splits)
    then have "mangled_loop param concrete (rev param @ seen) ?rest ?out cap
        = Inr (?out @ mangled_text param concrete (rev param @ seen) ?rest)"
      using "2.IH"(1) [OF cap_def True refl] "2.prems"(1) room(2) by (simp add: not_less)
    with True fits(1) "2.prems"(1) show ?thesis
      by (simp add: mangled_loop.simps(2) mangled_text.simps(2) Let_def flip: cap_def)
  next
    case False
    have "mangled_loop param concrete (c # seen) cs (out @ [c]) cap
        = Inr ((out @ [c]) @ mangled_text param concrete (c # seen) cs)"
      using "2.IH"(2) [OF cap_def False] "2.prems"(1) room by simp
    with False room show ?thesis
      by (simp add: mangled_loop.simps(2) mangled_text.simps(2) Let_def flip: cap_def)
  qed
qed simp

lemma replace_mangled_fits:
  "param \<noteq> [] \<Longrightarrow> replace_mangled_part src param concrete = Inr (mangled_text param concrete [] src)"
  by (simp add: replace_mangled_part_def mangled_loop_text)

section \<open>\<open>replace_type_str\<close>\<close>

abbreviation occurs_in :: "string \<Rightarrow> string \<Rightarrow> bool" where
  "occurs_in w s \<equiv> strstr s w \<noteq> None"

definition replace_where_found :: "string \<Rightarrow> string \<Rightarrow> string \<Rightarrow> str_fault + string" where
  "replace_where_found src w new_w = (if occurs_in w src then replace_in_string src w new_w else Inr src)"

text \<open>The steps after the pointer stars: \<open>Vec<T>\<close>, then \<open>Vec\<close>, then the parameters.\<close>

definition replace_struct_names :: "string \<Rightarrow> string \<Rightarrow> string option \<Rightarrow> string option \<Rightarrow> str_fault + string" where
  "replace_struct_names src param old_struct new_struct =
     (case (old_struct, new_struct) of
        (Some os, Some ns) \<Rightarrow>
          (let tpl_w = snprintf_into MAX_TYPE_NAME_LEN (os @ ''<'' @ param @ ''>'')
           in bindE (replace_where_found src tpl_w ns) (\<lambda>res. replace_where_found res os ns))
      | _ \<Rightarrow> Inr src)"

definition replace_mangled_clean :: "string \<Rightarrow> string \<Rightarrow> string \<Rightarrow> str_fault + string" where
  "replace_mangled_clean src param concrete =
     bindE (sanitize_mangled_name concrete) (replace_mangled_part src param)"

definition replace_params :: "string \<Rightarrow> string \<Rightarrow> string \<Rightarrow> str_fault + string" where
  "replace_params res param concrete =
     (if CHR '','' \<in> set param then
        foldl (\<lambda>r (p, c). bindE r (\<lambda>s. replace_mangled_clean s p c)) (Inr res) (param_pairs param concrete)
      else bindE (replace_in_string res param concrete) (\<lambda>t. replace_mangled_clean t param concrete))"

function replace_type_text ::
  "string \<Rightarrow> string \<Rightarrow> string \<Rightarrow> string option \<Rightarrow> string option \<Rightarrow> str_fault + string" where
  "replace_type_text src param concrete old_struct new_struct =
     (if src = param then Inr concrete
      else if length src > 1 \<and> last src = CHR ''*'' then
        bindE (replace_type_text (butlast src) param concrete old_struct new_struct)
          (\<lambda>nb. sprintf_into (length nb + 2) (nb @ ''*''))
      else
        bindE (replace_struct_names src param old_struct new_struct)
          (\<lambda>res. replace_params res param concrete))"
  by pat_completeness auto
termination by (relation "measure (\<lambda>(s, _). length s)") auto

declare replace_type_text.simps [simp del]

definition replace_type_str ::
  "string option \<Rightarrow> string option \<Rightarrow> string option \<Rightarrow> string option \<Rightarrow> string option
   \<Rightarrow> str_fault + string option" where
  "replace_type_str src param concrete old_struct new_struct =
     (case src of
        None \<Rightarrow> Inr None
      | Some s \<Rightarrow>
          (case (param, concrete) of
             (Some p, Some c) \<Rightarrow> bindE (replace_type_text s p c old_struct new_struct) (Inr \<circ> Some)
           | _ \<Rightarrow> Inr (Some s)))"

section \<open>\<open>unmangle_ptr_suffix\<close>\<close>

definition is_primitive_type_name :: "string \<Rightarrow> bool" where
  "is_primitive_type_name name \<longleftrightarrow> find_primitive_kind name \<noteq> TYPE_UNKNOWN"

definition unmangle_ptr_suffix :: "string \<Rightarrow> str_fault + string" where
  "unmangle_ptr_suffix s =
     (let len = length s in
      if len \<le> 3 \<or> drop (len - 3) s \<noteq> ''Ptr'' then Inr s
      else
        (let base = take (len - 3) s
         in if is_primitive_type_name base then sprintf_into (length base + 16) (base @ ''*'')
            else sprintf_into (length base + 16) s))"

section \<open>Substitution always returns\<close>

text \<open>The words a parameter list stands for.\<close>

definition words_of :: "string \<Rightarrow> string \<Rightarrow> string list" where
  "words_of param concrete = (if CHR '','' \<in> set param then map fst (param_pairs param concrete) else [param])"

lemma replace_in_string_fits:
  assumes "[] \<notin> set (words_of old_w new_w)"
  shows "\<exists>s. replace_in_string src old_w new_w = Inr s"
proof -
  have "\<exists>s. foldl (\<lambda>r (p, c). bindE r (\<lambda>s. replace_one s p c)) (Inr src) ps = Inr s"
    if "[] \<notin> fst ` set ps" for ps src
    using that by (induction ps arbitrary: src) (auto simp: replace_one_fits)
  with assms show ?thesis
    by (auto simp: replace_in_string_def words_of_def replace_one_fits split: if_splits)
qed

lemma replace_mangled_clean_fits [simp]:
  "param \<noteq> [] \<Longrightarrow> replace_mangled_clean src param concrete = Inr (mangled_text param (sanitize_text concrete) [] src)"
  by (simp add: replace_mangled_clean_def replace_mangled_fits)

lemma replace_params_fits:
  assumes "[] \<notin> set (words_of param concrete)"
  shows "\<exists>s. replace_params src param concrete = Inr s"
proof (cases "CHR '','' \<in> set param")
  case True
  have "\<exists>s. foldl (\<lambda>r (p, c). bindE r (\<lambda>s. replace_mangled_clean s p c)) (Inr src) ps = Inr s"
    if "[] \<notin> fst ` set ps" for ps src
    using that by (induction ps arbitrary: src) auto
  with assms True show ?thesis by (auto simp: replace_params_def words_of_def)
next
  case False
  moreover obtain t where "replace_in_string src param concrete = Inr t"
    using assms replace_in_string_fits by blast
  ultimately show ?thesis using assms by (simp add: replace_params_def words_of_def)
qed

text \<open>A parameter list as the parser builds it: no part of it is empty.\<close>

fun parts_ok :: "bool \<Rightarrow> string \<Rightarrow> bool" where
  "parts_ok after_comma [] = True"
| "parts_ok after_comma (c # cs) =
     (if c = CHR '','' then \<not> after_comma \<and> parts_ok True cs else parts_ok False cs)"

lemma parts_ok_weaken: "parts_ok True s \<Longrightarrow> parts_ok b s"
  by (cases s) auto

lemma parts_ok_take: "parts_ok b s \<Longrightarrow> parts_ok b (take n s)"
  by (induction s arbitrary: b n) (auto simp: take_Cons split: nat.splits)

lemma parts_ok_word: "CHR '','' \<notin> set w \<Longrightarrow> w \<noteq> [] \<Longrightarrow> parts_ok b (w @ s) = parts_ok False s"
proof (induction w arbitrary: b)
  case (Cons c w)
  then show ?case by (cases w) auto
qed simp

lemma parts_ok_snoc: "parts_ok b s \<Longrightarrow> c \<noteq> CHR '','' \<Longrightarrow> parts_ok b (s @ [c])"
  by (induction s arbitrary: b) auto

lemma parts_ok_rest: "parts_ok b s \<Longrightarrow> dropWhile (\<lambda>x. x \<noteq> CHR '','') s = c # s' \<Longrightarrow> parts_ok True s'"
  by (induction s arbitrary: b) (auto split: if_splits)

lemma parts_nonempty: "parts_ok True p \<Longrightarrow> [] \<notin> fst ` set (param_pairs p c)"
proof (induction p c rule: param_pairs.induct)
  case (1 p c)
  show ?case
  proof (cases "p = [] \<or> c = []")
    case False
    then have hd: "takeWhile (\<lambda>x. x \<noteq> CHR '','') p \<noteq> []" using "1.prems" by (cases p) auto
    have p: "p \<noteq> []" "c \<noteq> []" using False by auto
    show ?thesis
    proof (rule param_pairs_cases [OF p])
      fix x p' y c'
      assume d: "dropWhile (\<lambda>x. x \<noteq> CHR '','') p = x # p'" "dropWhile (\<lambda>x. x \<noteq> CHR '','') c = y # c'"
        "param_pairs p c
          = (takeWhile (\<lambda>x. x \<noteq> CHR '','') p, takeWhile (\<lambda>x. x \<noteq> CHR '','') c) # param_pairs p' c'"
      show ?thesis
        using "1.IH" [OF False d(1,2) parts_ok_rest [OF "1.prems" d(1)]] d(3) hd by simp
    qed (use hd in simp)
  qed (subst param_pairs.simps, simp)
qed

lemma words_nonempty: "p \<noteq> [] \<Longrightarrow> parts_ok True p \<Longrightarrow> [] \<notin> set (words_of p c)"
  using parts_nonempty [of p c] by (auto simp: words_of_def)

lemma template_word_ok:
  assumes "os \<noteq> []" "CHR '','' \<notin> set os" "parts_ok True p"
  shows "parts_ok True (snprintf_into MAX_TYPE_NAME_LEN (os @ ''<'' @ p @ ''>''))"
    "snprintf_into MAX_TYPE_NAME_LEN (os @ ''<'' @ p @ ''>'') \<noteq> []"
proof -
  have "parts_ok True (os @ ''<'' @ p @ ''>'')"
    using assms parts_ok_snoc [OF parts_ok_weaken [OF assms(3)], of "CHR ''>''" False]
    by (simp add: parts_ok_word)
  then show "parts_ok True (snprintf_into MAX_TYPE_NAME_LEN (os @ ''<'' @ p @ ''>''))"
    unfolding snprintf_into_def by (rule parts_ok_take)
qed (use assms in \<open>auto simp: snprintf_into_def MAX_TYPE_NAME_LEN_def\<close>)

text \<open>What the compiler passes for a template: a name without commas, and a parameter list.\<close>

definition template_args :: "string \<Rightarrow> string option \<Rightarrow> bool" where
  "template_args param old_struct =
     (param \<noteq> [] \<and> parts_ok True param
      \<and> (case old_struct of None \<Rightarrow> True | Some os \<Rightarrow> os \<noteq> [] \<and> CHR '','' \<notin> set os))"

lemma replace_struct_names_fits:
  assumes "template_args param old_struct"
  shows "\<exists>s. replace_struct_names src param old_struct new_struct = Inr s"
proof -
  have word: "\<exists>s. replace_where_found src' os ns = Inr s" if "os \<noteq> []" "parts_ok True os" for src' os ns
    using replace_in_string_fits [OF words_nonempty [OF that]] by (simp add: replace_where_found_def)
  show ?thesis
  proof (cases old_struct)
    case (Some os)
    then have os: "os \<noteq> []" "CHR '','' \<notin> set os" "parts_ok True param" "parts_ok True os"
      using assms parts_ok_word [of os True "[]"] by (auto simp: template_args_def)
    let ?w = "snprintf_into MAX_TYPE_NAME_LEN (os @ ''<'' @ param @ ''>'')"
    have "\<exists>s. replace_struct_names src param (Some os) (Some ns) = Inr s" for ns
    proof -
      obtain res where "replace_where_found src ?w ns = Inr res"
        using word [of ?w src ns] template_word_ok [OF os(1-3)] by blast
      with word [OF os(1,4), of res ns] show ?thesis
        by (simp add: replace_struct_names_def Let_def)
    qed
    with Some show ?thesis by (cases new_struct) (auto simp: replace_struct_names_def)
  qed (simp add: replace_struct_names_def)
qed

text \<open>
  C30: substituting a type parameter in a type name always returns a string: no loop runs without end
  and no write leaves its block, for every source, every non-empty parameter list without empty parts
  and every replacement.
\<close>

theorem type_substitution_returns:
  assumes "template_args param old_struct"
  shows "\<exists>s. replace_type_str (Some src) (Some param) (Some concrete) old_struct new_struct = Inr (Some s)"
proof -
  have "\<exists>s. replace_type_text src param concrete old_struct new_struct = Inr s"
  proof (induction src rule: length_induct)
    case (1 src)
    obtain res where res: "replace_struct_names src param old_struct new_struct = Inr res"
      using replace_struct_names_fits [OF assms] by blast
    moreover obtain s where "replace_params res param concrete = Inr s"
      using replace_params_fits [OF words_nonempty, where src = res] assms by (auto simp: template_args_def)
    moreover have "\<exists>nb. replace_type_text (butlast src) param concrete old_struct new_struct = Inr nb"
      if "length src > 1"
      using that 1 by auto
    ultimately show ?case by (subst replace_type_text.simps) auto
  qed
  then show ?thesis by (auto simp: replace_type_str_def)
qed

theorem type_substitution_returns_witness:
  "\<exists>s. replace_type_str (Some ''Map<K,V>*'') (Some ''K,V'') (Some ''int,float'') (Some ''Map'') (Some ''Map__int__float'')
     = Inr (Some s)"
  by (rule type_substitution_returns) (simp add: template_args_def)

section \<open>What is replaced, and what is kept\<close>

lemma strstr_None: "strstr s w = None \<longleftrightarrow> (\<forall>u v. s \<noteq> u @ w @ v)"
proof (induction s)
  case (Cons c s)
  have head: "take (length w) (c # s) = w \<longleftrightarrow> (\<exists>v. c # s = w @ v)"
    by (metis append_eq_conv_conj)
  show ?case
  proof (cases "take (length w) (c # s) = w")
    case True
    with head obtain v where "c # s = [] @ w @ v" by auto
    with True show ?thesis by (metis option.distinct(1) strstr.simps(2))
  next
    case False
    then have "(\<forall>u v. c # s \<noteq> u @ w @ v) \<longleftrightarrow> (\<forall>u v. s \<noteq> u @ w @ v)"
      using head by (metis Cons_eq_append_conv append_Cons)
    with False Cons show ?thesis by simp
  qed
qed simp

lemma strstr_prefix: "strstr s w = None \<Longrightarrow> strstr s (w @ v) = None"
  by (simp add: strstr_None)

lemma strstr_shorter: "strstr (s @ t) w = None \<Longrightarrow> strstr s w = None"
  unfolding strstr_None by (metis append.assoc)

lemma starts_occurs: "starts s w \<Longrightarrow> strstr s w = Some 0"
  by (cases s) auto

lemma replace_words_id: "strstr s w = None \<Longrightarrow> replace_words w n prev ins s = s"
  by (induction s arbitrary: prev ins) (auto simp: replace_words.simps(2) word_at_def Let_def split: if_splits)

lemma mangled_text_id: "strstr s w = None \<Longrightarrow> mangled_text w n seen s = s"
  by (induction s arbitrary: seen) (auto simp: mangled_text.simps(2) mangled_match_def Let_def split: if_splits)

lemma replace_params_id:
  assumes "[] \<notin> set (words_of param concrete)" "\<forall>w \<in> set (words_of param concrete). strstr s w = None"
  shows "replace_params s param concrete = Inr s"
proof -
  have "foldl (\<lambda>r (p, c). bindE r (\<lambda>s. replace_mangled_clean s p c)) (Inr s) ps = Inr s"
    if "[] \<notin> fst ` set ps" "\<forall>w \<in> fst ` set ps. strstr s w = None" for ps
    using that by (induction ps) (auto simp: mangled_text_id)
  with assms show ?thesis
    by (auto simp: replace_params_def words_of_def replace_in_string_def replace_one_fits replace_words_id
        mangled_text_id split: if_splits)
qed

lemma replace_struct_names_id:
  assumes "\<forall>os. old_struct = Some os \<longrightarrow> length os < 1023 \<and> strstr s os = None"
  shows "replace_struct_names s param old_struct new_struct = Inr s"
  using assms
  by (auto simp: replace_struct_names_def replace_where_found_def Let_def snprintf_into_def
      MAX_TYPE_NAME_LEN_def strstr_prefix split: option.split)

lemma param_occurs:
  assumes "param \<noteq> []" "concrete \<noteq> []" "\<forall>w \<in> set (words_of param concrete). strstr s w = None"
  shows "s \<noteq> param"
proof
  assume "s = param"
  moreover obtain w where w: "w \<in> set (words_of param concrete)" "starts param w"
  proof (cases "CHR '','' \<in> set param")
    case True
    have "takeWhile (\<lambda>x. x \<noteq> CHR '','') param \<in> set (map fst (param_pairs param concrete))"
      by (rule param_pairs_cases [OF assms(1,2)]) simp_all
    moreover have "starts param (takeWhile (\<lambda>x. x \<noteq> CHR '','') param)" by (simp flip: takeWhile_eq_take)
    ultimately show thesis using that True by (simp add: words_of_def)
  qed (auto simp: words_of_def)
  ultimately show False using assms(3) starts_occurs [OF w(2)] by auto
qed

text \<open>
  A type name in which neither a parameter nor the template's own name occurs is left as it is,
  pointer stars included.
\<close>

theorem unrelated_type_kept:
  assumes "template_args param old_struct" "concrete \<noteq> []"
    "\<forall>w \<in> set (words_of param concrete). \<not> occurs_in w src"
    "\<forall>os. old_struct = Some os \<longrightarrow> length os < 1023 \<and> \<not> occurs_in os src"
  shows "replace_type_str (Some src) (Some param) (Some concrete) old_struct new_struct = Inr (Some src)"
proof -
  have p: "param \<noteq> []" "[] \<notin> set (words_of param concrete)"
    using assms(1) words_nonempty by (auto simp: template_args_def)
  have "replace_type_text src param concrete old_struct new_struct = Inr src"
    using assms(3,4)
  proof (induction src rule: rev_induct)
    case Nil
    then show ?case
      using p assms(2) param_occurs [of param concrete "[]"]
      by (subst replace_type_text.simps) (simp add: replace_struct_names_id replace_params_id)
  next
    case (snoc c src)
    have "\<forall>w \<in> set (words_of param concrete). \<not> occurs_in w src"
      "\<forall>os. old_struct = Some os \<longrightarrow> length os < 1023 \<and> \<not> occurs_in os src"
      using snoc.prems strstr_shorter [of src "[c]"] by auto
    then have "replace_type_text src param concrete old_struct new_struct = Inr src"
      by (rule snoc.IH)
    moreover have "src @ [c] \<noteq> param" using param_occurs [OF p(1) assms(2)] snoc.prems by auto
    ultimately show ?case
      using p assms(2) snoc.prems
      by (subst replace_type_text.simps) (auto simp: replace_struct_names_id replace_params_id)
  qed
  then show ?thesis by (simp add: replace_type_str_def)
qed

theorem unrelated_type_kept_witness:
  "replace_type_str (Some ''Point**'') (Some ''K,V'') (Some ''int,float'') (Some ''Map'') (Some ''Map__int__float'')
     = Inr (Some ''Point**'')"
  by (rule unrelated_type_kept) (simp_all add: template_args_def words_of_def param_pairs.simps)

text \<open>
  A pointer to a type parameter becomes a pointer to the type that replaces it, however many stars
  there are and whatever the template is called.
\<close>

theorem pointer_to_param:
  assumes "param \<noteq> []"
  shows "replace_type_str (Some (param @ replicate n CHR ''*'')) (Some param) (Some concrete) old_struct new_struct
    = Inr (Some (concrete @ replicate n CHR ''*''))"
proof -
  have "replace_type_text (param @ replicate n CHR ''*'') param concrete old_struct new_struct
    = Inr (concrete @ replicate n CHR ''*'')"
  proof (induction n)
    case (Suc n)
    have "replicate (Suc n) CHR ''*'' = replicate n CHR ''*'' @ ''*''" by (simp add: replicate_append_same)
    then have "param @ replicate (Suc n) CHR ''*'' = (param @ replicate n CHR ''*'') @ ''*''"
      "concrete @ replicate (Suc n) CHR ''*'' = (concrete @ replicate n CHR ''*'') @ ''*''" by simp_all
    with Suc assms show ?case
      by (subst replace_type_text.simps) (simp del: append_assoc replicate_Suc)
  qed (simp add: replace_type_text.simps)
  then show ?thesis by (simp add: replace_type_str_def)
qed

theorem pointer_to_param_witness:
  "replace_type_str (Some ''T**'') (Some ''T'') (Some ''Vec<int>'') (Some ''T'') (Some ''X'') = Inr (Some ''Vec<int>**'')"
  using pointer_to_param [of "''T''" 2] by (simp add: numeral_2_eq_2)

lemma strip_prefix_other: "\<not> set p \<subseteq> set s \<Longrightarrow> strip_prefix p s = s"
  unfolding strip_prefix_def using set_take_subset [of "length p" s] by auto

text \<open>
  The \<open>Ptr\<close> suffix that mangling gives a pointer to a primitive type is read back as the pointer.
\<close>

theorem pointer_suffix_roundtrip:
  assumes "is_primitive_type_name base" "base \<noteq> []" "\<forall>c \<in> set base. isalnum c \<or> c = US"
  shows "bindE (sanitize_mangled_name (base @ ''*'')) unmangle_ptr_suffix = Inr (base @ ''*'')"
proof -
  have "concat (map sanitize_char s) = s" if "\<forall>c \<in> set s. isalnum c \<or> c = US" for s
    using that by (induction s) (auto simp: sanitize_char_def isalnum_def isalpha_def isdigit_def)
  moreover have "strip_prefix ''struct '' (base @ ''*'') = base @ ''*''"
  proof -
    have "CHR '' '' \<notin> set (base @ ''*'')" using assms(3) by (auto simp: isalnum_def isalpha_def isdigit_def)
    then show ?thesis by (intro strip_prefix_other) auto
  qed
  ultimately have "sanitize_text (base @ ''*'') = base @ ''Ptr''"
    using assms(3) by (simp add: sanitize_text_def sanitize_char_def)
  with assms show ?thesis by (simp add: unmangle_ptr_suffix_def Let_def)
qed

theorem pointer_suffix_roundtrip_witness:
  "bindE (sanitize_mangled_name ''u8*'') unmangle_ptr_suffix = Inr ''u8*''"
  using pointer_suffix_roundtrip [of "''u8''"]
  by (simp add: is_primitive_type_name_def find_primitive_kind_def find_primitive_by_name_def primitives_def
      isalnum_def isalpha_def isdigit_def)

text \<open>
  The template's name with a parameter list of several parts is split at its commas before it is looked
  for, so that \<open>Map<K,V>\<close> is replaced in two halves.
\<close>

lemma several_params_split:
  "replace_type_str (Some ''Map<K,V>'') (Some ''K,V'') (Some ''int,float'') (Some ''Map'') (Some ''Map__int__float'')
     = Inr (Some ''Map__int__float,float>'')"
  by code_simp

end
