(* ===== verification/ZcSuggest.thy ===== *)
theory ZcSuggest
  imports ZcSymbols
begin

text \<open>
  Suggestions for misspelt names: \<open>levenshtein\<close> (\<open>src/src/utils/utils.c\<close>), \<open>find_similar_symbol\<close> and
  \<open>get_closest_type_hint\<close> (\<open>src/src/parser/utils/utils_rewrite.c\<close>). The matrix is the flat array of the
  code; an allocation that fails is not modelled.
\<close>

section \<open>The distance\<close>

definition MATRIX :: "nat \<Rightarrow> nat \<Rightarrow> nat \<Rightarrow> nat" where
  "MATRIX len2 i j = i * (len2 + 1) + j"

definition init_matrix :: "nat \<Rightarrow> nat \<Rightarrow> nat list \<Rightarrow> nat list" where
  "init_matrix len1 len2 matrix =
     fold (\<lambda>j m. m[MATRIX len2 0 j := j]) [0..<len2 + 1]
       (fold (\<lambda>i m. m[MATRIX len2 i 0 := i]) [0..<len1 + 1] matrix)"

definition fill_cell :: "string \<Rightarrow> string \<Rightarrow> nat \<Rightarrow> nat \<Rightarrow> nat list \<Rightarrow> nat list" where
  "fill_cell s1 s2 i j m =
     (let len2 = length s2;
          cost = (if s1 ! (i - 1) = s2 ! (j - 1) then 0 else 1);
          del = m ! MATRIX len2 (i - 1) j + 1;
          ins = m ! MATRIX len2 i (j - 1) + 1;
          sub = m ! MATRIX len2 (i - 1) (j - 1) + cost;
          m1 = m[MATRIX len2 i j := if del < ins then del else ins]
      in if sub < m1 ! MATRIX len2 i j then m1[MATRIX len2 i j := sub] else m1)"

definition fill_row :: "string \<Rightarrow> string \<Rightarrow> nat \<Rightarrow> nat list \<Rightarrow> nat list" where
  "fill_row s1 s2 i m = fold (fill_cell s1 s2 i) [1..<length s2 + 1] m"

definition fill_matrix :: "string \<Rightarrow> string \<Rightarrow> nat list \<Rightarrow> nat list" where
  "fill_matrix s1 s2 m = fold (fill_row s1 s2) [1..<length s1 + 1] m"

definition levenshtein :: "string \<Rightarrow> string \<Rightarrow> nat" where
  "levenshtein s1 s2 =
     (let len1 = length s1; len2 = length s2 in
      if (if len1 > len2 then len1 - len2 > 3 else len2 - len1 > 3) then 999
      else
        (let matrix = init_matrix len1 len2 (replicate ((len1 + 1) * (len2 + 1)) 0)
         in fill_matrix s1 s2 matrix ! MATRIX len2 len1 len2))"

section \<open>The search\<close>

definition try_name :: "string \<Rightarrow> string \<Rightarrow> string option \<times> nat \<Rightarrow> string option \<times> nat" where
  "try_name name sym_name best =
     (let dist = levenshtein name sym_name
      in if dist < snd best \<and> dist \<le> 3 then (Some sym_name, dist) else best)"

definition find_similar_symbol :: "pctx \<Rightarrow> string \<Rightarrow> string option" where
  "find_similar_symbol ctx name =
     fst (fold (\<lambda>s best. fold (\<lambda>sym best. try_name name (sy_name sym) best) (sc_symbols s) best)
            (pc_scopes ctx) (None, 999))"

definition try_type :: "string \<Rightarrow> string \<Rightarrow> string option \<times> nat \<Rightarrow> string option \<times> nat" where
  "try_type name type_name best =
     (let dist = levenshtein name type_name
      in if dist < snd best then (Some type_name, dist) else best)"

text \<open>The names of the structs, the enums and the aliases of the context, in the order of their lists.\<close>

definition get_closest_type_hint :: "string list \<Rightarrow> string list \<Rightarrow> string list \<Rightarrow> string \<Rightarrow> string option" where
  "get_closest_type_hint struct_names enum_names alias_names name =
     fst (fold (try_type name) alias_names
            (fold (try_type name) enum_names (fold (try_type name) struct_names (None, 4))))"

section \<open>The distance by recursion\<close>

fun distance :: "'a list \<Rightarrow> 'a list \<Rightarrow> nat" where
  "distance [] ys = length ys"
| "distance (x # xs) [] = Suc (length xs)"
| "distance (x # xs) (y # ys) =
     min (min (Suc (distance xs (y # ys))) (Suc (distance (x # xs) ys)))
       (distance xs ys + (if x = y then 0 else 1))"

lemma distance_Nil [simp]: "distance xs [] = length xs"
  by (cases xs) auto

text \<open>One insertion, deletion or substitution of a character.\<close>

inductive edit :: "'a list \<Rightarrow> 'a list \<Rightarrow> bool" where
  Insert: "edit (u @ v) (u @ x # v)"
| Delete: "edit (u @ x # v) (u @ v)"
| Replace: "edit (u @ x # v) (u @ y # v)"

lemma edit_Cons: "edit s t \<Longrightarrow> edit (a # s) (a # t)"
  by (induction rule: edit.induct) (metis append_Cons edit.intros)+

lemma edit_rev: "edit s t \<Longrightarrow> edit (rev s) (rev t)"
  by (induction rule: edit.induct) (auto simp: edit.intros)

lemma edits_Cons: "(edit ^^ n) s t \<Longrightarrow> (edit ^^ n) (a # s) (a # t)"
  by (induction n arbitrary: t) (auto intro: edit_Cons)

lemma edits_rev: "(edit ^^ n) (rev s) (rev t) \<longleftrightarrow> (edit ^^ n) s t"
proof -
  have "(edit ^^ n) (rev s) (rev t)" if "(edit ^^ n) s t" for s t :: "'a list"
    using that by (induction n arbitrary: t) (auto intro: edit_rev)
  from this [of s t] this [of "rev s" "rev t"] show ?thesis by auto
qed

lemma edits_to_Nil: "(edit ^^ length xs) xs []"
proof (induction xs)
  case (Cons x xs)
  have "edit (x # xs) xs" using edit.Delete [of "[]"] by simp
  from relpowp_Suc_I2 [OF this Cons] show ?case by simp
qed simp

lemma edits_from_Nil: "(edit ^^ length ys) [] ys"
proof (induction ys)
  case (Cons y ys)
  have "edit ys (y # ys)" using edit.Insert [of "[]"] by simp
  with Cons show ?case by auto
qed simp

lemma edits_distance: "(edit ^^ distance xs ys) xs ys"
proof (induction xs ys rule: distance.induct)
  case (3 x xs y ys)
  have del: "edit (x # xs) xs" for x :: 'a and xs using edit.Delete [of "[]"] by simp
  have ins: "edit ys (y # ys)" for y :: 'a and ys using edit.Insert [of "[]"] by simp
  have sub: "edit (x # xs) (y # xs)" for x y :: 'a and xs using edit.Replace [of "[]"] by simp
  have "min (min a b) c = a \<or> min (min a b) c = b \<or> min (min a b) c = c" for a b c :: nat
    by (simp add: min_def)
  from this [of "Suc (distance xs (y # ys))" "Suc (distance (x # xs) ys)" "distance xs ys + (if x = y then 0 else 1)"]
  have "distance (x # xs) (y # ys) = Suc (distance xs (y # ys)) \<or> distance (x # xs) (y # ys) = Suc (distance (x # xs) ys)
    \<or> distance (x # xs) (y # ys) = distance xs ys + (if x = y then 0 else 1)"
    by (simp only: distance.simps)
  then consider "distance (x # xs) (y # ys) = Suc (distance xs (y # ys))"
    | "distance (x # xs) (y # ys) = Suc (distance (x # xs) ys)"
    | "distance (x # xs) (y # ys) = distance xs ys" "x = y"
    | "distance (x # xs) (y # ys) = Suc (distance xs ys)"
    by (cases "x = y") (simp_all del: distance.simps, blast+)
  then show ?case
  proof cases
    case 1
    then show ?thesis using relpowp_Suc_I2 [OF del "3.IH"(1)] by simp
  next
    case 2
    then show ?thesis using relpowp_Suc_I [OF "3.IH"(2) ins] by simp
  next
    case 3
    then show ?thesis using edits_Cons [OF "3.IH"(3)] by simp
  next
    case 4
    then show ?thesis using relpowp_Suc_I2 [OF sub edits_Cons [OF "3.IH"(3)]] by simp
  qed
next
  case (2 x xs)
  show ?case using edits_to_Nil [of "x # xs"] by simp
qed (use edits_from_Nil in simp)

text \<open>An edit changes the distance by one at most.\<close>

lemma distance_Cons_le: "distance (x # v) ys \<le> Suc (distance v ys)"
  by (cases ys) (auto simp: min_def)

lemma distance_insert: "distance u (y # ys) \<le> Suc (distance u ys)"
  by (cases u) (auto simp: min_def)

lemma distance_tail_le: "distance v ys \<le> Suc (distance (x # v) ys)"
proof (induction ys)
  case (Cons y ys)
  have "distance v (y # ys) \<le> Suc (distance v ys)" by (rule distance_insert)
  with Cons show ?case by (simp add: min_def)
qed simp

lemma distance_head_le: "distance (x # v) ys \<le> Suc (distance (y # v) ys)"
proof (induction ys)
  case (Cons z ys)
  then show ?case by (auto simp: min_def)
qed simp

lemma distance_under_Cons:
  assumes "\<And>ys. distance s ys \<le> Suc (distance t ys)"
  shows "distance (a # s) ys \<le> Suc (distance (a # t) ys)"
proof (induction ys)
  case Nil
  show ?case using assms [of "[]"] by simp
next
  case (Cons y ys)
  have "distance s (y # ys) \<le> Suc (distance t (y # ys))" "distance s ys \<le> Suc (distance t ys)"
    by (rule assms)+
  with Cons show ?case by (auto simp: min_def)
qed

lemma distance_edit: "edit s t \<Longrightarrow> distance s ys \<le> Suc (distance t ys)"
proof (induction arbitrary: ys rule: edit.induct)
  case (Insert u v x)
  show ?case by (induction u arbitrary: ys) (auto intro: distance_tail_le distance_under_Cons simp del: distance.simps)
next
  case (Delete u x v)
  show ?case by (induction u arbitrary: ys) (auto intro: distance_Cons_le distance_under_Cons simp del: distance.simps)
next
  case (Replace u x v y)
  show ?case by (induction u arbitrary: ys) (auto intro: distance_head_le distance_under_Cons simp del: distance.simps)
qed

lemma distance_same [simp]: "distance xs xs = 0"
  by (induction xs) auto

lemma distance_least: "(edit ^^ n) s t \<Longrightarrow> distance s t \<le> n"
proof (induction n arbitrary: s)
  case (Suc n)
  then obtain r where "edit s r" "(edit ^^ n) r t" by (blast elim: relpowp_Suc_E2)
  with Suc.IH [of r] distance_edit [of s r t] show ?case by simp
qed simp

section \<open>The matrix holds the distances\<close>

lemma cell_eq: "j \<le> n \<Longrightarrow> j' \<le> n \<Longrightarrow> MATRIX n i j = MATRIX n i' j' \<longleftrightarrow> i = i' \<and> j = j'"
  unfolding MATRIX_def
  by (metis Suc_eq_plus1 add.commute div_mult_self3 le_imp_less_Suc add_right_cancel div_less mod_less mod_mult_self3
      nat.simps(3) add_0)

lemma cell_less: "i \<le> m \<Longrightarrow> j \<le> n \<Longrightarrow> MATRIX n i j < (m + 1) * (n + 1)"
proof -
  assume "i \<le> m" "j \<le> n"
  then have "i * (n + 1) + j < (i + 1) * (n + 1)" "(i + 1) * (n + 1) \<le> (m + 1) * (n + 1)"
    by (simp_all only: add_mult_distrib mult_le_mono1 add_le_mono1) auto
  then show ?thesis unfolding MATRIX_def by (rule less_le_trans)
qed

definition holds :: "string \<Rightarrow> string \<Rightarrow> nat list \<Rightarrow> (nat \<Rightarrow> nat \<Rightarrow> bool) \<Rightarrow> bool" where
  "holds s1 s2 m P \<longleftrightarrow>
     length m = (length s1 + 1) * (length s2 + 1)
     \<and> (\<forall>i \<le> length s1. \<forall>j \<le> length s2.
          P i j \<longrightarrow> m ! MATRIX (length s2) i j = distance (rev (take i s1)) (rev (take j s2)))"

lemma holds_update:
  assumes "holds s1 s2 m P" "i \<le> length s1" "j \<le> length s2"
    "v = distance (rev (take i s1)) (rev (take j s2))"
  shows "holds s1 s2 (m[MATRIX (length s2) i j := v]) (\<lambda>a b. P a b \<or> a = i \<and> b = j)"
proof -
  have "MATRIX (length s2) i j < length m" using cell_less [OF assms(2,3)] assms(1) by (simp add: holds_def)
  with assms show ?thesis by (auto simp: holds_def nth_list_update cell_eq)
qed

lemma holds_weaken: "holds s1 s2 m P \<Longrightarrow> (\<And>i j. Q i j \<Longrightarrow> i \<le> length s1 \<Longrightarrow> j \<le> length s2 \<Longrightarrow> P i j) \<Longrightarrow> holds s1 s2 m Q"
  by (auto simp: holds_def)

lemma holds_init:
  "holds s1 s2 (init_matrix (length s1) (length s2) (replicate ((length s1 + 1) * (length s2 + 1)) 0))
     (\<lambda>i j. i = 0 \<or> j = 0)"
proof -
  have col: "holds s1 s2 (fold (\<lambda>i m. m[MATRIX (length s2) i 0 := i]) [0..<k] m) (\<lambda>i j. P i j \<or> j = 0 \<and> i < k)"
    if "holds s1 s2 m P" "k \<le> length s1 + 1" for k m P
    using that
  proof (induction k)
    case (Suc k)
    then have "holds s1 s2 (fold (\<lambda>i m. m[MATRIX (length s2) i 0 := i]) [0..<k] m) (\<lambda>i j. P i j \<or> j = 0 \<and> i < k)"
      by simp
    from holds_update [OF this, of k 0 k] Suc.prems show ?case
      by (auto elim!: holds_weaken simp: less_Suc_eq)
  qed simp
  have row: "holds s1 s2 (fold (\<lambda>j m. m[MATRIX (length s2) 0 j := j]) [0..<k] m) (\<lambda>i j. P i j \<or> i = 0 \<and> j < k)"
    if "holds s1 s2 m P" "k \<le> length s2 + 1" for k m P
    using that
  proof (induction k)
    case (Suc k)
    then have "holds s1 s2 (fold (\<lambda>j m. m[MATRIX (length s2) 0 j := j]) [0..<k] m) (\<lambda>i j. P i j \<or> i = 0 \<and> j < k)"
      by simp
    from holds_update [OF this, of 0 k k] Suc.prems show ?case
      by (auto elim!: holds_weaken simp: less_Suc_eq)
  qed simp
  have "holds s1 s2 (replicate ((length s1 + 1) * (length s2 + 1)) 0) (\<lambda>_ _. False)" by (simp add: holds_def)
  from row [OF col [OF this order_refl] order_refl] show ?thesis
    unfolding init_matrix_def by (rule holds_weaken) auto
qed

lemma fill_cell_min:
  assumes "MATRIX (length s2) i j < length m"
  shows "fill_cell s1 s2 i j m = m[MATRIX (length s2) i j :=
    min (min (Suc (m ! MATRIX (length s2) (i - 1) j)) (Suc (m ! MATRIX (length s2) i (j - 1))))
      (m ! MATRIX (length s2) (i - 1) (j - 1) + (if s1 ! (i - 1) = s2 ! (j - 1) then 0 else 1))]"
  using assms by (simp add: fill_cell_def Let_def min_def)

lemma fill_cell_holds:
  assumes "holds s1 s2 m P" "1 \<le> i" "i \<le> length s1" "1 \<le> j" "j \<le> length s2"
    "P (i - 1) j" "P i (j - 1)" "P (i - 1) (j - 1)"
  shows "holds s1 s2 (fill_cell s1 s2 i j m) (\<lambda>a b. P a b \<or> a = i \<and> b = j)"
proof -
  obtain i' j' where ij: "i = Suc i'" "j = Suc j'" using assms(2,4) by (cases i; cases j) auto
  let ?D = "\<lambda>a b. distance (rev (take a s1)) (rev (take b s2))"
  let ?cost = "if s1 ! i' = s2 ! j' then 0 else 1 :: nat"
  have old: "m ! MATRIX (length s2) i' j = ?D i' j" "m ! MATRIX (length s2) i j' = ?D i j'"
    "m ! MATRIX (length s2) i' j' = ?D i' j'"
    using assms ij by (auto simp: holds_def)
  have in_m: "MATRIX (length s2) i j < length m" using cell_less [OF assms(3,5)] assms(1) by (simp add: holds_def)
  have "rev (take i s1) = s1 ! i' # rev (take i' s1)" "rev (take j s2) = s2 ! j' # rev (take j' s2)"
    using assms(3,5) ij by (simp_all add: take_Suc_conv_app_nth)
  then have "?D i j = min (min (Suc (?D i' j)) (Suc (?D i j'))) (?D i' j' + ?cost)" by simp
  with old have "fill_cell s1 s2 i j m = m[MATRIX (length s2) i j := ?D i j]"
    unfolding fill_cell_min [OF in_m] by (simp only: ij diff_Suc_1)
  with holds_update [OF assms(1,3,5) refl] show ?thesis by simp
qed

lemma fill_row_holds:
  assumes "holds s1 s2 m (\<lambda>a b. a < i \<or> b = 0)" "1 \<le> i" "i \<le> length s1"
  shows "holds s1 s2 (fill_row s1 s2 i m) (\<lambda>a b. a < Suc i \<or> b = 0)"
proof -
  have "holds s1 s2 (fold (fill_cell s1 s2 i) [1..<Suc k] m) (\<lambda>a b. a < i \<or> b = 0 \<or> a = i \<and> b \<le> k)"
    if "k \<le> length s2" for k
    using that
  proof (induction k)
    case 0
    show ?case using assms(1) by (auto elim!: holds_weaken)
  next
    case (Suc k)
    then have "holds s1 s2 (fold (fill_cell s1 s2 i) [1..<Suc k] m) (\<lambda>a b. a < i \<or> b = 0 \<or> a = i \<and> b \<le> k)"
      by simp
    from fill_cell_holds [OF this assms(2,3), of "Suc k"] assms(2) Suc.prems show ?case
      by (auto elim!: holds_weaken simp: le_Suc_eq)
  qed
  from this [OF order_refl] show ?thesis
    unfolding fill_row_def by (auto elim!: holds_weaken)
qed

lemma fill_matrix_holds:
  assumes "holds s1 s2 m (\<lambda>i j. i = 0 \<or> j = 0)"
  shows "holds s1 s2 (fill_matrix s1 s2 m) (\<lambda>i j. True)"
proof -
  have "holds s1 s2 (fold (fill_row s1 s2) [1..<Suc k] m) (\<lambda>a b. a < Suc k \<or> b = 0)" if "k \<le> length s1" for k
    using that
  proof (induction k)
    case 0
    show ?case using assms by (auto elim!: holds_weaken)
  next
    case (Suc k)
    then have "holds s1 s2 (fold (fill_row s1 s2) [1..<Suc k] m) (\<lambda>a b. a < Suc k \<or> b = 0)" by simp
    from fill_row_holds [OF this] Suc.prems show ?case by simp
  qed
  from this [OF order_refl] show ?thesis
    unfolding fill_matrix_def by (auto elim!: holds_weaken)
qed

lemma levenshtein_distance:
  "levenshtein s1 s2 =
     (if length s1 > length s2 + 3 \<or> length s2 > length s1 + 3 then 999 else distance (rev s1) (rev s2))"
  using fill_matrix_holds [OF holds_init, of s1 s2] by (auto simp: levenshtein_def Let_def holds_def)

text \<open>
  C11: \<open>levenshtein\<close> is the edit distance: for words whose lengths differ by three at most it is the least
  number of insertions, deletions and substitutions of single characters that turn one into the other,
  and for other words it is 999, and no three such edits are enough.
\<close>

theorem levenshtein_least_edits:
  "if length s1 > length s2 + 3 \<or> length s2 > length s1 + 3
   then levenshtein s1 s2 = 999 \<and> \<not> (\<exists>n \<le> 3. (edit ^^ n) s1 s2)
   else (edit ^^ levenshtein s1 s2) s1 s2 \<and> \<not> (\<exists>n < levenshtein s1 s2. (edit ^^ n) s1 s2)"
proof -
  have least: "distance (rev s1) (rev s2) \<le> n" if "(edit ^^ n) s1 s2" for n
    using distance_least that edits_rev by blast
  have "length s \<le> length t + n \<and> length t \<le> length s + n" if "(edit ^^ n) s t" for n and s t :: string
    using that
  proof (induction n arbitrary: t)
    case (Suc n)
    then obtain r where "(edit ^^ n) s r" "edit r t" by auto
    with Suc.IH [of r] show ?case by (auto elim: edit.cases)
  qed simp
  then have far: "\<not> (edit ^^ n) s1 s2" if "n \<le> 3" "length s1 > length s2 + 3 \<or> length s2 > length s1 + 3" for n
    using that by fastforce
  have "(edit ^^ distance (rev s1) (rev s2)) s1 s2" using edits_distance edits_rev by blast
  with least far show ?thesis by (fastforce simp: levenshtein_distance)
qed

section \<open>The suggestion is the nearest name\<close>

definition nearest :: "nat \<Rightarrow> string \<Rightarrow> string list \<Rightarrow> string option \<times> nat \<Rightarrow> bool" where
  "nearest far name names best \<longleftrightarrow>
     (case fst best of
        None \<Rightarrow> snd best = far \<and> (\<forall>n \<in> set names. levenshtein name n > 3)
      | Some m \<Rightarrow> m \<in> set names \<and> snd best = levenshtein name m \<and> snd best \<le> 3
          \<and> (\<forall>n \<in> set names. levenshtein name m \<le> levenshtein name n))"

lemma nearest_start: "nearest far name [] (None, far)"
  by (simp add: nearest_def)

lemma nearest_try_name: "3 < far \<Longrightarrow> nearest far name ns best \<Longrightarrow> nearest far name (ns @ [n]) (try_name name n best)"
  by (auto simp: nearest_def try_name_def Let_def split: option.splits)

lemma nearest_try_type: "nearest 4 name ns best \<Longrightarrow> nearest 4 name (ns @ [n]) (try_type name n best)"
  by (auto simp: nearest_def try_type_def Let_def split: option.splits)

lemma nearest_fold:
  assumes "\<And>ns n best. nearest far name ns best \<Longrightarrow> nearest far name (ns @ [n]) (f n best)"
  shows "nearest far name ns best \<Longrightarrow> nearest far name (ns @ ms) (fold f ms best)"
  using assms by (induction ms arbitrary: ns best) (simp, metis append.assoc append_Cons append_Nil fold_simps(2))

definition visible_names :: "pctx \<Rightarrow> string list" where
  "visible_names ctx = concat (map (\<lambda>s. map sy_name (sc_symbols s)) (pc_scopes ctx))"

lemma find_similar_fold:
  "find_similar_symbol ctx name = fst (fold (try_name name) (visible_names ctx) (None, 999))"
proof -
  have "fold (\<lambda>s best. fold (\<lambda>sym best. try_name name (sy_name sym) best) (sc_symbols s) best) ss best
    = fold (try_name name) (concat (map (\<lambda>s. map sy_name (sc_symbols s)) ss)) best" for ss :: "scope list" and best
    by (induction ss arbitrary: best) (auto simp: fold_map comp_def)
  then show ?thesis by (simp only: find_similar_symbol_def visible_names_def)
qed

text \<open>
  The name suggested for an unknown one is a visible symbol within three edits and none is nearer;
  where nothing is suggested no visible symbol is within three edits.
\<close>

theorem suggestion_is_nearest:
  "case find_similar_symbol ctx name of
     None \<Rightarrow> \<forall>n \<in> set (visible_names ctx). levenshtein name n > 3
   | Some m \<Rightarrow> m \<in> set (visible_names ctx) \<and> levenshtein name m \<le> 3
       \<and> (\<forall>n \<in> set (visible_names ctx). levenshtein name m \<le> levenshtein name n)"
proof -
  have "nearest 999 name (visible_names ctx) (fold (try_name name) (visible_names ctx) (None, 999))"
    using nearest_fold [OF nearest_try_name nearest_start, where ms = "visible_names ctx"] by simp
  then show ?thesis by (auto simp: find_similar_fold nearest_def split: option.splits)
qed

theorem suggestion_is_nearest_witness:
  "find_similar_symbol (add_symbol (add_symbol empty_pctx ''count'' None None False) ''amount'' None None False) ''coumt''
     = Some ''count''"
proof -
  let ?ctx = "add_symbol (add_symbol empty_pctx ''count'' None None False) ''amount'' None None False"
  have names: "set (visible_names ?ctx) = {''count'', ''amount''}" by code_simp
  have "levenshtein ''coumt'' ''count'' = 1" "levenshtein ''coumt'' ''amount'' = 3" by code_simp+
  with suggestion_is_nearest [of ?ctx "''coumt''"] show ?thesis
    unfolding names by (auto split: option.splits)
qed

lemma type_hint_is_nearest:
  "case get_closest_type_hint ss es als name of
     None \<Rightarrow> \<forall>n \<in> set (ss @ es @ als). levenshtein name n > 3
   | Some m \<Rightarrow> m \<in> set (ss @ es @ als) \<and> levenshtein name m \<le> 3
       \<and> (\<forall>n \<in> set (ss @ es @ als). levenshtein name m \<le> levenshtein name n)"
proof -
  have "fold (try_type name) als (fold (try_type name) es (fold (try_type name) ss (None, 4)))
    = fold (try_type name) (ss @ es @ als) (None, 4)" by simp
  moreover have "nearest 4 name (ss @ es @ als) (fold (try_type name) (ss @ es @ als) (None, 4))"
    using nearest_fold [OF nearest_try_type nearest_start, where ms = "ss @ es @ als"] by simp
  ultimately show ?thesis by (auto simp: get_closest_type_hint_def nearest_def split: option.splits)
qed

end
