(* ===== verification/ZcSemantic.thy ===== *)
theory ZcSemantic
  imports ZcAst ZcTemplates "HOL-Library.Multiset"
begin

text \<open>
  Semantic tokens of the language server (\<open>src/src/lsp/lsp_semantic.c\<close>): the keywords of the source and
  the tokens of the tree, sorted by \<open>qsort\<close> and encoded as differences. \<open>qsort\<close> of the C library is an
  argument: any function that sorts by \<open>compare_tokens\<close>. The array of the \<open>TokenBuilder\<close> is a list; its
  growth, which cannot fail here, has no counterpart. The JSON text that cJSON prints from the numbers is
  not modelled.
\<close>

record sem_token =
  st_line :: int
  st_col :: int
  st_length :: int
  st_token_type :: nat
  st_token_modifiers :: nat

definition TOKEN_TYPE_VARIABLE :: nat where "TOKEN_TYPE_VARIABLE = 0"
definition TOKEN_TYPE_FUNCTION :: nat where "TOKEN_TYPE_FUNCTION = 1"
definition TOKEN_TYPE_STRUCT :: nat where "TOKEN_TYPE_STRUCT = 2"
definition TOKEN_TYPE_KEYWORD :: nat where "TOKEN_TYPE_KEYWORD = 3"
definition TOKEN_TYPE_STRING :: nat where "TOKEN_TYPE_STRING = 4"
definition TOKEN_TYPE_NUMBER :: nat where "TOKEN_TYPE_NUMBER = 5"
definition TOKEN_TYPE_TYPE :: nat where "TOKEN_TYPE_TYPE = 7"
definition TOKEN_TYPE_ENUM :: nat where "TOKEN_TYPE_ENUM = 8"
definition TOKEN_TYPE_MEMBER :: nat where "TOKEN_TYPE_MEMBER = 9"

definition builder_push :: "sem_token list \<Rightarrow> int \<Rightarrow> int \<Rightarrow> int \<Rightarrow> nat \<Rightarrow> nat \<Rightarrow> sem_token list" where
  "builder_push b line col len ty modifiers =
     (if line < 0 \<or> col < 0 then b
      else b @ [\<lparr>st_line = line, st_col = col, st_length = len, st_token_type = ty,
                 st_token_modifiers = modifiers\<rparr>])"

definition compare_tokens :: "sem_token \<Rightarrow> sem_token \<Rightarrow> int" where
  "compare_tokens ta tb =
     (if st_line ta \<noteq> st_line tb then st_line ta - st_line tb else st_col ta - st_col tb)"

section \<open>Keywords\<close>

definition pseudo_keywords :: "string list" where
  "pseudo_keywords =
     [''let'', ''static'', ''const'', ''return'', ''if'', ''else'', ''while'', ''break'', ''continue'',
      ''loop'', ''repeat'', ''unless'', ''guard'', ''launch'', ''do'', ''goto'', ''plugin'', ''fn'',
      ''struct'', ''enum'', ''self'']"

definition reserved_kinds :: "ZenTokenType list" where
  "reserved_kinds =
     [TOK_TEST, TOK_ASSERT, TOK_SIZEOF, TOK_DEF, TOK_DEFER, TOK_USE, TOK_TRAIT, TOK_IMPL, TOK_AND,
      TOK_OR, TOK_FOR, TOK_COMPTIME, TOK_UNION, TOK_ASM, TOK_VOLATILE, TOK_ALIAS, TOK_OPAQUE]"

text \<open>A token of the given kind and text.\<close>

definition is_reserved_keyword :: "ZenTokenType \<Rightarrow> string \<Rightarrow> bool" where
  "is_reserved_keyword kind w \<longleftrightarrow>
     kind \<in> set reserved_kinds \<or> kind = TOK_IDENT \<and> w \<in> set pseudo_keywords"

definition more_keywords :: "string list" where
  "more_keywords =
     [''and'', ''asm'', ''alias'', ''assert'', ''comptime'', ''def'', ''defer'', ''eprint'',
      ''eprintln'', ''expect'', ''extern'', ''false'', ''import'', ''inline'', ''match'', ''module'',
      ''noreturn'', ''not'', ''null'', ''opaque'', ''or'', ''print'', ''printf'', ''println'',
      ''private'', ''public'', ''sizeof'', ''switch'', ''test'', ''true'', ''typeof'', ''union'',
      ''use'', ''volatile'', ''impl'', ''trait'', ''in'', ''external'', ''continue'']"

definition is_keyword :: "string \<Rightarrow> bool" where
  "is_keyword w \<longleftrightarrow> is_reserved_keyword TOK_IDENT w \<or> w \<in> set more_keywords"

definition is_type_name :: "string \<Rightarrow> bool" where
  "is_type_name w \<longleftrightarrow> (\<exists>(zen_name, _, _) \<in> set primitives. zen_name = w)"

definition word_type :: "string \<Rightarrow> nat option" where
  "word_type w =
     (if is_type_name w then Some TOKEN_TYPE_TYPE
      else if is_keyword w then Some TOKEN_TYPE_KEYWORD else None)"

text \<open>Line and column of an offset, by a scan from the start of the source.\<close>

definition position_of :: "string \<Rightarrow> nat \<Rightarrow> int \<times> int" where
  "position_of source p =
     foldl (\<lambda>(line, col) c. if c = NL then (line + 1, 0) else (line, col + 1)) (0, 0) (take p source)"

function keyword_loop :: "sem_token list \<Rightarrow> string \<Rightarrow> nat \<Rightarrow> sem_token list" where
  "keyword_loop b source p =
     (if p \<ge> length source then b
      else if \<not> ident_char (source ! p) then keyword_loop b source (Suc p)
      else
        (let len = length (takeWhile ident_char (drop p source)) in
         keyword_loop
           (case word_type (take len (drop p source)) of
              None \<Rightarrow> b
            | Some ty \<Rightarrow> (let (line, col) = position_of source p in builder_push b line col (int len) ty 0))
           source (p + len)))"
  by pat_completeness auto
termination
proof (relation "measure (\<lambda>(b, source, p). length source - p)", goal_cases)
  case (3 b source p len)
  then have "takeWhile ident_char (drop p source) \<noteq> []"
    by (simp add: takeWhile_eq_Nil_iff hd_drop_conv_nth)
  with 3 show ?case by (cases "takeWhile ident_char (drop p source)") auto
qed auto

declare keyword_loop.simps [simp del]

definition emit_keywords :: "sem_token list \<Rightarrow> string option \<Rightarrow> sem_token list" where
  "emit_keywords b source = (case source of None \<Rightarrow> b | Some s \<Rightarrow> keyword_loop b s 0)"

section \<open>The walk over the tree\<close>

definition push_node :: "sem_token list \<Rightarrow> node \<Rightarrow> nat \<Rightarrow> nat \<Rightarrow> sem_token list" where
  "push_node b n ty modifiers =
     (if tk_kind (nd_token n) \<noteq> TOK_EOF then
        builder_push b (int (tk_line (nd_token n)) - 1) (int (tk_col (nd_token n)) - 1)
          (int (tk_len (nd_token n))) ty modifiers
      else b)"

text \<open>What a node itself pushes.\<close>

definition push_mark :: "sem_token list \<Rightarrow> node \<Rightarrow> sem_token list" where
  "push_mark b n =
     (case nd_kind n of
        NODE_FUNCTION \<Rightarrow> push_node b n TOKEN_TYPE_FUNCTION 1
      | NODE_VAR_DECL \<Rightarrow> push_node b n TOKEN_TYPE_VARIABLE 0
      | NODE_CONST \<Rightarrow> push_node b n TOKEN_TYPE_VARIABLE 2
      | NODE_TYPE_ALIAS \<Rightarrow> push_node b n TOKEN_TYPE_TYPE 0
      | NODE_EXPR_VAR \<Rightarrow> push_node b n TOKEN_TYPE_VARIABLE 0
      | NODE_STRUCT \<Rightarrow> push_node b n TOKEN_TYPE_STRUCT 0
      | NODE_FIELD \<Rightarrow> push_node b n TOKEN_TYPE_MEMBER 0
      | NODE_EXPR_MEMBER \<Rightarrow> push_node b n TOKEN_TYPE_MEMBER 0
      | NODE_EXPR_LITERAL \<Rightarrow>
          (case n of
             Literal _ LITERAL_STRING _ _ _ \<Rightarrow> push_node b n TOKEN_TYPE_STRING 0
           | Literal _ LITERAL_INT _ _ _ \<Rightarrow> push_node b n TOKEN_TYPE_NUMBER 0
           | Literal _ LITERAL_FLOAT _ _ _ \<Rightarrow> push_node b n TOKEN_TYPE_NUMBER 0
           | Literal _ LITERAL_CHAR _ _ _ \<Rightarrow> push_node b n TOKEN_TYPE_STRING 0
           | _ \<Rightarrow> b)
      | NODE_TRAIT \<Rightarrow> push_node b n TOKEN_TYPE_STRUCT 0
      | NODE_IMPL \<Rightarrow> push_node b n TOKEN_TYPE_STRUCT 0
      | NODE_IMPL_TRAIT \<Rightarrow> push_node b n TOKEN_TYPE_STRUCT 0
      | NODE_ENUM \<Rightarrow> push_node b n TOKEN_TYPE_ENUM 0
      | NODE_ENUM_VARIANT \<Rightarrow> push_node b n TOKEN_TYPE_ENUM 0
      | _ \<Rightarrow> b)"

text \<open>The kinds of which the heads of the child chains are visited, and the nodes a node visits: all the
  statements of a block and all the arguments of a call, the first node of the other chains.\<close>

definition visited_kinds :: "NodeType list" where
  "visited_kinds =
     [NODE_FUNCTION, NODE_VAR_DECL, NODE_RETURN, NODE_EXPR_BINARY, NODE_CONST, NODE_STRUCT,
      NODE_EXPR_MEMBER, NODE_TRAIT, NODE_IMPL, NODE_IMPL_TRAIT, NODE_ENUM, NODE_DESTRUCT_VAR,
      NODE_MATCH_CASE, NODE_LAMBDA, NODE_FOR_RANGE, NODE_ROOT]"

definition visits :: "node \<Rightarrow> node list" where
  "visits n =
     (case n of
        Block _ statements \<Rightarrow> statements
      | Call _ callee args \<Rightarrow> take 1 callee @ args
      | _ \<Rightarrow> if nd_kind n \<in> set visited_kinds then concat (map (take 1) (child_chains n)) else [])"

lemma visits_smaller: "c \<in> set (visits n) \<Longrightarrow> size c < size n"
proof -
  assume "c \<in> set (visits n)"
  then have "\<exists>chain \<in> set (child_chains n). c \<in> set chain"
    by (cases n) (auto simp: visits_def dest: in_set_takeD split: if_splits)
  then show ?thesis using child_smaller by blast
qed

function traverse_node :: "sem_token list \<Rightarrow> node option \<Rightarrow> nat \<Rightarrow> sem_token list" where
  "traverse_node b None depth = b"
| "traverse_node b (Some n) depth =
     (if depth > 32 then b
      else if nd_kind n = NODE_EXPR_MEMBER then
        push_mark (fold (\<lambda>c b. traverse_node b (Some c) (depth + 1)) (visits n) b) n
      else fold (\<lambda>c b. traverse_node b (Some c) (depth + 1)) (visits n) (push_mark b n))"
  by pat_completeness auto
termination by (relation "measure (\<lambda>(b, p, depth). size_option size p)") (auto dest: visits_smaller)

declare traverse_node.simps(2) [simp del]

section \<open>The encoding\<close>

fun encode_tokens :: "sem_token option \<Rightarrow> int \<Rightarrow> int \<Rightarrow> sem_token list \<Rightarrow> int list" where
  "encode_tokens prev prev_line prev_col [] = []"
| "encode_tokens prev prev_line prev_col (t # ts) =
     (if (case prev of Some q \<Rightarrow> st_line t = st_line q \<and> st_col t = st_col q | None \<Rightarrow> False) then
        encode_tokens (Some t) prev_line prev_col ts
      else
        (let delta_line = st_line t - prev_line;
             delta_col = (if delta_line = 0 then st_col t - prev_col else st_col t)
         in [delta_line, delta_col, st_length t, int (st_token_type t), int (st_token_modifiers t)]
            @ encode_tokens (Some t) (st_line t) (st_col t) ts))"

definition collect_tokens :: "string option \<Rightarrow> node list \<Rightarrow> sem_token list" where
  "collect_tokens source ast = fold (\<lambda>root b. traverse_node b (Some root) 0) ast (emit_keywords [] source)"

text \<open>The project file is its source and its tree, if both are known.\<close>

definition lsp_semantic_tokens_full ::
    "(sem_token list \<Rightarrow> sem_token list) \<Rightarrow> (string option \<times> node list) option \<Rightarrow> int list" where
  "lsp_semantic_tokens_full qsort pf =
     (case pf of
        None \<Rightarrow> []
      | Some (source, ast) \<Rightarrow>
          if ast = [] then [] else encode_tokens None 0 0 (qsort (collect_tokens source ast)))"

section \<open>Every token is inside the file\<close>

definition token_ok :: "sem_token \<Rightarrow> bool" where
  "token_ok t \<longleftrightarrow> 0 \<le> st_line t \<and> 0 \<le> st_col t \<and> 0 \<le> st_length t"

definition tokens_ok :: "sem_token list \<Rightarrow> bool" where
  "tokens_ok b \<longleftrightarrow> (\<forall>t \<in> set b. token_ok t)"

lemma builder_push_ok: "tokens_ok b \<Longrightarrow> 0 \<le> len \<Longrightarrow> tokens_ok (builder_push b line col len ty m)"
  by (auto simp: builder_push_def token_ok_def tokens_ok_def)

lemma push_node_ok: "tokens_ok b \<Longrightarrow> tokens_ok (push_node b n ty m)"
  by (simp add: push_node_def builder_push_ok)

lemma push_mark_ok: "tokens_ok b \<Longrightarrow> tokens_ok (push_mark b n)"
  by (simp add: push_mark_def push_node_ok split: NodeType.split node.split LiteralKind.split)

lemma fold_ok:
  "tokens_ok b \<Longrightarrow> (\<And>c b. c \<in> set cs \<Longrightarrow> tokens_ok b \<Longrightarrow> tokens_ok (f c b)) \<Longrightarrow> tokens_ok (fold f cs b)"
  by (induction cs arbitrary: b) auto

lemma traverse_ok: "tokens_ok b \<Longrightarrow> tokens_ok (traverse_node b p depth)"
proof (induction b p depth rule: traverse_node.induct)
  case (2 b n depth)
  note IH = "2.IH" and b = "2.prems"
  show ?case
  proof (cases "depth > 32")
    case True
    with b show ?thesis by (simp add: traverse_node.simps(2))
  next
    case deep: False
    show ?thesis
    proof (cases "nd_kind n = NODE_EXPR_MEMBER")
      case True
      have "tokens_ok (fold (\<lambda>c b. traverse_node b (Some c) (depth + 1)) (visits n) b)"
        by (intro fold_ok IH(1) [OF deep True] b)
      with deep True show ?thesis by (simp add: traverse_node.simps(2) push_mark_ok)
    next
      case False
      have "tokens_ok (fold (\<lambda>c b. traverse_node b (Some c) (depth + 1)) (visits n) (push_mark b n))"
        by (intro fold_ok IH(2) [OF deep False] push_mark_ok b)
      with deep False show ?thesis by (simp add: traverse_node.simps(2))
    qed
  qed
qed simp

lemma keyword_loop_ok: "tokens_ok b \<Longrightarrow> tokens_ok (keyword_loop b source p)"
proof (induction b source p rule: keyword_loop.induct)
  case (1 b source p)
  let ?len = "length (takeWhile ident_char (drop p source))"
  have "tokens_ok (case word_type (take ?len (drop p source)) of None \<Rightarrow> b
      | Some ty \<Rightarrow> (let (line, col) = position_of source p in builder_push b line col (int ?len) ty 0))"
    using "1.prems" by (simp add: builder_push_ok split: option.split prod.split)
  with 1 show ?case by (subst keyword_loop.simps) (simp add: Let_def)
qed

lemma collect_ok: "tokens_ok (collect_tokens source ast)"
proof -
  have "tokens_ok (emit_keywords [] source)"
    by (cases source) (simp_all add: emit_keywords_def keyword_loop_ok tokens_ok_def [of "[]"])
  then show ?thesis unfolding collect_tokens_def by (intro fold_ok traverse_ok)
qed

section \<open>What the client reads\<close>


definition qsort_ok :: "(sem_token list \<Rightarrow> sem_token list) \<Rightarrow> bool" where
  "qsort_ok qsort \<longleftrightarrow>
     (\<forall>ts. mset (qsort ts) = mset ts \<and> sorted_wrt (\<lambda>a b. compare_tokens a b \<le> 0) (qsort ts))"











text \<open>A sorting function: the insertion sort of the library, by line and column.\<close>

definition token_sort :: "sem_token list \<Rightarrow> sem_token list" where
  "token_sort ts = sort_key st_line (sort_key st_col ts)"

lemma sorted_snd_insort:
  "sorted_wrt (\<lambda>a b. compare_tokens a b \<le> 0) ts \<Longrightarrow> (\<forall>u \<in> set ts. st_col t \<le> st_col u) \<Longrightarrow>
   sorted_wrt (\<lambda>a b. compare_tokens a b \<le> 0) (insort_key st_line t ts)"
proof (induction ts)
  case (Cons u ts)
  show ?case
  proof (cases "st_line t \<le> st_line u")
    case True
    then have "compare_tokens t x \<le> 0" if "x \<in> set (u # ts)" for x
      using Cons.prems that by (auto simp: compare_tokens_def split: if_splits)
    with Cons.prems True show ?thesis by simp
  next
    case False
    then have "compare_tokens u t \<le> 0" by (simp add: compare_tokens_def)
    with False Cons show ?thesis by (auto simp: set_insort_key)
  qed
qed simp

lemma token_sort_ok: "qsort_ok token_sort"
proof -
  have "sorted_wrt (\<lambda>a b. compare_tokens a b \<le> 0) (sort_key st_line ts)" if "sorted (map st_col ts)" for ts
    using that by (induction ts) (auto intro: sorted_snd_insort)
  then show ?thesis by (simp add: qsort_ok_def token_sort_def)
qed

definition demo_source :: string where "demo_source = ''let n: int'' @ [NL] @ ''return''"


lemma compare_le:
  "compare_tokens a b \<le> 0 \<longleftrightarrow> st_line a < st_line b \<or> st_line a = st_line b \<and> st_col a \<le> st_col b"
  by (auto simp: compare_tokens_def)

lemma encode_nonneg:
  assumes "sorted_wrt (\<lambda>a b. compare_tokens a b \<le> 0) ts" "tokens_ok ts"
    "\<forall>t \<in> set ts. line < st_line t \<or> line = st_line t \<and> col \<le> st_col t"
    "case prev of None \<Rightarrow> True | Some q \<Rightarrow> line = st_line q \<and> col = st_col q"
  shows "\<forall>x \<in> set (encode_tokens prev line col ts). 0 \<le> x"
  using assms
proof (induction prev line col ts rule: encode_tokens.induct)
  case (2 prev line col t ts)
  let ?same = "case prev of Some q \<Rightarrow> st_line t = st_line q \<and> st_col t = st_col q | None \<Rightarrow> False"
  have after: "\<forall>u \<in> set ts. st_line t < st_line u \<or> st_line t = st_line u \<and> st_col t \<le> st_col u"
    using "2.prems"(1) by (simp add: compare_le)
  have ts: "sorted_wrt (\<lambda>a b. compare_tokens a b \<le> 0) ts" "tokens_ok ts" and t: "token_ok t"
    using "2.prems"(1,2) by (auto simp: tokens_ok_def)
  show ?case
  proof (cases ?same)
    case True
    then have "line = st_line t" "col = st_col t" using "2.prems"(4) by (auto split: option.splits)
    with "2.IH"(1) [OF True ts] after True show ?thesis by simp
  next
    case False
    have rest: "\<forall>x \<in> set (encode_tokens (Some t) (st_line t) (st_col t) ts). 0 \<le> x"
      using "2.IH"(2) [OF False refl refl ts after] by simp
    have "line < st_line t \<or> line = st_line t \<and> col \<le> st_col t" using "2.prems"(3) by simp
    with rest t show ?thesis by (simp only: encode_tokens.simps False if_False) (auto simp: Let_def token_ok_def)
  qed
qed simp

text \<open>
  No number the server sends is negative, as the protocol asks for: the tokens are sorted before their
  differences are taken, and none lies before the start of the file.
\<close>

theorem semantic_numbers_unsigned:
  assumes "qsort_ok qsort"
  shows "\<forall>x \<in> set (lsp_semantic_tokens_full qsort pf). 0 \<le> x"
proof (cases pf)
  case (Some f)
  obtain source ast where f: "f = (source, ast)" by (cases f)
  let ?ts = "qsort (collect_tokens source ast)"
  have ts: "set ?ts = set (collect_tokens source ast)" "sorted_wrt (\<lambda>a b. compare_tokens a b \<le> 0) ?ts"
    using assms by (auto simp: qsort_ok_def dest: mset_eq_setD)
  have ok: "tokens_ok ?ts" using collect_ok ts(1) by (simp add: tokens_ok_def)
  then have "\<forall>t \<in> set ?ts. 0 < st_line t \<or> 0 = st_line t \<and> 0 \<le> st_col t"
    by (force simp: tokens_ok_def token_ok_def)
  from encode_nonneg [OF ts(2) ok this, of None] show ?thesis
    by (simp add: Some f lsp_semantic_tokens_full_def)
qed (simp add: lsp_semantic_tokens_full_def)

theorem semantic_numbers_unsigned_witness:
  "- 1 \<notin> set (lsp_semantic_tokens_full token_sort (Some (Some demo_source, [Return (Meta TOKEN_UNKNOWN None []) []])))"
  using semantic_numbers_unsigned [OF token_sort_ok] by fastforce

section \<open>The keywords are where the source has them\<close>

text \<open>A word of the source from \<open>p\<close> to \<open>e\<close>: it cannot be made longer on either side.\<close>

definition word_between :: "string \<Rightarrow> nat \<Rightarrow> nat \<Rightarrow> bool" where
  "word_between s p e \<longleftrightarrow>
     p < e \<and> e \<le> length s \<and> (\<forall>k \<in> {p..<e}. ident_char (s ! k))
     \<and> (p = 0 \<or> \<not> ident_char (s ! (p - 1))) \<and> (e = length s \<or> \<not> ident_char (s ! e))"

definition keyword_at :: "string \<Rightarrow> nat \<Rightarrow> nat \<Rightarrow> sem_token \<Rightarrow> bool" where
  "keyword_at s p e t \<longleftrightarrow>
     word_between s p e \<and> word_type (take (e - p) (drop p s)) = Some (st_token_type t)
     \<and> st_line t = int (count_list (take p s) NL)
     \<and> st_col t = int (length (takeWhile (\<lambda>c. c \<noteq> NL) (rev (take p s))))
     \<and> st_length t = int (e - p) \<and> st_token_modifiers t = 0"

lemma position_of_lines:
  "position_of s p = (int (count_list (take p s) NL), int (length (takeWhile (\<lambda>c. c \<noteq> NL) (rev (take p s)))))"
proof -
  have "foldl (\<lambda>(line, col) c. if c = NL then (line + 1, 0) else (line, col + 1)) (0, 0) xs
    = (int (count_list xs NL), int (length (takeWhile (\<lambda>c. c \<noteq> NL) (rev xs))))" for xs
    by (induction xs rule: rev_induct) auto
  then show ?thesis by (simp add: position_of_def)
qed

lemma takeWhile_run:
  assumes "p < length s" "ident_char (s ! p)" "len = length (takeWhile ident_char (drop p s))"
  shows "0 < len" "p + len \<le> length s" "\<forall>k \<in> {p..<p + len}. ident_char (s ! k)"
    "p + len = length s \<or> \<not> ident_char (s ! (p + len))"
proof -
  let ?t = "takeWhile ident_char (drop p s)"
  show "0 < len" using assms by (simp add: takeWhile_eq_Nil_iff hd_drop_conv_nth)
  have le: "len \<le> length s - p" using length_takeWhile_le [of ident_char "drop p s"] assms(3) by simp
  then show "p + len \<le> length s" using assms(1) by simp
  show "\<forall>k \<in> {p..<p + len}. ident_char (s ! k)"
  proof
    fix k assume k: "k \<in> {p..<p + len}"
    then have "?t ! (k - p) = s ! k"
      using assms(1,3) takeWhile_nth [of "k - p" ident_char "drop p s"] by (simp add: less_diff_conv2)
    moreover have "?t ! (k - p) \<in> set ?t" using k assms(3) by (intro nth_mem) auto
    ultimately show "ident_char (s ! k)" by (auto dest: set_takeWhileD)
  qed
  show "p + len = length s \<or> \<not> ident_char (s ! (p + len))"
    using nth_length_takeWhile [of ident_char "drop p s"] assms(1,3) le by (cases "p + len = length s") auto
qed

lemma word_unique: "word_between s p e \<Longrightarrow> word_between s p e' \<Longrightarrow> e = e'"
  unfolding word_between_def by (metis atLeastLessThan_iff le_neq_implies_less less_imp_le_nat not_le_imp_less order.strict_trans1 nat_less_le)

lemma keyword_loop_set:
  assumes "p = 0 \<or> length s \<le> p \<or> \<not> ident_char (s ! (p - 1)) \<or> \<not> ident_char (s ! p)"
  shows "t \<in> set (keyword_loop b s p) \<longleftrightarrow> t \<in> set b \<or> (\<exists>q e. p \<le> q \<and> keyword_at s q e t)"
  using assms
proof (induction b s p rule: keyword_loop.induct)
  case (1 b s p)
  show ?case
  proof (cases "length s \<le> p")
    case True
    then have "\<not> keyword_at s q e t" if "p \<le> q" for q e
      using that by (auto simp: keyword_at_def word_between_def)
    with True show ?thesis by (subst keyword_loop.simps) auto
  next
    case inside: False
    show ?thesis
    proof (cases "ident_char (s ! p)")
      case False
      have skip: "p \<le> q \<longleftrightarrow> Suc p \<le> q" if "keyword_at s q e t" for q e
        using that False by (auto simp: keyword_at_def word_between_def Suc_le_eq le_less)
      have "t \<in> set (keyword_loop b s (Suc p)) \<longleftrightarrow> t \<in> set b \<or> (\<exists>q e. Suc p \<le> q \<and> keyword_at s q e t)"
        using "1.IH"(1) [OF inside] False by simp
      with skip show ?thesis using inside False by (subst keyword_loop.simps) auto
    next
      case True
      define len where "len = length (takeWhile ident_char (drop p s))"
      define w where "w = take len (drop p s)"
      define b' where "b' = (case word_type w of None \<Rightarrow> b
        | Some ty \<Rightarrow> (let (line, col) = position_of s p in builder_push b line col (int len) ty 0))"
      note run = takeWhile_run [OF _ True len_def]
      have p: "p < length s" using inside by simp
      have here: "word_between s p (p + len)"
        using run [OF p] "1.prems" True p by (auto simp: word_between_def)
      have split: "p \<le> q \<and> keyword_at s q e t \<longleftrightarrow> q = p \<and> e = p + len \<and> keyword_at s p (p + len) t
          \<or> p + len \<le> q \<and> keyword_at s q e t" for q e
      proof -
        have "e = p + len" if "keyword_at s p e t"
          using that here word_unique by (auto simp: keyword_at_def)
        moreover have "\<not> (p < q \<and> q < p + len)" if "keyword_at s q e t"
        proof
          assume "p < q \<and> q < p + len"
          then have "q - 1 \<in> {p..<p + len}" "q \<noteq> 0" by auto
          then have "ident_char (s ! (q - 1))" "q \<noteq> 0" using run(3) [OF p] by blast+
          with that show False by (auto simp: keyword_at_def word_between_def)
        qed
        ultimately show ?thesis by (cases "q = p") auto
      qed
      have "t \<in> set b' \<longleftrightarrow> t \<in> set b \<or> keyword_at s p (p + len) t"
        using here by (cases t)
          (auto simp: b'_def builder_push_def position_of_lines keyword_at_def w_def split: option.split)
      moreover have "t \<in> set (keyword_loop b' s (p + len))
          \<longleftrightarrow> t \<in> set b' \<or> (\<exists>q e. p + len \<le> q \<and> keyword_at s q e t)"
        unfolding b'_def w_def
      proof (rule "1.IH"(2) [OF inside _ len_def])
        show "p + len = 0 \<or> length s \<le> p + len \<or> \<not> ident_char (s ! (p + len - 1)) \<or> \<not> ident_char (s ! (p + len))"
          using run(4) [OF p] by auto
      qed (use True in simp)
      moreover have "keyword_loop b s p = keyword_loop b' s (p + len)"
        unfolding b'_def w_def len_def using inside True by (subst keyword_loop.simps) (simp add: Let_def)
      ultimately show ?thesis using split by metis
    qed
  qed
qed

text \<open>
  The keyword tokens are exactly the words of the source that name a primitive type or a keyword,
  each with the line and the column at which it stands.
\<close>

theorem keywords_are_words:
  "t \<in> set (emit_keywords [] (Some s)) \<longleftrightarrow> (\<exists>p e. keyword_at s p e t)"
  using keyword_loop_set [of 0 s t "[]"] by (simp add: emit_keywords_def)

section \<open>What is not visited\<close>

text \<open>Only the first field of a struct gets a token, and nothing below an \<open>if\<close>.\<close>

lemma second_field_unmarked:
  "traverse_node b (Some (Other m NODE_STRUCT [f # fs])) depth = traverse_node b (Some (Other m NODE_STRUCT [[f]])) depth"
proof -
  have "visits (Other m NODE_STRUCT [f # cs]) = [f]" for cs
    by (simp add: visits_def visited_kinds_def)
  moreover have "push_mark b (Other m NODE_STRUCT css) = push_mark b (Other m NODE_STRUCT css')" for css css'
    by (simp add: push_mark_def push_node_def)
  ultimately show ?thesis
    unfolding traverse_node.simps(2) [of b "Other m NODE_STRUCT _"] by simp metis
qed

lemma branches_unmarked: "traverse_node b (Some (If m c thn els)) depth = b"
  by (simp add: traverse_node.simps(2) visits_def visited_kinds_def push_mark_def)

end
