(* ===== verification/ZcReadline.thy ===== *)
theory ZcReadline
  imports ZcTypeStr
begin

text \<open>
  The line editor of the REPL (\<open>src/src/repl/repl_readline.c\<close>). The keys are a list of characters, the
  end of the list a read that fails; what is printed on the terminal is not modelled. The line is the
  text before the NUL of \<open>buf\<close>, with the size of its block; a write past the block and the use of a
  character that was not read are faults.
\<close>

datatype rl_fault = Out_of_block | Uninitialised

record line_state =
  rl_buf_size :: nat
  rl_buf :: string
  rl_pos :: nat
  rl_history_idx :: nat
  rl_saved_current_line :: "string option"
  rl_in_search_mode :: bool
  rl_search_buf :: string
  rl_search_match_idx :: int

abbreviation rl_len :: "line_state \<Rightarrow> nat" where "rl_len st \<equiv> length (rl_buf st)"

abbreviation key :: "nat \<Rightarrow> char" where "key n \<equiv> char_of n"

definition iscntrl :: "char \<Rightarrow> bool" where
  "iscntrl c \<longleftrightarrow> ord c < 32 \<or> ord c = 127"

section \<open>Completion\<close>

definition REPL_KEYWORDS :: "string list" where
  "REPL_KEYWORDS =
     [''fn'', ''struct'', ''var'', ''let'', ''def'', ''const'', ''return'', ''if'', ''else'', ''for'',
      ''while'', ''do'', ''switch'', ''case'', ''default'', ''break'', ''continue'', ''typedef'',
      ''enum'', ''union'', ''sizeof'', ''typeof'', ''import'', ''include'', ''defer'', ''guard'',
      ''match'', ''impl'', ''trait'', ''comptime'', ''asm'', ''plugin'', ''true'', ''false'', ''null'',
      ''NULL'']"

definition COMMANDS :: "string list" where
  "COMMANDS =
     ['':help'', '':reset'', '':imports'', '':vars'', '':funcs'', '':structs'', '':history'', '':type'',
      '':time'', '':c'', '':doc'', '':run'', '':edit'', '':save'', '':load'', '':watch'', '':unwatch'',
      '':undo'', '':delete'', '':clear'', '':quit'', '':show'']"

definition completion_char :: "char \<Rightarrow> bool" where
  "completion_char c \<longleftrightarrow> isalnum c \<or> c = CHR ''_'' \<or> c = CHR '':'' \<or> c = CHR ''!''"

definition completion_candidates :: "string list \<Rightarrow> string \<Rightarrow> string list" where
  "completion_candidates symbols prefix =
     REPL_KEYWORDS
     @ (if at prefix 0 = CHR '':'' then COMMANDS else [])
     @ (if at prefix 0 \<noteq> CHR '':'' then symbols else [])"

definition repl_complete :: "string list \<Rightarrow> string \<Rightarrow> nat \<Rightarrow> string option" where
  "repl_complete symbols buf pos =
     (let prefix = rev (takeWhile completion_char (rev (take pos buf)));
          len = length prefix;
          matches = List.filter (\<lambda>w. take len w = prefix) (completion_candidates symbols prefix)
      in if len = 0 \<or> len \<ge> 255 then None
         else if length matches = 1 then Some (drop len (last matches)) else None)"

section \<open>The line and its block\<close>

definition skip_word_forward :: "string \<Rightarrow> nat \<Rightarrow> nat" where
  "skip_word_forward buf pos =
     (let pos1 = pos + length (takeWhile isspace (drop pos buf))
      in pos1 + length (takeWhile (\<lambda>c. \<not> isspace c) (drop pos1 buf)))"

definition skip_word_backward :: "string \<Rightarrow> nat \<Rightarrow> nat" where
  "skip_word_backward buf pos =
     (let pos1 = pos - length (takeWhile isspace (rev (take pos buf)))
      in pos1 - length (takeWhile (\<lambda>c. \<not> isspace c) (rev (take pos1 buf))))"

text \<open>The \<open>memmove\<close> that opens a gap for \<open>s\<close> at the cursor moves the terminator to its new place.\<close>

definition insert_text :: "line_state \<Rightarrow> string \<Rightarrow> rl_fault + line_state" where
  "insert_text st s =
     (if rl_pos st > rl_len st \<or> rl_len st + length s + 1 > rl_buf_size st then Inl Out_of_block
      else Inr (st\<lparr>rl_buf := take (rl_pos st) (rl_buf st) @ s @ drop (rl_pos st) (rl_buf st),
                   rl_pos := rl_pos st + length s\<rparr>))"

definition grow_line :: "line_state \<Rightarrow> line_state" where
  "grow_line st =
     (if rl_len st \<ge> rl_buf_size st - 1 then st\<lparr>rl_buf_size := rl_buf_size st * 2\<rparr> else st)"

text \<open>A line that replaces the old one, in a block of its own.\<close>

definition load_line :: "string \<Rightarrow> line_state \<Rightarrow> line_state" where
  "load_line s st = st\<lparr>rl_buf := s, rl_buf_size := length s + 1, rl_pos := length s\<rparr>"

definition delete_key :: "line_state \<Rightarrow> line_state" where
  "delete_key st =
     (if rl_pos st < rl_len st
      then st\<lparr>rl_buf := take (rl_pos st) (rl_buf st) @ drop (rl_pos st + 1) (rl_buf st)\<rparr> else st)"

definition backspace :: "line_state \<Rightarrow> line_state" where
  "backspace st =
     (if rl_pos st > 0
      then st\<lparr>rl_buf := take (rl_pos st - 1) (rl_buf st) @ drop (rl_pos st) (rl_buf st), rl_pos := rl_pos st - 1\<rparr>
      else st)"

section \<open>History\<close>

definition history_up :: "string list \<Rightarrow> line_state \<Rightarrow> line_state" where
  "history_up history st =
     (if rl_history_idx st > 0 then
        (let st1 = (if rl_history_idx st = length history
                    then st\<lparr>rl_saved_current_line := Some (rl_buf st)\<rparr> else st);
             idx = rl_history_idx st - 1;
             st2 = st1\<lparr>rl_history_idx := idx\<rparr>
         in if idx < length history then load_line (history ! idx) st2 else st2)
      else st)"

definition history_down :: "string list \<Rightarrow> line_state \<Rightarrow> line_state" where
  "history_down history st =
     (if rl_history_idx st < length history then
        (let idx = rl_history_idx st + 1;
             line = (if idx = length history
                     then (case rl_saved_current_line st of Some s \<Rightarrow> s | None \<Rightarrow> [])
                     else history ! idx)
         in load_line line (st\<lparr>rl_history_idx := idx\<rparr>))
      else st)"

text \<open>The loop from \<open>start\<close> down to the first entry.\<close>

definition search_back :: "string list \<Rightarrow> string \<Rightarrow> int \<Rightarrow> nat option" where
  "search_back history pat start =
     List.find (\<lambda>i. strstr (history ! i) pat \<noteq> None) (rev [0..<nat (start + 1)])"

definition load_found :: "string list \<Rightarrow> nat option \<Rightarrow> line_state \<Rightarrow> line_state" where
  "load_found history found st =
     (case found of
        None \<Rightarrow> st
      | Some i \<Rightarrow> (load_line (history ! i) (st\<lparr>rl_search_match_idx := int i\<rparr>))\<lparr>rl_history_idx := i\<rparr>)"

definition reverse_search :: "string list \<Rightarrow> line_state \<Rightarrow> line_state" where
  "reverse_search history st =
     (let st1 = (if rl_in_search_mode st then st
                 else st\<lparr>rl_in_search_mode := True, rl_search_buf := [],
                         rl_search_match_idx := int (length history)\<rparr>);
          start_idx = rl_search_match_idx st1 - 1;
          start = (if start_idx \<ge> int (length history) then int (length history) - 1 else start_idx)
      in load_found history (search_back history (rl_search_buf st1) start) st1)"

section \<open>Keys\<close>

text \<open>What the loop does next; a line that is returned comes with the \<open>aborted\<close> flag of the session.\<close>

datatype outcome = Again line_state | Line "string option" bool

definition search_again :: "string list \<Rightarrow> line_state \<Rightarrow> line_state" where
  "search_again history st =
     load_found history (search_back history (rl_search_buf st) (int (length history) - 1)) st"

definition search_key :: "string list \<Rightarrow> line_state \<Rightarrow> char \<Rightarrow> rl_fault + outcome" where
  "search_key history st c =
     (let sl = length (rl_search_buf st) in
      if c = key 127 \<or> c = key 8 then
        (if sl > 0 then
           Inr (Again (search_again history
             (st\<lparr>rl_search_buf := butlast (rl_search_buf st), rl_search_match_idx := int (length history)\<rparr>)))
         else Inr (Again st))
      else if c = CR \<or> c = NL \<or> c = key 27 \<or> c = key 7 \<or> c = key 3 then
        (if c = key 3 then Inr (Line (Some []) False)
         else if c = CR \<or> c = NL then Inr (Line (Some (rl_buf st)) False)
         else Inr (Again (st\<lparr>rl_in_search_mode := False\<rparr>)))
      else if \<not> iscntrl c then
        (if sl < 255 then
           (if sl + 1 < 256
            then Inr (Again (search_again history (st\<lparr>rl_search_buf := rl_search_buf st @ [c]\<rparr>)))
            else Inl Out_of_block)
         else Inr (Again st))
      else Inr (Again st))"

definition complete_key :: "string list \<Rightarrow> line_state \<Rightarrow> rl_fault + outcome" where
  "complete_key symbols st =
     (case repl_complete symbols (rl_buf st) (rl_pos st) of
        None \<Rightarrow> Inr (Again st)
      | Some completion \<Rightarrow>
          if rl_len st + length completion < rl_buf_size st - 1 then
            (case insert_text st completion of Inl e \<Rightarrow> Inl e | Inr st1 \<Rightarrow> Inr (Again st1))
          else Inr (Again st))"

definition plain_key :: "string list \<Rightarrow> string list \<Rightarrow> line_state \<Rightarrow> char \<Rightarrow> rl_fault + outcome" where
  "plain_key history symbols st c =
     (if c = key 127 \<or> c = key 8 then Inr (Again (backspace st))
      else if c = CR \<or> c = NL then Inr (Line (Some (rl_buf st)) False)
      else if c = key 3 then Inr (Line (Some []) True)
      else if c = key 4 then (if rl_len st = 0 then Inr (Line None False) else Inr (Again st))
      else if c = key 9 then complete_key symbols st
      else if c = key 18 then Inr (Again (reverse_search history st))
      else if rl_in_search_mode st then search_key history st c
      else if c = key 1 then Inr (Again (st\<lparr>rl_pos := 0\<rparr>))
      else if c = key 5 then Inr (Again (st\<lparr>rl_pos := rl_len st\<rparr>))
      else if c = key 12 then Inr (Again st)
      else if c = key 21 then
        Inr (Again (if rl_pos st > 0 then st\<lparr>rl_buf := drop (rl_pos st) (rl_buf st), rl_pos := 0\<rparr> else st))
      else if c = key 11 then Inr (Again (st\<lparr>rl_buf := take (rl_pos st) (rl_buf st)\<rparr>))
      else if c = key 14 then Inr (Line (Some '':reset'') False)
      else if \<not> iscntrl c then
        (case insert_text (grow_line st) [c] of Inl e \<Rightarrow> Inl e | Inr st1 \<Rightarrow> Inr (Again st1))
      else Inr (Again st))"

text \<open>An escape sequence and the keys that are left after it. \<open>ESC [ digit\<close> at the end of the input
  leaves \<open>seq[2]\<close> as it was.\<close>

definition tilde_key :: "line_state \<Rightarrow> char \<Rightarrow> line_state" where
  "tilde_key st s1 =
     (if s1 = CHR ''1'' \<or> s1 = CHR ''7'' then st\<lparr>rl_pos := 0\<rparr>
      else if s1 = CHR ''4'' \<or> s1 = CHR ''8'' then st\<lparr>rl_pos := rl_len st\<rparr>
      else if s1 = CHR ''3'' then delete_key st
      else st)"

definition bracket_key :: "string list \<Rightarrow> line_state \<Rightarrow> char \<Rightarrow> line_state" where
  "bracket_key history st s1 =
     (if s1 = CHR ''A'' then history_up history st
      else if s1 = CHR ''B'' then history_down history st
      else if s1 = CHR ''C'' then (if rl_pos st < rl_len st then st\<lparr>rl_pos := rl_pos st + 1\<rparr> else st)
      else if s1 = CHR ''D'' then (if rl_pos st > 0 then st\<lparr>rl_pos := rl_pos st - 1\<rparr> else st)
      else if s1 = CHR ''H'' then st\<lparr>rl_pos := 0\<rparr>
      else if s1 = CHR ''F'' then st\<lparr>rl_pos := rl_len st\<rparr>
      else st)"

definition word_key :: "line_state \<Rightarrow> char \<Rightarrow> line_state" where
  "word_key st s4 =
     (if s4 = CHR ''C'' then st\<lparr>rl_pos := skip_word_forward (rl_buf st) (rl_pos st)\<rparr>
      else if s4 = CHR ''D'' then st\<lparr>rl_pos := skip_word_backward (rl_buf st) (rl_pos st)\<rparr>
      else st)"

fun escape_sequence :: "string list \<Rightarrow> line_state \<Rightarrow> string \<Rightarrow> rl_fault + line_state \<times> string" where
  "escape_sequence history st (s0 # s1 # keys) =
     (if s0 = CHR ''['' then
        (if isdigit s1 then
           (case keys of
              [] \<Rightarrow> Inl Uninitialised
            | s2 # keys2 \<Rightarrow>
                if s2 = CHR '';'' then
                  (case keys2 of s3 # s4 # keys4 \<Rightarrow> Inr (word_key st s4, keys4) | _ \<Rightarrow> Inr (st, []))
                else if s2 = CHR ''~'' then Inr (tilde_key st s1, keys2)
                else Inr (st, keys2))
         else Inr (bracket_key history st s1, keys))
      else if s0 = CHR ''O'' then
        Inr (if s1 = CHR ''H'' then st\<lparr>rl_pos := 0\<rparr>
             else if s1 = CHR ''F'' then st\<lparr>rl_pos := rl_len st\<rparr> else st, keys)
      else Inr (st, keys))"
| "escape_sequence history st _ = Inr (st, [])"

lemma escape_sequence_shorter: "escape_sequence history st keys = Inr (st', keys') \<Longrightarrow> length keys' \<le> length keys"
  by (induction history st keys rule: escape_sequence.induct) (auto split: if_splits list.splits)

section \<open>The loop\<close>

function readline_loop ::
    "string list \<Rightarrow> string list \<Rightarrow> line_state \<Rightarrow> string \<Rightarrow> rl_fault + string option \<times> bool" where
  "readline_loop history symbols st [] = Inr (Some (rl_buf st), False)"
| "readline_loop history symbols st (c # keys) =
     (if c = key 27 then
        (case escape_sequence history st keys of
           Inl e \<Rightarrow> Inl e
         | Inr (st1, keys1) \<Rightarrow> readline_loop history symbols st1 keys1)
      else
        (case plain_key history symbols st c of
           Inl e \<Rightarrow> Inl e
         | Inr (Again st1) \<Rightarrow> readline_loop history symbols st1 keys
         | Inr (Line line aborted) \<Rightarrow> Inr (line, aborted)))"
  by pat_completeness auto
termination
  by (relation "measure (\<lambda>(_, _, _, keys). length keys)") (auto dest: escape_sequence_shorter)

declare readline_loop.simps(2) [simp del]

fun indent_line :: "nat \<Rightarrow> line_state \<Rightarrow> line_state" where
  "indent_line 0 st = st"
| "indent_line (Suc n) st =
     (let st1 = grow_line st in indent_line n (st1\<lparr>rl_buf := rl_buf st1 @ '' '', rl_pos := rl_pos st1 + 1\<rparr>))"

definition empty_line :: "string list \<Rightarrow> line_state" where
  "empty_line history =
     \<lparr>rl_buf_size = 1024, rl_buf = [], rl_pos = 0, rl_history_idx = length history,
      rl_saved_current_line = None, rl_in_search_mode = False, rl_search_buf = [],
      rl_search_match_idx = -1\<rparr>"

definition repl_readline ::
    "string list \<Rightarrow> string list \<Rightarrow> nat \<Rightarrow> string \<Rightarrow> rl_fault + string option \<times> bool" where
  "repl_readline history symbols indent_level keys =
     readline_loop history symbols (indent_line (indent_level * 4) (empty_line history)) keys"

section \<open>The line stays in its block\<close>

definition line_ok :: "string list \<Rightarrow> line_state \<Rightarrow> bool" where
  "line_ok history st \<longleftrightarrow>
     rl_pos st \<le> rl_len st \<and> rl_len st < rl_buf_size st \<and> rl_history_idx st \<le> length history
     \<and> length (rl_search_buf st) \<le> 255 \<and> rl_search_match_idx st \<le> int (length history)"

lemma insert_text_ok:
  "line_ok history st \<Longrightarrow> rl_len st + length s < rl_buf_size st \<Longrightarrow> \<exists>st'. insert_text st s = Inr st' \<and> line_ok history st'"
  by (auto simp: insert_text_def line_ok_def)

lemma grow_line_ok: "line_ok history st \<Longrightarrow> line_ok history (grow_line st) \<and> rl_len (grow_line st) + 1 < rl_buf_size (grow_line st)"
  by (auto simp: grow_line_def line_ok_def)

lemma grow_line_keeps [simp]:
  "rl_buf (grow_line st) = rl_buf st" "rl_pos (grow_line st) = rl_pos st"
  "rl_in_search_mode (grow_line st) = rl_in_search_mode st"
  by (simp_all add: grow_line_def)

lemma load_line_ok: "line_ok history st \<Longrightarrow> line_ok history (load_line s st)"
  by (simp add: load_line_def line_ok_def)

lemma search_back_found: "search_back history pat start = Some i \<Longrightarrow> int i \<le> start"
  by (auto simp: search_back_def find_Some_iff rev_nth)

lemma load_found_ok:
  assumes "line_ok history st" "search_back history pat start = found" "start < int (length history)"
  shows "line_ok history (load_found history found st)"
proof (cases found)
  case (Some i)
  then have "i < length history" using assms(2,3) search_back_found by force
  with assms(1) Some show ?thesis by (simp add: load_found_def load_line_def line_ok_def)
qed (use assms(1) in \<open>simp add: load_found_def\<close>)

lemma history_ok:
  "line_ok history st \<Longrightarrow> line_ok history (history_up history st)"
  "line_ok history st \<Longrightarrow> line_ok history (history_down history st)"
  by (cases history) (auto simp: history_up_def history_down_def load_line_def line_ok_def Let_def)

lemma reverse_search_ok: "line_ok history st \<Longrightarrow> line_ok history (reverse_search history st)"
  unfolding reverse_search_def Let_def by (intro load_found_ok [OF _ refl]) (auto simp: line_ok_def)

lemma search_again_ok: "line_ok history st \<Longrightarrow> line_ok history (search_again history st)"
  unfolding search_again_def by (intro load_found_ok [OF _ refl]) auto

lemma skip_word_le:
  "pos \<le> length buf \<Longrightarrow> skip_word_forward buf pos \<le> length buf"
  "skip_word_backward buf pos \<le> pos"
proof -
  assume pos: "pos \<le> length buf"
  have run: "p + length (takeWhile q (drop p buf)) \<le> length buf" if "p \<le> length buf" for p q
    using that length_takeWhile_le [of q "drop p buf"] by simp
  show "skip_word_forward buf pos \<le> length buf"
    unfolding skip_word_forward_def Let_def by (intro run pos)
qed (simp add: skip_word_backward_def Let_def)

definition outcome_ok :: "string list \<Rightarrow> rl_fault + outcome \<Rightarrow> bool" where
  "outcome_ok history r \<longleftrightarrow>
     (case r of Inl _ \<Rightarrow> False | Inr (Again st) \<Rightarrow> line_ok history st | Inr (Line _ _) \<Rightarrow> True)"

lemma outcome_ok_simps [simp]:
  "outcome_ok history (Inr (Again st)) = line_ok history st" "outcome_ok history (Inr (Line l a))"
  by (simp_all add: outcome_ok_def)

lemma search_key_ok:
  assumes "line_ok history st"
  shows "outcome_ok history (search_key history st c)"
proof -
  have "line_ok history (st\<lparr>rl_search_buf := butlast (rl_search_buf st), rl_search_match_idx := int (length history)\<rparr>)"
    "line_ok history (st\<lparr>rl_in_search_mode := False\<rparr>)"
    "length (rl_search_buf st) < 255 \<Longrightarrow> line_ok history (st\<lparr>rl_search_buf := rl_search_buf st @ [c]\<rparr>)"
    using assms by (auto simp: line_ok_def)
  with assms show ?thesis by (auto simp: search_key_def Let_def intro: search_again_ok)
qed

lemma complete_key_ok:
  assumes "line_ok history st"
  shows "outcome_ok history (complete_key symbols st)"
proof (cases "repl_complete symbols (rl_buf st) (rl_pos st)")
  case (Some t)
  show ?thesis
  proof (cases "rl_len st + length t < rl_buf_size st - 1")
    case True
    then have "rl_len st + length t < rl_buf_size st" by linarith
    from insert_text_ok [OF assms this]
    obtain st' where "insert_text st t = Inr st'" "line_ok history st'" by blast
    with Some True show ?thesis by (simp add: complete_key_def)
  qed (use assms Some in \<open>simp add: complete_key_def\<close>)
qed (use assms in \<open>simp add: complete_key_def\<close>)

lemma plain_key_ok:
  assumes "line_ok history st"
  shows "outcome_ok history (plain_key history symbols st c)"
proof -
  obtain st' where ins: "insert_text (grow_line st) [c] = Inr st'" "line_ok history st'"
    using insert_text_ok [of history "grow_line st" "[c]"] grow_line_ok [OF assms] by auto
  have "line_ok history (backspace st)"
    "line_ok history (st\<lparr>rl_buf := drop (rl_pos st) (rl_buf st), rl_pos := 0\<rparr>)"
    "line_ok history (st\<lparr>rl_buf := take (rl_pos st) (rl_buf st)\<rparr>)"
    "rl_pos st = 0 \<Longrightarrow> line_ok history (st\<lparr>rl_buf := []\<rparr>)"
    "line_ok history (st\<lparr>rl_pos := 0\<rparr>)" "line_ok history (st\<lparr>rl_pos := rl_len st\<rparr>)"
    using assms by (auto simp: line_ok_def backspace_def)
  with assms ins show ?thesis
    by (simp add: plain_key_def complete_key_ok search_key_ok reverse_search_ok)
qed

lemma move_ok: "line_ok history st \<Longrightarrow> p \<le> rl_len st \<Longrightarrow> line_ok history (st\<lparr>rl_pos := p\<rparr>)"
  by (simp add: line_ok_def)

lemma pos_le: "line_ok history st \<Longrightarrow> rl_pos st \<le> rl_len st"
  by (simp add: line_ok_def)

lemma bracket_key_ok: "line_ok history st \<Longrightarrow> line_ok history (bracket_key history st s1)"
  unfolding bracket_key_def using pos_le [of history st] by (simp add: history_ok move_ok)

lemma delete_key_ok: "line_ok history st \<Longrightarrow> line_ok history (delete_key st)"
  by (auto simp: delete_key_def line_ok_def)

lemma tilde_key_ok: "line_ok history st \<Longrightarrow> line_ok history (tilde_key st s1)"
  unfolding tilde_key_def by (simp add: delete_key_ok move_ok)

lemma word_key_ok: "line_ok history st \<Longrightarrow> line_ok history (word_key st s4)"
  unfolding word_key_def
  using skip_word_le(1) [OF pos_le, of history st] order_trans [OF skip_word_le(2) pos_le, of history st]
  by (simp add: move_ok)

lemma escape_sequence_ok:
  assumes "line_ok history st" "escape_sequence history st keys = Inr (st', keys')"
  shows "line_ok history st'"
proof (cases "(history, st, keys)" rule: escape_sequence.cases)
  case (1 h s s0 s1 ks)
  with assms show ?thesis
    by (auto simp: bracket_key_ok tilde_key_ok word_key_ok move_ok split: if_splits list.splits)
qed (use assms in auto)

lemma escape_sequence_fault: "escape_sequence history st keys \<noteq> Inl Out_of_block"
  by (induction history st keys rule: escape_sequence.induct) (auto split: if_splits list.splits)

lemma readline_loop_ok: "line_ok history st \<Longrightarrow> readline_loop history symbols st keys \<noteq> Inl Out_of_block"
proof (induction history symbols st keys rule: readline_loop.induct)
  case (2 history symbols st c keys)
  show ?case
  proof (cases "c = key 27")
    case True
    show ?thesis
      using "2.IH"(1) [OF True] True escape_sequence_fault [of history st keys] escape_sequence_ok [OF "2.prems"]
      by (auto simp: readline_loop.simps(2) split: sum.split)
  next
    case False
    show ?thesis
      using "2.IH"(2) [OF False] False plain_key_ok [OF "2.prems", of symbols c]
      by (auto simp: readline_loop.simps(2) outcome_ok_def split: sum.splits outcome.splits)
  qed
qed simp

lemma indent_line_ok:
  "line_ok history st \<Longrightarrow> rl_pos st = rl_len st \<Longrightarrow>
   line_ok history (indent_line n st) \<and> rl_buf (indent_line n st) = rl_buf st @ replicate n CHR '' ''
   \<and> rl_pos (indent_line n st) = rl_len (indent_line n st) \<and> \<not> rl_in_search_mode (indent_line n st) = (\<not> rl_in_search_mode st)"
proof (induction n arbitrary: st)
  case (Suc n)
  let ?st = "(grow_line st)\<lparr>rl_buf := rl_buf (grow_line st) @ '' '', rl_pos := rl_pos (grow_line st) + 1\<rparr>"
  have "line_ok history ?st" "rl_pos ?st = rl_len ?st" "rl_buf ?st = rl_buf st @ '' ''"
    "rl_in_search_mode ?st = rl_in_search_mode st"
    using grow_line_ok [OF Suc.prems(1)] Suc.prems(2) by (auto simp: line_ok_def)
  with Suc.IH [of ?st] show ?case by (simp add: Let_def)
qed simp

text \<open>
  C28: whatever keys are typed, with whatever history, symbols and indentation, the line editor never
  writes past the block of its line or of its search pattern.
\<close>

theorem readline_in_bounds: "repl_readline history symbols indent_level keys \<noteq> Inl Out_of_block"
proof -
  have "line_ok history (empty_line history)" by (simp add: line_ok_def empty_line_def)
  then show ?thesis
    using readline_loop_ok indent_line_ok by (auto simp: repl_readline_def empty_line_def)
qed

section \<open>The editor as a text with a gap\<close>

text \<open>What the keys mean, on the text before and after the cursor.\<close>

datatype edit_op =
  Char char | Backspace | Delete | Left | Right | Home | End | Kill_left | Kill_right | Word_left | Word_right

fun bytes_of :: "edit_op \<Rightarrow> string" where
  "bytes_of (Char c) = [c]"
| "bytes_of Backspace = [key 127]"
| "bytes_of Delete = key 27 # ''[3~''"
| "bytes_of Left = key 27 # ''[D''"
| "bytes_of Right = key 27 # ''[C''"
| "bytes_of Home = [key 1]"
| "bytes_of End = [key 5]"
| "bytes_of Kill_left = [key 21]"
| "bytes_of Kill_right = [key 11]"
| "bytes_of Word_left = key 27 # ''[1;5D''"
| "bytes_of Word_right = key 27 # ''[1;5C''"

fun gap_edit :: "edit_op \<Rightarrow> string \<times> string \<Rightarrow> string \<times> string" where
  "gap_edit (Char c) (l, r) = (l @ [c], r)"
| "gap_edit Backspace (l, r) = (butlast l, r)"
| "gap_edit Delete (l, r) = (l, tl r)"
| "gap_edit Left (l, r) = (if l = [] then (l, r) else (butlast l, last l # r))"
| "gap_edit Right (l, r) = (if r = [] then (l, r) else (l @ [hd r], tl r))"
| "gap_edit Home (l, r) = ([], l @ r)"
| "gap_edit End (l, r) = (l @ r, [])"
| "gap_edit Kill_left (l, r) = ([], r)"
| "gap_edit Kill_right (l, r) = (l, [])"
| "gap_edit Word_left (l, r) =
     (let k = dropWhile (\<lambda>c. \<not> isspace c) (dropWhile isspace (rev l)) in (rev k, drop (length k) (l @ r)))"
| "gap_edit Word_right (l, r) =
     (let k = dropWhile (\<lambda>c. \<not> isspace c) (dropWhile isspace r)
      in (take (length (l @ r) - length k) (l @ r), k))"

definition gap :: "line_state \<Rightarrow> string \<times> string" where
  "gap st = (take (rl_pos st) (rl_buf st), drop (rl_pos st) (rl_buf st))"

lemma printable_key: "\<not> iscntrl c \<Longrightarrow> n < 32 \<or> n = 127 \<Longrightarrow> c \<noteq> key n"
  by (auto simp: iscntrl_def)

lemma printable_line_end: "\<not> iscntrl c \<Longrightarrow> c \<noteq> CR \<and> c \<noteq> NL"
  by (auto simp: iscntrl_def)

lemma key_eq: "m < 256 \<Longrightarrow> n < 256 \<Longrightarrow> key m = key n \<longleftrightarrow> m = n"
  by (metis of_char_of mod_less)

lemma key_line_end: "n < 256 \<Longrightarrow> key n = CR \<longleftrightarrow> n = 13" "n < 256 \<Longrightarrow> key n = NL \<longleftrightarrow> n = 10"
proof -
  have "CR = key 13" "NL = key 10" by code_simp+
  then show "n < 256 \<Longrightarrow> key n = CR \<longleftrightarrow> n = 13" "n < 256 \<Longrightarrow> key n = NL \<longleftrightarrow> n = 10"
    by (simp_all only: key_eq)
qed

definition plain_state :: "string list \<Rightarrow> line_state \<Rightarrow> bool" where
  "plain_state history st \<longleftrightarrow> line_ok history st \<and> \<not> rl_in_search_mode st"

lemma gap_char:
  assumes "plain_state history st" "\<not> iscntrl c"
  shows "\<exists>st'. plain_key history symbols st c = Inr (Again st') \<and> plain_state history st' \<and> gap st' = gap_edit (Char c) (gap st)"
proof -
  obtain st' where st': "insert_text (grow_line st) [c] = Inr st'" "line_ok history st'"
    using insert_text_ok [of history "grow_line st" "[c]"] grow_line_ok [of history st] assms(1)
    by (auto simp: plain_state_def)
  then have "plain_state history st' \<and> gap st' = gap_edit (Char c) (gap st)"
    using assms(1) by (auto simp: insert_text_def plain_state_def gap_def line_ok_def split: if_splits)
  with st'(1) assms show ?thesis
    by (simp add: plain_key_def printable_key printable_line_end plain_state_def)
qed

lemma gap_move: "p \<le> rl_len st \<Longrightarrow> gap (st\<lparr>rl_pos := p\<rparr>) = (take p (rl_buf st), drop p (rl_buf st))"
  by (simp add: gap_def)

lemma gap_backspace: "line_ok history st \<Longrightarrow> gap (backspace st) = gap_edit Backspace (gap st)"
  by (auto simp: gap_def backspace_def line_ok_def butlast_take)

lemma gap_delete: "line_ok history st \<Longrightarrow> gap (delete_key st) = gap_edit Delete (gap st)"
  by (auto simp: gap_def delete_key_def line_ok_def tl_drop drop_Suc)

lemma gap_left:
  "line_ok history st \<Longrightarrow> rl_pos st > 0 \<Longrightarrow> gap (st\<lparr>rl_pos := rl_pos st - 1\<rparr>) = gap_edit Left (gap st)"
  by (cases "rl_pos st")
    (auto simp: gap_def line_ok_def butlast_take take_Suc_conv_app_nth Cons_nth_drop_Suc)

lemma gap_right:
  "line_ok history st \<Longrightarrow> rl_pos st < rl_len st \<Longrightarrow> gap (st\<lparr>rl_pos := rl_pos st + 1\<rparr>) = gap_edit Right (gap st)"
  by (auto simp: gap_def line_ok_def take_Suc_conv_app_nth hd_drop_conv_nth tl_drop drop_Suc)

lemma gap_word_right:
  "line_ok history st \<Longrightarrow>
   gap (st\<lparr>rl_pos := skip_word_forward (rl_buf st) (rl_pos st)\<rparr>) = gap_edit Word_right (gap st)"
proof -
  assume ok: "line_ok history st"
  define r where "r = drop (rl_pos st) (rl_buf st)"
  define s where "s = takeWhile isspace r"
  define w where "w = takeWhile (\<lambda>c. \<not> isspace c) (dropWhile isspace r)"
  define k where "k = dropWhile (\<lambda>c. \<not> isspace c) (dropWhile isspace r)"
  have r: "r = s @ w @ k" by (simp add: s_def w_def k_def)
  have buf: "rl_buf st = take (rl_pos st) (rl_buf st) @ s @ w @ k" using r by (metis append_take_drop_id r_def)
  have "drop (rl_pos st + length s) (rl_buf st) = dropWhile isspace r"
    unfolding r_def s_def by (metis add.commute drop_drop dropWhile_eq_drop)
  then have pos: "skip_word_forward (rl_buf st) (rl_pos st) = rl_pos st + length s + length w"
    by (simp add: skip_word_forward_def Let_def s_def w_def r_def)
  have len: "rl_len st = rl_pos st + length s + length w + length k"
    using r pos_le [OF ok] unfolding r_def by (metis add.assoc le_add_diff_inverse length_append length_drop)
  then have "drop (rl_pos st + length s + length w) (rl_buf st) = k"
    using pos_le [OF ok] by (subst buf) simp
  moreover have "gap_edit Word_right (gap st) = (take (rl_len st - length k) (rl_buf st), k)"
    by (simp only: gap_def gap_edit.simps Let_def append_take_drop_id k_def r_def)
  ultimately show ?thesis using pos len by (simp add: gap_move)
qed

lemma gap_word_left:
  "line_ok history st \<Longrightarrow>
   gap (st\<lparr>rl_pos := skip_word_backward (rl_buf st) (rl_pos st)\<rparr>) = gap_edit Word_left (gap st)"
proof -
  assume ok: "line_ok history st"
  define l where "l = take (rl_pos st) (rl_buf st)"
  define k1 where "k1 = dropWhile isspace (rev l)"
  define k where "k = dropWhile (\<lambda>c. \<not> isspace c) k1"
  have split: "length (rev l) = length (takeWhile isspace (rev l)) + length k1"
    "length k1 = length (takeWhile (\<lambda>c. \<not> isspace c) k1) + length k"
    unfolding k1_def k_def by (metis length_append takeWhile_dropWhile_id)+
  have len: "length l = rl_pos st" using pos_le [OF ok] by (simp add: l_def)
  have part: "take (length b) (rl_buf st) = rev b" if "\<exists>a. rev l = a @ b" for b
  proof -
    from that obtain a where "rev l = a @ b" by blast
    then have "l = rev b @ rev a" by (metis rev_append rev_rev_ident)
    then have "rl_buf st = rev b @ rev a @ drop (rl_pos st) (rl_buf st)"
      by (metis append.assoc append_take_drop_id l_def)
    then show ?thesis by (metis append_eq_conv_conj length_rev)
  qed
  have k1: "take (length k1) (rl_buf st) = rev k1"
    by (rule part) (metis k1_def takeWhile_dropWhile_id)
  have k: "take (length k) (rl_buf st) = rev k"
    by (rule part) (metis append.assoc k1_def k_def takeWhile_dropWhile_id)
  have "rl_pos st - length (takeWhile isspace (rev l)) = length k1" using split(1) len by simp
  then have "skip_word_backward (rl_buf st) (rl_pos st)
      = length k1 - length (takeWhile (\<lambda>c. \<not> isspace c) (rev (take (length k1) (rl_buf st))))"
    by (simp only: skip_word_backward_def Let_def flip: l_def)
  then have "skip_word_backward (rl_buf st) (rl_pos st) = length k"
    unfolding k1 rev_rev_ident using split(2) by linarith
  moreover have "gap_edit Word_left (gap st) = (rev k, drop (length k) (rl_buf st))"
    by (simp only: gap_def gap_edit.simps Let_def append_take_drop_id k_def k1_def l_def)
  moreover have "length k \<le> rl_len st" using split len pos_le [OF ok] by simp
  ultimately show ?thesis using k by (simp add: gap_move)
qed

text \<open>One operation is one or more turns of the loop.\<close>

lemma edit_step:
  assumes "plain_state history st" "case e of Char c \<Rightarrow> \<not> iscntrl c | _ \<Rightarrow> True"
  shows "\<exists>st'. readline_loop history symbols st (bytes_of e @ keys) = readline_loop history symbols st' keys
    \<and> plain_state history st' \<and> gap st' = gap_edit e (gap st)"
proof -
  have ok: "line_ok history st" and search: "\<not> rl_in_search_mode st" using assms(1) by (auto simp: plain_state_def)
  have moved: "plain_state history (st\<lparr>rl_pos := p\<rparr>)" if "p \<le> rl_len st" for p
    using move_ok [OF ok that] search by (simp add: plain_state_def)
  note keys = readline_loop.simps(2) plain_key_def key_eq key_line_end search isdigit_def
  show ?thesis
  proof (cases e)
    case (Char c)
    with gap_char [OF assms(1), of c symbols] assms(2) show ?thesis
      by (auto simp: readline_loop.simps(2) printable_key)
  next
    case Backspace
    have "plain_state history (backspace st)"
      using ok search by (auto simp: plain_state_def backspace_def line_ok_def)
    with gap_backspace [OF ok] Backspace show ?thesis by (intro exI [of _ "backspace st"]) (simp add: keys)
  next
    case Delete
    have "plain_state history (delete_key st)"
      using delete_key_ok [OF ok] search by (simp add: plain_state_def delete_key_def)
    with gap_delete [OF ok] Delete show ?thesis
      by (intro exI [of _ "delete_key st"]) (simp add: keys tilde_key_def)
  next
    case Left
    let ?st = "if rl_pos st > 0 then st\<lparr>rl_pos := rl_pos st - 1\<rparr> else st"
    have "plain_state history ?st" "gap ?st = gap_edit Left (gap st)"
      using moved [of "rl_pos st - 1"] assms(1) gap_left [OF ok] pos_le [OF ok] by (auto simp: gap_def)
    with Left show ?thesis by (intro exI [of _ ?st]) (simp add: keys bracket_key_def)
  next
    case Right
    let ?st = "if rl_pos st < rl_len st then st\<lparr>rl_pos := rl_pos st + 1\<rparr> else st"
    have "plain_state history ?st" "gap ?st = gap_edit Right (gap st)"
      using moved [of "rl_pos st + 1"] assms(1) gap_right [OF ok] pos_le [OF ok] by (auto simp: gap_def)
    with Right show ?thesis by (intro exI [of _ ?st]) (simp add: keys bracket_key_def)
  next
    case Home
    then show ?thesis using moved [of 0]
      by (intro exI [of _ "st\<lparr>rl_pos := 0\<rparr>"]) (simp add: keys gap_move, simp add: gap_def)
  next
    case End
    then show ?thesis using moved [of "rl_len st"]
      by (intro exI [of _ "st\<lparr>rl_pos := rl_len st\<rparr>"]) (simp add: keys gap_move, simp add: gap_def)
  next
    case Kill_left
    let ?st = "if rl_pos st > 0 then st\<lparr>rl_buf := drop (rl_pos st) (rl_buf st), rl_pos := 0\<rparr> else st"
    have "plain_state history ?st" "gap ?st = gap_edit Kill_left (gap st)"
      using ok search by (auto simp: plain_state_def line_ok_def gap_def)
    with Kill_left show ?thesis by (intro exI [of _ ?st]) (simp add: keys)
  next
    case Kill_right
    let ?st = "st\<lparr>rl_buf := take (rl_pos st) (rl_buf st)\<rparr>"
    have "plain_state history ?st" "gap ?st = gap_edit Kill_right (gap st)"
      using ok search by (auto simp: plain_state_def line_ok_def gap_def)
    with Kill_right show ?thesis by (intro exI [of _ ?st]) (simp add: keys)
  next
    case Word_left
    then show ?thesis
      using moved [of "skip_word_backward (rl_buf st) (rl_pos st)"] gap_word_left [OF ok]
        order_trans [OF skip_word_le(2) pos_le [OF ok]]
      by (intro exI [of _ "st\<lparr>rl_pos := skip_word_backward (rl_buf st) (rl_pos st)\<rparr>"])
        (simp add: keys word_key_def)
  next
    case Word_right
    then show ?thesis
      using moved [of "skip_word_forward (rl_buf st) (rl_pos st)"] gap_word_right [OF ok]
        skip_word_le(1) [OF pos_le [OF ok]]
      by (intro exI [of _ "st\<lparr>rl_pos := skip_word_forward (rl_buf st) (rl_pos st)\<rparr>"])
        (simp add: keys word_key_def)
  qed
qed

lemma edit_steps:
  assumes "plain_state history st" "\<forall>c. Char c \<in> set es \<longrightarrow> \<not> iscntrl c"
  shows "readline_loop history symbols st (concat (map bytes_of es) @ NL # keys)
    = Inr (Some (fst (fold gap_edit es (gap st)) @ snd (fold gap_edit es (gap st))), False)"
  using assms
proof (induction es arbitrary: st)
  case Nil
  have "gap st = (take (rl_pos st) (rl_buf st), drop (rl_pos st) (rl_buf st))" by (simp add: gap_def)
  moreover have "NL = key 10" by code_simp
  ultimately show ?case by (simp add: readline_loop.simps(2) plain_key_def key_eq)
next
  case (Cons e es)
  have "case e of Char c \<Rightarrow> \<not> iscntrl c | _ \<Rightarrow> True" using Cons.prems(2) by (auto split: edit_op.split)
  from edit_step [OF Cons.prems(1) this]
  obtain st' where "readline_loop history symbols st (bytes_of e @ concat (map bytes_of es) @ NL # keys)
      = readline_loop history symbols st' (concat (map bytes_of es) @ NL # keys)"
    "plain_state history st'" "gap st' = gap_edit e (gap st)" by blast
  with Cons show ?case by simp
qed

text \<open>
  C20: the line editor is a text with a gap: whatever characters, deletions, cursor and word movements are
  typed before the return key, the line that is returned is the one these operations make of the
  indentation, and the keys after the return are not read.
\<close>

theorem readline_edits:
  assumes "\<forall>c. Char c \<in> set es \<longrightarrow> \<not> iscntrl c"
  shows "repl_readline history symbols indent_level (concat (map bytes_of es) @ NL # keys)
    = (let (l, r) = fold gap_edit es (replicate (indent_level * 4) CHR '' '', []) in Inr (Some (l @ r), False))"
proof -
  let ?st = "indent_line (indent_level * 4) (empty_line history)"
  have "line_ok history (empty_line history)" by (simp add: line_ok_def empty_line_def)
  from indent_line_ok [OF this, of "indent_level * 4"]
  have "plain_state history ?st" "gap ?st = (replicate (indent_level * 4) CHR '' '', [])"
    by (auto simp: plain_state_def gap_def empty_line_def)
  from edit_steps [OF this(1) assms] this(2) show ?thesis
    by (simp add: repl_readline_def split: prod.split)
qed

theorem readline_edits_witness:
  "repl_readline [] [] 0 (''ab'' @ [key 1] @ ''x'' @ [key 27] @ ''[C'' @ [key 127, NL])
     = Inr (Some ''xb'', False)"
  using readline_edits [of "[Char (CHR ''a''), Char (CHR ''b''), Home, Char (CHR ''x''), Right, Backspace]" "[]" "[]" 0 "[]"]
  by (simp add: iscntrl_def)

end
