(* ===== verification/ZcProject.thy ===== *)
theory ZcProject
  imports ZcTypeStr "HOL-Library.AList"
begin

text \<open>
  The workspace of the language server (\<open>src/src/lsp/lsp_project.c\<close>): the patterns of \<open>.gitignore\<close>, the
  scan of the directories for source files, the list of the project's files, and the documents the
  client has open, which a rebuild applies again. The file system is an argument: \<open>stat\<close> tells what a
  path names, \<open>readdir\<close> lists the names in a directory and \<open>load\<close> reads a file. The parser and the
  indexes that it fills are not part of the state here.
\<close>

definition MAX_PATH_LEN :: nat where "MAX_PATH_LEN = 4096"

section \<open>Patterns\<close>

text \<open>\<open>glob_match\<close> with its inner loop, which the star enters and which returns from the function.\<close>

function (sequential) glob_match :: "string \<Rightarrow> string \<Rightarrow> bool"
  and glob_star :: "string \<Rightarrow> string \<Rightarrow> bool" where
  "glob_match [] text = (text = [])"
| "glob_match (p # pattern) text =
     (if p = CHR ''*'' then glob_star pattern text
      else case text of
        [] \<Rightarrow> False
      | t # text' \<Rightarrow>
          if (if p = CHR ''?'' then t = CHR ''/'' else p \<noteq> t) then False
          else glob_match pattern text')"
| "glob_star pattern text =
     (if glob_match pattern text then True
      else case text of
        [] \<Rightarrow> False
      | t # text' \<Rightarrow> if t = CHR ''/'' then False else glob_star pattern text')"
  by pat_completeness auto
termination
  by (relation "measures [\<lambda>x. case x of Inl (p, t) \<Rightarrow> 2 * length p | Inr (p, t) \<Rightarrow> 2 * length p + 1,
                          \<lambda>x. case x of Inl (p, t) \<Rightarrow> length t | Inr (p, t) \<Rightarrow> length t]")
     auto

record ignore_rule =
  ir_pattern :: string
  ir_directory_only :: bool
  ir_anchored :: bool
  ir_source :: string

definition trim_end :: "string \<Rightarrow> string" where
  "trim_end line = rev (dropWhile isspace (rev line))"

definition rule_prefix :: "string \<Rightarrow> string \<times> bool" where
  "rule_prefix pattern =
     (if take 3 pattern = ''**/'' then (drop 3 pattern, False)
      else if at pattern 0 = CHR ''/'' then (drop 1 pattern, True)
      else (pattern, CHR ''/'' \<in> set pattern))"

definition parse_ignore_rule :: "string \<Rightarrow> string \<Rightarrow> ignore_rule option" where
  "parse_ignore_rule line source =
     (let line = trim_end line;
          directory_only = line \<noteq> [] \<and> last line = CHR ''/'';
          (pattern, anchored) = rule_prefix (if directory_only then butlast line else line)
      in if at pattern 0 = NUL \<or> at pattern 0 = CHR ''#'' \<or> at pattern 0 = CHR ''!''
            \<or> strstr pattern ''**'' \<noteq> None
         then None
         else Some \<lparr>ir_pattern = pattern, ir_directory_only = directory_only, ir_anchored = anchored,
                    ir_source = source\<rparr>)"

text \<open>The array of rules: \<open>None\<close> is a write beyond its capacity.\<close>

definition add_rule :: "nat \<Rightarrow> string \<Rightarrow> ignore_rule list option \<Rightarrow> string \<Rightarrow> ignore_rule list option" where
  "add_rule capacity source rules line =
     (case rules of
        None \<Rightarrow> None
      | Some rs \<Rightarrow>
          if length rs < capacity
          then Some (case parse_ignore_rule line source of None \<Rightarrow> rs | Some r \<Rightarrow> rs @ [r])
          else None)"

function ignore_lines :: "string \<Rightarrow> string list" where
  "ignore_lines [] = []"
| "ignore_lines (c # cs) =
     takeWhile (\<lambda>c. c \<noteq> NL) (c # cs) # ignore_lines (tl (dropWhile (\<lambda>c. c \<noteq> NL) (c # cs)))"
  by pat_completeness simp_all
termination
  by (relation "measure length") (simp_all add: less_Suc_eq_le length_dropWhile_le le_diff_conv le_SucI)

definition load_ignore_rules :: "string option \<Rightarrow> string list \<Rightarrow> ignore_rule list option" where
  "load_ignore_rules gitignore exclude =
     (let text = (case gitignore of None \<Rightarrow> [] | Some t \<Rightarrow> t);
          capacity = 1 + length exclude + length (List.filter (\<lambda>c. c = NL) text);
          rules = foldl (add_rule capacity ''.gitignore'') (Some []) (ignore_lines text)
      in foldl (add_rule capacity ''zenc.server.json exclude'') rules exclude)"

fun is_ignored :: "ignore_rule list \<Rightarrow> nat \<Rightarrow> string \<Rightarrow> string \<Rightarrow> bool \<Rightarrow> ignore_rule option" where
  "is_ignored [] root_length path name is_directory = None"
| "is_ignored (rule # rules) root_length path name is_directory =
     (let relative = (if length path > root_length then drop (root_length + 1) path else name)
      in if ir_directory_only rule \<and> \<not> is_directory
         then is_ignored rules root_length path name is_directory
         else if glob_match (ir_pattern rule) (if ir_anchored rule then relative else name)
         then Some rule
         else is_ignored rules root_length path name is_directory)"

section \<open>Files of the project\<close>

record project_file =
  pf_uri :: string
  pf_path :: string
  pf_source :: string

fun lsp_project_get_file :: "project_file list \<Rightarrow> string \<Rightarrow> project_file option" where
  "lsp_project_get_file [] uri = None"
| "lsp_project_get_file (f # fs) uri = (if pf_uri f = uri then Some f else lsp_project_get_file fs uri)"

definition add_project_file :: "project_file list \<Rightarrow> string \<Rightarrow> project_file list" where
  "add_project_file fs uri =
     \<lparr>pf_uri = uri, pf_path = (if take 7 uri = ''file://'' then drop 7 uri else uri), pf_source = []\<rparr> # fs"

fun set_source :: "project_file list \<Rightarrow> string \<Rightarrow> string \<Rightarrow> project_file list" where
  "set_source [] uri src = []"
| "set_source (f # fs) uri src =
     (if pf_uri f = uri then f\<lparr>pf_source := src\<rparr> # fs else f # set_source fs uri src)"

definition lsp_project_update_file :: "project_file list \<Rightarrow> string \<Rightarrow> string \<Rightarrow> project_file list" where
  "lsp_project_update_file fs uri src =
     (let fs = (if lsp_project_get_file fs uri = None then add_project_file fs uri else fs)
      in set_source fs uri src)"

section \<open>The scan\<close>

datatype file_kind = S_DIR | S_REG | S_OTHER

definition extension :: "string \<Rightarrow> string option" where
  "extension path =
     (if CHR ''.'' \<in> set path
      then Some (CHR ''.'' # rev (takeWhile (\<lambda>c. c \<noteq> CHR ''.'') (rev path))) else None)"

definition file_uri :: "string \<Rightarrow> string" where
  "file_uri path = snprintf_into (MAX_PATH_LEN + 16) (''file://'' @ path)"

definition scan_file :: "(string \<Rightarrow> string option) \<Rightarrow> project_file list \<Rightarrow> string \<Rightarrow> project_file list" where
  "scan_file load fs path =
     (if extension path \<noteq> Some ''.zc'' then fs
      else if lsp_project_get_file fs (file_uri path) \<noteq> None then fs
      else case load path of
        None \<Rightarrow> fs
      | Some src \<Rightarrow> lsp_project_update_file fs (file_uri path) src)"

definition noise_dirs :: "string list" where
  "noise_dirs = [''node_modules'', ''obj'', ''.git'', ''vhdl'', ''vivado'']"

text \<open>The recursion of \<open>scan_dir\<close>, on fuel: \<open>None\<close> when the fuel does not reach. The first argument holds
  what the file system answers, the rules and the length of the root.\<close>

record scan_env =
  se_stat :: "string \<Rightarrow> file_kind option"
  se_readdir :: "string \<Rightarrow> string list option"
  se_load :: "string \<Rightarrow> string option"
  se_rules :: "ignore_rule list"
  se_root_length :: nat

fun scan_dir :: "nat \<Rightarrow> scan_env \<Rightarrow> string \<Rightarrow> project_file list \<Rightarrow> project_file list option"
  and scan_names :: "nat \<Rightarrow> scan_env \<Rightarrow> string \<Rightarrow> string list \<Rightarrow> project_file list \<Rightarrow> project_file list option" where
  "scan_dir 0 env dir_path fs = None"
| "scan_dir (Suc k) env dir_path fs =
     (case se_readdir env dir_path of
        None \<Rightarrow> Some fs
      | Some names \<Rightarrow> scan_names k env dir_path names fs)"
| "scan_names k env dir_path [] fs = Some fs"
| "scan_names k env dir_path (name # names) fs =
     (if at name 0 = CHR ''.'' \<or> name \<in> set noise_dirs then scan_names k env dir_path names fs
      else
        let path = snprintf_into MAX_PATH_LEN (dir_path @ CHR ''/'' # name)
        in case se_stat env path of
             None \<Rightarrow> scan_names k env dir_path names fs
           | Some kind \<Rightarrow>
               if is_ignored (se_rules env) (se_root_length env) path name (kind = S_DIR) \<noteq> None
               then scan_names k env dir_path names fs
               else if kind = S_DIR then
                 (case scan_dir k env path fs of
                    None \<Rightarrow> None
                  | Some fs' \<Rightarrow> scan_names k env dir_path names fs')
               else if kind = S_REG then scan_names k env dir_path names (scan_file (se_load env) fs path)
               else scan_names k env dir_path names fs)"

section \<open>Open documents and rebuilds\<close>

text \<open>The tracked documents, the most recently opened first.\<close>

type_synonym documents = "(string \<times> string) list"

fun set_document :: "documents \<Rightarrow> string \<Rightarrow> string \<Rightarrow> documents option" where
  "set_document [] uri src = None"
| "set_document ((u, s) # ds) uri src =
     (if u = uri then Some ((u, src) # ds) else map_option (Cons (u, s)) (set_document ds uri src))"

definition lsp_project_track_document :: "documents \<Rightarrow> string \<Rightarrow> string \<Rightarrow> documents" where
  "lsp_project_track_document ds uri src =
     (case set_document ds uri src of None \<Rightarrow> (uri, src) # ds | Some ds' \<Rightarrow> ds')"



section \<open>What a pattern matches\<close>

text \<open>A pattern and a name without slashes: a star stands for any text, a question mark for one
  character.\<close>

inductive wild :: "string \<Rightarrow> string \<Rightarrow> bool" where
  wild_end: "wild [] []"
| wild_star: "wild ps cs \<Longrightarrow> wild (CHR ''*'' # ps) (xs @ cs)"
| wild_any: "wild ps cs \<Longrightarrow> wild (CHR ''?'' # ps) (c # cs)"
| wild_same: "p \<noteq> CHR ''*'' \<Longrightarrow> p \<noteq> CHR ''?'' \<Longrightarrow> wild ps cs \<Longrightarrow> wild (p # ps) (p # cs)"

inductive_simps wild_Nil: "wild [] cs"
inductive_simps wild_Cons: "wild (p # ps) cs"

lemma wild_step:
  "p \<noteq> CHR ''*'' \<Longrightarrow> wild (p # ps) [] = False"
  "p \<noteq> CHR ''*'' \<Longrightarrow> wild (p # ps) (c # cs) \<longleftrightarrow> (p = CHR ''?'' \<or> p = c) \<and> wild ps cs"
  by (auto simp: wild_Cons)

fun components :: "string \<Rightarrow> string list" where
  "components [] = [[]]"
| "components (c # cs) =
     (if c = CHR ''/'' then [] # components cs else (c # hd (components cs)) # tl (components cs))"

lemma components_nonempty [simp]: "components s \<noteq> []"
  by (cases s) simp_all

lemma components_Cons: "c \<noteq> CHR ''/'' \<Longrightarrow> \<exists>x xs. components s = x # xs \<and> components (c # s) = (c # x) # xs"
  by (cases "components s") simp_all

text \<open>Skipping a prefix without slashes shortens the first component only.\<close>

lemma components_drop:
  "n \<le> length (hd (components s)) \<Longrightarrow>
     components (drop n s) = drop n (hd (components s)) # tl (components s)"
proof (induction s arbitrary: n)
  case Nil
  then show ?case by simp
next
  case (Cons c s)
  then show ?case by (cases n) (auto split: if_splits)
qed

lemma glob_star_drop:
  "glob_star ps str \<longleftrightarrow> (\<exists>n \<le> length (hd (components str)). glob_match ps (drop n str))"
proof (induction str)
  case Nil
  then show ?case by simp
next
  case (Cons c cs)
  show ?case
  proof (cases "c = CHR ''/''")
    case True
    then show ?thesis by simp
  next
    case False
    have "(\<exists>n \<le> Suc (length (hd (components cs))). glob_match ps (drop n (c # cs)))
        \<longleftrightarrow> glob_match ps (c # cs) \<or> (\<exists>n \<le> length (hd (components cs)). glob_match ps (drop n cs))"
      by (metis Suc_le_mono drop0 drop_Suc_Cons le0 not0_implies_Suc)
    with False Cons show ?thesis by simp
  qed
qed

declare glob_star.simps [simp del]

lemma wild_star_drop: "wild (CHR ''*'' # ps) cs \<longleftrightarrow> (\<exists>n \<le> length cs. wild ps (drop n cs))"
proof
  assume "wild (CHR ''*'' # ps) cs"
  then obtain xs ys where "cs = xs @ ys" "wild ps ys" by (auto simp: wild_Cons)
  then have "length xs \<le> length cs \<and> wild ps (drop (length xs) cs)" by simp
  then show "\<exists>n \<le> length cs. wild ps (drop n cs)" by blast
next
  assume "\<exists>n \<le> length cs. wild ps (drop n cs)"
  then obtain n where "wild ps (drop n cs)" by blast
  then have "wild (CHR ''*'' # ps) (take n cs @ drop n cs)" by (rule wild_star)
  then show "wild (CHR ''*'' # ps) cs" by simp
qed

lemma glob_match_components:
  "glob_match pattern str \<longleftrightarrow> list_all2 wild (components pattern) (components str)"
proof (induction pattern arbitrary: str)
  case Nil
  then show ?case
    by (cases str) (auto simp: wild_Nil list_all2_Cons1)
next
  case (Cons p ps)
  consider "p = CHR ''*''" | "p = CHR ''/''" | "p \<noteq> CHR ''*''" "p \<noteq> CHR ''/''" by blast
  then show ?case
  proof cases
    case 1
    obtain x xs where x: "components ps = x # xs" by (cases "components ps") simp_all
    obtain y ys where y: "components str = y # ys" by (cases "components str") simp_all
    have "glob_match (p # ps) str
        \<longleftrightarrow> (\<exists>n \<le> length (hd (components str)). glob_match ps (drop n str))"
      using 1 by (simp add: glob_star_drop)
    also have "\<dots> \<longleftrightarrow> (\<exists>n \<le> length (hd (components str)).
        wild x (drop n (hd (components str))) \<and> list_all2 wild xs (tl (components str)))"
      using x Cons.IH components_drop [of _ str] by auto
    also have "\<dots> \<longleftrightarrow> list_all2 wild ((p # x) # xs) (hd (components str) # tl (components str))"
      using 1 y by (auto simp: wild_star_drop)
    finally show ?thesis using 1 x y by simp
  next
    case 2
    then show ?thesis
      using Cons.IH by (cases str) (auto simp: wild_Cons list_all2_Cons1 wild_Nil)
  next
    case 3
    then show ?thesis
    proof (cases str)
      case Nil
      with 3 components_Cons [of p ps] show ?thesis by (auto simp: wild_Cons)
    next
      case (Cons t ts)
      obtain x xs y ys where xy: "components ps = x # xs" "components ts = y # ys"
        by (cases "components ps"; cases "components ts") simp_all
      show ?thesis
        by (cases "t = CHR ''/''") (use 3 Cons Cons.IH [of ts] xy in \<open>auto simp: wild_step\<close>)
    qed
  qed
qed

section \<open>Paths and rules\<close>

text \<open>A path below the root is a list of names.\<close>

definition path_of :: "string \<Rightarrow> string list \<Rightarrow> string" where
  "path_of root names = root @ concat (map (Cons (CHR ''/'')) names)"

lemma path_of_Nil [simp]: "path_of root [] = root"
  by (simp add: path_of_def)


definition proper_name :: "string \<Rightarrow> bool" where
  "proper_name n \<longleftrightarrow> n \<noteq> [] \<and> CHR ''/'' \<notin> set n \<and> NUL \<notin> set n"

lemma components_name: "CHR ''/'' \<notin> set n \<Longrightarrow> components (n @ s) = (n @ hd (components s)) # tl (components s)"
  by (induction n) auto

lemma components_path:
  "list_all proper_name (n # ns) \<Longrightarrow> components (n @ concat (map (Cons (CHR ''/'')) ns)) = n # ns"
proof (induction ns arbitrary: n)
  case Nil
  then show ?case using components_name [of n "[]"] by (simp add: proper_name_def)
next
  case (Cons m ns)
  then have "components (m @ concat (map (Cons (CHR ''/'')) ns)) = m # ns" by simp
  with Cons.prems show ?case by (simp add: components_name proper_name_def)
qed

lemma components_single: "CHR ''/'' \<notin> set s \<Longrightarrow> components s = [s]"
  using components_name [of s "[]"] by simp

text \<open>A rule applies to what a list of names stands for: from the root when it is anchored, and to
  the last name otherwise.\<close>

definition rule_applies :: "string list \<Rightarrow> bool \<Rightarrow> ignore_rule \<Rightarrow> bool" where
  "rule_applies names is_directory rule \<longleftrightarrow>
     (ir_directory_only rule \<longrightarrow> is_directory)
     \<and> list_all2 wild (components (ir_pattern rule)) (if ir_anchored rule then names else [last names])"

lemma is_ignored_first_rule:
  assumes "list_all proper_name names" "names \<noteq> []"
  shows "is_ignored rules (length root) (path_of root names) (last names) is_directory
    = List.find (rule_applies names is_directory) rules"
proof -
  obtain n ns where ns: "names = n # ns" using assms(2) by (cases names) auto
  have whole: "components (drop (length root + 1) (path_of root names)) = names"
    using components_path [of n ns] assms(1) ns by (simp add: path_of_def)
  have "CHR ''/'' \<notin> set (last names)"
    using assms by (auto simp: list_all_iff proper_name_def)
  then have name: "components (last names) = [last names]" by (rule components_single)
  have longer: "length root < length (path_of root names)" using ns by (simp add: path_of_def)
  show ?thesis
    using longer by (induction rules) (auto simp: rule_applies_def glob_match_components whole name
        simp del: One_nat_def)
qed

lemma length_filter_dropWhile: "length (List.filter p (dropWhile q xs)) \<le> length (List.filter p xs)"
  by (induction xs) auto

lemma length_ignore_lines: "length (ignore_lines t) \<le> 1 + length (List.filter (\<lambda>c. c = NL) t)"
proof (induction t rule: ignore_lines.induct)
  case 1
  then show ?case by simp
next
  case (2 c cs)
  define d where "d = dropWhile (\<lambda>c. c \<noteq> NL) (c # cs)"
  have le: "length (List.filter (\<lambda>c. c = NL) d) \<le> length (List.filter (\<lambda>c. c = NL) (c # cs))"
    unfolding d_def by (rule length_filter_dropWhile)
  have split: "length (ignore_lines (c # cs)) = Suc (length (ignore_lines (tl d)))"
    unfolding d_def by (simp only: ignore_lines.simps list.size add_Suc_right add_0_right)
  show ?case
  proof (cases d)
    case Nil
    with split show ?thesis by simp
  next
    case (Cons x r)
    then have "x = NL" using hd_dropWhile [of "\<lambda>c. c \<noteq> NL" "c # cs"] unfolding d_def by force
    with Cons le 2 [folded d_def] split show ?thesis by simp
  qed
qed

lemma add_rules:
  "length rs + length lines \<le> capacity \<Longrightarrow>
     foldl (add_rule capacity source) (Some rs) lines
       = Some (rs @ List.map_filter (\<lambda>l. parse_ignore_rule l source) lines)"
  by (induction lines arbitrary: rs)
     (auto simp: add_rule_def List.map_filter_simps split: option.split)

lemma length_map_filter_le: "length (List.map_filter f xs) \<le> length xs"
  by (induction xs) (auto simp: List.map_filter_simps split: option.split)

text \<open>The lines of a \<open>.gitignore\<close> as they are written: a pattern is a list of names, with wildcards, after \<open>/\<close>,
  after \<open>**/\<close> or after neither, with a slash at the end or not, and white space behind it; \<open>Negation\<close> is
  a line that starts with an exclamation mark, which the code documents to ignore.\<close>

datatype lead = At_root | Any_depth | No_lead

datatype ignore_line =
    Pattern lead "string list" bool string
  | Comment string
  | Negation string
  | Blank string

definition slashed :: "string list \<Rightarrow> string" where
  "slashed names = hd names @ concat (map (Cons (CHR ''/'')) (tl names))"

fun lead_text :: "lead \<Rightarrow> string" where
  "lead_text At_root = ''/''"
| "lead_text Any_depth = ''**/''"
| "lead_text No_lead = []"

fun line_text :: "ignore_line \<Rightarrow> string" where
  "line_text (Pattern ld names dirs blanks) =
     lead_text ld @ slashed names @ (if dirs then ''/'' else []) @ blanks"
| "line_text (Comment t) = CHR ''#'' # t"
| "line_text (Negation t) = CHR ''!'' # t"
| "line_text (Blank blanks) = blanks"

definition gitignore_text :: "ignore_line list \<Rightarrow> string" where
  "gitignore_text lines = concat (map (\<lambda>l. line_text l @ [NL]) lines)"

text \<open>The syntax that is covered: no \<open>**\<close> but before the names, and then of one name only; no backslash
  and no bracket; no first name that starts as a comment or a negation does.\<close>

definition pattern_ok :: "lead \<Rightarrow> string list \<Rightarrow> bool \<Rightarrow> string \<Rightarrow> bool" where
  "pattern_ok ld names dirs blanks \<longleftrightarrow>
     names \<noteq> [] \<and> list_all proper_name names
     \<and> (\<forall>n \<in> set names. NL \<notin> set n \<and> BSLASH \<notin> set n \<and> CHR ''['' \<notin> set n)
     \<and> strstr (slashed names) ''**'' = None
     \<and> hd (hd names) \<noteq> CHR ''#'' \<and> hd (hd names) \<noteq> CHR ''!''
     \<and> (\<not> dirs \<longrightarrow> \<not> isspace (last (last names)))
     \<and> list_all isspace blanks \<and> NL \<notin> set blanks
     \<and> (ld = Any_depth \<longrightarrow> length names = 1)"

fun line_ok :: "ignore_line \<Rightarrow> bool" where
  "line_ok (Pattern ld names dirs blanks) = pattern_ok ld names dirs blanks"
| "line_ok (Comment t) = (NL \<notin> set t)"
| "line_ok (Negation t) = (NL \<notin> set t)"
| "line_ok (Blank blanks) = (list_all isspace blanks \<and> NL \<notin> set blanks)"

text \<open>What a line ignores: a path of names below the root. After \<open>/\<close>, and where there is a slash between
  its names, a pattern is for the whole path; after \<open>**/\<close> for the end of the path at any depth; a
  name alone for the last name.\<close>

fun ignores :: "string list \<Rightarrow> bool \<Rightarrow> ignore_line \<Rightarrow> bool" where
  "ignores path is_directory (Pattern ld names dirs blanks) \<longleftrightarrow>
     (dirs \<longrightarrow> is_directory)
     \<and> (case ld of
          At_root \<Rightarrow> list_all2 wild names path
        | Any_depth \<Rightarrow> \<exists>k < length path. list_all2 wild names (drop k path)
        | No_lead \<Rightarrow>
            if length names = 1 then wild (hd names) (last path) else list_all2 wild names path)"
| "ignores path is_directory _ \<longleftrightarrow> False"

lemma trim_end_blank: "list_all isspace b \<Longrightarrow> trim_end (s @ b) = trim_end s"
proof -
  assume "list_all isspace b"
  then have "\<forall>c \<in> set (rev b). isspace c" by (simp add: list_all_iff)
  then show ?thesis unfolding trim_end_def rev_append by (subst dropWhile_append2) auto
qed

lemma trim_end_keep: "s \<noteq> [] \<Longrightarrow> \<not> isspace (last s) \<Longrightarrow> trim_end s = s"
  by (cases s rule: rev_cases) (simp_all add: trim_end_def)

lemma trim_end_Cons: "\<not> isspace c \<Longrightarrow> \<exists>t'. trim_end (c # t) = c # t'"
  by (simp add: trim_end_def dropWhile_append) (metis rev.simps(2) rev_rev_ident)

lemma last_slashed: "names \<noteq> [] \<Longrightarrow> list_all proper_name names \<Longrightarrow> last (slashed names) = last (last names)"
proof (induction names rule: rev_induct)
  case (snoc n ns)
  then have "n \<noteq> []" by (simp add: proper_name_def)
  then show ?case by (cases ns) (simp_all add: slashed_def)
qed simp

lemma slashed_head:
  assumes "names \<noteq> []" "list_all proper_name names"
  shows "slashed names \<noteq> []" "at (slashed names) 0 = hd (hd names)" "at (slashed names) 0 \<noteq> CHR ''/''"
    "at (slashed names) 0 \<noteq> NUL"
proof -
  obtain c n ns where "names = (c # n) # ns"
    using assms by (cases names; cases "hd names") (simp_all add: proper_name_def)
  then show "slashed names \<noteq> []" "at (slashed names) 0 = hd (hd names)" "at (slashed names) 0 \<noteq> CHR ''/''"
    "at (slashed names) 0 \<noteq> NUL"
    using assms(2) by (auto simp: slashed_def proper_name_def)
qed

lemma components_slashed: "names \<noteq> [] \<Longrightarrow> list_all proper_name names \<Longrightarrow> components (slashed names) = names"
  using components_path [of "hd names" "tl names"] by (cases names) (simp_all add: slashed_def)

lemma slash_in_slashed:
  "names \<noteq> [] \<Longrightarrow> list_all proper_name names \<Longrightarrow> CHR ''/'' \<in> set (slashed names) \<longleftrightarrow> length names \<noteq> 1"
  by (cases names; cases "tl names") (auto simp: slashed_def proper_name_def)

lemma parse_pattern:
  assumes "pattern_ok ld names dirs blanks"
  shows "parse_ignore_rule (line_text (Pattern ld names dirs blanks)) source =
    Some \<lparr>ir_pattern = slashed names, ir_directory_only = dirs,
      ir_anchored = (case ld of At_root \<Rightarrow> True | Any_depth \<Rightarrow> False | No_lead \<Rightarrow> length names \<noteq> 1),
      ir_source = source\<rparr>"
proof -
  have names: "names \<noteq> []" "list_all proper_name names" and stars: "strstr (slashed names) ''**'' = None"
    and head: "hd (hd names) \<noteq> CHR ''#''" "hd (hd names) \<noteq> CHR ''!''"
    and ends: "\<not> dirs \<Longrightarrow> \<not> isspace (last (last names))" and blanks: "list_all isspace blanks"
    using assms by (auto simp: pattern_ok_def)
  note first = slashed_head [OF names]
  let ?body = "lead_text ld @ slashed names @ (if dirs then ''/'' else [])"
  have slash: "\<not> isspace (CHR ''/'')" by (simp add: isspace_def)
  have no_slash: "last (slashed names) \<noteq> CHR ''/''"
    using last_slashed [OF names] last_in_set [OF names(1)] last_in_set [of "last names"] names(2)
    unfolding list_all_iff proper_name_def by metis
  have "trim_end (line_text (Pattern ld names dirs blanks)) = trim_end ?body"
    using trim_end_blank [OF blanks, of ?body] by simp
  also have "\<dots> = ?body"
    by (rule trim_end_keep) (use first(1) ends last_slashed [OF names] slash in auto)
  finally have trim: "trim_end (line_text (Pattern ld names dirs blanks)) = ?body" .
  have cut: "(if dirs then butlast ?body else ?body) = lead_text ld @ slashed names"
    and dir: "?body \<noteq> [] \<and> last ?body = CHR ''/'' \<longleftrightarrow> dirs"
    using first(1) no_slash by (auto simp: butlast_append)
  have "take 3 (slashed names) \<noteq> ''**/''"
  proof
    assume "take 3 (slashed names) = ''**/''"
    then have "slashed names = ''**/'' @ drop 3 (slashed names)" by (metis append_take_drop_id)
    then obtain r where "slashed names = ''**/'' @ r" by blast
    with stars show False by simp
  qed
  then have "rule_prefix (lead_text ld @ slashed names) =
      (slashed names, case ld of At_root \<Rightarrow> True | Any_depth \<Rightarrow> False | No_lead \<Rightarrow> length names \<noteq> 1)"
    using first(3) slash_in_slashed [OF names] by (cases ld) (simp_all add: rule_prefix_def)
  then show ?thesis
    unfolding parse_ignore_rule_def trim Let_def dir cut using first head stars by simp
qed

lemma parse_line:
  "line_ok l \<Longrightarrow>
     (case parse_ignore_rule (line_text l) source of
        None \<Rightarrow> False | Some r \<Rightarrow> path \<noteq> [] \<and> rule_applies path d r) \<longleftrightarrow> path \<noteq> [] \<and> ignores path d l"
proof (cases l)
  case (Pattern ld names dirs blanks)
  moreover assume "line_ok l"
  ultimately have ok: "pattern_ok ld names dirs blanks" by simp
  then have names: "names \<noteq> []" "list_all proper_name names" and one: "ld = Any_depth \<Longrightarrow> length names = 1"
    by (simp_all add: pattern_ok_def)
  have any: "(\<exists>k < length path. list_all2 wild [n] (drop k path)) \<longleftrightarrow> wild n (last path)" if "path \<noteq> []" for n
  proof -
    have "list_all2 wild [n] (drop k path) \<longleftrightarrow> wild n (last path) \<and> k = length path - 1" if "k < length path" for k
    proof -
      have "drop k path = path ! k # drop (Suc k) path" using that by (simp add: Cons_nth_drop_Suc)
      moreover have "drop (Suc k) path = [] \<longleftrightarrow> k = length path - 1" using that by auto
      ultimately show ?thesis using \<open>path \<noteq> []\<close> by (auto simp: last_conv_nth)
    qed
    moreover have "length path - 1 < length path" using that by simp
    ultimately show ?thesis by (metis list_all2_Nil2 that)
  qed
  obtain n where "length names = 1 \<Longrightarrow> names = [n]" by (cases names) auto
  then show ?thesis
    unfolding Pattern parse_pattern [OF ok] using components_slashed [OF names] one any
    by (cases ld) (auto simp: rule_applies_def)
next
  case (Comment t)
  obtain t' where "trim_end (CHR ''#'' # t) = CHR ''#'' # t'"
    using trim_end_Cons [of "CHR ''#''" t] by (auto simp: isspace_def)
  with Comment show ?thesis by (cases t') (auto simp: parse_ignore_rule_def rule_prefix_def Let_def)
next
  case (Negation t)
  obtain t' where "trim_end (CHR ''!'' # t) = CHR ''!'' # t'"
    using trim_end_Cons [of "CHR ''!''" t] by (auto simp: isspace_def)
  with Negation show ?thesis by (cases t') (auto simp: parse_ignore_rule_def rule_prefix_def Let_def)
next
  case (Blank b)
  moreover assume "line_ok l"
  ultimately have "trim_end b = []" using trim_end_blank [of b "[]"] by (simp add: trim_end_def)
  with Blank show ?thesis by (simp add: parse_ignore_rule_def rule_prefix_def Let_def)
qed

lemma lines_of_text:
  "list_all (\<lambda>l. NL \<notin> set l) ls \<Longrightarrow> ignore_lines (concat (map (\<lambda>l. l @ [NL]) ls)) = ls"
proof (induction ls)
  case (Cons l ls)
  let ?r = "concat (map (\<lambda>l. l @ [NL]) ls)"
  have "takeWhile (\<lambda>c. c \<noteq> NL) (l @ NL # ?r) = l" "dropWhile (\<lambda>c. c \<noteq> NL) (l @ NL # ?r) = NL # ?r"
    using Cons.prems by (auto intro: takeWhile_tail [THEN trans] dropWhile_append2 [THEN trans])
  moreover obtain c cs where "l @ NL # ?r = c # cs" by (cases "l @ NL # ?r") simp_all
  ultimately have "ignore_lines (l @ NL # ?r) = l # ignore_lines ?r" by simp
  with Cons show ?case by simp
qed simp

lemma line_text_no_NL: "line_ok l \<Longrightarrow> NL \<notin> set (line_text l)"
proof (cases l)
  case (Pattern ld names dirs blanks)
  assume "line_ok l"
  then have ok: "names \<noteq> []" "\<forall>n \<in> set names. NL \<notin> set n" "NL \<notin> set blanks"
    using Pattern by (auto simp: pattern_ok_def)
  then have "NL \<notin> set (slashed names)" by (cases names) (auto simp: slashed_def)
  with ok(3) Pattern show ?thesis by (cases ld) auto
qed simp_all

lemma first_rule_exists:
  "List.find P (List.map_filter f xs) \<noteq> None \<longleftrightarrow> (\<exists>x \<in> set xs. case f x of None \<Rightarrow> False | Some r \<Rightarrow> P r)"
  by (induction xs) (auto simp: List.map_filter_simps split: option.split)

lemma find_append_None: "List.find P (xs @ ys) = None \<longleftrightarrow> List.find P xs = None \<and> List.find P ys = None"
  by (auto simp: find_None_iff)

lemma load_rules:
  "load_ignore_rules (Some t) exclude
     = Some (List.map_filter (\<lambda>l. parse_ignore_rule l ''.gitignore'') (ignore_lines t)
         @ List.map_filter (\<lambda>l. parse_ignore_rule l ''zenc.server.json exclude'') exclude)"
proof -
  define capacity where
    "capacity = 1 + length exclude + length (List.filter (\<lambda>c. c = NL) t)"
  define rs where "rs = List.map_filter (\<lambda>l. parse_ignore_rule l ''.gitignore'') (ignore_lines t)"
  have len: "length rs + length exclude \<le> capacity" "length (ignore_lines t) \<le> capacity"
    using length_ignore_lines [of t] length_map_filter_le [of "\<lambda>l. parse_ignore_rule l ''.gitignore''" "ignore_lines t"]
    by (auto simp: rs_def capacity_def)
  show ?thesis
    using add_rules [of "[]" "ignore_lines t" capacity "''.gitignore''"] len
      add_rules [of rs exclude capacity "''zenc.server.json exclude''"]
    unfolding load_ignore_rules_def Let_def option.case(2) capacity_def [symmetric] by (simp add: rs_def)
qed

text \<open>
  C22: a path of the workspace is ignored just when a line of the \<open>.gitignore\<close> or of the excluded
  patterns says so: a pattern with a slash before or between its names is for the path from the root
  on, a single name, also after \<open>**/\<close>, for a name at any depth, stars and question marks match
  inside a name, a slash at the end restricts the pattern to directories, and white space at the end, comments,
  blank lines and negations do not count. The array of rules is large enough for all of them. The lines are of the
  documented syntax: no further \<open>**\<close>, also none before several names, no
  backslash, bracket or NUL, and no first name that starts with a number sign or an exclamation mark.
\<close>

theorem gitignore_rules:
  assumes "list_all line_ok lines" "list_all line_ok exclude"
  shows "\<exists>rules. load_ignore_rules (Some (gitignore_text lines)) (map line_text exclude) = Some rules
     \<and> (\<forall>root names is_directory. list_all proper_name names \<and> names \<noteq> [] \<longrightarrow>
          (is_ignored rules (length root) (path_of root names) (last names) is_directory \<noteq> None
             \<longleftrightarrow> (\<exists>l \<in> set (lines @ exclude). ignores names is_directory l)))"
proof -
  let ?git = "List.map_filter (\<lambda>l. parse_ignore_rule l ''.gitignore'') (map line_text lines)"
  let ?exc = "List.map_filter (\<lambda>l. parse_ignore_rule l ''zenc.server.json exclude'') (map line_text exclude)"
  have "list_all (\<lambda>l. NL \<notin> set l) (map line_text lines)"
    using assms(1) line_text_no_NL by (auto simp: list_all_iff)
  from lines_of_text [OF this] have "ignore_lines (gitignore_text lines) = map line_text lines"
    by (simp add: gitignore_text_def comp_def)
  then have load: "load_ignore_rules (Some (gitignore_text lines)) (map line_text exclude) = Some (?git @ ?exc)"
    by (simp only: load_rules)
  have "is_ignored (?git @ ?exc) (length root) (path_of root names) (last names) d \<noteq> None
      \<longleftrightarrow> (\<exists>l \<in> set (lines @ exclude). ignores names d l)"
    if names: "list_all proper_name names" "names \<noteq> []" for root names d
  proof -
    have one: "(case parse_ignore_rule (line_text l) source of None \<Rightarrow> False | Some r \<Rightarrow> rule_applies names d r)
        \<longleftrightarrow> ignores names d l" if "line_ok l" for l source
      using parse_line [OF that, where source = source and path = names and d = d] names(2) by (simp cong: option.case_cong)
    show ?thesis
      unfolding is_ignored_first_rule [OF names] find_append_None de_Morgan_conj first_rule_exists
      using one assms by (auto simp: list_all_iff)
  qed
  with load show ?thesis by blast
qed

text \<open>A \<open>.gitignore\<close> with a directory, an anchored path and a wildcard.\<close>

theorem gitignore_rules_witness:
  "\<exists>rules. load_ignore_rules (Some (''build/  '' @ [NL] @ ''/docs/plans'' @ [NL] @ ''**/*.tmp.zc'' @ [NL])) [''# old''] = Some rules
     \<and> is_ignored rules (length ''/work'') ''/work/a/build'' ''build'' True \<noteq> None
     \<and> is_ignored rules (length ''/work'') ''/work/a/build'' ''build'' False = None"
proof -
  let ?lines = "[Pattern No_lead [''build''] True ''  '', Pattern At_root [''docs'', ''plans''] False [],
      Pattern Any_depth [''*.tmp.zc''] False []]"
  have "list_all line_ok ?lines" "list_all line_ok [Comment '' old'']" by code_simp+
  from gitignore_rules [OF this] obtain rules where
    load: "load_ignore_rules (Some (gitignore_text ?lines)) (map line_text [Comment '' old'']) = Some rules"
    and applies: "\<And>root names d. list_all proper_name names \<Longrightarrow> names \<noteq> [] \<Longrightarrow>
      is_ignored rules (length root) (path_of root names) (last names) d \<noteq> None
        \<longleftrightarrow> (\<exists>l \<in> set (?lines @ [Comment '' old'']). ignores names d l)" by blast
  have path: "path_of ''/work'' [''a'', ''build''] = ''/work/a/build''" "list_all proper_name [''a'', ''build'']"
    by code_simp+
  have written: "gitignore_text ?lines = ''build/  '' @ [NL] @ ''/docs/plans'' @ [NL] @ ''**/*.tmp.zc'' @ [NL]"
    by code_simp
  have said: "(\<exists>l \<in> set (?lines @ [Comment '' old'']). ignores [''a'', ''build''] d l) \<longleftrightarrow> d" for d
    by (auto simp: wild_Cons wild_Nil Cons_eq_append_conv less_Suc_eq)
  have ign: "is_ignored rules (length ''/work'') ''/work/a/build'' ''build'' d \<noteq> None \<longleftrightarrow> d" for d
    using applies [of "[''a'', ''build'']" "''/work''" d] path unfolding said path by (simp del: list.size)
  have other: "map line_text [Comment '' old''] = [''# old'']" by simp
  show ?thesis
  proof (intro exI conjI)
    show "load_ignore_rules (Some (''build/  '' @ [NL] @ ''/docs/plans'' @ [NL] @ ''**/*.tmp.zc'' @ [NL])) [''# old''] = Some rules"
      using load unfolding written other .
    show "is_ignored rules (length ''/work'') ''/work/a/build'' ''build'' True \<noteq> None" using ign [of True] by (rule iffD2) (rule TrueI)
    show "is_ignored rules (length ''/work'') ''/work/a/build'' ''build'' False = None" using ign [of False] by (metis)
  qed
qed

section \<open>What the scan finds\<close>



definition skipped :: "string \<Rightarrow> bool" where
  "skipped n \<longleftrightarrow> at n 0 = CHR ''.'' \<or> n \<in> set noise_dirs"





declare scan_names.simps(2) [simp del]



section \<open>Files and documents as environments\<close>





lemma set_document_map:
  "set_document ds uri src = (if map_of ds uri = None then None else Some (AList.update uri src ds))"
  by (induction ds) auto

interpretation documents: name_env map_of lsp_project_track_document
  by unfold_locales (simp_all add: lsp_project_track_document_def set_document_map update_conv')

lemma tracked_uris: "fst ` set (lsp_project_track_document ds uri src) = insert uri (fst ` set ds)"
  using map_of_eq_None_iff [of ds uri]
  by (auto simp: lsp_project_track_document_def set_document_map dom_update insert_absorb simp flip: image_set)











section \<open>Rebuilding the project\<close>









section \<open>Where the code and git differ\<close>

text \<open>After \<open>**/\<close> a pattern with a further slash is compared with a single name, so it ignores nothing.\<close>

lemma leading_stars_with_slash:
  "\<exists>r. parse_ignore_rule ''**/docs/plans'' source = Some r \<and> (\<forall>names d. \<not> rule_applies names d r)"
proof -
  let ?r = "\<lparr>ir_pattern = ''docs/plans'', ir_directory_only = False, ir_anchored = False, ir_source = source\<rparr>"
  have "rule_prefix ''**/docs/plans'' = (''docs/plans'', False)" "trim_end ''**/docs/plans'' = ''**/docs/plans''"
    "strstr ''docs/plans'' ''**'' = None"
    by code_simp+
  then have "parse_ignore_rule ''**/docs/plans'' source = Some ?r"
    by (simp add: parse_ignore_rule_def)
  moreover have "\<not> rule_applies names d ?r" for names d
    by (simp add: rule_applies_def)
  ultimately show ?thesis by blast
qed

text \<open>A first name that starts with a number sign or an exclamation mark is taken for a comment or a
  negation also after a slash.\<close>

lemma anchored_hash_is_comment: "parse_ignore_rule ''/#generated#'' source = None"
proof -
  have "trim_end ''/#generated#'' = ''/#generated#''" "rule_prefix ''/#generated#'' = (''#generated#'', True)"
    by code_simp+
  then show ?thesis by (simp add: parse_ignore_rule_def)
qed

text \<open>A directory whose path fills the buffer is entered again and again: the path of each entry is cut
  to that of the directory itself.\<close>

lemma long_path_scanned_forever:
  assumes "length dir_path = MAX_PATH_LEN - 1" "se_readdir env dir_path = Some (n # ns)"
    and "se_stat env dir_path = Some S_DIR" "\<not> skipped n" "se_rules env = []"
  shows "scan_dir k env dir_path fs = None"
proof (induction k arbitrary: fs)
  case 0
  then show ?case by simp
next
  case (Suc k)
  have "snprintf_into MAX_PATH_LEN (dir_path @ CHR ''/'' # n) = dir_path"
    using assms(1) by (simp add: snprintf_into_def)
  with Suc assms show ?case by (simp add: scan_names.simps(2) skipped_def)
qed

end
