(* ===== verification/ZcCaptures.thy ===== *)
theory ZcCaptures
  imports ZcSymbols
begin

text \<open>
  The captures of a lambda (\<open>analyze_lambda_captures\<close> in \<open>src/src/parser/expr/expr_entry.c\<close>): the names
  that its body refers to, the names that its body declares, and which of them are variables of an
  enclosing scope that the closure has to keep. The lambda is a record of the fields that the analysis
  reads; a lambda inside the body is a node with the captures it was given when it was parsed. The type
  of a variable that is in scope is an argument.
\<close>

record lambda =
  lm_param_names :: "string list"
  lm_explicit :: "(string \<times> int) list"
  lm_default_mode :: int
  lm_body :: "node list"

record capture =
  cp_name :: string
  cp_mode :: int
  cp_info :: "ty option"
  cp_type :: "str_fault + string"

section \<open>Names used and declared\<close>

text \<open>A name is NULL where a node has none; \<open>add_name\<close> copies it with \<open>xstrdup\<close>, which stops the compiler
  on NULL (\<open>copied_names\<close>).\<close>

definition var_name :: "node \<Rightarrow> string option list" where
  "var_name n = (case n of VarRef _ x _ \<Rightarrow> [x] | _ \<Rightarrow> [])"

function find_var_refs :: "node \<Rightarrow> string option list" where
  "find_var_refs n =
     var_name n @
     (case n of
        Other m k css \<Rightarrow>
          if k = NODE_RAW_STMT then
            map Some (m_names m) @ concat (map (\<lambda>es. concat (map find_var_refs es)) css)
          else if k = NODE_LAMBDA then map Some (m_names m)
          else if k = NODE_COMPTIME then []
          else concat (map (\<lambda>chain. concat (map find_var_refs chain)) (child_chains n))
      | _ \<Rightarrow> concat (map (\<lambda>chain. concat (map find_var_refs chain)) (child_chains n)))"
  by pat_completeness auto
termination
  by (relation "measure size") (use child_smaller in \<open>fastforce dest: size_chains_member\<close>)+

definition declared_names :: "node \<Rightarrow> string option list" where
  "declared_names n =
     (case n of
        VarDecl _ x _ _ \<Rightarrow> [x]
      | MatchCase m _ _ _ \<Rightarrow> map Some (m_names m)
      | ForRange _ v _ _ _ _ _ \<Rightarrow> (if v = None then [] else [v])
      | Destruct m _ _ \<Rightarrow> map Some (m_names m)
      | _ \<Rightarrow> [])"

function find_declared_vars :: "node \<Rightarrow> string option list" where
  "find_declared_vars n =
     declared_names n @
     (if nd_kind n = NODE_LAMBDA \<or> nd_kind n = NODE_COMPTIME then []
      else concat (map (\<lambda>chain. concat (map find_declared_vars chain)) (child_chains n)))"
  by pat_completeness auto
termination
  by (relation "measure size") (use child_smaller in \<open>fastforce\<close>)+

declare find_var_refs.simps [simp del] find_declared_vars.simps [simp del]

definition copied_names :: "string option list \<Rightarrow> string list option" where
  "copied_names xs = (if None \<in> set xs then None else Some (map the xs))"

section \<open>The analysis\<close>

definition known_names :: "string list" where
  "known_names =
     [''printf'', ''malloc'', ''strcmp'', ''free'', ''sprintf'', ''snprintf'', ''fprintf'', ''stderr'',
      ''stdout'', ''strcat'', ''strcpy'', ''strlen'', ''Vec_new'', ''Vec_push'', ''NULL'', ''true'',
      ''false'']"

text \<open>The search through the scopes, from the innermost outwards: is the name found, and is it local?\<close>

fun search_scopes :: "scope list \<Rightarrow> string \<Rightarrow> bool \<times> bool" where
  "search_scopes [] name = (False, False)"
| "search_scopes (s # parents) name =
     (if \<exists>y \<in> set (sc_symbols s). sy_name y = name then (True, parents \<noteq> [])
      else search_scopes parents name)"

text \<open>The arrays of captures: \<open>None\<close> is a write beyond \<open>max_captures\<close>.\<close>

definition add_capture ::
    "nat \<Rightarrow> (string \<Rightarrow> ty option) \<Rightarrow> int \<Rightarrow> string \<Rightarrow> capture list \<Rightarrow> capture list option" where
  "add_capture max_captures type_of mode name captures =
     (if length captures < max_captures
      then Some (captures @
        [\<lparr>cp_name = name, cp_mode = mode, cp_info = type_of name,
          cp_type = (case type_of name of None \<Rightarrow> Inr ''int'' | Some t \<Rightarrow> type_to_string (Some t))\<rparr>])
      else None)"

fun explicit_captures ::
    "nat \<Rightarrow> (string \<Rightarrow> ty option) \<Rightarrow> (string \<times> int) list \<Rightarrow> capture list \<Rightarrow> capture list option" where
  "explicit_captures cap type_of [] captures = Some captures"
| "explicit_captures cap type_of ((name, mode) # es) captures =
     (if name \<in> cp_name ` set captures then explicit_captures cap type_of es captures
      else case add_capture cap type_of mode name captures of
        None \<Rightarrow> None
      | Some captures' \<Rightarrow> explicit_captures cap type_of es captures')"

definition not_captured :: "lambda \<Rightarrow> string list \<Rightarrow> string list \<Rightarrow> scope list \<Rightarrow> string \<Rightarrow> bool" where
  "not_captured lam decls funcs scopes name \<longleftrightarrow>
     name \<in> set (lm_param_names lam) \<or> name \<in> set decls \<or> name \<in> set known_names
     \<or> name \<in> set funcs \<or> search_scopes scopes name \<noteq> (True, True)"

fun implicit_captures ::
    "nat \<Rightarrow> (string \<Rightarrow> ty option) \<Rightarrow> lambda \<Rightarrow> string list \<Rightarrow> string list \<Rightarrow> scope list \<Rightarrow> string list
     \<Rightarrow> capture list \<Rightarrow> capture list option" where
  "implicit_captures cap type_of lam decls funcs scopes [] captures = Some captures"
| "implicit_captures cap type_of lam decls funcs scopes (name # refs) captures =
     (if not_captured lam decls funcs scopes name \<or> name \<in> cp_name ` set captures
      then implicit_captures cap type_of lam decls funcs scopes refs captures
      else case add_capture cap type_of (lm_default_mode lam) name captures of
        None \<Rightarrow> None
      | Some captures' \<Rightarrow> implicit_captures cap type_of lam decls funcs scopes refs captures')"

definition body_names :: "(node \<Rightarrow> string option list) \<Rightarrow> node list \<Rightarrow> string option list" where
  "body_names f body = (case body of [] \<Rightarrow> [] | b # _ \<Rightarrow> f b)"

definition analyze_lambda_captures ::
    "(string \<Rightarrow> ty option) \<Rightarrow> string list \<Rightarrow> scope list \<Rightarrow> lambda \<Rightarrow> capture list option" where
  "analyze_lambda_captures type_of funcs scopes lam =
     (case copied_names (body_names find_var_refs (lm_body lam)) of
        None \<Rightarrow> None
      | Some refs \<Rightarrow>
          case copied_names (body_names find_declared_vars (lm_body lam)) of
            None \<Rightarrow> None
          | Some decls \<Rightarrow>
              let max_captures = length (lm_explicit lam) + length refs + 1
              in case explicit_captures max_captures type_of (lm_explicit lam) [] of
                   None \<Rightarrow> None
                 | Some captures \<Rightarrow>
                     implicit_captures max_captures type_of lam decls funcs scopes refs captures)"

section \<open>Free variables\<close>

text \<open>
  The variables that are free in a node, with the scope that a binder has: a \<open>let\<close> the statements
  after it in its chain, the variable of a loop its body, the bindings of a match case its guard and
  body.
\<close>

definition binds :: "node \<Rightarrow> string set" where
  "binds n = (case n of
      VarDecl _ x _ _ \<Rightarrow> set_option x
    | Destruct m _ _ \<Rightarrow> set (m_names m)
    | _ \<Rightarrow> {})"

lemma size_list_chain_append: "size_list size (xs @ ys) = size_list size xs + size_list size (ys :: node list)"
  by (induction xs) simp_all

lemma size_list_chain: "xs \<in> set css \<Longrightarrow> size_list size xs \<le> size_list (size_list size) (css :: node list list)"
  by (induction css) auto

lemma chain_smaller: "xs \<in> set (child_chains n) \<Longrightarrow> size_list size xs < size n"
proof (cases n)
  case (Other m k css)
  then show "xs \<in> set (child_chains n) \<Longrightarrow> size_list size xs < size n"
    using size_list_chain [of xs css] by (auto dest: in_set_takeD)
qed auto

function free_vars :: "node \<Rightarrow> string set" and free_chain :: "node list \<Rightarrow> string set" where
  "free_vars n =
     (case n of
        VarRef _ x _ \<Rightarrow> set_option x
      | For _ init cond step body _ \<Rightarrow> free_chain (init @ cond @ step @ body)
      | ForRange _ v start end _ body _ \<Rightarrow> free_chain start \<union> free_chain end \<union> (free_chain body - set_option v)
      | MatchCase m guard body _ \<Rightarrow> free_chain guard \<union> free_chain body - set (m_names m)
      | Other m k css \<Rightarrow>
          if k = NODE_RAW_STMT then set (m_names m) \<union> (\<Union>es \<in> set css. \<Union>e \<in> set es. free_vars e)
          else if k = NODE_LAMBDA then set (m_names m)
          else if k = NODE_COMPTIME then {}
          else \<Union>chain \<in> set (child_chains n). free_chain chain
      | _ \<Rightarrow> \<Union>chain \<in> set (child_chains n). free_chain chain)"
| "free_chain [] = {}"
| "free_chain (n # ns) = free_vars n \<union> (free_chain ns - binds n)"
  by pat_completeness auto
termination
  by (relation "measure (\<lambda>x. case x of Inl n \<Rightarrow> size n | Inr ns \<Rightarrow> size_list size ns)")
     (auto dest: chain_smaller size_chains_member in_set_takeD size_list_chain simp: size_list_chain_append less_Suc_eq_le)

declare free_vars.simps [simp del]






section \<open>Used names and free variables\<close>



lemma chain_of_raw: "nd_kind n = NODE_RAW_STMT \<Longrightarrow> child_chains n = []"
  by (cases n) (auto split: if_splits)


















section \<open>What is captured\<close>








text \<open>A lambda \<open>|y| { let z = y; return z + k; }\<close> in a function with the variable \<open>k\<close>, and one whose block
  hides the variable that it uses afterwards.\<close>

definition example_meta :: meta where "example_meta = Meta TOKEN_UNKNOWN None []"

definition example_var :: "string \<Rightarrow> node" where
  "example_var x = VarRef example_meta (Some x) None"

definition example_scope :: "string list \<Rightarrow> scope" where
  "example_scope xs = \<lparr>sc_name = None, sc_symbols = map (\<lambda>x. new_symbol x SYM_VARIABLE) xs\<rparr>"

definition example_lambda :: "node list \<Rightarrow> lambda" where
  "example_lambda stmts =
     \<lparr>lm_param_names = [''y''], lm_explicit = [(''r'', 1)], lm_default_mode = 0,
      lm_body = [Block example_meta stmts]\<rparr>"


lemma hidden_variable_not_captured:
  "let stmts = [Block example_meta [VarDecl example_meta (Some ''k'') [] None], Return example_meta [example_var ''k'']]
   in ''k'' \<in> free_vars (Block example_meta stmts)
     \<and> map_option (map cp_name)
         (analyze_lambda_captures (\<lambda>x. None) [] [example_scope [''k''], example_scope []] (example_lambda stmts))
       = Some [''r'']"
  by code_simp

end
