(* ===== verification/ZcSideEffects.thy ===== *)
theory ZcSideEffects
  imports ZcAst "HOL-Library.Multiset"
begin

text \<open>
  The checks of MISRA rule 13 in \<open>src/src/analysis/typecheck_utils.c\<close>: the test for side effects, the
  sets of the symbols that an expression reads and modifies, and the two checks that no symbol is
  modified in one operand or argument and used in another. A symbol is its address; a variable whose
  symbol is not resolved has none (NULL). The result of a check is the message that it reports.
\<close>

section \<open>Side effects\<close>

text \<open>\<open>strstr(op, "=")\<close>: a comparison such as \<open>==\<close> counts as well.\<close>

definition op_assigns :: "string option \<Rightarrow> bool" where
  "op_assigns op = (case op of None \<Rightarrow> False | Some s \<Rightarrow> strstr s ''='' \<noteq> None)"

definition op_steps :: "string option \<Rightarrow> bool" where
  "op_steps op \<longleftrightarrow> op \<in> {Some ''++'', Some ''--'', Some ''_post++'', Some ''_post--''}"

text \<open>The child pointers of an expression are chains of at most one node; the elements of a literal and
  the fields of a structure are chains of any length, and each element of a chain is tested.\<close>

lemma head_smaller: "x \<in> set (take (Suc 0) xs) \<Longrightarrow> size (x :: node) < Suc (size_list size xs)"
  by (rule size_list_member) (rule in_set_takeD)

function tc_expr_has_side_effects :: "node \<Rightarrow> bool" where
  "tc_expr_has_side_effects n =
     (case n of
        Call _ _ _ \<Rightarrow> True
      | Binary _ op left right \<Rightarrow>
          op_assigns op \<or> list_ex tc_expr_has_side_effects (take 1 left) \<or> list_ex tc_expr_has_side_effects (take 1 right)
      | Unary _ op operand \<Rightarrow> op_steps op \<or> list_ex tc_expr_has_side_effects (take 1 operand)
      | Other _ k css \<Rightarrow> k = NODE_RAW_STMT
      | StructInit _ fs \<Rightarrow>
          list_ex (\<lambda>f. case f of FieldInit _ _ init \<Rightarrow> list_ex tc_expr_has_side_effects (take 1 init) | _ \<Rightarrow> False) fs
      | ArrayLiteral _ elements \<Rightarrow> list_ex tc_expr_has_side_effects elements
      | TupleLiteral _ elements \<Rightarrow> list_ex tc_expr_has_side_effects elements
      | Member _ target _ \<Rightarrow> list_ex tc_expr_has_side_effects (take 1 target)
      | Index _ array index _ \<Rightarrow>
          list_ex tc_expr_has_side_effects (take 1 array) \<or> list_ex tc_expr_has_side_effects (take 1 index)
      | Cast _ expr \<Rightarrow> list_ex tc_expr_has_side_effects (take 1 expr)
      | Slice _ array start end \<Rightarrow>
          list_ex tc_expr_has_side_effects (take 1 array) \<or> list_ex tc_expr_has_side_effects (take 1 start)
          \<or> list_ex tc_expr_has_side_effects (take 1 end)
      | _ \<Rightarrow> False)"
  by pat_completeness auto
termination
  by (relation "measure size") (auto dest!: head_smaller dest: size_list_member)

declare tc_expr_has_side_effects.simps [simp del]

section \<open>Symbol sets\<close>

text \<open>\<open>SymbolSet\<close>: an array of 32 symbols; what does not fit is left out.\<close>

definition SYMBOL_SET_SIZE :: nat where "SYMBOL_SET_SIZE = 32"

definition add_sym :: "nat option list \<Rightarrow> nat option \<Rightarrow> nat option list" where
  "add_sym syms s = (if length syms < SYMBOL_SET_SIZE then syms @ [s] else syms)"

definition target_sym :: "node list \<Rightarrow> nat option list" where
  "target_sym c = (case c of VarRef _ _ s # _ \<Rightarrow> [s] | _ \<Rightarrow> [])"

record symbol_sets =
  ss_reads :: "nat option list"
  ss_writes :: "nat option list"

definition add_write :: "node list \<Rightarrow> symbol_sets \<Rightarrow> symbol_sets" where
  "add_write c sets = sets\<lparr>ss_writes := foldl add_sym (ss_writes sets) (target_sym c)\<rparr>"

text \<open>The operands of a binary and of a unary expression are not NULL.\<close>

function collect_symbols :: "node \<Rightarrow> symbol_sets \<Rightarrow> symbol_sets" where
  "collect_symbols n sets =
     (case n of
        Binary _ op left right \<Rightarrow>
          fold collect_symbols (take 1 right)
            (fold collect_symbols (take 1 left) (if op_assigns op then add_write left sets else sets))
      | Unary _ op operand \<Rightarrow>
          fold collect_symbols (take 1 operand) (if op_steps op then add_write operand sets else sets)
      | VarRef _ _ s \<Rightarrow> sets\<lparr>ss_reads := add_sym (ss_reads sets) s\<rparr>
      | Call _ callee args \<Rightarrow> fold collect_symbols args (fold collect_symbols (take 1 callee) sets)
      | _ \<Rightarrow> sets)"
  by pat_completeness auto
termination
  by (relation "measure (\<lambda>(n, sets). size n)") (auto dest!: head_smaller dest: size_list_member)

declare collect_symbols.simps [simp del]

definition no_symbols :: symbol_sets where
  "no_symbols = \<lparr>ss_reads = [], ss_writes = []\<rparr>"

section \<open>The checks\<close>

definition msg_multiple :: string where
  "msg_multiple = ''MISRA Rule 13.2: symbol modified in multiple sub-expressions''"

definition msg_read_modified :: string where
  "msg_read_modified = ''MISRA Rule 13.2: symbol both read and modified in same expression''"

fun left_writes :: "nat option list \<Rightarrow> symbol_sets \<Rightarrow> string option" where
  "left_writes [] r = None"
| "left_writes (s # ss) r =
     (if s = None then left_writes ss r
      else if s \<in> set (ss_writes r) then Some msg_multiple
      else if s \<in> set (ss_reads r) then Some msg_read_modified
      else left_writes ss r)"

fun right_writes :: "nat option list \<Rightarrow> symbol_sets \<Rightarrow> string option" where
  "right_writes [] l = None"
| "right_writes (s # ss) l =
     (if s = None then right_writes ss l
      else if s \<in> set (ss_reads l) then Some msg_read_modified
      else right_writes ss l)"

definition check_side_effect_collision :: "bool \<Rightarrow> node option \<Rightarrow> node option \<Rightarrow> string option" where
  "check_side_effect_collision misra_mode left right =
     (case (left, right) of
        (Some l, Some r) \<Rightarrow>
          if \<not> misra_mode then None
          else
            let ls = collect_symbols l no_symbols; rs = collect_symbols r no_symbols
            in case left_writes (ss_writes ls) rs of
                 Some msg \<Rightarrow> Some msg
               | None \<Rightarrow> right_writes (ss_writes rs) ls
      | _ \<Rightarrow> None)"

definition msg_arg_read_modified :: string where
  "msg_arg_read_modified = ''MISRA Rule 13.2: argument read and modified in same call''"

definition msg_arg_multiple :: string where
  "msg_arg_multiple = ''MISRA Rule 13.2: symbol modified in multiple arguments''"

text \<open>Here a symbol is compared even when it is NULL.\<close>

fun next_writes :: "nat option list \<Rightarrow> symbol_sets \<Rightarrow> string option" where
  "next_writes [] sets = None"
| "next_writes (s # ss) sets =
     (if s \<in> set (ss_reads sets) then Some msg_arg_read_modified
      else if s \<in> set (ss_writes sets) then Some msg_arg_multiple
      else next_writes ss sets)"

fun next_reads :: "nat option list \<Rightarrow> symbol_sets \<Rightarrow> string option" where
  "next_reads [] sets = None"
| "next_reads (s # ss) sets =
     (if s \<in> set (ss_writes sets) then Some msg_arg_read_modified else next_reads ss sets)"

fun check_args :: "symbol_sets \<Rightarrow> node list \<Rightarrow> string option" where
  "check_args sets [] = None"
| "check_args sets (arg # args) =
     (let new = collect_symbols arg no_symbols
      in case next_writes (ss_writes new) sets of
           Some msg \<Rightarrow> Some msg
         | None \<Rightarrow>
             case next_reads (ss_reads new) sets of
               Some msg \<Rightarrow> Some msg
             | None \<Rightarrow>
                 check_args \<lparr>ss_reads = foldl add_sym (ss_reads sets) (ss_reads new),
                             ss_writes = foldl add_sym (ss_writes sets) (ss_writes new)\<rparr> args)"

definition check_all_args_side_effects :: "bool \<Rightarrow> node option \<Rightarrow> node list \<Rightarrow> string option" where
  "check_all_args_side_effects misra_mode receiver args =
     (if misra_mode
      then check_args (case receiver of None \<Rightarrow> no_symbols | Some n \<Rightarrow> collect_symbols n no_symbols) args
      else None)"

section \<open>Registers and widths\<close>

definition get_asm_register_size :: "ty option \<Rightarrow> nat" where
  "get_asm_register_size t =
     (case t of
        None \<Rightarrow> 0
      | Some t \<Rightarrow>
          if ty_kind t \<in> {TYPE_F64, TYPE_I64, TYPE_U64}
             \<or> (ty_kind t = TYPE_STRUCT \<and> ty_name t \<in> {Some ''int64_t'', Some ''uint64_t''}) then 64
          else if ty_kind t \<in> {TYPE_I128, TYPE_U128} then 128
          else 32)"

definition integer_type_width :: "ty option \<Rightarrow> nat" where
  "integer_type_width t =
     (case t of
        None \<Rightarrow> 0
      | Some t \<Rightarrow>
          if ty_kind t \<in> {TYPE_I8, TYPE_U8, TYPE_BYTE, TYPE_C_CHAR, TYPE_C_UCHAR} then 8
          else if ty_kind t \<in> {TYPE_I16, TYPE_U16, TYPE_C_SHORT, TYPE_C_USHORT} then 16
          else if ty_kind t \<in> {TYPE_I32, TYPE_U32, TYPE_INT, TYPE_UINT, TYPE_RUNE, TYPE_C_INT, TYPE_C_UINT} then 32
          else if ty_kind t \<in> {TYPE_I64, TYPE_U64, TYPE_ISIZE, TYPE_USIZE, TYPE_C_LONG, TYPE_C_ULONG,
                              TYPE_C_LONGLONG, TYPE_C_ULONGLONG} then 64
          else if ty_kind t \<in> {TYPE_I128, TYPE_U128} then 128
          else 0)"

section \<open>The sets without the limit\<close>

function reads_of :: "node \<Rightarrow> nat option list" and writes_of :: "node \<Rightarrow> nat option list" where
  "reads_of n =
     (case n of
        Binary _ op left right \<Rightarrow> concat (map reads_of (take 1 left)) @ concat (map reads_of (take 1 right))
      | Unary _ op operand \<Rightarrow> concat (map reads_of (take 1 operand))
      | VarRef _ _ s \<Rightarrow> [s]
      | Call _ callee args \<Rightarrow> concat (map reads_of (take 1 callee)) @ concat (map reads_of args)
      | _ \<Rightarrow> [])"
| "writes_of n =
     (case n of
        Binary _ op left right \<Rightarrow>
          (if op_assigns op then target_sym left else [])
          @ concat (map writes_of (take 1 left)) @ concat (map writes_of (take 1 right))
      | Unary _ op operand \<Rightarrow>
          (if op_steps op then target_sym operand else []) @ concat (map writes_of (take 1 operand))
      | Call _ callee args \<Rightarrow> concat (map writes_of (take 1 callee)) @ concat (map writes_of args)
      | _ \<Rightarrow> [])"
  by pat_completeness auto
termination
  by (relation "measure (\<lambda>x. case x of Inl n \<Rightarrow> size n | Inr n \<Rightarrow> size n)")
     (auto dest!: head_smaller dest: size_list_member)

declare reads_of.simps [simp del] writes_of.simps [simp del]

lemma add_syms: "length xs \<le> SYMBOL_SET_SIZE \<Longrightarrow> foldl add_sym xs ys = take SYMBOL_SET_SIZE (xs @ ys)"
proof (induction ys arbitrary: xs)
  case Nil
  then show ?case by simp
next
  case (Cons y ys)
  show ?case
  proof (cases "length xs < SYMBOL_SET_SIZE")
    case True
    then show ?thesis using Cons.IH [of "xs @ [y]"] by (simp add: add_sym_def)
  next
    case False
    then show ?thesis using Cons by (simp add: add_sym_def)
  qed
qed

text \<open>Adding a list of symbols to a pair of sets.\<close>

definition extend :: "symbol_sets \<Rightarrow> nat option list \<Rightarrow> nat option list \<Rightarrow> symbol_sets" where
  "extend sets rs ws = \<lparr>ss_reads = foldl add_sym (ss_reads sets) rs, ss_writes = foldl add_sym (ss_writes sets) ws\<rparr>"

lemma extend_extend: "extend (extend sets rs ws) rs' ws' = extend sets (rs @ rs') (ws @ ws')"
  by (simp add: extend_def)

lemma add_write_extend: "add_write c sets = extend sets [] (target_sym c)"
  by (simp add: add_write_def extend_def)

lemma extend_none [simp]: "extend sets [] [] = sets"
  by (simp add: extend_def)

lemma fold_extend:
  "(\<And>n sets. n \<in> set ns \<Longrightarrow> f n sets = extend sets (r n) (w n)) \<Longrightarrow>
     fold f ns sets = extend sets (concat (map r ns)) (concat (map w ns))"
  by (induction ns arbitrary: sets) (simp_all add: extend_extend)

lemma collect_extend: "collect_symbols n sets = extend sets (reads_of n) (writes_of n)"
proof (induction n arbitrary: sets rule: measure_induct_rule [of size])
  case (less n)
  have part: "fold collect_symbols ns sets = extend sets (concat (map reads_of ns)) (concat (map writes_of ns))"
    if "\<And>c. c \<in> set ns \<Longrightarrow> size c < size n" for ns sets
    by (rule fold_extend) (use less that in blast)
  show ?case
  proof (cases n)
    case (Binary m op left right)
    have "fold collect_symbols (take 1 c) sets
        = extend sets (concat (map reads_of (take 1 c))) (concat (map writes_of (take 1 c)))"
      if "c \<in> {left, right}" for c sets
      by (rule part) (use that Binary in \<open>auto dest: head_smaller\<close>)
    then show ?thesis
      unfolding Binary
      by (subst collect_symbols.simps, subst reads_of.simps, subst writes_of.simps)
         (simp add: add_write_extend extend_extend)
  next
    case (Unary m op operand)
    have "fold collect_symbols (take 1 operand) sets
        = extend sets (concat (map reads_of (take 1 operand))) (concat (map writes_of (take 1 operand)))" for sets
      by (rule part) (use Unary in \<open>auto dest: head_smaller\<close>)
    then show ?thesis
      unfolding Unary
      by (subst collect_symbols.simps, subst reads_of.simps, subst writes_of.simps)
         (simp add: add_write_extend extend_extend)
  next
    case (Call m callee args)
    have "fold collect_symbols (take 1 callee) sets
        = extend sets (concat (map reads_of (take 1 callee))) (concat (map writes_of (take 1 callee)))" for sets
      by (rule part) (use Call in \<open>auto dest: head_smaller\<close>)
    moreover have "fold collect_symbols args sets
        = extend sets (concat (map reads_of args)) (concat (map writes_of args))" for sets
      by (rule part) (use Call in \<open>auto dest: size_list_member\<close>)
    ultimately show ?thesis
      unfolding Call
      by (subst collect_symbols.simps, subst reads_of.simps, subst writes_of.simps)
         (simp add: extend_extend)
  qed (subst collect_symbols.simps, subst reads_of.simps, subst writes_of.simps, simp add: extend_def)+
qed

lemma collected:
  "ss_reads (collect_symbols n no_symbols) = take SYMBOL_SET_SIZE (reads_of n)"
  "ss_writes (collect_symbols n no_symbols) = take SYMBOL_SET_SIZE (writes_of n)"
  by (simp_all add: collect_extend extend_def no_symbols_def add_syms)

text \<open>An expression that modifies a symbol has side effects.\<close>

lemma writes_side_effects: "writes_of n \<noteq> [] \<Longrightarrow> tc_expr_has_side_effects n"
proof (induction n rule: measure_induct_rule [of size])
  case (less n)
  have child: "concat (map writes_of (take 1 c)) = [] \<or> list_ex tc_expr_has_side_effects (take 1 c)"
    if "\<And>x. x \<in> set (take 1 c) \<Longrightarrow> size x < size n" for c
    using less.IH that by (auto simp: list_ex_iff)
  show ?case
  proof (cases n)
    case (Binary m op left right)
    have "concat (map writes_of (take 1 c)) = [] \<or> list_ex tc_expr_has_side_effects (take 1 c)"
      if "c \<in> {left, right}" for c
      by (rule child) (use that Binary in \<open>auto dest: head_smaller\<close>)
    then show ?thesis
      using less.prems unfolding Binary
      by (subst tc_expr_has_side_effects.simps, subst (asm) writes_of.simps) (auto split: if_splits)
  next
    case (Unary m op operand)
    have "concat (map writes_of (take 1 operand)) = [] \<or> list_ex tc_expr_has_side_effects (take 1 operand)"
      by (rule child) (use Unary in \<open>auto dest: head_smaller\<close>)
    then show ?thesis
      using less.prems unfolding Unary
      by (subst tc_expr_has_side_effects.simps, subst (asm) writes_of.simps) (auto split: if_splits)
  next
    case (Call m callee args)
    then show ?thesis by (subst tc_expr_has_side_effects.simps) simp
  qed (use less.prems in \<open>subst (asm) writes_of.simps, simp\<close>)+
qed

section \<open>What the checks find\<close>

text \<open>The resolved symbols that an expression reads and modifies.\<close>

definition read_syms :: "node \<Rightarrow> nat set" where "read_syms n = {a. Some a \<in> set (reads_of n)}"
definition written_syms :: "node \<Rightarrow> nat set" where "written_syms n = {a. Some a \<in> set (writes_of n)}"

definition independent :: "node \<Rightarrow> node \<Rightarrow> bool" where
  "independent l r \<longleftrightarrow>
     written_syms l \<inter> (read_syms r \<union> written_syms r) = {} \<and> written_syms r \<inter> read_syms l = {}"

definition small_expr :: "node \<Rightarrow> bool" where
  "small_expr n \<longleftrightarrow> length (reads_of n) \<le> SYMBOL_SET_SIZE \<and> length (writes_of n) \<le> SYMBOL_SET_SIZE"



lemma collected_small:
  "small_expr n \<Longrightarrow> ss_reads (collect_symbols n no_symbols) = reads_of n
     \<and> ss_writes (collect_symbols n no_symbols) = writes_of n"
  by (simp add: collected small_expr_def)


section \<open>The order of evaluation\<close>

text \<open>
  A reference semantics of scalar expressions over a store of the symbols, left operand first. The
  meaning of the operators is an argument, as is which operators decide on their left operand alone.
  Calls, literals other than integers and unresolved variables have no value here.
\<close>

record ops =
  op_binary :: "string \<Rightarrow> i64 \<Rightarrow> i64 \<Rightarrow> i64 option"
  op_unary :: "string \<Rightarrow> i64 \<Rightarrow> i64 option"
  op_shortcut :: "string \<Rightarrow> i64 \<Rightarrow> i64 option"

type_synonym store = "nat \<Rightarrow> i64"

definition compound_ops :: "string list" where
  "compound_ops = [''+='', ''-='', ''*='', ''/='', ''%='', ''|='', ''&='', ''^='', ''<<='', ''>>='', ''**='']"

definition assign :: "node \<Rightarrow> (i64 \<times> store) option \<Rightarrow> (i64 \<Rightarrow> i64 \<Rightarrow> i64 option) \<Rightarrow> (i64 \<times> store) option" where
  "assign target result f =
     (case target of
        VarRef _ _ (Some a) \<Rightarrow>
          (case result of
             None \<Rightarrow> None
           | Some (v, st) \<Rightarrow> (case f (st a) v of None \<Rightarrow> None | Some w \<Rightarrow> Some (w, st(a := w))))
      | _ \<Rightarrow> None)"

fun eval :: "ops \<Rightarrow> node \<Rightarrow> store \<Rightarrow> (i64 \<times> store) option" where
  "eval os (Literal _ LITERAL_INT v _ _) st = Some (v, st)"
| "eval os (VarRef _ _ (Some a)) st = Some (st a, st)"
| "eval os (Binary _ (Some op) [l] [r]) st =
     (if op = ''='' then assign l (eval os r st) (\<lambda>old v. Some v)
      else if op \<in> set compound_ops then assign l (eval os r st) (op_binary os op)
      else
        case eval os l st of
          None \<Rightarrow> None
        | Some (v, st1) \<Rightarrow>
            case op_shortcut os op v of
              Some w \<Rightarrow> Some (w, st1)
            | None \<Rightarrow>
                case eval os r st1 of
                  None \<Rightarrow> None
                | Some (w, st2) \<Rightarrow> map_option (\<lambda>x. (x, st2)) (op_binary os op v w))"
| "eval os (Unary _ (Some op) [e]) st =
     (if op_steps (Some op)
      then map_option (\<lambda>(new, st'). (if op \<in> {''++'', ''--''} then new else fst (the (eval os e st)), st'))
             (assign e (eval os e st) (\<lambda>old v. op_unary os op v))
      else case eval os e st of
             None \<Rightarrow> None
           | Some (v, st1) \<Rightarrow> map_option (\<lambda>x. (x, st1)) (op_unary os op v))"
| "eval os _ st = None"

text \<open>\<open>framed\<close>: a run of an expression changes only the symbols that the expression modifies, and it
  does the same from every store that agrees on the symbols that the expression reads.\<close>

definition framed :: "ops \<Rightarrow> node \<Rightarrow> store \<Rightarrow> i64 \<Rightarrow> store \<Rightarrow> bool" where
  "framed os n st v st' \<longleftrightarrow>
     (\<forall>a. a \<notin> written_syms n \<longrightarrow> st' a = st a)
     \<and> (\<forall>su. (\<forall>a \<in> read_syms n. su a = st a) \<longrightarrow>
          eval os n su = Some (v, \<lambda>a. if a \<in> written_syms n then st' a else su a))"

lemma assign_some:
  "assign t result f = Some (w, st') \<Longrightarrow>
     \<exists>m x a v st. t = VarRef m x (Some a) \<and> result = Some (v, st) \<and> f (st a) v = Some w \<and> st' = st(a := w)"
  by (auto simp: assign_def split: node.splits option.splits)

lemma syms_of_target:
  "target_sym [VarRef m x s] = [s]" "reads_of (VarRef m x s) = [s]" "writes_of (VarRef m x s) = []"
  by (simp_all add: target_sym_def, subst reads_of.simps, simp, subst writes_of.simps, simp)

lemma assigning_ops: "op = ''='' \<or> op \<in> set compound_ops \<Longrightarrow> op_assigns (Some op)"
  by (auto simp: compound_ops_def op_assigns_def)

lemma syms_binary:
  "read_syms (Binary m op [l] [r]) = read_syms l \<union> read_syms r"
  "written_syms (Binary m op [l] [r])
     = {a. op_assigns op \<and> Some a \<in> set (target_sym [l])} \<union> written_syms l \<union> written_syms r"
  unfolding read_syms_def written_syms_def
  by (subst reads_of.simps, force) (subst writes_of.simps, force)

lemma syms_unary:
  "read_syms (Unary m op [e]) = read_syms e"
  "written_syms (Unary m op [e]) = {a. op_steps op \<and> Some a \<in> set (target_sym [e])} \<union> written_syms e"
  unfolding read_syms_def written_syms_def
  by (subst reads_of.simps, force) (subst writes_of.simps, force)

lemma syms_var: "read_syms (VarRef m x s) = set_option s" "written_syms (VarRef m x s) = {}"
  using syms_of_target [of m x s] by (auto simp: read_syms_def written_syms_def elem_set)

lemma framedD:
  "framed os n st v st' \<Longrightarrow> a \<notin> written_syms n \<Longrightarrow> st' a = st a"
  "framed os n st v st' \<Longrightarrow> (\<And>a. a \<in> read_syms n \<Longrightarrow> su a = st a) \<Longrightarrow>
     eval os n su = Some (v, \<lambda>a. if a \<in> written_syms n then st' a else su a)"
  by (auto simp: framed_def)

text \<open>Two runs one after the other.\<close>

lemma framed_seq:
  assumes "framed os l st v1 st1" "framed os r st1 v2 st2"
    and "\<And>a. a \<in> read_syms l \<union> read_syms r \<Longrightarrow> su a = st a"
  shows "eval os l su = Some (v1, \<lambda>a. if a \<in> written_syms l then st1 a else su a)"
    and "eval os r (\<lambda>a. if a \<in> written_syms l then st1 a else su a)
      = Some (v2, \<lambda>a. if a \<in> written_syms l \<union> written_syms r then st2 a else su a)"
proof -
  show "eval os l su = Some (v1, \<lambda>a. if a \<in> written_syms l then st1 a else su a)"
    using framedD(2) [OF assms(1)] assms(3) by blast
  have "eval os r (\<lambda>a. if a \<in> written_syms l then st1 a else su a)
      = Some (v2, \<lambda>a. if a \<in> written_syms r then st2 a else if a \<in> written_syms l then st1 a else su a)"
    by (rule framedD(2) [OF assms(2)]) (use framedD(1) [OF assms(1)] assms(3) in auto)
  moreover have "(\<lambda>a. if a \<in> written_syms r then st2 a else if a \<in> written_syms l then st1 a else su a)
      = (\<lambda>a. if a \<in> written_syms l \<union> written_syms r then st2 a else su a)"
    using framedD(1) [OF assms(2)] by auto
  ultimately show "eval os r (\<lambda>a. if a \<in> written_syms l then st1 a else su a)
      = Some (v2, \<lambda>a. if a \<in> written_syms l \<union> written_syms r then st2 a else su a)"
    by simp
qed

lemma target_read: "set (target_sym c) \<subseteq> set (concat (map reads_of (take 1 c)))"
  by (auto simp: target_sym_def syms_of_target split: list.split node.split)

lemma written_read: "set (writes_of n) \<subseteq> set (reads_of n)"
proof (induction n rule: measure_induct_rule [of size])
  case (less n)
  have child: "set (concat (map writes_of ns)) \<subseteq> set (concat (map reads_of ns))"
    if "\<And>x. x \<in> set ns \<Longrightarrow> size x < size n" for ns
    using less that by fastforce
  show ?case
  proof (cases n)
    case (Binary m op left right)
    have "set (concat (map writes_of (take 1 c))) \<subseteq> set (concat (map reads_of (take 1 c)))"
      if "c \<in> {left, right}" for c
      by (rule child) (use that Binary in \<open>auto dest: head_smaller\<close>)
    then have "set (concat (map writes_of (take 1 left))) \<subseteq> set (concat (map reads_of (take 1 left)))"
      "set (concat (map writes_of (take 1 right))) \<subseteq> set (concat (map reads_of (take 1 right)))" by blast+
    then show ?thesis
      using target_read [of left] unfolding Binary
      by (subst reads_of.simps, subst writes_of.simps) (auto split: if_splits)
  next
    case (Unary m op operand)
    have "set (concat (map writes_of (take 1 operand))) \<subseteq> set (concat (map reads_of (take 1 operand)))"
      by (rule child) (use Unary in \<open>auto dest: head_smaller\<close>)
    then show ?thesis
      using target_read [of operand] unfolding Unary
      by (subst reads_of.simps, subst writes_of.simps) (auto split: if_splits)
  next
    case (Call m callee args)
    have "set (concat (map writes_of (take 1 callee))) \<subseteq> set (concat (map reads_of (take 1 callee)))"
      by (rule child) (use Call in \<open>auto dest: head_smaller\<close>)
    moreover have "set (concat (map writes_of args)) \<subseteq> set (concat (map reads_of args))"
      by (rule child) (use Call in \<open>auto dest: size_list_member\<close>)
    ultimately show ?thesis
      unfolding Call by (subst reads_of.simps, subst writes_of.simps) auto
  qed (subst writes_of.simps, simp)+
qed

lemma framed_subset:
  assumes "W \<subseteq> written_syms n" "\<And>a. a \<notin> W \<Longrightarrow> st' a = st a"
    and "\<And>su. (\<And>a. a \<in> read_syms n \<Longrightarrow> su a = st a) \<Longrightarrow>
      eval os n su = Some (v, \<lambda>a. if a \<in> W then st' a else su a)"
  shows "framed os n st v st'"
proof -
  have sets: "written_syms n \<subseteq> read_syms n"
    using written_read [of n] unfolding written_syms_def read_syms_def by blast
  have same: "(\<lambda>a. if a \<in> W then st' a else su a) = (\<lambda>a. if a \<in> written_syms n then st' a else su a)"
    if agree: "\<And>a. a \<in> read_syms n \<Longrightarrow> su a = st a" for su
  proof
    fix a
    show "(if a \<in> W then st' a else su a) = (if a \<in> written_syms n then st' a else su a)"
      using assms(1) assms(2) [of a] agree [of a] sets by auto
  qed
  show ?thesis
    unfolding framed_def
  proof (intro conjI allI impI)
    fix a assume "a \<notin> written_syms n"
    with assms(1,2) show "st' a = st a" by blast
  next
    fix su assume agree: "\<forall>a \<in> read_syms n. su a = st a"
    then show "eval os n su = Some (v, \<lambda>a. if a \<in> written_syms n then st' a else su a)"
      using assms(3) [of su] same [of su] by simp
  qed
qed

lemma framed_var: "framed os (VarRef m x (Some a)) st (st a) st"
  by (auto simp: framed_def syms_var)

lemma framed_assign:
  assumes "framed os r st v st1" "f (st1 a) v = Some w"
    and agree: "\<And>b. b \<in> insert a (read_syms r) \<Longrightarrow> su b = st b"
  shows "assign (VarRef m x (Some a)) (eval os r su) f
    = Some (w, \<lambda>b. if b \<in> insert a (written_syms r) then (st1(a := w)) b else su b)"
proof -
  have run: "eval os r su = Some (v, \<lambda>b. if b \<in> written_syms r then st1 b else su b)"
    using framedD(2) [OF assms(1)] agree by blast
  have "(if a \<in> written_syms r then st1 a else su a) = st1 a"
    using framedD(1) [OF assms(1), of a] agree [of a] by simp
  with run assms(2) show ?thesis by (auto simp: assign_def)
qed

lemma eval_framed: "eval os n st = Some (v, st') \<Longrightarrow> framed os n st v st'"
proof (induction os n st arbitrary: v st' rule: eval.induct)
  case (1 os m x d t st)
  have "written_syms (Literal m LITERAL_INT x d t) = {}"
    unfolding written_syms_def by (subst writes_of.simps) simp
  with 1 show ?case by (auto simp: framed_def)
next
  case (2 os m x a st)
  then show ?case using framed_var [of os m x a st] by auto
next
  case (3 os m op l r st)
  consider (set) "op = ''='' \<or> op \<in> set compound_ops" | (strict) "op \<noteq> ''=''" "op \<notin> set compound_ops"
    by blast
  then show ?case
  proof cases
    case set
    define f where "f = (if op = ''='' then (\<lambda>old v. Some v) else op_binary os op)"
    have run: "eval os (Binary m (Some op) [l] [r]) su = assign l (eval os r su) f" for su
      using set by (auto simp: f_def)
    then obtain k x a v0 st1 where l: "l = VarRef k x (Some a)"
      and r: "eval os r st = Some (v0, st1)" "f (st1 a) v0 = Some v" "st' = st1(a := v)"
      using 3(5) assign_some [of l "eval os r st" f v st'] by auto
    have fr: "framed os r st v0 st1" using set r(1) 3(1,2) by blast
    have syms: "read_syms (Binary m (Some op) [l] [r]) = insert a (read_syms r)"
      "written_syms (Binary m (Some op) [l] [r]) = insert a (written_syms r)"
      using assigning_ops [OF set] by (auto simp: syms_binary l syms_var target_sym_def)
    show ?thesis
      unfolding framed_def syms
    proof (intro conjI allI impI)
      fix b assume "b \<notin> insert a (written_syms r)"
      then show "st' b = st b" using framedD(1) [OF fr] r(3) by simp
    next
      fix su assume "\<forall>b \<in> insert a (read_syms r). su b = st b"
      then have agree: "\<And>b. b \<in> insert a (read_syms r) \<Longrightarrow> su b = st b" by blast
      have "eval os (Binary m (Some op) [l] [r]) su = assign (VarRef k x (Some a)) (eval os r su) f"
        unfolding run by (simp only: l)
      also have "\<dots> = Some (v, \<lambda>b. if b \<in> insert a (written_syms r) then st' b else su b)"
        unfolding r(3) by (rule framed_assign [where f = f and a = a, OF fr r(2) agree])
      finally show "eval os (Binary m (Some op) [l] [r]) su
          = Some (v, \<lambda>b. if b \<in> insert a (written_syms r) then st' b else su b)" .
    qed
  next
    case strict
    let ?n = "Binary m (Some op) [l] [r]"
    from strict 3(5) obtain v1 st1 where l: "eval os l st = Some (v1, st1)"
      by (auto split: option.splits)
    have fl: "framed os l st v1 st1" using 3(3) [OF strict l] .
    show ?thesis
    proof (cases "op_shortcut os op v1")
      case (Some w)
      with strict 3(5) l have res: "w = v" "st1 = st'" by simp_all
      show ?thesis
      proof (rule framed_subset [where W = "written_syms l"])
        show "eval os ?n su = Some (v, \<lambda>a. if a \<in> written_syms l then st' a else su a)"
          if "\<And>a. a \<in> read_syms ?n \<Longrightarrow> su a = st a" for su
          using framedD(2) [OF fl [unfolded res(2)], of su] that strict Some res(1) by (simp add: syms_binary)
      qed (use fl res in \<open>auto simp: syms_binary dest: framedD(1)\<close>)
    next
      case None
      with strict 3(5) l obtain v2 where r: "eval os r st1 = Some (v2, st')" "op_binary os op v1 v2 = Some v"
        by (auto split: option.splits)
      have fr: "framed os r st1 v2 st'" using 3(4) [OF strict l refl None r(1)] .
      show ?thesis
      proof (rule framed_subset [where W = "written_syms l \<union> written_syms r"])
        show "eval os ?n su = Some (v, \<lambda>a. if a \<in> written_syms l \<union> written_syms r then st' a else su a)"
          if "\<And>a. a \<in> read_syms ?n \<Longrightarrow> su a = st a" for su
          using framed_seq [OF fl fr, of su] that strict None r(2) by (simp add: syms_binary)
      qed (use framedD(1) [OF fl] framedD(1) [OF fr] in \<open>auto simp: syms_binary\<close>)
    qed
  qed
next
  case (4 os m op e st)
  let ?n = "Unary m (Some op) [e]"
  show ?case
  proof (cases "op_steps (Some op)")
    case True
    let ?f = "\<lambda>old v. op_unary os op v"
    from True "4.prems" obtain new where new: "assign e (eval os e st) ?f = Some (new, st')"
      "v = (if op \<in> {''++'', ''--''} then new else fst (the (eval os e st)))" by auto
    then obtain k x a st1 where e: "e = VarRef k x (Some a)" "op_unary os op (st a) = Some new" "st' = st(a := new)"
      using assign_some [OF new(1)] by auto
    have run: "assign e (eval os e su) ?f = Some (new, \<lambda>b. if b \<in> {a} then st' b else su b)"
      if "su a = st a" for su
      using that e by (auto simp: assign_def)
    show ?thesis
    proof (rule framed_subset [where W = "{a}"])
      show "eval os ?n su = Some (v, \<lambda>b. if b \<in> {a} then st' b else su b)"
        if "\<And>a. a \<in> read_syms ?n \<Longrightarrow> su a = st a" for su
        using run [of su] that [of a] True new(2) e(1) by (simp add: syms_unary syms_var)
    qed (use True e in \<open>auto simp: syms_unary target_sym_def\<close>)
  next
    case False
    from False "4.prems" obtain v1 where e: "eval os e st = Some (v1, st')" "op_unary os op v1 = Some v"
      by (auto split: option.splits)
    have fe: "framed os e st v1 st'" using "4.IH" False e(1) by blast
    show ?thesis
    proof (rule framed_subset [where W = "written_syms e"])
      show "eval os ?n su = Some (v, \<lambda>a. if a \<in> written_syms e then st' a else su a)"
        if "\<And>a. a \<in> read_syms ?n \<Longrightarrow> su a = st a" for su
        using framedD(2) [OF fe, of su] that False e(2) by (simp add: syms_unary)
    qed (use fe in \<open>auto simp: syms_unary dest: framedD(1)\<close>)
  qed
qed simp_all

lemma swap_operands:
  assumes "independent l r" "eval os l st = Some (v1, st1)" "eval os r st1 = Some (v2, st2)"
  shows "\<exists>su. eval os r st = Some (v2, su) \<and> eval os l su = Some (v1, st2)"
proof -
  have ind: "written_syms l \<inter> (read_syms r \<union> written_syms r) = {}" "written_syms r \<inter> read_syms l = {}"
    using assms(1) by (simp_all add: independent_def)
  have fl: "framed os l st v1 st1" and fr: "framed os r st1 v2 st2"
    using assms(2,3) eval_framed by blast+
  define su where "su = (\<lambda>a. if a \<in> written_syms r then st2 a else st a)"
  have "eval os r st = Some (v2, su)"
    unfolding su_def
  proof (rule framedD(2) [OF fr])
    fix a assume "a \<in> read_syms r"
    then have "a \<notin> written_syms l" using ind(1) by blast
    then show "st a = st1 a" using framedD(1) [OF fl] by simp
  qed
  moreover have "eval os l su = Some (v1, \<lambda>a. if a \<in> written_syms l then st1 a else su a)"
    by (rule framedD(2) [OF fl]) (use ind in \<open>auto simp: su_def\<close>)
  moreover have "(\<lambda>a. if a \<in> written_syms l then st1 a else su a) = st2"
  proof
    fix a
    show "(if a \<in> written_syms l then st1 a else su a) = st2 a"
      using framedD(1) [OF fl, of a] framedD(1) [OF fr, of a] ind by (auto simp: su_def)
  qed
  ultimately show ?thesis by simp
qed


section \<open>Arguments\<close>

fun eval_args :: "ops \<Rightarrow> node list \<Rightarrow> store \<Rightarrow> (i64 list \<times> store) option" where
  "eval_args os [] st = Some ([], st)"
| "eval_args os (n # ns) st =
     (case eval os n st of
        None \<Rightarrow> None
      | Some (v, st1) \<Rightarrow> map_option (\<lambda>(vs, st2). (v # vs, st2)) (eval_args os ns st1))"

lemma next_writes_None:
  "next_writes ss sets = None \<longleftrightarrow> set ss \<inter> (set (ss_reads sets) \<union> set (ss_writes sets)) = {}"
  by (induction ss) auto

lemma next_reads_None: "next_reads ss sets = None \<longleftrightarrow> set ss \<inter> set (ss_writes sets) = {}"
  by (induction ss) auto

definition few_symbols :: "node list \<Rightarrow> bool" where
  "few_symbols ns \<longleftrightarrow> length (concat (map reads_of ns)) \<le> SYMBOL_SET_SIZE
     \<and> length (concat (map writes_of ns)) \<le> SYMBOL_SET_SIZE"

lemma few_symbols_parts:
  "few_symbols (xs @ ys) \<Longrightarrow> few_symbols xs" "few_symbols (xs @ b # ys) \<Longrightarrow> small_expr b"
  "few_symbols (xs @ b # ys) \<Longrightarrow> few_symbols (xs @ [b])"
  by (auto simp: few_symbols_def small_expr_def)

definition seen_sets :: "node list \<Rightarrow> symbol_sets" where
  "seen_sets ns = \<lparr>ss_reads = concat (map reads_of ns), ss_writes = concat (map writes_of ns)\<rparr>"

lemma check_args_independent:
  "check_args (seen_sets seen) args = None \<Longrightarrow> few_symbols (seen @ args) \<Longrightarrow>
     sorted_wrt independent args \<and> (\<forall>a \<in> set seen. \<forall>b \<in> set args. independent a b)"
proof (induction args arbitrary: seen)
  case Nil
  then show ?case by simp
next
  case (Cons b args)
  have b: "ss_reads (collect_symbols b no_symbols) = reads_of b"
    "ss_writes (collect_symbols b no_symbols) = writes_of b"
    using collected_small few_symbols_parts(2) [OF Cons.prems(2)] by blast+
  have new: "\<lparr>ss_reads = foldl add_sym (ss_reads (seen_sets seen)) (reads_of b),
      ss_writes = foldl add_sym (ss_writes (seen_sets seen)) (writes_of b)\<rparr> = seen_sets (seen @ [b])"
    using few_symbols_parts(3) [OF Cons.prems(2)]
    by (auto simp: seen_sets_def few_symbols_def add_syms)
  have passed: "next_writes (writes_of b) (seen_sets seen) = None"
    "next_reads (reads_of b) (seen_sets seen) = None" "check_args (seen_sets (seen @ [b])) args = None"
    using Cons.prems(1) by (simp_all add: b new Let_def split: option.splits)
  have "independent a b" if "a \<in> set seen" for a
    using passed(1,2) that unfolding next_writes_None next_reads_None
    by (fastforce simp: independent_def seen_sets_def read_syms_def written_syms_def)
  with Cons.IH [OF passed(3)] Cons.prems(2) show ?case by auto
qed

lemma eval_front:
  "\<forall>x \<in> set xs. independent x m \<Longrightarrow> eval_args os (xs @ m # ys) st = Some (vs, st') \<Longrightarrow>
     \<exists>v us ws. vs = us @ v # ws \<and> length us = length xs
       \<and> eval_args os (m # xs @ ys) st = Some (v # us @ ws, st')"
proof (induction xs arbitrary: st vs)
  case Nil
  then show ?case by (auto split: option.splits)
next
  case (Cons x xs)
  from Cons.prems obtain w st1 vs1 where x: "eval os x st = Some (w, st1)"
    "eval_args os (xs @ m # ys) st1 = Some (vs1, st')" "vs = w # vs1"
    by (auto split: option.splits)
  with Cons obtain v us ws where front: "vs1 = us @ v # ws" "length us = length xs"
    "eval_args os (m # xs @ ys) st1 = Some (v # us @ ws, st')" by fastforce
  then obtain st2 where m: "eval os m st1 = Some (v, st2)" "eval_args os (xs @ ys) st2 = Some (us @ ws, st')"
    by (auto split: option.splits)
  obtain su where "eval os m st = Some (v, su)" "eval os x su = Some (w, st2)"
    using swap_operands [OF _ x(1) m(1)] Cons.prems(1) by auto
  with m(2) have "eval_args os (m # (x # xs) @ ys) st = Some (v # (w # us) @ ws, st')" by simp
  with front(1,2) x(3) show ?case by (intro exI [of _ v] exI [of _ "w # us"] exI [of _ ws]) simp
qed

lemma eval_args_any_order:
  "sorted_wrt independent ns \<Longrightarrow> eval_args os ns st = Some (vs, st') \<Longrightarrow> mset ns' = mset ns \<Longrightarrow>
     \<exists>vs'. eval_args os ns' st = Some (vs', st') \<and> mset (zip ns' vs') = mset (zip ns vs)"
proof (induction ns' arbitrary: ns st vs)
  case Nil
  then show ?case by simp
next
  case (Cons m ms)
  then have "m \<in> set ns" by (metis list.set_intros(1) set_mset_mset)
  then obtain xs ys where ns: "ns = xs @ m # ys" by (auto simp: in_set_conv_decomp)
  with Cons.prems(1) have "\<forall>x \<in> set xs. independent x m" and rest: "sorted_wrt independent (xs @ ys)"
    by (auto simp: sorted_wrt_append)
  then obtain v us ws where vs: "vs = us @ v # ws" "length us = length xs"
    and "eval_args os (m # xs @ ys) st = Some (v # us @ ws, st')"
    using eval_front [of xs m os ys st vs st'] Cons.prems(2) ns by blast
  then obtain st1 where m: "eval os m st = Some (v, st1)" "eval_args os (xs @ ys) st1 = Some (us @ ws, st')"
    by (auto split: option.splits)
  moreover have "mset ms = mset (xs @ ys)" using Cons.prems(3) ns by simp
  ultimately obtain vs' where "eval_args os ms st1 = Some (vs', st')"
    "mset (zip ms vs') = mset (zip (xs @ ys) (us @ ws))"
    using Cons.IH [OF rest m(2)] by blast
  with m(1) show ?case
    by (intro exI [of _ "v # vs'"]) (simp add: ns vs zip_append)
qed

text \<open>
  Where the check of the arguments of a call reports nothing and they use at most 32 symbols
  together, they can be evaluated in every order, which C leaves open: each argument has the same value
  and the store afterwards is the same.
\<close>

theorem arguments_any_order:
  assumes "check_all_args_side_effects True None args = None" "few_symbols args"
    and "eval_args os args st = Some (vs, st')" "mset args' = mset args"
  shows "\<exists>vs'. eval_args os args' st = Some (vs', st') \<and> mset (zip args' vs') = mset (zip args vs)"
proof -
  have "check_args (seen_sets []) args = None"
    using assms(1) by (simp add: check_all_args_side_effects_def seen_sets_def no_symbols_def)
  then have "sorted_wrt independent args" using check_args_independent [of "[]" args] assms(2) by simp
  then show ?thesis using eval_args_any_order assms(3,4) by blast
qed

text \<open>The operands \<open>x++\<close> and \<open>y + 1\<close>, with the arithmetic of \<open>int64_t\<close>.\<close>

definition example_ops :: ops where
  "example_ops = \<lparr>op_binary = (\<lambda>op a b. if op = ''+'' then Some (a + b) else None),
                  op_unary = (\<lambda>op a. if op \<in> {''++'', ''_post++''} then Some (a + 1) else None),
                  op_shortcut = (\<lambda>op a. None)\<rparr>"

definition sym_var :: "nat \<Rightarrow> node" where
  "sym_var a = VarRef (Meta TOKEN_UNKNOWN None []) None (Some a)"

definition example_step :: "nat \<Rightarrow> node" where
  "example_step a = Unary (Meta TOKEN_UNKNOWN None []) (Some ''_post++'') [sym_var a]"

definition example_sum :: "nat \<Rightarrow> node" where
  "example_sum a = Binary (Meta TOKEN_UNKNOWN None []) (Some ''+'') [sym_var a]
     [Literal (Meta TOKEN_UNKNOWN None []) LITERAL_INT 1 Not_finite None]"

lemmas example_defs = example_step_def example_sum_def sym_var_def example_ops_def


theorem arguments_any_order_witness:
  "\<exists>vs. eval_args example_ops [example_sum 2, example_step 1] (\<lambda>_. 0) = Some (vs, (\<lambda>_. 0)(1 := 1))
     \<and> mset (zip [example_sum 2, example_step 1] vs) = mset (zip [example_step 1, example_sum 2] [0, 1])"
proof (rule arguments_any_order)
  show "check_all_args_side_effects True None [example_step 1, example_sum 2] = None"
    "few_symbols [example_step 1, example_sum 2]"
    by code_simp+
  show "eval_args example_ops [example_step 1, example_sum 2] (\<lambda>_. 0) = Some ([0, 1], (\<lambda>_. 0)(1 := 1))"
    by (simp add: example_defs op_steps_def assign_def compound_ops_def)
  show "mset [example_sum 2, example_step 1] = mset [example_step 1, example_sum 2]" by simp
qed

section \<open>What the checks miss\<close>

text \<open>A comparison counts as an assignment, so as a statement it has an effect, and as an operand it
  modifies its left side.\<close>

lemma comparison_modifies:
  "let eq = Binary (Meta TOKEN_UNKNOWN None []) (Some ''=='') [sym_var 1] [sym_var 2]
   in tc_expr_has_side_effects eq
     \<and> check_side_effect_collision True (Some eq) (Some (sym_var 1)) = Some msg_read_modified"
  by code_simp

text \<open>Symbols below an index are not collected: \<open>x++\<close> against \<open>a[x]\<close> is not reported.\<close>

lemma index_not_collected:
  "check_side_effect_collision True (Some (example_step 1))
     (Some (Index (Meta TOKEN_UNKNOWN None []) [sym_var 2] [sym_var 1] [])) = None"
  by code_simp

text \<open>Beyond 32 symbols nothing is collected: the operand reads \<open>x\<close> as its last symbol.\<close>

lemma many_symbols_not_collected:
  "let m = Meta TOKEN_UNKNOWN None [];
       long = Call m [sym_var 0] (map sym_var [10..<41] @ [sym_var 1])
   in check_side_effect_collision True (Some (example_step 1)) (Some long) = None \<and> 1 \<in> read_syms long"
proof -
  let ?long = "Call (Meta TOKEN_UNKNOWN None []) [sym_var 0] (map sym_var [10..<41] @ [sym_var 1])"
  have "check_side_effect_collision True (Some (example_step 1)) (Some ?long) = None" by code_simp
  moreover have "Some 1 \<in> set (reads_of ?long)" by code_simp
  ultimately show ?thesis by (simp add: read_syms_def Let_def)
qed

text \<open>Two arguments that modify different unresolved variables collide in their NULL.\<close>

lemma unresolved_collide:
  "let m = Meta TOKEN_UNKNOWN None []; step = (\<lambda>x. Unary m (Some ''++'') [VarRef m (Some x) None])
   in check_all_args_side_effects True None [step ''a'', step ''b''] = Some msg_arg_read_modified"
  by code_simp

text \<open>A \<open>usize\<close> operand is 64 bits wide and gets a 32-bit register.\<close>

lemma usize_register_narrow:
  "let t = Some (type_new 1 TYPE_USIZE) in integer_type_width t = 64 \<and> get_asm_register_size t = 32"
  by code_simp

end
