(* ===== verification/ZcBuild.thy ===== *)
theory ZcBuild
  imports ZcTypeStr
begin

text \<open>
  Build directives and the command line of the C compiler: \<open>append_flag\<close>, \<open>str_join\<close>, the directives
  \<open>//> ...\<close> of a source (\<open>src/src/utils/utils.c\<close>) and the argument lists of
  \<open>src/src/utils/cmd.c\<close>. The environment, the operating system and what running \<open>pkg-config\<close> prints are
  arguments. A write beyond a block is \<open>None\<close>; sizes are \<open>size_t\<close> and wrap.
\<close>

section \<open>Flags\<close>

definition size_sub :: "nat \<Rightarrow> nat \<Rightarrow> nat" where
  "size_sub a b = (if b \<le> a then a - b else 2 ^ 64 + a - b)"

text \<open>\<open>strncat(dest, s, n)\<close> on a block of \<open>max_size\<close> bytes.\<close>

definition strncat :: "nat \<Rightarrow> string \<Rightarrow> string \<Rightarrow> nat \<Rightarrow> string option" where
  "strncat max_size dest s n =
     (if length dest + length (take n s) < max_size then Some (dest @ take n s) else None)"

definition append_flag :: "nat \<Rightarrow> string \<Rightarrow> string option \<Rightarrow> string option \<Rightarrow> string option" where
  "append_flag max_size dest prefix val =
     (let current_len = length dest;
          spaced = (if 0 < current_len \<and> last dest \<noteq> CHR '' ''
            then (strncat max_size dest '' '' (size_sub max_size (current_len + 1)), current_len + 1)
            else (Some dest, current_len))
      in Option.bind (fst spaced) (\<lambda>dest1.
         Option.bind
           (case prefix of
              None \<Rightarrow> Some (dest1, snd spaced)
            | Some p \<Rightarrow> map_option (\<lambda>d. (d, length d)) (strncat max_size dest1 p (size_sub max_size (snd spaced + 1))))
           (\<lambda>(dest2, len). case val of
              None \<Rightarrow> Some dest2
            | Some v \<Rightarrow> strncat max_size dest2 v (size_sub max_size (len + 1)))))"

fun str_join_loop :: "nat \<Rightarrow> string \<Rightarrow> bool \<Rightarrow> string list \<Rightarrow> string \<Rightarrow> string option" where
  "str_join_loop max_size out first [] sep = Some out"
| "str_join_loop max_size out first (p # ps) sep =
     Option.bind (if first then Some out else strncat max_size out sep (size_sub max_size (length out + 1)))
       (\<lambda>out1. Option.bind (strncat max_size out1 p (size_sub max_size (length out1 + 1)))
         (\<lambda>out2. str_join_loop max_size out2 False ps sep))"

definition str_join :: "nat \<Rightarrow> string list \<Rightarrow> string \<Rightarrow> string option" where
  "str_join max_size parts sep = (if 0 < max_size then str_join_loop max_size [] True parts sep else None)"

section \<open>Argument lists\<close>

record arg_list =
  al_args :: "string list"
  al_cap :: nat

definition arg_list_init :: arg_list where
  "arg_list_init = \<lparr>al_args = [], al_cap = 32\<rparr>"

text \<open>The array holds the arguments and the NULL after them.\<close>

definition arg_list_add :: "arg_list \<Rightarrow> string \<Rightarrow> arg_list option" where
  "arg_list_add list arg =
     (if arg = [] then Some list
      else
        let count = length (al_args list);
            cap = (if count + 1 \<ge> al_cap list then al_cap list * 2 else al_cap list)
        in if count + 1 < cap then Some \<lparr>al_args = al_args list @ [arg], al_cap = cap\<rparr> else None)"

definition put_char :: "string \<Rightarrow> char \<Rightarrow> string" where
  "put_char arg c = (if length arg < 4095 then arg @ [c] else arg)"

function (sequential) arg_word :: "bool \<Rightarrow> string \<Rightarrow> string \<Rightarrow> string \<times> string" where
  "arg_word in_quote arg [] = (arg, [])"
| "arg_word in_quote arg (c # cs) =
     (if \<not> (in_quote \<or> \<not> isspace c \<and> c \<noteq> CR) then (arg, c # cs)
      else if c = BSLASH \<and> at cs 0 = DQUOTE then arg_word in_quote (put_char arg DQUOTE) (tl cs)
      else if c = DQUOTE then arg_word (\<not> in_quote) arg cs
      else arg_word in_quote (put_char arg c) cs)"
  by pat_completeness auto
termination by (relation "measure (\<lambda>(q, a, s). length s)") auto

lemma arg_word_shorter: "length (snd (arg_word q a s)) \<le> length s"
  by (induction q a s rule: arg_word.induct) (auto intro: le_SucI order_trans)

lemma arg_word_progress: "\<not> isspace c \<Longrightarrow> length (snd (arg_word q a (c # cs))) \<le> length cs"
proof -
  assume "\<not> isspace c"
  moreover have "isspace CR" by (simp add: isspace_def)
  ultimately have "c \<noteq> CR" by auto
  with \<open>\<not> isspace c\<close> show ?thesis
    using arg_word_shorter [of q "put_char a DQUOTE" "tl cs"] arg_word_shorter [of "\<not> q" a cs]
      arg_word_shorter [of q "put_char a c" cs]
    by (auto intro: order_trans)
qed

function arg_list_add_from_string :: "arg_list \<Rightarrow> string \<Rightarrow> arg_list option" where
  "arg_list_add_from_string list str =
     (let p = dropWhile isspace str
      in if p = [] then Some list
         else Option.bind (arg_list_add list (fst (arg_word False [] p)))
                (\<lambda>list'. arg_list_add_from_string list' (snd (arg_word False [] p))))"
  by pat_completeness auto
termination
proof (relation "measure (\<lambda>(l, s). length s)")
  fix list :: arg_list and str p :: string and list' :: arg_list
  assume p: "p = dropWhile isspace str" "p \<noteq> []"
  then obtain c cs where c: "p = c # cs" "\<not> isspace c" by (metis hd_dropWhile list.collapse)
  have "length p \<le> length str" unfolding p(1) by (rule length_dropWhile_le)
  with arg_word_progress [OF c(2), of False "[]" cs] c(1)
  show "((list', snd (arg_word False [] p)), list, str) \<in> measure (\<lambda>(l, s). length s)" by simp
qed simp

declare arg_list_add_from_string.simps [simp del]

section \<open>Directives\<close>

definition MAX_VAR_NAME_LEN :: nat where "MAX_VAR_NAME_LEN = 256"
definition MAX_FLAGS_SIZE :: nat where "MAX_FLAGS_SIZE = 1024"

text \<open>The value of a variable \<open>${NAME}\<close> at the start of a text, with the text after it.\<close>

definition env_var :: "(string \<Rightarrow> string option) \<Rightarrow> nat \<Rightarrow> string \<Rightarrow> (string \<times> string) option" where
  "env_var getenv remaining s =
     (if at s 0 = CHR ''$'' \<and> at s 1 = CHR ''{'' \<and> CHR ''}'' \<in> set (drop 2 s) then
        let name = takeWhile (\<lambda>c. c \<noteq> CHR ''}'') (drop 2 s)
        in if length name < MAX_VAR_NAME_LEN - 1 then
             case getenv name of
               Some val \<Rightarrow>
                 if length val < remaining then Some (val, drop (length name + 3) s) else None
             | None \<Rightarrow> None
           else None
      else None)"

function expand_env_vars :: "(string \<Rightarrow> string option) \<Rightarrow> nat \<Rightarrow> string \<Rightarrow> string" where
  "expand_env_vars getenv remaining s =
     (if s = [] \<or> remaining = 0 then []
      else case env_var getenv remaining s of
        Some (val, s') \<Rightarrow> val @ expand_env_vars getenv (remaining - length val) s'
      | None \<Rightarrow> hd s # expand_env_vars getenv (remaining - 1) (tl s))"
  by pat_completeness auto
termination
  by (relation "measure (\<lambda>(g, r, s). length s)") (auto simp: env_var_def Let_def split: if_splits option.splits)

declare expand_env_vars.simps [simp del]

datatype os = OS_LINUX | OS_WINDOWS | OS_MACOS | OS_OTHER




definition safe_char :: "char \<Rightarrow> bool" where
  "safe_char c \<longleftrightarrow> isalnum c \<or> c = CHR ''-'' \<or> c = CHR ''_'' \<or> c = CHR '' '' \<or> c = CHR ''.'' \<or> c = CHR ''+''"

definition is_safe_pkg_config_spec :: "string \<Rightarrow> bool" where
  "is_safe_pkg_config_spec libs \<longleftrightarrow> libs \<noteq> [] \<and> list_all safe_char libs"

text \<open>The words of a text: what the loops over \<open>include:\<close>, \<open>lib:\<close>, \<open>framework:\<close> and \<open>define:\<close> take one
  after the other.\<close>

function value_words :: "string \<Rightarrow> string list" where
  "value_words s =
     (let p = dropWhile isspace s
      in if p = [] then [] else takeWhile (\<lambda>c. \<not> isspace c) p # value_words (dropWhile (\<lambda>c. \<not> isspace c) p))"
  by pat_completeness auto
termination
proof (relation "measure length")
  fix s p :: string
  assume p: "p = dropWhile isspace s" "p \<noteq> []"
  then obtain c cs where "p = c # cs" "\<not> isspace c" by (metis hd_dropWhile list.collapse)
  moreover have "length p \<le> length s" unfolding p(1) by (rule length_dropWhile_le)
  ultimately show "(dropWhile (\<lambda>c. \<not> isspace c) p, s) \<in> measure length"
    using length_dropWhile_le [of "\<lambda>c. \<not> isspace c" cs] by simp
qed simp

declare value_words.simps [simp del]

fun append_words :: "nat \<Rightarrow> string \<Rightarrow> string list \<Rightarrow> string \<Rightarrow> string option" where
  "append_words dst_size dst [] prefix = Some dst"
| "append_words dst_size dst (w # ws) prefix =
     Option.bind (append_flag dst_size dst (Some (snprintf_into (4096 + 32) (prefix @ take 4095 w))) None)
       (\<lambda>dst'. append_words dst_size dst' ws prefix)"

definition append_prefixed_words :: "nat \<Rightarrow> string \<Rightarrow> string \<Rightarrow> string \<Rightarrow> string option" where
  "append_prefixed_words dst_size dst val prefix = append_words dst_size dst (value_words val) prefix"

record build_state =
  bs_link_flags :: string
  bs_cflags :: string
  bs_defines :: "string list"
  bs_commands :: "string list list"
  bs_warnings :: "string list"

definition set_link_flags :: "build_state \<Rightarrow> string option \<Rightarrow> build_state option" where
  "set_link_flags st flags = map_option (\<lambda>f. st\<lparr>bs_link_flags := f\<rparr>) flags"

definition set_cflags :: "build_state \<Rightarrow> string option \<Rightarrow> build_state option" where
  "set_cflags st flags = map_option (\<lambda>f. st\<lparr>bs_cflags := f\<rparr>) flags"

definition warn :: "build_state \<Rightarrow> string \<Rightarrow> build_state" where
  "warn st msg = st\<lparr>bs_warnings := bs_warnings st @ [msg]\<rparr>"

fun add_defines :: "build_state \<Rightarrow> string list \<Rightarrow> build_state option" where
  "add_defines st [] = Some st"
| "add_defines st (w # ws) =
     (let def_val = take 1023 w
      in Option.bind (set_cflags st (append_flag MAX_FLAGS_SIZE (bs_cflags st) (Some ''-D'') (Some def_val)))
           (\<lambda>st'. add_defines
              (st'\<lparr>bs_defines := bs_defines st' @ [takeWhile (\<lambda>c. c \<noteq> CHR ''='') def_val]\<rparr>) ws))"

text \<open>One run of \<open>pkg-config\<close>: \<open>None\<close> of \<open>run\<close> is an exit code other than 0, and otherwise what was
  captured, with its last newline removed.\<close>

definition chop_newline :: "string \<Rightarrow> string" where
  "chop_newline buf = (if buf \<noteq> [] \<and> last buf = NL then butlast buf else buf)"

definition pkg_config_args :: "string \<Rightarrow> string \<Rightarrow> arg_list option" where
  "pkg_config_args mode libs =
     Option.bind (arg_list_add arg_list_init ''pkg-config'') (\<lambda>a.
       Option.bind (arg_list_add a mode) (\<lambda>a. arg_list_add_from_string a libs))"

definition pkg_config ::
    "(string list \<Rightarrow> string option) \<Rightarrow> string \<Rightarrow> string \<Rightarrow> build_state
     \<Rightarrow> (build_state \<Rightarrow> string \<Rightarrow> build_state option) \<Rightarrow> build_state option" where
  "pkg_config run mode libs st use =
     Option.bind (pkg_config_args mode libs) (\<lambda>a.
       let st' = st\<lparr>bs_commands := bs_commands st @ [al_args a]\<rparr>
       in case run (al_args a) of
            None \<Rightarrow> Some st'
          | Some buf \<Rightarrow> use st' (chop_newline buf))"

definition quoted :: "string \<Rightarrow> string" where
  "quoted s = [SQUOTE] @ s @ [SQUOTE]"

definition blocked :: "string \<Rightarrow> string \<Rightarrow> string \<Rightarrow> string" where
  "blocked key val reason =
     ''Security Alert: Execution of '' @ quoted key @ '' directive ('' @ val @ '') was BLOCKED'' @ reason"

definition has_prefix :: "string \<Rightarrow> string \<Rightarrow> bool" where
  "has_prefix key s \<longleftrightarrow> take (length key) s = key"

definition skip_blanks :: "string \<Rightarrow> string" where
  "skip_blanks s = dropWhile isspace s"

definition process_directive ::
    "(string list \<Rightarrow> string option) \<Rightarrow> build_state \<Rightarrow> string \<Rightarrow> build_state option" where
  "process_directive run st directive =
     (if has_prefix ''link:'' directive then
        set_link_flags st
          (append_flag MAX_FLAGS_SIZE (bs_link_flags st) (Some (skip_blanks (drop 5 directive))) None)
      else if has_prefix ''cflags:'' directive then
        set_cflags st (append_flag MAX_FLAGS_SIZE (bs_cflags st) (Some (skip_blanks (drop 7 directive))) None)
      else if has_prefix ''include:'' directive then
        set_cflags st (append_prefixed_words MAX_FLAGS_SIZE (bs_cflags st) (drop 8 directive) ''-I'')
      else if has_prefix ''lib:'' directive then
        set_link_flags st (append_prefixed_words MAX_FLAGS_SIZE (bs_link_flags st) (drop 4 directive) ''-L'')
      else if has_prefix ''framework:'' directive then
        set_link_flags st
          (append_prefixed_words MAX_FLAGS_SIZE (bs_link_flags st) (drop 10 directive) ''-framework '')
      else if has_prefix ''define:'' directive then
        add_defines st (value_words (skip_blanks (drop 7 directive)))
      else if has_prefix ''shell:'' directive then
        Some (warn st (blocked ''shell:'' (skip_blanks (drop 6 directive))
          '' by default to prevent Remote Code Execution.''))
      else if has_prefix ''get:'' directive then
        Some (warn st (blocked ''get:'' (skip_blanks (drop 4 directive))
          ''. Please download external dependencies manually.''))
      else if has_prefix ''pkg-config:'' directive then
        (let libs = drop 11 directive
         in if \<not> is_safe_pkg_config_spec libs then Some (warn st
              (''Security Alert: Execution of '' @ quoted ''pkg-config:'' @ '' directive with invalid chars (''
               @ libs @ '') was BLOCKED.''))
            else
              Option.bind
                (pkg_config run ''--cflags'' libs st
                  (\<lambda>st buf. set_cflags st (append_flag MAX_FLAGS_SIZE (bs_cflags st) (Some buf) None)))
                (\<lambda>st. pkg_config run ''--libs'' libs st
                  (\<lambda>st buf. set_link_flags st (append_flag MAX_FLAGS_SIZE (bs_link_flags st) (Some buf) None))))
      else Some (warn st (''Unknown build directive: '' @ quoted directive)))"



section \<open>Flags that fit and flags that do not\<close>

definition spaced_out :: "string \<Rightarrow> string" where
  "spaced_out dest = (if dest \<noteq> [] \<and> last dest \<noteq> CHR '' '' then dest @ '' '' else dest)"

lemma length_spaced_out: "length (spaced_out dest) \<le> length dest + 1"
  by (simp add: spaced_out_def)

lemma size_sub_room [simp]: "b \<le> a \<Longrightarrow> size_sub a b = a - b"
  by (simp add: size_sub_def)

lemma strncat_room:
  "length dest < m \<Longrightarrow> strncat m dest s (m - Suc (length dest)) = Some (take (m - 1) (dest @ s))"
  by (auto simp: strncat_def min_def)

text \<open>Unless the block is full and does not end in a space, a flag is appended after a space, cut to
  the room that is left.\<close>

lemma append_flag_room:
  assumes "length (spaced_out dest) < m"
  shows "append_flag m dest (Some p) v = Some (take (m - 1) (spaced_out dest @ p @ (case v of None \<Rightarrow> [] | Some v \<Rightarrow> v)))"
proof -
  define S where "S = spaced_out dest"
  define d where "d = take (m - 1) (S @ p)"
  have lengths: "length S < m" "length d < m"
    using assms by (auto simp: S_def d_def min_def)
  have "append_flag m dest (Some p) v =
      Option.bind (map_option (\<lambda>d. (d, length d)) (strncat m S p (m - Suc (length S))))
        (\<lambda>(d, len). case v of None \<Rightarrow> Some d | Some v \<Rightarrow> strncat m d v (size_sub m (len + 1)))"
  proof (cases "dest \<noteq> [] \<and> last dest \<noteq> CHR '' ''")
    case True
    then have "S = dest @ '' ''" by (simp add: S_def spaced_out_def)
    moreover have "strncat m dest '' '' (m - Suc (length dest)) = Some (dest @ '' '')"
      using lengths(1) \<open>S = dest @ '' ''\<close> by (simp add: strncat_def)
    ultimately show ?thesis using True lengths(1) by (simp add: append_flag_def Let_def)
  next
    case False
    then have "S = dest" by (auto simp: S_def spaced_out_def)
    with False lengths(1) show ?thesis by (auto simp: append_flag_def Let_def)
  qed
  also have "\<dots> = (case v of None \<Rightarrow> Some d | Some v \<Rightarrow> strncat m d v (size_sub m (length d + 1)))"
    by (simp only: strncat_room [OF lengths(1)] d_def [symmetric] option.map bind.bind_lunit prod.case)
  also have "\<dots> = Some (take (m - 1) (d @ (case v of None \<Rightarrow> [] | Some v \<Rightarrow> v)))"
    using strncat_room [OF lengths(2)] lengths(2) by (simp split: option.split)
  also have "take (m - 1) (d @ w) = take (m - 1) (S @ p @ w)" for w
    by (simp add: d_def min_def)
  finally show ?thesis by (simp add: S_def)
qed

text \<open>With a full block, the room computed for the flag is that of \<open>size_t\<close> below zero.\<close>

lemma append_flag_full:
  assumes "length dest = m - 1" "0 < m" "dest \<noteq> []" "last dest \<noteq> CHR '' ''" "p \<noteq> []" "m < 2 ^ 64"
  shows "append_flag m dest (Some p) v = None"
proof -
  obtain k where k: "m = Suc k" using assms(2) by (cases m) auto
  have "0 < length p" using assms(5) by simp
  then have over: "strncat m dest p (size_sub m (m + 1)) = None"
    using assms k by (auto simp: strncat_def size_sub_def min_def)
  have "length dest = k" "0 < k" using assms k by auto
  moreover have "strncat m dest '' '' (size_sub m (length dest + 1)) = Some dest"
    using \<open>length dest = k\<close> k by (simp add: strncat_def)
  ultimately show ?thesis
    using assms(3,4) over k by (simp add: append_flag_def Let_def)
qed

text \<open>
  \<open>append_flag\<close> stays within its block exactly when the block is not full, ends in a space, or
  nothing is appended: the room for the flag is counted after a space that did not fit.
\<close>

theorem append_flag_stays_inside:
  assumes "length dest < m" "m < 2 ^ 64"
  shows "append_flag m dest (Some p) None \<noteq> None \<longleftrightarrow>
    length (spaced_out dest) < m \<or> p = []"
proof (cases "length (spaced_out dest) < m")
  case True
  then show ?thesis by (simp add: append_flag_room)
next
  case False
  then have full: "length dest = m - 1" "dest \<noteq> []" "last dest \<noteq> CHR '' ''" "0 < m"
    using assms(1) by (auto simp: spaced_out_def split: if_splits)
  show ?thesis
  proof (cases "p = []")
    case True
    with full assms show ?thesis by (simp add: append_flag_def Let_def strncat_def)
  next
    case nonempty: False
    with full assms(2) append_flag_full [of dest m p None] False show ?thesis by simp
  qed
qed

theorem append_flag_stays_inside_witness:
  "append_flag 5 ''-lm '' (Some ''-lz'') None \<noteq> None \<and> append_flag 5 ''-lmx'' (Some ''-lz'') None = None"
  using append_flag_stays_inside [of "''-lm ''" 5 "''-lz''"] append_flag_stays_inside [of "''-lmx''" 5 "''-lz''"]
  by (simp add: spaced_out_def)

text \<open>Two directives are enough: a first one that does not fit leaves the block full.\<close>

lemma long_link_directive_overflows:
  assumes "length f \<ge> MAX_FLAGS_SIZE - 1" "f ! (MAX_FLAGS_SIZE - 2) \<noteq> CHR '' ''" "\<not> isspace (hd f)" "bs_link_flags st = []"
  shows "Option.bind (process_directive run st (''link:'' @ f)) (\<lambda>st. process_directive run st ''link:-lm'') = None"
proof -
  have nonempty: "f \<noteq> []" using assms(1) by (auto simp: MAX_FLAGS_SIZE_def)
  have "skip_blanks f = f" using assms(3) nonempty by (cases f) (auto simp: skip_blanks_def)
  then have "process_directive run st (''link:'' @ f) = Some (st\<lparr>bs_link_flags := take 1023 f\<rparr>)"
    using assms(4) append_flag_room [of "[]" MAX_FLAGS_SIZE f None]
    by (simp add: process_directive_def has_prefix_def set_link_flags_def spaced_out_def MAX_FLAGS_SIZE_def)
  moreover have "append_flag MAX_FLAGS_SIZE (take 1023 f) (Some ''-lm'') None = None"
    using assms(1,2) nonempty
    by (intro append_flag_full) (auto simp: MAX_FLAGS_SIZE_def last_conv_nth min_def)
  then have "process_directive run (st\<lparr>bs_link_flags := take 1023 f\<rparr>) ''link:-lm'' = None"
    by (simp add: process_directive_def has_prefix_def set_link_flags_def skip_blanks_def isspace_def)
  ultimately show ?thesis by simp
qed

section \<open>Arguments\<close>

definition arg_list_ok :: "arg_list \<Rightarrow> bool" where
  "arg_list_ok list \<longleftrightarrow> length (al_args list) < al_cap list"

lemma arg_list_add_ok:
  "arg_list_ok list \<Longrightarrow> \<exists>list'. arg_list_add list arg = Some list' \<and> arg_list_ok list'
     \<and> al_args list' = al_args list @ (if arg = [] then [] else [arg])"
  by (auto simp: arg_list_add_def arg_list_ok_def Let_def)

text \<open>The words that are read from a string, without the list.\<close>

function args_of :: "string \<Rightarrow> string list" where
  "args_of str =
     (let p = dropWhile isspace str
      in if p = [] then [] else fst (arg_word False [] p) # args_of (snd (arg_word False [] p)))"
  by pat_completeness auto
termination
proof (relation "measure length")
  fix str p :: string
  assume p: "p = dropWhile isspace str" "p \<noteq> []"
  then obtain c cs where c: "p = c # cs" "\<not> isspace c" by (metis hd_dropWhile list.collapse)
  have "length p \<le> length str" unfolding p(1) by (rule length_dropWhile_le)
  with arg_word_progress [OF c(2), of False "[]" cs] c(1)
  show "(snd (arg_word False [] p), str) \<in> measure length" by simp
qed simp

declare args_of.simps [simp del]

lemma add_from_string:
  "arg_list_ok list \<Longrightarrow> \<exists>list'. arg_list_add_from_string list str = Some list' \<and> arg_list_ok list'
     \<and> al_args list' = al_args list @ List.filter (\<lambda>a. a \<noteq> []) (args_of str)"
proof (induction str arbitrary: list rule: args_of.induct)
  case (1 str)
  define p where "p = dropWhile isspace str"
  define w where "w = arg_word False [] p"
  have step: "arg_list_add_from_string list str =
      (if p = [] then Some list
       else Option.bind (arg_list_add list (fst w)) (\<lambda>list'. arg_list_add_from_string list' (snd w)))"
    by (subst arg_list_add_from_string.simps) (simp only: Let_def p_def w_def)
  have words: "args_of str = (if p = [] then [] else fst w # args_of (snd w))"
    by (subst args_of.simps) (simp only: Let_def p_def w_def)
  show ?case
  proof (cases "p = []")
    case True
    with 1(2) step words show ?thesis by simp
  next
    case False
    obtain list1 where l1: "arg_list_add list (fst w) = Some list1" "arg_list_ok list1"
      "al_args list1 = al_args list @ (if fst w = [] then [] else [fst w])"
      using arg_list_add_ok [OF 1(2)] by blast
    obtain list2 where "arg_list_add_from_string list1 (snd w) = Some list2" "arg_list_ok list2"
      "al_args list2 = al_args list1 @ List.filter (\<lambda>a. a \<noteq> []) (args_of (snd w))"
      using 1(1) [OF p_def False l1(2)] unfolding w_def by blast
    with False l1 step words show ?thesis by simp
  qed
qed

text \<open>The way to write an argument: in quotes, its own quotes after a backslash.\<close>

fun escape :: "string \<Rightarrow> string" where
  "escape [] = []"
| "escape (c # cs) = (if c = DQUOTE then BSLASH # DQUOTE # escape cs else c # escape cs)"

definition quote_arg :: "string \<Rightarrow> string" where
  "quote_arg a = DQUOTE # escape a @ [DQUOTE]"

fun join_args :: "string list \<Rightarrow> string" where
  "join_args [] = []"
| "join_args (a # as) = quote_arg a @ CHR '' '' # join_args as"

definition quotable :: "string \<Rightarrow> bool" where
  "quotable a \<longleftrightarrow> a \<noteq> [] \<and> length a < 4096 \<and> last a \<noteq> BSLASH \<and> NUL \<notin> set a"

lemma arg_word_escape:
  "length acc + length a < 4096 \<Longrightarrow> a = [] \<or> last a \<noteq> BSLASH \<Longrightarrow>
     arg_word True acc (escape a @ DQUOTE # r) = arg_word False (acc @ a) r"
proof (induction a arbitrary: acc)
  case Nil
  then show ?case by simp
next
  case (Cons c cs)
  then have IH: "arg_word True (acc @ [c]) (escape cs @ DQUOTE # r) = arg_word False ((acc @ [c]) @ cs) r"
    by (cases cs) simp_all
  have put: "put_char acc c = acc @ [c]" using Cons.prems by (simp add: put_char_def)
  consider (quote) "c = DQUOTE" | (slash) "c = BSLASH" | (other) "c \<noteq> DQUOTE" "c \<noteq> BSLASH" by blast
  then show ?case
  proof cases
    case slash
    with Cons.prems obtain d ds where "cs = d # ds" by (cases cs) auto
    then have "at (escape cs @ DQUOTE # r) 0 \<noteq> DQUOTE" by simp
    with slash IH put show ?thesis by simp
  qed (use IH put in simp_all)
qed

lemma args_of_join: "list_all quotable as \<Longrightarrow> args_of (join_args as) = as"
proof (induction as)
  case Nil
  then show ?case by (subst args_of.simps) simp
next
  case (Cons a as)
  have space: "isspace (CHR '' '')" and quote: "\<not> isspace DQUOTE" by (simp_all add: isspace_def)
  have tail: "args_of (CHR '' '' # join_args as) = args_of (join_args as)"
    by (subst (1 2) args_of.simps) (simp add: space)
  have "arg_word False [] (join_args (a # as)) = arg_word True [] (escape a @ DQUOTE # CHR '' '' # join_args as)"
    using quote by (simp add: quote_arg_def)
  also have "\<dots> = (a, CHR '' '' # join_args as)"
    using arg_word_escape [of "[]" a] Cons.prems space by (auto simp: quotable_def)
  finally have word: "arg_word False [] (join_args (a # as)) = (a, CHR '' '' # join_args as)" .
  have "dropWhile isspace (join_args (a # as)) = join_args (a # as)" "join_args (a # as) \<noteq> []"
    using quote by (simp_all add: quote_arg_def)
  moreover have "args_of (join_args as) = as" using Cons by simp
  ultimately show ?case using word tail by (subst args_of.simps) (simp del: join_args.simps)
qed

text \<open>
  C29: Arguments that are written in quotes, with their quotes escaped, are read back as they are, and
  the array of arguments always has room for them and the NULL at its end: for every list of arguments
  that are not empty, have at most 4095 characters and do not end in a backslash.
\<close>

theorem arguments_roundtrip:
  assumes "list_all quotable args" "arg_list_ok list"
  shows "\<exists>list'. arg_list_add_from_string list (join_args args) = Some list'
    \<and> al_args list' = al_args list @ args \<and> arg_list_ok list'"
proof -
  have "List.filter (\<lambda>a. a \<noteq> []) args = args"
    using assms(1) by (auto simp: filter_id_conv quotable_def list_all_iff)
  with add_from_string [OF assms(2), of "join_args args"] args_of_join [OF assms(1)] show ?thesis by auto
qed

theorem arguments_roundtrip_witness:
  "\<exists>list'. arg_list_add_from_string arg_list_init (join_args [''-DNAME='' @ [DQUOTE] @ ''a b'' @ [DQUOTE], ''-I/my dir'']) = Some list'
     \<and> al_args list' = [''-DNAME='' @ [DQUOTE] @ ''a b'' @ [DQUOTE], ''-I/my dir'']"
  using arguments_roundtrip [of "[''-DNAME='' @ [DQUOTE] @ ''a b'' @ [DQUOTE], ''-I/my dir'']" arg_list_init]
  by (auto simp: quotable_def arg_list_ok_def arg_list_init_def)

text \<open>A backslash at the end of an argument takes the closing quote with it.\<close>

lemma backslash_swallows_quote:
  "args_of (join_args [''C:'' @ [BSLASH], ''-o'']) = [''C:'' @ [DQUOTE] @ '' -o '']"
  by code_simp

section \<open>What directives can run\<close>















text \<open>An expanded line fits its buffer, however long the values of the variables are.\<close>

lemma expand_fits: "length (expand_env_vars getenv remaining s) \<le> remaining"
proof (induction getenv remaining s rule: expand_env_vars.induct)
  case (1 getenv remaining s)
  show ?case
  proof (cases "s = [] \<or> remaining = 0")
    case True
    then show ?thesis by (subst expand_env_vars.simps) auto
  next
    case False
    show ?thesis
    proof (cases "env_var getenv remaining s")
      case None
      with False 1(1) show ?thesis by (subst expand_env_vars.simps) auto
    next
      case (Some x)
      moreover obtain val s' where x: "x = (val, s')" by (cases x)
      moreover have "length val < remaining"
        using Some x by (auto simp: env_var_def Let_def split: if_splits option.splits)
      ultimately show ?thesis using False 1(2) [OF False Some x [symmetric]] by (subst expand_env_vars.simps) simp
    qed
  qed
qed

end
