(* ===== verification/ZcJson.thy ===== *)
theory ZcJson
  imports ZcAst
begin

text \<open>
  The JSON backend (\<open>src/src/codegen/codegen_backend_json.c\<close>), which prints the syntax tree. What is
  printed is a string; the emitter that takes it has no indentation of its own here. The texts of a
  node that the tree of \<open>ZcAst\<close> does not keep are arguments (\<open>node_text\<close>), as is the format \<open>%g\<close> of a
  \<open>double\<close>. A fault of \<open>type_to_string\<close> ends the printing.
\<close>

record node_text =
  nt_name :: "node \<Rightarrow> string option"
  nt_path :: "node \<Rightarrow> string option"
  nt_content :: "node \<Rightarrow> string option"
  nt_step :: "node \<Rightarrow> string option"
  nt_format_g :: "dbl \<Rightarrow> string"
  nt_full_content :: bool

fun node_type_name :: "NodeType \<Rightarrow> string" where
  "node_type_name NODE_ROOT = ''ROOT''"
| "node_type_name NODE_FUNCTION = ''FUNCTION''"
| "node_type_name NODE_BLOCK = ''BLOCK''"
| "node_type_name NODE_RETURN = ''RETURN''"
| "node_type_name NODE_VAR_DECL = ''VAR_DECL''"
| "node_type_name NODE_FIELD_INIT = ''FIELD_INIT''"
| "node_type_name NODE_CONST = ''CONST''"
| "node_type_name NODE_TYPE_ALIAS = ''TYPE_ALIAS''"
| "node_type_name NODE_IF = ''IF''"
| "node_type_name NODE_WHILE = ''WHILE''"
| "node_type_name NODE_FOR = ''FOR''"
| "node_type_name NODE_FOR_RANGE = ''FOR_RANGE''"
| "node_type_name NODE_LOOP = ''LOOP''"
| "node_type_name NODE_BREAK = ''BREAK''"
| "node_type_name NODE_CONTINUE = ''CONTINUE''"
| "node_type_name NODE_MATCH = ''MATCH''"
| "node_type_name NODE_MATCH_CASE = ''MATCH_CASE''"
| "node_type_name NODE_EXPR_BINARY = ''BINARY''"
| "node_type_name NODE_EXPR_UNARY = ''UNARY''"
| "node_type_name NODE_EXPR_LITERAL = ''LITERAL''"
| "node_type_name NODE_EXPR_VAR = ''VAR''"
| "node_type_name NODE_EXPR_CALL = ''CALL''"
| "node_type_name NODE_EXPR_MEMBER = ''MEMBER''"
| "node_type_name NODE_EXPR_INDEX = ''INDEX''"
| "node_type_name NODE_EXPR_CAST = ''CAST''"
| "node_type_name NODE_EXPR_SIZEOF = ''SIZEOF''"
| "node_type_name NODE_EXPR_STRUCT_INIT = ''STRUCT_INIT''"
| "node_type_name NODE_EXPR_ARRAY_LITERAL = ''ARRAY_LIT''"
| "node_type_name NODE_EXPR_TUPLE_LITERAL = ''TUPLE''"
| "node_type_name NODE_EXPR_SLICE = ''SLICE''"
| "node_type_name NODE_STRUCT = ''STRUCT''"
| "node_type_name NODE_FIELD = ''FIELD''"
| "node_type_name NODE_ENUM = ''ENUM''"
| "node_type_name NODE_ENUM_VARIANT = ''ENUM_VARIANT''"
| "node_type_name NODE_TRAIT = ''TRAIT''"
| "node_type_name NODE_IMPL = ''IMPL''"
| "node_type_name NODE_IMPL_TRAIT = ''IMPL_TRAIT''"
| "node_type_name NODE_INCLUDE = ''INCLUDE''"
| "node_type_name NODE_IMPORT = ''IMPORT''"
| "node_type_name NODE_RAW_STMT = ''RAW''"
| "node_type_name NODE_GOTO = ''GOTO''"
| "node_type_name NODE_LABEL = ''LABEL''"
| "node_type_name NODE_DEFER = ''DEFER''"
| "node_type_name NODE_TEST = ''TEST''"
| "node_type_name NODE_ASSERT = ''ASSERT''"
| "node_type_name NODE_EXPECT = ''EXPECT''"
| "node_type_name NODE_DESTRUCT_VAR = ''DESTRUCT_VAR''"
| "node_type_name NODE_LAMBDA = ''LAMBDA''"
| "node_type_name NODE_PLUGIN = ''PLUGIN''"
| "node_type_name NODE_TERNARY = ''TERNARY''"
| "node_type_name NODE_TYPEOF = ''TYPEOF''"
| "node_type_name NODE_TRY = ''TRY''"
| "node_type_name NODE_REFLECTION = ''REFLECTION''"
| "node_type_name NODE_REPL_PRINT = ''REPL_PRINT''"
| "node_type_name NODE_CUDA_LAUNCH = ''CUDA_LAUNCH''"
| "node_type_name NODE_VA_START = ''VA_START''"
| "node_type_name _ = ''UNKNOWN''"

section \<open>Pieces\<close>

definition json_escape_char :: "char \<Rightarrow> string" where
  "json_escape_char c =
     (if c = DQUOTE then [BSLASH, DQUOTE]
      else if c = BSLASH then [BSLASH, BSLASH]
      else if c = NL then [BSLASH, CHR ''n'']
      else if c = CR then [BSLASH, CHR ''r'']
      else if c = CHR 0x09 then [BSLASH, CHR ''t'']
      else [c])"

definition json_escape :: "string option \<Rightarrow> string" where
  "json_escape s =
     (case s of
        None \<Rightarrow> ''null''
      | Some s \<Rightarrow> [DQUOTE] @ concat (map json_escape_char s) @ [DQUOTE])"

definition json_indent :: "nat \<Rightarrow> string" where
  "json_indent depth = concat (replicate depth ''  '')"

definition json_emit_maybe_newline :: "bool \<Rightarrow> nat \<Rightarrow> string" where
  "json_emit_maybe_newline pretty depth = (if pretty then NL # json_indent depth else [])"

definition json_emit_separator :: "bool \<Rightarrow> nat \<Rightarrow> bool \<Rightarrow> string" where
  "json_emit_separator pretty depth first =
     (if first then [] else CHR '','' # json_emit_maybe_newline pretty depth)"

definition key_text :: "string \<Rightarrow> string" where
  "key_text key = [DQUOTE] @ key @ [DQUOTE] @ '':''"

text \<open>A member after another one, for a text that may be NULL.\<close>

definition opt_member :: "string \<Rightarrow> string option \<Rightarrow> string" where
  "opt_member key val = (case val of None \<Rightarrow> [] | Some s \<Rightarrow> '','' @ key_text key @ json_escape (Some s))"

definition node_name :: "node_text \<Rightarrow> node \<Rightarrow> string option" where
  "node_name nt n =
     (case n of
        Function _ x _ _ _ \<Rightarrow> Some x
      | VarDecl _ x _ _ \<Rightarrow> x
      | FieldInit _ x _ \<Rightarrow> x
      | _ \<Rightarrow> nt_name nt n)"

definition named_kinds :: "NodeType list" where
  "named_kinds =
     [NODE_FUNCTION, NODE_VAR_DECL, NODE_FIELD_INIT, NODE_CONST, NODE_TYPE_ALIAS, NODE_STRUCT, NODE_ENUM,
      NODE_TRAIT, NODE_FIELD, NODE_ENUM_VARIANT, NODE_LABEL, NODE_IMPL]"

definition json_name :: "node_text \<Rightarrow> node \<Rightarrow> string" where
  "json_name nt n =
     (if nd_kind n \<in> set named_kinds then opt_member ''name'' (node_name nt n)
      else if nd_kind n = NODE_IMPORT \<or> nd_kind n = NODE_INCLUDE then opt_member ''path'' (nt_path nt n)
      else case n of
        Binary _ op _ _ \<Rightarrow> opt_member ''op'' op
      | Unary _ op _ \<Rightarrow> opt_member ''op'' op
      | _ \<Rightarrow> [])"

text \<open>The name after the last \<open>__\<close>, when the last underscore follows another one.\<close>

definition skip_mangled_prefix :: "string \<Rightarrow> string" where
  "skip_mangled_prefix name =
     (let tail = rev (takeWhile (\<lambda>c. c \<noteq> CHR ''_'') (rev name));
          i = length name - length tail - 1
      in if CHR ''_'' \<in> set name \<and> 0 < i \<and> name ! (i - 1) = CHR ''_'' then tail else name)"

definition json_emit_callee :: "node list \<Rightarrow> string" where
  "json_emit_callee callee =
     (case callee of
        VarRef _ (Some x) _ # _ \<Rightarrow> opt_member ''callee'' (Some (skip_mangled_prefix x))
      | Member _ _ (Some field) # _ \<Rightarrow> opt_member ''callee'' (Some field)
      | _ \<Rightarrow> [])"

definition json_emit_raw_content :: "bool \<Rightarrow> string option \<Rightarrow> string" where
  "json_emit_raw_content full content =
     (case content of
        None \<Rightarrow> []
      | Some c \<Rightarrow>
          if full then opt_member ''content'' (Some c)
          else opt_member ''preview''
            (Some (snprintf_into 44 (take 40 c @ (if 40 < length c then ''...'' else [])))))"

definition json_literal :: "node_text \<Rightarrow> node \<Rightarrow> string" where
  "json_literal nt n =
     (case n of
        Literal _ LITERAL_INT v _ _ \<Rightarrow> '','' @ key_text ''value'' @ show_nat (unat v)
      | Literal _ LITERAL_FLOAT _ d _ \<Rightarrow> '','' @ key_text ''value'' @ nt_format_g nt d
      | Literal _ LITERAL_CHAR v _ _ \<Rightarrow> '','' @ key_text ''value'' @ [DQUOTE, char_of (unat v), DQUOTE]
      | Literal _ _ _ _ s \<Rightarrow> opt_member ''value'' s
      | _ \<Rightarrow> [])"

definition json_range :: "node_text \<Rightarrow> node \<Rightarrow> string" where
  "json_range nt n =
     (case n of
        ForRange _ v _ _ inclusive _ _ \<Rightarrow>
          opt_member ''var'' v @ opt_member ''step'' (nt_step nt n)
          @ (if inclusive then '','' @ key_text ''inclusive'' @ ''true'' else [])
      | _ \<Rightarrow> [])"

definition json_type :: "node \<Rightarrow> str_fault + string" where
  "json_type n =
     (case nd_type n of
        None \<Rightarrow> Inr []
      | Some t \<Rightarrow> bindE (type_to_string (Some t)) (\<lambda>tn. Inr (opt_member ''type'' (Some tn))))"

definition json_loc :: "node \<Rightarrow> string" where
  "json_loc n =
     (if tk_start (nd_token n) = None then []
      else '','' @ key_text ''loc'' @ ''{'' @ key_text ''line'' @ show_nat (tk_line (nd_token n)) @ '',''
           @ key_text ''col'' @ show_nat (tk_col (nd_token n)) @ ''}'')"

text \<open>What is printed before the children of a node.\<close>

definition json_head :: "node_text \<Rightarrow> node \<Rightarrow> str_fault + string" where
  "json_head nt n =
     bindE (json_type n) (\<lambda>ty. Inr
       (''{'' @ key_text ''node'' @ [DQUOTE] @ node_type_name (nd_kind n) @ [DQUOTE]
        @ json_name nt n
        @ (case n of Call _ callee _ \<Rightarrow> json_emit_callee callee | _ \<Rightarrow> [])
        @ json_range nt n
        @ (if nd_kind n = NODE_RAW_STMT then json_emit_raw_content (nt_full_content nt) (nt_content nt n) else [])
        @ json_literal nt n @ ty @ json_loc n))"

section \<open>Nodes\<close>

text \<open>The children that are printed: the key, whether they are an array of the whole chain, and the
  chain; of the others the first node alone is printed.\<close>

definition json_slots :: "node \<Rightarrow> (string \<times> bool \<times> node list) list" where
  "json_slots n =
     (case n of
        Function _ _ _ _ body \<Rightarrow> [(''body'', True, body)]
      | Block _ stmts \<Rightarrow> [(''statements'', True, stmts)]
      | Match _ _ cases \<Rightarrow> [(''cases'', True, cases)]
      | StructInit _ fs \<Rightarrow> [(''fields'', True, fs)]
      | ArrayLiteral _ elements \<Rightarrow> [(''elements'', True, elements)]
      | Call _ _ args \<Rightarrow> [(''args'', True, args)]
      | ForRange _ _ start end _ _ _ \<Rightarrow> [(''start'', False, start), (''end'', False, end)]
      | For _ init cond step body _ \<Rightarrow>
          [(''init'', False, init), (''condition'', False, cond), (''step'', False, step), (''body'', True, body)]
      | Other _ k (c # _) \<Rightarrow>
          (if k = NODE_ROOT then [(''children'', True, c)]
           else if k = NODE_STRUCT then [(''fields'', True, c)]
           else if k = NODE_ENUM then [(''variants'', True, c)]
           else if k = NODE_IMPL then [(''methods'', True, c)]
           else [])
      | _ \<Rightarrow> [])"

definition slots_size :: "(string \<times> bool \<times> node list) list \<Rightarrow> nat" where
  "slots_size slots = sum_list (map (\<lambda>(k, b, c). size_list size c) slots)"

lemma json_slots_smaller: "slots_size (json_slots n) \<le> size n"
  by (cases n) (auto simp: json_slots_def slots_size_def split: list.split)

lemma json_slots_few: "length (json_slots n) \<le> 4"
  by (cases n) (auto simp: json_slots_def split: list.split)

lemma slots_size_simps [simp]:
  "slots_size [] = 0" "slots_size ((k, b, c) # slots) = size_list size c + slots_size slots"
  by (simp_all add: slots_size_def)

lemma size_list_head:
  "size_list size (take (Suc 0) c) \<noteq> size_list size c + k \<Longrightarrow>
     size_list size (take (Suc 0) c) < size_list size (c :: node list) + k"
  by (cases c) auto

function json_emit_node :: "node_text \<Rightarrow> bool \<Rightarrow> nat \<Rightarrow> bool \<Rightarrow> node \<Rightarrow> str_fault + string"
  and json_emit_nodes :: "node_text \<Rightarrow> bool \<Rightarrow> nat \<Rightarrow> bool \<Rightarrow> node list \<Rightarrow> str_fault + string"
  and json_emit_children :: "node_text \<Rightarrow> bool \<Rightarrow> nat \<Rightarrow> (string \<times> bool \<times> node list) list \<Rightarrow> str_fault + string" where
  "json_emit_node nt pretty depth first n =
     bindE (json_head nt n) (\<lambda>h.
       bindE (json_emit_children nt pretty (depth + 1) (json_slots n)) (\<lambda>cs. Inr
         (json_emit_separator pretty depth first @ (if pretty then json_indent depth else []) @ h @ cs @ ''}'')))"
| "json_emit_nodes nt pretty depth first [] = Inr []"
| "json_emit_nodes nt pretty depth first (n # ns) =
     bindE (json_emit_node nt pretty depth first n) (\<lambda>s.
       bindE (json_emit_nodes nt pretty depth False ns) (\<lambda>t. Inr (s @ t)))"
| "json_emit_children nt pretty depth [] = Inr []"
| "json_emit_children nt pretty depth ((key, named, c) # slots) =
     bindE
       (if c = [] then Inr []
        else if named then
          bindE (json_emit_nodes nt pretty (depth + 1) True c) (\<lambda>s. Inr
            ('','' @ key_text key @ json_emit_maybe_newline pretty depth @ ''['' @ (if pretty then [NL] else [])
             @ s @ json_emit_maybe_newline pretty depth @ '']''))
        else
          bindE (json_emit_nodes nt pretty (depth + 1) True (take 1 c)) (\<lambda>s. Inr
            (json_emit_separator pretty depth False @ json_emit_maybe_newline pretty depth @ key_text key @ s)))
       (\<lambda>s. bindE (json_emit_children nt pretty depth slots) (\<lambda>t. Inr (s @ t)))"
  by pat_completeness auto
termination
proof (relation "measures
    [\<lambda>x. case x of Inl (nt, p, d, f, n) \<Rightarrow> size n
       | Inr y \<Rightarrow> (case y of Inl (nt, p, d, f, ns) \<Rightarrow> size_list size ns | Inr (nt, p, d, slots) \<Rightarrow> slots_size slots),
     \<lambda>x. case x of Inl _ \<Rightarrow> 10
       | Inr y \<Rightarrow> (case y of Inl _ \<Rightarrow> 1 | Inr (nt, p, d, slots) \<Rightarrow> 2 + length slots)]", goal_cases)
  case (2 nt pretty depth first n h)
  then show ?case using json_slots_smaller [of n] json_slots_few [of n] by (auto simp: le_less)
qed (auto simp: size_list_head)

definition json_emit_program :: "node_text \<Rightarrow> bool \<Rightarrow> node \<Rightarrow> str_fault + string" where
  "json_emit_program nt pretty root =
     bindE (json_emit_node nt pretty 0 True root) (\<lambda>s. Inr (s @ [NL]))"

section \<open>JSON\<close>

datatype json = JNull | JBool bool | JNum string | JStr string | JArr "json list" | JObj "(string \<times> json) list"

definition json_space :: "char \<Rightarrow> bool" where
  "json_space c \<longleftrightarrow> c \<in> {CHR '' '', NL, CR, CHR 0x09}"

abbreviation blank_text :: "string \<Rightarrow> bool" where "blank_text w \<equiv> list_all json_space w"





text \<open>The characters of a JSON string that need no \<open>\u\<close> escape.\<close>

definition text_ok :: "string \<Rightarrow> bool" where
  "text_ok s \<longleftrightarrow> (\<forall>c \<in> set s. 32 \<le> ord c \<or> c \<in> {NL, CR, CHR 0x09})"


text \<open>A reader, on fuel.\<close>

fun read_str :: "string \<Rightarrow> (string \<times> string) option" where
  "read_str [] = None"
| "read_str (c # cs) =
     (if c = DQUOTE then Some ([], cs)
      else if c = BSLASH then
        (case cs of
           [] \<Rightarrow> None
         | e # r \<Rightarrow>
             (case (if e = CHR ''n'' then Some NL else if e = CHR ''r'' then Some CR
                    else if e = CHR ''t'' then Some (CHR 0x09)
                    else if e \<in> {DQUOTE, BSLASH, CHR ''/''} then Some e else None) of
                None \<Rightarrow> None
              | Some x \<Rightarrow> map_option (\<lambda>(xs, r'). (x # xs, r')) (read_str r)))
      else map_option (\<lambda>(xs, r'). (c # xs, r')) (read_str cs))"

definition json_num_char :: "char \<Rightarrow> bool" where
  "json_num_char c \<longleftrightarrow> isdigit c \<or> c \<in> set ''+-.eE''"

definition closing :: "char \<Rightarrow> string \<Rightarrow> string option" where
  "closing b s = (case dropWhile json_space s of [] \<Rightarrow> None | c # cs \<Rightarrow> if c = b then Some cs else None)"

fun read_value :: "nat \<Rightarrow> string \<Rightarrow> (json \<times> string) option"
  and read_items :: "nat \<Rightarrow> string \<Rightarrow> (json list \<times> string) option"
  and read_member :: "nat \<Rightarrow> string \<Rightarrow> ((string \<times> json) \<times> string) option"
  and read_members :: "nat \<Rightarrow> string \<Rightarrow> ((string \<times> json) list \<times> string) option" where
  "read_value 0 s = None"
| "read_value (Suc k) s =
     (case dropWhile json_space s of
        [] \<Rightarrow> None
      | c # cs \<Rightarrow>
          if c = DQUOTE then map_option (\<lambda>(x, r). (JStr x, r)) (read_str cs)
          else if c = CHR ''['' then
            (case read_value k cs of
               Some (j, r) \<Rightarrow> map_option (\<lambda>(js, r'). (JArr (j # js), r')) (read_items k r)
             | None \<Rightarrow> map_option (\<lambda>r'. (JArr [], r')) (closing (CHR '']'') cs))
          else if c = CHR ''{'' then
            (case read_member k cs of
               Some (m, r) \<Rightarrow> map_option (\<lambda>(ms, r'). (JObj (m # ms), r')) (read_members k r)
             | None \<Rightarrow> map_option (\<lambda>r'. (JObj [], r')) (closing (CHR ''}'') cs))
          else if take 4 (c # cs) = ''null'' then Some (JNull, drop 4 (c # cs))
          else if take 4 (c # cs) = ''true'' then Some (JBool True, drop 4 (c # cs))
          else if take 5 (c # cs) = ''false'' then Some (JBool False, drop 5 (c # cs))
          else if json_num_char c then
            Some (JNum (takeWhile json_num_char (c # cs)), dropWhile json_num_char (c # cs))
          else None)"
| "read_items 0 s = None"
| "read_items (Suc k) s =
     (case dropWhile json_space s of
        [] \<Rightarrow> None
      | c # cs \<Rightarrow>
          if c = CHR '']'' then Some ([], cs)
          else if c = CHR '','' then
            Option.bind (read_value k cs) (\<lambda>(j, r).
              map_option (\<lambda>(js, r'). (j # js, r')) (read_items k r))
          else None)"
| "read_member 0 s = None"
| "read_member (Suc k) s =
     (case dropWhile json_space s of
        [] \<Rightarrow> None
      | c # cs \<Rightarrow>
          if c = DQUOTE then
            Option.bind (read_str cs) (\<lambda>(x, r).
              case dropWhile json_space r of
                [] \<Rightarrow> None
              | d # ds \<Rightarrow>
                  if d = CHR '':'' then map_option (\<lambda>(j, r'). ((x, j), r')) (read_value k ds) else None)
          else None)"
| "read_members 0 s = None"
| "read_members (Suc k) s =
     (case dropWhile json_space s of
        [] \<Rightarrow> None
      | c # cs \<Rightarrow>
          if c = CHR ''}'' then Some ([], cs)
          else if c = CHR '','' then
            Option.bind (read_member k cs) (\<lambda>(m, r).
              map_option (\<lambda>(ms, r'). (m # ms, r')) (read_members k r))
          else None)"

text \<open>A whole text: one value and white space.\<close>

definition read_json :: "string \<Rightarrow> json option" where
  "read_json s =
     (case read_value (length s) s of
        Some (j, r) \<Rightarrow> if blank_text r then Some j else None
      | None \<Rightarrow> None)"

lemma blank_drop [simp]: "blank_text w \<Longrightarrow> dropWhile json_space (w @ s) = dropWhile json_space s"
  by (induction w) simp_all


definition stops :: "string \<Rightarrow> bool" where
  "stops r \<longleftrightarrow> r = [] \<or> \<not> json_num_char (hd r)"

lemma stops_punct [simp]: "stops (CHR '','' # r)" "stops (CHR '']'' # r)" "stops (CHR ''}'' # r)" "stops []"
  by (simp_all add: stops_def json_num_char_def isdigit_def)











lemma not_blank [simp]:
  "\<not> json_space DQUOTE" "\<not> json_space (CHR ''['')" "\<not> json_space (CHR ''{'')" "\<not> json_space (CHR '','')"
  "\<not> json_space (CHR '']'')" "\<not> json_space (CHR ''}'')" "\<not> json_space (CHR '':'')"
  "\<not> json_space (CHR ''t'')" "\<not> json_space (CHR ''n'')" "\<not> json_space (CHR ''f'')"
  by (simp_all add: json_space_def)





section \<open>The value of a tree\<close>




definition preview :: "string \<Rightarrow> string" where
  "preview c = snprintf_into 44 (take 40 c @ (if 40 < length c then ''...'' else []))"










section \<open>What is printed is the value\<close>















lemma text_ok_preview: "text_ok c \<Longrightarrow> text_ok (preview c)"
  by (auto simp: text_ok_def preview_def snprintf_into_def dest!: in_set_takeD)





















section \<open>Properties\<close>


definition json_sample_texts :: node_text where
  "json_sample_texts =
     \<lparr>nt_name = \<lambda>n. None, nt_path = \<lambda>n. None, nt_content = \<lambda>n. Some [BSLASH, CHR ''a'', DQUOTE], nt_step = \<lambda>n. None,
      nt_format_g = \<lambda>d. ''1.5e+06'', nt_full_content = False\<rparr>"

definition json_sample_meta :: meta where
  "json_sample_meta =
     Meta \<lparr>tk_kind = TOK_IDENT, tk_start = Some 0, tk_len = 1, tk_line = 3, tk_col = 7, tk_file = ''a.zc''\<rparr> None []"



text \<open>The character literal of a quote is printed as it is, and the text is no JSON.\<close>

lemma quote_literal_is_no_json:
  "\<exists>out. json_emit_program json_sample_texts False (Literal json_sample_meta LITERAL_CHAR 34 (Finite 0 0) None) = Inr out
     \<and> read_json out = None"
proof -
  define n where "n = Literal json_sample_meta LITERAL_CHAR 34 (Finite 0 0) None"
  have "(case json_emit_program json_sample_texts False n of Inl _ \<Rightarrow> False | Inr out \<Rightarrow> read_json out = None)"
    unfolding n_def by code_simp
  then show ?thesis unfolding n_def [symmetric] by (auto split: sum.splits)
qed

text \<open>The operands of an operator and the body of a \<open>for\<close> over a range are not printed.\<close>

lemma operands_not_printed:
  "json_emit_node nt p d f (Binary m op l r) = json_emit_node nt p d f (Binary m op l' r')"
  by (simp add: json_emit_node.simps json_slots_def json_head_def json_name_def json_range_def json_literal_def
      json_type_def json_loc_def named_kinds_def)

lemma range_body_not_printed:
  "json_emit_node nt p d f (ForRange m v s e inc body l) = json_emit_node nt p d f (ForRange m v s e inc body' l)"
  if "nt_step nt (ForRange m v s e inc body l) = nt_step nt (ForRange m v s e inc body' l)"
  using that by (simp add: json_emit_node.simps json_slots_def json_head_def json_name_def json_range_def json_literal_def
      json_type_def json_loc_def named_kinds_def)

end
