(* ===== verification/ZcMisra.thy ===== *)
theory ZcMisra
  imports ZcSymbols ZcSideEffects
begin

text \<open>
  The MISRA checks of \<open>src/src/platform/misra.c\<close>: each gives the messages that it reports with
  \<open>zerror_at\<close>, with their tokens, in order; \<open>misra_mode\<close> is the flag of the configuration. \<open>None\<close> is a
  NULL pointer that is read through. The texts of \<open>emit_misra_preamble\<close> are left out.
\<close>

type_synonym reports = "diag list"
type_synonym u64 = "64 word"

definition report :: "token \<Rightarrow> string \<Rightarrow> reports" where
  "report t msg = [(t, msg)]"

definition report_if :: "bool \<Rightarrow> token \<Rightarrow> string \<Rightarrow> reports" where
  "report_if b t msg = (if b then [(t, msg)] else [])"

lemma report_if_Nil [simp]: "report_if b t msg = [] \<longleftrightarrow> \<not> b"
  by (simp add: report_if_def)

section \<open>Types\<close>

text \<open>\<open>resolve_alias\<close> of \<open>analysis/typecheck_expr.c\<close> sees through opaque aliases as well.\<close>

function resolve_alias :: "ty option \<Rightarrow> ty option" where
  "resolve_alias None = None"
| "resolve_alias (Some t) =
     (if ty_kind t = TYPE_ALIAS \<and> ty_inner t \<noteq> None then resolve_alias (ty_inner t) else Some t)"
  by pat_completeness auto
termination by (relation "measure (size_option size)") (auto simp: size_option_inner)

lemma resolve_alias_Some: "resolve_alias (Some t) \<noteq> None"
proof (induction "Some t" arbitrary: t rule: resolve_alias.induct)
  case (2 t)
  then show ?case by (cases "ty_inner t") auto
qed

text \<open>\<open>is_incomplete_type\<close> and \<open>is_composite_expression\<close> of \<open>ast/ast.c\<close>; \<open>find_def\<close> finds the definition
  of a struct and tells whether it is incomplete.\<close>

definition is_incomplete_type :: "(string \<Rightarrow> bool option) \<Rightarrow> ty option \<Rightarrow> bool" where
  "is_incomplete_type find_def t =
     (case t of
        None \<Rightarrow> False
      | Some t \<Rightarrow>
          (case ty_name t of
             None \<Rightarrow> False
           | Some name \<Rightarrow>
               ty_kind t = TYPE_STRUCT
               \<and> (case find_def name of None \<Rightarrow> True | Some incomplete \<Rightarrow> incomplete)))"

definition is_composite_expression :: "node option \<Rightarrow> bool" where
  "is_composite_expression n =
     (case n of
        None \<Rightarrow> False
      | Some n \<Rightarrow> nd_kind n \<in> {NODE_EXPR_BINARY, NODE_EXPR_UNARY, NODE_TERNARY})"

datatype EssentialCategory = ESS_BOOL | ESS_CHAR | ESS_SIGNED | ESS_UNSIGNED | ESS_FLOAT | ESS_UNKNOWN

definition get_essential_category :: "ty option \<Rightarrow> EssentialCategory" where
  "get_essential_category t =
     (case resolve_alias t of
        None \<Rightarrow> ESS_UNKNOWN
      | Some r \<Rightarrow>
          if is_boolean_type (Some r) then ESS_BOOL
          else if ty_kind r = TYPE_CHAR \<or> ty_kind r = TYPE_C_CHAR then ESS_CHAR
          else if is_unsigned_type (Some r) then ESS_UNSIGNED
          else if is_signed_type (Some r) then ESS_SIGNED
          else if is_float_type (Some r) then ESS_FLOAT
          else ESS_UNKNOWN)"

text \<open>The table of widths: 0 for a kind that it does not have, inside it or past its end.\<close>

fun kind_width :: "TypeKind \<Rightarrow> nat" where
  "kind_width TYPE_I8 = 8" | "kind_width TYPE_U8 = 8" | "kind_width TYPE_CHAR = 8"
| "kind_width TYPE_C_CHAR = 8" | "kind_width TYPE_C_UCHAR = 8"
| "kind_width TYPE_I16 = 16" | "kind_width TYPE_U16 = 16" | "kind_width TYPE_C_SHORT = 16"
| "kind_width TYPE_C_USHORT = 16"
| "kind_width TYPE_I32 = 32" | "kind_width TYPE_U32 = 32" | "kind_width TYPE_INT = 32"
| "kind_width TYPE_UINT = 32" | "kind_width TYPE_C_INT = 32" | "kind_width TYPE_C_UINT = 32"
| "kind_width TYPE_I64 = 64" | "kind_width TYPE_U64 = 64" | "kind_width TYPE_USIZE = 64"
| "kind_width TYPE_ISIZE = 64" | "kind_width TYPE_C_LONG = 64" | "kind_width TYPE_C_ULONG = 64"
| "kind_width TYPE_C_LONGLONG = 64" | "kind_width TYPE_C_ULONGLONG = 64"
| "kind_width TYPE_F32 = 32" | "kind_width TYPE_F64 = 64"
| "kind_width _ = 0"

definition get_type_width :: "ty option \<Rightarrow> nat" where
  "get_type_width t = (case resolve_alias t of None \<Rightarrow> 0 | Some r \<Rightarrow> kind_width (ty_kind r))"

section \<open>Conversions and operators\<close>

definition category_clash :: "EssentialCategory \<Rightarrow> EssentialCategory \<Rightarrow> bool" where
  "category_clash a b \<longleftrightarrow>
     a \<noteq> b \<and> a \<noteq> ESS_UNKNOWN \<and> b \<noteq> ESS_UNKNOWN
     \<and> (a = ESS_BOOL \<or> b = ESS_BOOL \<or> a = ESS_SIGNED \<and> b = ESS_UNSIGNED \<or> a = ESS_UNSIGNED \<and> b = ESS_SIGNED)"

definition is_zero_literal :: "node option \<Rightarrow> bool" where
  "is_zero_literal n = (case n of Some (Literal _ LITERAL_INT v _ _) \<Rightarrow> v = 0 | _ \<Rightarrow> False)"

definition points_to_function :: "ty \<Rightarrow> bool" where
  "points_to_function t \<longleftrightarrow>
     ty_kind t = TYPE_POINTER \<and> ty_inner t \<noteq> None
     \<and> (case resolve_alias (ty_inner t) of None \<Rightarrow> False | Some i \<Rightarrow> ty_kind i = TYPE_FUNCTION)"

definition misra_check_implicit_conversion ::
    "bool \<Rightarrow> ty option \<Rightarrow> ty option \<Rightarrow> node option \<Rightarrow> token \<Rightarrow> reports option" where
  "misra_check_implicit_conversion misra_mode target source source_node tok =
     (if \<not> misra_mode then Some []
      else
        let r1 = report_if (category_clash (get_essential_category target) (get_essential_category source))
                   tok ''MISRA Rule 10.4'';
            tw = get_type_width target;
            sw = get_type_width source;
            r2 = (if sw > tw then report tok ''MISRA Rule 10.3''
                  else report_if (tw > sw \<and> is_composite_expression source_node) tok ''MISRA Rule 10.6'')
        in case (resolve_alias target, resolve_alias source) of
             (Some rt, Some rs) \<Rightarrow> Some (r1 @ r2 @
               (if (ty_kind rt = TYPE_POINTER \<and> is_integer_type (Some rs)
                    \<or> is_integer_type (Some rt) \<and> ty_kind rs = TYPE_POINTER)
                   \<and> \<not> is_zero_literal source_node then
                  (if points_to_function rs \<or> points_to_function rt
                   then report tok ''MISRA Rule 11.1'' else report tok ''MISRA Rule 11.4'')
                else []))
           | _ \<Rightarrow> None)"

definition misra_check_char_arithmetic :: "bool \<Rightarrow> ty option \<Rightarrow> ty option \<Rightarrow> string \<Rightarrow> token \<Rightarrow> reports" where
  "misra_check_char_arithmetic misra_mode left right op tok =
     (let cl = get_essential_category left; cr = get_essential_category right
      in report_if (misra_mode \<and> (cl = ESS_CHAR \<or> cr = ESS_CHAR) \<and> \<not> (op = ''-'' \<and> cl = ESS_CHAR \<and> cr = ESS_CHAR))
           tok ''MISRA Rule 10.2'')"

definition misra_check_bitwise_operand :: "bool \<Rightarrow> ty option \<Rightarrow> token \<Rightarrow> reports" where
  "misra_check_bitwise_operand misra_mode t tok =
     report_if (misra_mode \<and> get_essential_category t \<noteq> ESS_UNSIGNED) tok ''MISRA Rule 10.1''"

definition misra_check_shift_amount :: "bool \<Rightarrow> i64 \<Rightarrow> i32 \<Rightarrow> token \<Rightarrow> reports" where
  "misra_check_shift_amount misra_mode amount width tok =
     report_if (misra_mode \<and> (sint amount < 0 \<or> (0 < sint width \<and> sint width \<le> sint amount)))
       tok ''MISRA Rule 12.2''"

text \<open>The type pointed to, or the function type itself. The address tells whether \<open>resolve_alias\<close> has
  returned the type it was given.\<close>

definition pointee :: "ty \<Rightarrow> ty option" where
  "pointee t = (if ty_kind t = TYPE_POINTER then resolve_alias (ty_inner t) else Some t)"

definition drops_const :: "ty \<Rightarrow> ty \<Rightarrow> ty \<Rightarrow> bool" where
  "drops_const rs rsi rti \<longleftrightarrow>
     (ty_is_const rsi \<or> ty_is_const rs \<and> map_option ty_addr (ty_inner rs) = Some (ty_addr rsi))
     \<and> \<not> ty_is_const rti"

definition misra_check_pointer_conversion ::
    "bool \<Rightarrow> (string \<Rightarrow> bool option) \<Rightarrow> ty option \<Rightarrow> ty option \<Rightarrow> token \<Rightarrow> reports option" where
  "misra_check_pointer_conversion misra_mode find_def target source tok =
     (if \<not> misra_mode then Some []
      else
        case (resolve_alias target, resolve_alias source) of
          (Some rt, Some rs) \<Rightarrow> Some
            (if ty_kind rt \<in> {TYPE_POINTER, TYPE_FUNCTION} \<and> ty_kind rs \<in> {TYPE_POINTER, TYPE_FUNCTION} then
               (case (pointee rt, pointee rs) of
                  (Some rti, Some rsi) \<Rightarrow>
                    report_if (drops_const rs rsi rti) tok ''MISRA Rule 11.8''
                    @ report_if (is_incomplete_type find_def (Some rti) \<or> is_incomplete_type find_def (Some rsi))
                        tok ''MISRA Rule 11.2''
                    @ (if ty_kind rti \<noteq> ty_kind rsi
                          \<and> \<not> (is_integer_type (Some rti) \<and> is_integer_type (Some rsi)) then
                         (if ty_kind rti = TYPE_FUNCTION \<or> ty_kind rsi = TYPE_FUNCTION
                          then report tok ''MISRA Rule 11.1'' else report tok ''MISRA Rule 11.3'')
                       else [])
                | _ \<Rightarrow> [])
             else [])
        | _ \<Rightarrow> None)"

definition misra_check_void_ptr_cast :: "bool \<Rightarrow> ty option \<Rightarrow> ty option \<Rightarrow> token \<Rightarrow> reports" where
  "misra_check_void_ptr_cast misra_mode target source tok =
     (case (resolve_alias target, resolve_alias source) of
        (Some rt, Some rs) \<Rightarrow>
          (case (resolve_alias (ty_inner rs), resolve_alias (ty_inner rt)) of
             (Some rs_inner, Some rt_inner) \<Rightarrow>
               report_if (misra_mode \<and> ty_kind rs = TYPE_POINTER \<and> ty_kind rs_inner = TYPE_VOID
                  \<and> ty_kind rt = TYPE_POINTER \<and> ty_kind rt_inner \<noteq> TYPE_VOID) tok ''MISRA Rule 11.5''
           | _ \<Rightarrow> [])
      | _ \<Rightarrow> [])"

definition misra_check_cast :: "bool \<Rightarrow> ty option \<Rightarrow> ty option \<Rightarrow> token \<Rightarrow> bool \<Rightarrow> reports" where
  "misra_check_cast misra_mode target source tok is_composite =
     (if misra_mode \<and> is_composite then
        report_if (get_type_width target > get_type_width source) tok ''MISRA Rule 10.8''
        @ report_if (get_essential_category target \<noteq> get_essential_category source) tok ''MISRA Rule 10.8''
      else [])"

fun under_casts :: "node \<Rightarrow> node option" where
  "under_casts (Cast _ e) = (case e of [] \<Rightarrow> None | x # _ \<Rightarrow> under_casts x)"
| "under_casts n = Some n"

definition misra_check_null_pointer_constant :: "bool \<Rightarrow> node option \<Rightarrow> token \<Rightarrow> reports" where
  "misra_check_null_pointer_constant misra_mode n tok =
     (case Option.bind n under_casts of
        Some (Literal _ LITERAL_INT v _ _) \<Rightarrow>
          (if misra_mode then report tok (if v = 0 then ''MISRA Rule 11.9'' else ''MISRA Rule 11.4'') else [])
      | _ \<Rightarrow> [])"

definition misra_check_binary_op_essential_types :: "bool \<Rightarrow> node option \<Rightarrow> node option \<Rightarrow> token \<Rightarrow> reports" where
  "misra_check_binary_op_essential_types misra_mode left right tok =
     (case (Option.bind left nd_type, Option.bind right nd_type) of
        (Some lt, Some rt) \<Rightarrow>
          let rl = resolve_alias (Some lt); rr = resolve_alias (Some rt);
              lw = get_type_width rl; rw = get_type_width rr
          in if misra_mode \<and> is_integer_type rl \<and> is_integer_type rr then
               report_if (category_clash (get_essential_category rl) (get_essential_category rr))
                 tok ''MISRA Rule 10.4''
               @ report_if (is_composite_expression left \<and> rw > lw) tok ''MISRA Rule 10.7''
               @ report_if (is_composite_expression right \<and> lw > rw) tok ''MISRA Rule 10.7''
             else []
      | _ \<Rightarrow> [])"

section \<open>Expressions and control flow\<close>

definition misra_check_side_effects_sizeof :: "bool \<Rightarrow> node \<Rightarrow> reports" where
  "misra_check_side_effects_sizeof misra_mode expr =
     (if misra_mode
      then report (nd_token expr) ''MISRA Rule 12.5'' @ report (nd_token expr) ''MISRA Rule 13.6'' else [])"

definition misra_check_assignment_result_used :: "bool \<Rightarrow> token \<Rightarrow> reports" where
  "misra_check_assignment_result_used misra_mode tok = report_if misra_mode tok ''MISRA Rule 13.4''"

definition misra_check_inc_dec_result_used :: "bool \<Rightarrow> token \<Rightarrow> reports" where
  "misra_check_inc_dec_result_used misra_mode tok = report_if misra_mode tok ''MISRA Rule 13.3''"

definition misra_check_condition_boolean :: "bool \<Rightarrow> ty option \<Rightarrow> token \<Rightarrow> reports" where
  "misra_check_condition_boolean misra_mode t tok =
     report_if (misra_mode \<and> t \<noteq> None \<and> get_essential_category t \<noteq> ESS_BOOL) tok ''MISRA Rule 14.4''"

definition misra_check_invariant_condition :: "bool \<Rightarrow> token \<Rightarrow> reports" where
  "misra_check_invariant_condition misra_mode tok = report_if misra_mode tok ''MISRA Rule 14.3''"

definition misra_check_loop_counter_float :: "bool \<Rightarrow> ty option \<Rightarrow> token \<Rightarrow> reports" where
  "misra_check_loop_counter_float misra_mode t tok =
     report_if (misra_mode \<and> is_float_type t) tok ''MISRA Rule 14.1''"

definition misra_check_initializer_side_effects :: "bool \<Rightarrow> node option \<Rightarrow> reports" where
  "misra_check_initializer_side_effects misra_mode n =
     (case n of
        None \<Rightarrow> []
      | Some n \<Rightarrow> report_if (misra_mode \<and> tc_expr_has_side_effects n) (nd_token n) ''MISRA Rule 13.1'')"

text \<open>The cases of a match are nodes \<open>MatchCase\<close>.\<close>

definition is_default_case :: "node \<Rightarrow> bool" where
  "is_default_case c = (case c of MatchCase _ _ _ is_default \<Rightarrow> is_default | _ \<Rightarrow> False)"

definition misra_check_strict_match :: "bool \<Rightarrow> node \<Rightarrow> reports" where
  "misra_check_strict_match misra_mode n =
     (case n of
        Match _ (expr # _) cases \<Rightarrow>
          (case resolve_alias (nd_type expr) of
             None \<Rightarrow> []
           | Some t \<Rightarrow>
               if misra_mode \<and> ty_kind t = TYPE_ENUM
               then map (\<lambda>c. (nd_token c, ''MISRA Rule Zen 1.3'')) (List.filter is_default_case cases) else [])
      | _ \<Rightarrow> [])"

text \<open>The loop over the cases: is there a default, how many cases, and is a default first or last?\<close>

fun scan_cases :: "node list \<Rightarrow> bool \<times> nat \<times> bool \<Rightarrow> bool \<times> nat \<times> bool" where
  "scan_cases [] acc = acc"
| "scan_cases (c # cs) (has_default, case_count, is_first_or_last) =
     (let n = case_count + 1
      in scan_cases cs
           (if is_default_case c then (True, n, is_first_or_last \<or> n = 1 \<or> cs = [])
            else (has_default, n, is_first_or_last)))"

definition misra_check_match_stmt :: "bool \<Rightarrow> node \<Rightarrow> reports" where
  "misra_check_match_stmt misra_mode n =
     (case n of
        Match m expr cases \<Rightarrow>
          if \<not> misra_mode then []
          else
            (let (has_default, case_count, is_first_or_last) = scan_cases cases (False, 0, False)
             in misra_check_strict_match misra_mode n
                @ (if \<not> has_default then report (nd_token n) ''MISRA Rule 16.4''
                   else report_if (\<not> is_first_or_last) (nd_token n) ''MISRA Rule 16.5'')
                @ report_if (case_count < 2) (nd_token n) ''MISRA Rule 16.6''
                @ (case expr of
                     [] \<Rightarrow> []
                   | e # _ \<Rightarrow>
                       (case resolve_alias (nd_type e) of
                          None \<Rightarrow> []
                        | Some t \<Rightarrow> report_if (ty_kind t = TYPE_BOOL) (nd_token e) ''MISRA Rule 16.7'')))
      | _ \<Rightarrow> [])"

definition misra_check_compound_body :: "bool \<Rightarrow> node option \<Rightarrow> reports" where
  "misra_check_compound_body misra_mode body =
     (case body of
        None \<Rightarrow> []
      | Some b \<Rightarrow> report_if (misra_mode \<and> nd_kind b \<noteq> NODE_BLOCK) (nd_token b) ''MISRA Rule 15.6'')"

text \<open>The walk along \<open>else if\<close>: \<open>first\<close> tells whether the current node is the first one.\<close>

fun else_chain :: "token \<Rightarrow> bool \<Rightarrow> node \<Rightarrow> reports" where
  "else_chain tok first (If _ _ _ els) =
     (case els of
        [] \<Rightarrow> report_if (\<not> first) tok ''MISRA Rule 15.7''
      | e # _ \<Rightarrow> (if nd_kind e = NODE_IF then else_chain tok False e else []))"
| "else_chain tok first n = []"

definition misra_check_terminal_else :: "bool \<Rightarrow> node \<Rightarrow> reports" where
  "misra_check_terminal_else misra_mode if_node =
     (if misra_mode then else_chain (nd_token if_node) True if_node else [])"

definition misra_check_goto :: "bool \<Rightarrow> token \<Rightarrow> reports" where
  "misra_check_goto misra_mode tok = report_if misra_mode tok ''MISRA Rule 15.1''"

definition misra_check_goto_constraint :: "bool \<Rightarrow> token \<Rightarrow> token \<Rightarrow> reports" where
  "misra_check_goto_constraint misra_mode goto_tok label_tok =
     (if misra_mode \<and> tk_line label_tok < tk_line goto_tok
      then report goto_tok ''MISRA Rule 15.2'' @ report goto_tok ''MISRA Rule 15.3'' else [])"

definition misra_check_iteration_termination :: "bool \<Rightarrow> token \<Rightarrow> reports" where
  "misra_check_iteration_termination misra_mode tok = report_if misra_mode tok ''MISRA Rule 15.4''"

definition misra_check_evaluation_order :: "bool \<Rightarrow> node \<Rightarrow> reports" where
  "misra_check_evaluation_order misra_mode expr =
     (case expr of
        Call _ _ args \<Rightarrow>
          report_if (misra_mode \<and> length (List.filter tc_expr_has_side_effects args) \<ge> 2) (nd_token expr)
            ''MISRA Rule 13.2: function call arguments have conflicting side effects (evaluation order unspecified)''
      | _ \<Rightarrow> [])"

definition misra_check_assignment_overlap :: "bool \<Rightarrow> node option \<Rightarrow> node option \<Rightarrow> token \<Rightarrow> reports" where
  "misra_check_assignment_overlap misra_mode left right tok =
     (case (left, right) of
        (Some (VarRef _ _ (Some a)), Some (VarRef _ _ (Some b))) \<Rightarrow>
          report_if (misra_mode \<and> a = b) tok
            ''MISRA Rule 19.1: object shall not be assigned to itself (self-assignment)''
      | _ \<Rightarrow> [])"

section \<open>Functions and declarations\<close>

definition misra_check_recursion :: "bool \<Rightarrow> token \<Rightarrow> reports" where
  "misra_check_recursion misra_mode tok = report_if misra_mode tok ''MISRA Rule 17.2''"

definition misra_check_function_return_usage :: "bool \<Rightarrow> node option \<Rightarrow> reports" where
  "misra_check_function_return_usage misra_mode n =
     (case n of
        None \<Rightarrow> []
      | Some n \<Rightarrow>
          (case resolve_alias (nd_type n) of
             None \<Rightarrow> []
           | Some rt \<Rightarrow>
               if misra_mode \<and> ty_kind rt \<noteq> TYPE_VOID then
                 (if ty_kind rt = TYPE_STRUCT
                     \<and> (case ty_name rt of
                          None \<Rightarrow> False
                        | Some s \<Rightarrow> list_ex (\<lambda>w. strstr s w \<noteq> None) [''Result'', ''Option'', ''Error''])
                  then report (nd_token n) ''MISRA Dir 4.7: error information is not tested''
                  else report (nd_token n) ''MISRA Rule 17.7'')
               else []))"

definition misra_check_array_param_size :: "bool \<Rightarrow> i32 \<Rightarrow> i32 \<Rightarrow> token \<Rightarrow> reports" where
  "misra_check_array_param_size misra_mode expected actual tok =
     report_if (misra_mode \<and> 0 < sint expected \<and> sint actual < sint expected) tok ''MISRA Rule 17.5''"

definition misra_check_unused_param :: "token \<Rightarrow> reports" where
  "misra_check_unused_param tok = report tok ''MISRA Rule 2.7''"

definition misra_check_const_ptr_param :: "token \<Rightarrow> reports" where
  "misra_check_const_ptr_param tok = report tok ''MISRA Rule 8.13''"

text \<open>Parameter names and the name of the variable are not NULL.\<close>

definition misra_check_param_modified :: "node option \<Rightarrow> node option \<Rightarrow> token \<Rightarrow> reports" where
  "misra_check_param_modified current_func left tok =
     (case (current_func, left) of
        (Some (Function _ _ params _ _), Some (VarRef _ name _)) \<Rightarrow>
          report_if (name \<in> set params) tok ''MISRA Rule 17.8''
      | _ \<Rightarrow> [])"

definition misra_check_pointer_arithmetic :: "bool \<Rightarrow> ty option \<Rightarrow> token \<Rightarrow> reports" where
  "misra_check_pointer_arithmetic misra_mode t tok =
     (case resolve_alias t of
        None \<Rightarrow> []
      | Some r \<Rightarrow> report_if (misra_mode \<and> ty_kind r = TYPE_POINTER) tok ''MISRA Rule 18.4'')"

lemma resolve_alias_size: "resolve_alias t = Some r \<Longrightarrow> size r < size_option size t"
proof (induction t rule: resolve_alias.induct)
  case (2 t)
  show ?case
  proof (cases "ty_kind t = TYPE_ALIAS \<and> ty_inner t \<noteq> None")
    case True
    with 2 have "size r < size_option size (ty_inner t)" by simp
    then show ?thesis using size_option_inner [of t] by simp
  next
    case False
    with 2(2) have "r = t" by auto
    then show ?thesis by simp
  qed
qed simp

function get_pointer_nesting_depth :: "ty option \<Rightarrow> nat" where
  "get_pointer_nesting_depth t =
     (case resolve_alias t of
        None \<Rightarrow> 0
      | Some r \<Rightarrow> if ty_kind r = TYPE_POINTER then 1 + get_pointer_nesting_depth (ty_inner r) else 0)"
  by pat_completeness auto
termination
proof (relation "measure (size_option size)", goal_cases)
  case (2 t r)
  then show ?case using resolve_alias_size [of t r] size_option_inner [of r] by simp
qed simp

declare get_pointer_nesting_depth.simps [simp del]

definition misra_check_pointer_nesting :: "bool \<Rightarrow> ty option \<Rightarrow> token \<Rightarrow> reports" where
  "misra_check_pointer_nesting misra_mode t tok =
     report_if (misra_mode \<and> 2 < get_pointer_nesting_depth t) tok ''MISRA Rule 18.5''"

definition bit_field_kinds :: "TypeKind list" where
  "bit_field_kinds =
     [TYPE_BOOL, TYPE_U8, TYPE_U16, TYPE_U32, TYPE_U64, TYPE_I8, TYPE_I16, TYPE_I32, TYPE_I64, TYPE_UINT,
      TYPE_INT, TYPE_BYTE]"

text \<open>One field of a structure; \<open>width\<close> is its bit width and \<open>is_last\<close> that no field follows.\<close>

definition check_field :: "node \<Rightarrow> int \<Rightarrow> bool \<Rightarrow> reports option" where
  "check_field field width is_last =
     Option.bind
       (if width > 0 then
          (case resolve_alias (nd_type field) of
             None \<Rightarrow> None
           | Some t \<Rightarrow> Some
               (report_if (ty_kind t \<notin> set bit_field_kinds) (nd_token field) ''MISRA Rule 6.1''
                @ report_if (width = 1 \<and> is_signed_type (Some t)) (nd_token field) ''MISRA Rule 6.2''))
        else Some [])
       (\<lambda>bits. Some (misra_check_pointer_nesting True (nd_type field) (nd_token field) @ bits
          @ (case nd_type field of
               None \<Rightarrow> []
             | Some t \<Rightarrow> report_if (ty_kind t = TYPE_ARRAY \<and> ty_array_size t = 0 \<and> is_last)
                 (nd_token field) ''MISRA Rule 18.7'')))"

fun check_fields :: "(node \<Rightarrow> int) \<Rightarrow> node list \<Rightarrow> reports option" where
  "check_fields bit_width [] = Some []"
| "check_fields bit_width (f # fs) =
     Option.bind (if nd_kind f = NODE_FIELD then check_field f (bit_width f) (fs = []) else Some [])
       (\<lambda>a. map_option (\<lambda>b. a @ b) (check_fields bit_width fs))"

definition misra_check_struct_decl :: "bool \<Rightarrow> (node \<Rightarrow> int) \<Rightarrow> node \<Rightarrow> reports option" where
  "misra_check_struct_decl misra_mode bit_width n =
     (case n of
        Other _ NODE_STRUCT (fs # _) \<Rightarrow> if misra_mode then check_fields bit_width fs else Some []
      | _ \<Rightarrow> Some [])"

text \<open>\<open>arg_types\<close> are the types of the parameters, which the tree of \<open>ZcAst\<close> does not keep.\<close>

definition misra_check_param_nesting :: "bool \<Rightarrow> node \<Rightarrow> ty option list \<Rightarrow> reports" where
  "misra_check_param_nesting misra_mode func_node arg_types =
     (if misra_mode \<and> nd_kind func_node = NODE_FUNCTION
      then concat (map (\<lambda>t. misra_check_pointer_nesting misra_mode t (nd_token func_node)) arg_types)
      else [])"

definition misra_check_union :: "bool \<Rightarrow> token \<Rightarrow> reports" where
  "misra_check_union misra_mode tok = report_if misra_mode tok ''MISRA Rule 19.2''"

definition misra_check_stdarg :: "bool \<Rightarrow> token \<Rightarrow> reports" where
  "misra_check_stdarg misra_mode tok = report_if misra_mode tok ''MISRA Rule 17.1''"

definition misra_check_raw_block :: "bool \<Rightarrow> token \<Rightarrow> reports" where
  "misra_check_raw_block misra_mode tok = report_if misra_mode tok ''MISRA Rule Zen 1.1''"

definition misra_check_plugin_block :: "bool \<Rightarrow> token \<Rightarrow> reports" where
  "misra_check_plugin_block misra_mode tok = report_if misra_mode tok ''MISRA Rule Zen 1.2''"

definition misra_check_external_array_size :: "bool \<Rightarrow> ty option \<Rightarrow> token \<Rightarrow> bool \<Rightarrow> bool \<Rightarrow> reports" where
  "misra_check_external_array_size misra_mode t tok is_static is_local =
     (case resolve_alias t of
        None \<Rightarrow> []
      | Some r \<Rightarrow>
          report_if (misra_mode \<and> \<not> is_static \<and> \<not> is_local \<and> ty_kind r = TYPE_ARRAY \<and> ty_array_size r = 0) tok
            ''MISRA Rule 8.11: External array shall have explicit size'')"

definition misra_check_file_dereference :: "bool \<Rightarrow> ty option \<Rightarrow> token \<Rightarrow> reports" where
  "misra_check_file_dereference misra_mode t tok =
     (case resolve_alias t of
        None \<Rightarrow> []
      | Some r \<Rightarrow>
          (case resolve_alias (ty_inner r) of
             None \<Rightarrow> []
           | Some i \<Rightarrow>
               report_if (misra_mode \<and> ty_kind r = TYPE_POINTER \<and> ty_kind i = TYPE_STRUCT \<and> ty_name i = Some ''FILE'')
                 tok ''MISRA Rule 22.5: FILE object should not be dereferenced''))"

definition is_string_type :: "ty \<Rightarrow> bool" where
  "is_string_type t \<longleftrightarrow> ty_kind t = TYPE_STRING \<or> ty_name t = Some ''string''"

definition misra_check_string_compare :: "bool \<Rightarrow> ty option \<Rightarrow> ty option \<Rightarrow> token \<Rightarrow> reports" where
  "misra_check_string_compare misra_mode left right tok =
     (case (left, right) of
        (Some l, Some r) \<Rightarrow>
          report_if (misra_mode \<and> is_string_type l \<and> is_string_type r) tok
            (''MISRA Rule Zen 2.3: '' @ [SQUOTE] @ ''string == string'' @ [SQUOTE]
              @ '' shall not be used; use strcmp() instead for string comparison'')
      | _ \<Rightarrow> [])"

text \<open>The tuples that are used: signature and number of fields. A fault of \<open>sanitize_mangled_name\<close> is
  \<open>None\<close>.\<close>

fun find_tuple :: "string \<Rightarrow> (string \<times> int) list \<Rightarrow> int option option" where
  "find_tuple name [] = Some None"
| "find_tuple name ((sig, k) # tups) =
     (case sanitize_mangled_name sig of
        Inl _ \<Rightarrow> None
      | Inr clean_sig \<Rightarrow>
          if name = snprintf_into 1024 (''Tuple__'' @ clean_sig) then Some (Some k)
          else find_tuple name tups)"

definition misra_check_tuple_size :: "bool \<Rightarrow> (string \<times> int) list \<Rightarrow> ty option \<Rightarrow> token \<Rightarrow> reports option" where
  "misra_check_tuple_size misra_mode used_tuples t tok =
     (case t of
        None \<Rightarrow> Some []
      | Some t \<Rightarrow>
          (case ty_name t of
             None \<Rightarrow> Some []
           | Some name \<Rightarrow>
               if misra_mode \<and> ty_kind t = TYPE_STRUCT \<and> take 7 name = ''Tuple__'' then
                 map_option (\<lambda>found. report_if (case found of None \<Rightarrow> False | Some n \<Rightarrow> n \<ge> 3) tok
                   (''MISRA Rule Zen 2.2: tuple with 3 or more fields shall be replaced with a named struct (use ''
                     @ [SQUOTE] @ ''struct'' @ [SQUOTE] @ '' instead of positional tuple)''))
                   (find_tuple name used_tuples)
               else Some []))"

section \<open>Constant expressions\<close>

definition unsigned_max :: "TypeKind \<Rightarrow> u64 option" where
  "unsigned_max k =
     (if k = TYPE_U8 then Some 255
      else if k = TYPE_U16 then Some 65535
      else if k = TYPE_U32 then Some 4294967295
      else if k = TYPE_U64 \<or> k = TYPE_USIZE then Some 18446744073709551615
      else None)"

text \<open>The operands are the \<open>long long\<close> values read as \<open>unsigned long long\<close>; pointers have 8 bytes.\<close>

definition wraps :: "string \<Rightarrow> u64 \<Rightarrow> u64 \<Rightarrow> u64 \<Rightarrow> bool" where
  "wraps op max_val l r =
     (if op = ''+'' then l > max_val - r
      else if op = ''-'' then r > l
      else if op = ''*'' then l \<noteq> 0 \<and> r > max_val div l
      else False)"

definition msg_wrap :: string where
  "msg_wrap = ''MISRA Rule 12.4: Evaluation of constant expression leads to unsigned integer wrap-around''"

definition misra_check_unsigned_wrap :: "bool \<Rightarrow> string \<Rightarrow> i64 \<Rightarrow> i64 \<Rightarrow> ty option \<Rightarrow> token \<Rightarrow> reports" where
  "misra_check_unsigned_wrap misra_mode op left right t tok =
     (case resolve_alias t of
        None \<Rightarrow> []
      | Some r \<Rightarrow>
          (case unsigned_max (ty_kind r) of
             None \<Rightarrow> []
           | Some max_val \<Rightarrow> report_if (misra_mode \<and> wraps op max_val left right) tok msg_wrap))"

section \<open>Symbols and identifiers\<close>

text \<open>The members of a symbol that the audits read; \<open>my_struct\<close> is \<open>is_opaque\<close> of a structure's node.\<close>

record misra_symbol = symbol +
  my_link_name :: "string option"
  my_is_static :: bool
  my_is_dereferenced :: bool
  my_first_using_func :: "nat option"
  my_multi_func_use :: bool
  my_struct :: "bool option"

definition unused_report :: "misra_symbol \<Rightarrow> reports" where
  "unused_report y =
     (if sy_kind y = SYM_ALIAS then report (sy_decl_token y) ''MISRA Rule 2.3''
      else if sy_kind y = SYM_STRUCT \<or> sy_kind y = SYM_ENUM then report (sy_decl_token y) ''MISRA Rule 2.4''
      else if sy_kind y = SYM_CONSTANT then report (sy_decl_token y) ''MISRA Rule 2.5''
      else [])"

definition audit_symbol :: "misra_symbol \<Rightarrow> reports" where
  "audit_symbol y =
     (if \<not> sy_is_used y \<and> \<not> sy_is_export y \<and> at (sy_name y) 0 \<noteq> CHR ''_'' \<and> sy_name y \<noteq> ''main''
         \<and> tk_line (sy_decl_token y) \<noteq> 0 then unused_report y
      else
        report_if (sy_is_used y \<and> sy_kind y = SYM_STRUCT \<and> \<not> my_is_dereferenced y
            \<and> tk_line (sy_decl_token y) \<noteq> 0 \<and> my_struct y = Some False) (sy_decl_token y)
          ''MISRA Dir 4.8: pointer to struct is never dereferenced (make it opaque)'')"

definition misra_audit_unused_symbols :: "bool \<Rightarrow> misra_symbol list \<Rightarrow> reports" where
  "misra_audit_unused_symbols misra_mode symbols =
     (if misra_mode then concat (map audit_symbol symbols) else [])"

definition misra_audit_block_scope :: "bool \<Rightarrow> misra_symbol list \<Rightarrow> reports" where
  "misra_audit_block_scope misra_mode symbols =
     (if misra_mode then
        concat (map (\<lambda>y. report_if (sy_kind y = SYM_VARIABLE \<and> \<not> sy_is_export y \<and> \<not> my_is_static y
            \<and> tk_line (sy_decl_token y) \<noteq> 0 \<and> my_first_using_func y \<noteq> None \<and> \<not> my_multi_func_use y)
          (sy_decl_token y) ''MISRA Rule 8.9'') symbols)
      else [])"

definition misra_check_identifier_collision :: "token \<Rightarrow> string option \<Rightarrow> string option \<Rightarrow> nat \<Rightarrow> reports" where
  "misra_check_identifier_collision tok name1 name2 limit =
     (case (name1, name2) of
        (Some a, Some b) \<Rightarrow>
          report_if (take limit a = take limit b) tok (if limit = 31 then ''MISRA Rule 5.1'' else ''MISRA Rule 5.2'')
      | _ \<Rightarrow> [])"

text \<open>Linkage: 0 for a symbol that is skipped or has none, 1 external, 2 internal.\<close>

definition linkage :: "misra_symbol \<Rightarrow> nat" where
  "linkage y =
     (if tk_line (sy_decl_token y) = 0 \<or> at (sy_name y) 0 = CHR ''_'' \<or> sy_name y \<in> {''main'', ''it'', ''self''}
         \<or> sy_is_local y then 0
      else if sy_is_export y \<or> my_link_name y \<noteq> None then 1
      else if sy_kind y \<in> {SYM_FUNCTION, SYM_VARIABLE, SYM_CONSTANT} then 2
      else 0)"

definition compare_identifiers :: "misra_symbol \<Rightarrow> misra_symbol \<Rightarrow> reports" where
  "compare_identifiers s1 s2 =
     (if linkage s1 = 1 \<and> linkage s2 = 1 then
        (if sy_name s1 = sy_name s2 then report (sy_decl_token s2) ''MISRA Rule 5.8''
         else report_if (my_link_name s1 \<noteq> None \<and> my_link_name s1 = my_link_name s2) (sy_decl_token s2)
                ''MISRA Rule 5.8'')
      else
        report_if (linkage s1 = 2 \<and> linkage s2 = 2 \<and> sy_name s1 = sy_name s2) (sy_decl_token s2)
          ''MISRA Rule 5.9'')"

fun identifier_reports :: "misra_symbol list \<Rightarrow> reports" where
  "identifier_reports [] = []"
| "identifier_reports (s1 # ss) =
     (if linkage s1 = 0 then [] else concat (map (compare_identifiers s1) ss)) @ identifier_reports ss"

definition misra_audit_identifier_uniqueness :: "bool \<Rightarrow> misra_symbol list \<Rightarrow> reports" where
  "misra_audit_identifier_uniqueness misra_mode all_symbols =
     (if misra_mode then identifier_reports all_symbols else [])"

definition misra_check_shadowing :: "bool \<Rightarrow> scope list \<Rightarrow> string option \<Rightarrow> token \<Rightarrow> reports" where
  "misra_check_shadowing misra_mode scopes name loc =
     (case (name, scopes) of
        (Some x, _ # parents) \<Rightarrow>
          report_if (misra_mode \<and> parents \<noteq> [] \<and> x \<noteq> ''self'' \<and> symbol_lookup parents x \<noteq> None) loc
            (snprintf_into 256
              (''MISRA Rule Zen 1.8: Identifier '' @ [SQUOTE] @ x @ [SQUOTE] @ '' shadows an existing symbol in an outer scope''))
      | _ \<Rightarrow> [])"

definition misra_check_double_initialization :: "bool \<Rightarrow> string \<Rightarrow> token \<Rightarrow> reports" where
  "misra_check_double_initialization misra_mode field_name tok =
     report_if misra_mode tok
       (snprintf_into 256 (''MISRA Rule 9.4: Re-initialization of struct field '' @ [SQUOTE] @ field_name @ [SQUOTE]))"

definition misra_check_reserved_identifier :: "bool \<Rightarrow> string option \<Rightarrow> token \<Rightarrow> reports" where
  "misra_check_reserved_identifier misra_mode name tok =
     (case name of
        None \<Rightarrow> []
      | Some x \<Rightarrow>
          report_if (misra_mode \<and> (at x 0 = CHR ''_''
              \<and> (at x 1 = CHR ''_'' \<or> 65 \<le> ord (at x 1) \<and> ord (at x 1) \<le> 90) \<or> take 3 x = ''_z_''))
            tok ''MISRA Rule Zen 2.1'')"

definition STANDARD_MACRO_NAMES :: "string list" where
  "STANDARD_MACRO_NAMES =
     [''NULL'', ''offsetof'', ''ptrdiff_t'', ''size_t'', ''wchar_t'', ''max_align_t'',
      ''int8_t'', ''int16_t'', ''int32_t'', ''int64_t'', ''uint8_t'', ''uint16_t'', ''uint32_t'', ''uint64_t'',
      ''int_least8_t'', ''int_least16_t'', ''int_least32_t'', ''int_least64_t'', ''uint_least8_t'',
      ''uint_least16_t'', ''uint_least32_t'', ''uint_least64_t'',
      ''int_fast8_t'', ''int_fast16_t'', ''int_fast32_t'', ''int_fast64_t'', ''uint_fast8_t'', ''uint_fast16_t'',
      ''uint_fast32_t'', ''uint_fast64_t'',
      ''intptr_t'', ''uintptr_t'', ''intmax_t'', ''uintmax_t'',
      ''INT8_MIN'', ''INT16_MIN'', ''INT32_MIN'', ''INT64_MIN'', ''INT8_MAX'', ''INT16_MAX'', ''INT32_MAX'',
      ''INT64_MAX'', ''UINT8_MAX'', ''UINT16_MAX'', ''UINT32_MAX'', ''UINT64_MAX'', ''INT_LEAST8_MIN'',
      ''INT_LEAST16_MIN'', ''INT_LEAST32_MIN'', ''INT_LEAST64_MIN'', ''INT_LEAST8_MAX'',
      ''INT_LEAST16_MAX'', ''INT_LEAST32_MAX'', ''INT_LEAST64_MAX'', ''UINT_LEAST8_MAX'',
      ''UINT_LEAST16_MAX'', ''UINT_LEAST32_MAX'', ''UINT_LEAST64_MAX'', ''INT_FAST8_MIN'',
      ''INT_FAST16_MIN'', ''INT_FAST32_MIN'', ''INT_FAST64_MIN'', ''INT_FAST8_MAX'', ''INT_FAST16_MAX'',
      ''INT_FAST32_MAX'', ''INT_FAST64_MAX'', ''UINT_FAST8_MAX'', ''UINT_FAST16_MAX'', ''UINT_FAST32_MAX'',
      ''UINT_FAST64_MAX'', ''INTPTR_MIN'', ''INTPTR_MAX'', ''UINTPTR_MAX'', ''INTMAX_MIN'', ''INTMAX_MAX'',
      ''UINTMAX_MAX'', ''PTRDIFF_MIN'', ''PTRDIFF_MAX'', ''SIZE_MAX'',
      ''bool'', ''true'', ''false'', ''__bool_true_false_are_defined'',
      ''assert'', ''errno'', ''EOF'']"

definition misra_check_standard_macro_name :: "token \<Rightarrow> string option \<Rightarrow> reports" where
  "misra_check_standard_macro_name tok name =
     (case name of
        None \<Rightarrow> []
      | Some x \<Rightarrow>
          report_if (x \<in> set STANDARD_MACRO_NAMES) tok
            (snprintf_into 256 (''MISRA Rule 5.10: identifier '' @ [SQUOTE] @ x @ [SQUOTE]
              @ '' has the same name as standard macro '' @ [SQUOTE] @ x @ [SQUOTE])))"

definition banned_funcs :: "(string \<times> string) list" where
  "banned_funcs =
     map (\<lambda>f. (f, ''Rule 21.3'')) [''malloc'', ''calloc'', ''realloc'', ''free'']
     @ map (\<lambda>f. (f, ''Rule 21.6'')) [''printf'', ''fprintf'', ''scanf'', ''fscanf'']
     @ map (\<lambda>f. (f, ''Rule 21.7'')) [''atof'', ''atoi'', ''atol'', ''atoll'']
     @ map (\<lambda>f. (f, ''Rule 21.8'')) [''abort'', ''exit'', ''getenv'', ''system'']
     @ map (\<lambda>f. (f, ''Rule 21.9'')) [''bsearch'', ''qsort'']
     @ map (\<lambda>f. (f, ''Rule 21.10'')) [''asctime'', ''ctime'', ''gmtime'', ''localtime'', ''time'']
     @ map (\<lambda>f. (f, ''Rule 21.4'')) [''setjmp'', ''longjmp'']
     @ map (\<lambda>f. (f, ''Rule 21.5'')) [''signal'', ''raise'']
     @ map (\<lambda>f. (f, ''Rule 21.11''))
         [''sqrt'', ''sin'', ''cos'', ''tan'', ''asin'', ''acos'', ''atan'', ''atan2'', ''exp'', ''log'', ''log10'', ''pow'',
          ''fabs'', ''floor'', ''ceil'', ''fmod'']
     @ map (\<lambda>f. (f, ''Rule 21.12'')) [''feclearexcept'', ''feraiseexcept'']"

definition misra_check_banned_function :: "bool \<Rightarrow> string option \<Rightarrow> token \<Rightarrow> reports" where
  "misra_check_banned_function misra_mode name tok =
     (case Option.bind name (map_of banned_funcs) of
        None \<Rightarrow> []
      | Some rule \<Rightarrow>
          report_if misra_mode tok
            (snprintf_into 128 (''MISRA '' @ rule @ '': Use of banned standard library function ''
              @ [SQUOTE] @ the name @ [SQUOTE])))"

section \<open>Names that look alike\<close>

definition canonical_char :: "char \<Rightarrow> char" where
  "canonical_char c =
     tolower
       (if c = CHR ''l'' \<or> c = CHR ''I'' then CHR ''1''
        else if c = CHR ''O'' then CHR ''0''
        else if c = CHR ''S'' then CHR ''5''
        else if c = CHR ''Z'' then CHR ''2''
        else if c = CHR ''n'' then CHR ''h''
        else if c = CHR ''B'' then CHR ''8''
        else c)"

definition canonicalize_ambiguous_chars :: "string \<Rightarrow> nat \<Rightarrow> string" where
  "canonicalize_ambiguous_chars src dest_size = map canonical_char (take (dest_size - 1) src)"

definition looks_like :: "string \<Rightarrow> string \<Rightarrow> bool" where
  "looks_like a b \<longleftrightarrow> a \<noteq> b \<and> canonicalize_ambiguous_chars a 256 = canonicalize_ambiguous_chars b 256"

fun ambiguous_symbol :: "scope list \<Rightarrow> string \<Rightarrow> string option" where
  "ambiguous_symbol [] new_name = None"
| "ambiguous_symbol (s # parents) new_name =
     (case List.find (\<lambda>y. looks_like (sy_name y) new_name) (sc_symbols s) of
        Some y \<Rightarrow> Some (sy_name y)
      | None \<Rightarrow> ambiguous_symbol parents new_name)"

definition misra_check_typographic_ambiguity :: "bool \<Rightarrow> scope list \<Rightarrow> string option \<Rightarrow> token \<Rightarrow> reports" where
  "misra_check_typographic_ambiguity misra_mode scopes new_name loc =
     (case new_name of
        None \<Rightarrow> []
      | Some x \<Rightarrow>
          (case ambiguous_symbol scopes x of
             None \<Rightarrow> []
           | Some y \<Rightarrow>
               report_if misra_mode loc
                 (snprintf_into 512 (''MISRA Dir 4.5: identifier '' @ [SQUOTE] @ x @ [SQUOTE]
                   @ '' is typographically ambiguous with '' @ [SQUOTE] @ y @ [SQUOTE]))))"

section \<open>Preprocessor expressions\<close>

definition pp_start :: "char \<Rightarrow> bool" where "pp_start c \<longleftrightarrow> isalpha c \<or> c = CHR ''_''"
definition pp_char :: "char \<Rightarrow> bool" where "pp_char c \<longleftrightarrow> isalnum c \<or> c = CHR ''_''"

lemma pp_start_char: "pp_start c \<Longrightarrow> pp_char c"
  by (auto simp: pp_start_def pp_char_def isalnum_def)

text \<open>The names that are looked up, in order; after \<open>defined\<close> the next word is passed over.\<close>

function pp_names :: "string \<Rightarrow> string list" where
  "pp_names s =
     (case dropWhile (\<lambda>c. \<not> pp_start c) s of
        [] \<Rightarrow> []
      | c # cs \<Rightarrow>
          let name = take 127 (takeWhile pp_char (c # cs));
              r = dropWhile pp_char (c # cs)
          in if name = ''defined'' then pp_names (dropWhile pp_char (dropWhile (\<lambda>c. \<not> pp_char c) r))
             else name # pp_names r)"
  by pat_completeness auto
termination
proof (relation "measure length", goal_cases)
  case (2 s c cs name r)
  have "pp_char c" using 2(1) by (metis dropWhile_eq_Cons_conv pp_start_char)
  then have "length r < length (c # cs)" using length_dropWhile_le [of pp_char cs] unfolding 2(3) by simp
  also have "\<dots> \<le> length s" unfolding 2(1) [symmetric] by (rule length_dropWhile_le)
  finally have "length r < length s" .
  moreover have "length (dropWhile pp_char (dropWhile (\<lambda>c. \<not> pp_char c) r)) \<le> length r"
    by (meson length_dropWhile_le le_trans)
  ultimately show ?case by simp
next
  case (3 s c cs name r)
  have "pp_char c" using 3(1) by (metis dropWhile_eq_Cons_conv pp_start_char)
  then have "length r < length (c # cs)" using length_dropWhile_le [of pp_char cs] unfolding 3(3) by simp
  also have "\<dots> \<le> length s" unfolding 3(1) [symmetric] by (rule length_dropWhile_le)
  finally show ?case by simp
qed simp

declare pp_names.simps [simp del]

definition msg_undefined :: "string \<Rightarrow> string" where
  "msg_undefined name =
     ''MISRA Rule 20.9: Identifier '' @ [SQUOTE] @ name @ [SQUOTE] @ '' in preprocessor expression is not defined''"

text \<open>\<open>has_symbol\<close> stands for the lookup in the symbol table, \<open>fold_value\<close> for parsing and folding the
  expression.\<close>

definition misra_check_preprocessor_expression_parser ::
    "string list \<Rightarrow> (string \<Rightarrow> bool) \<Rightarrow> (string \<Rightarrow> i64 option) \<Rightarrow> token \<Rightarrow> string option \<Rightarrow> reports" where
  "misra_check_preprocessor_expression_parser cfg_defines has_symbol fold_value tok expression =
     (case expression of
        None \<Rightarrow> []
      | Some e \<Rightarrow>
          map (\<lambda>name. (tok, snprintf_into 256 (msg_undefined name)))
            (List.filter (\<lambda>name. name \<notin> set cfg_defines \<and> \<not> has_symbol name) (pp_names e))
          @ (case fold_value e of
               None \<Rightarrow> []
             | Some v \<Rightarrow>
                 report_if (v \<noteq> 0 \<and> v \<noteq> 1) tok ''MISRA Rule 20.8: Controlling expression must evaluate to 0 or 1''))"

end
