(* ===== verification/ZcMisraProps.thy ===== *)
theory ZcMisraProps
  imports ZcMisra
begin

text \<open>
  What the checks of \<open>ZcMisra\<close> mean: which conversions of integers they accept, when an unsigned constant
  expression wraps around, which identifiers are unique, which matches are accepted; and what they miss.
\<close>

section \<open>Conversions of integers\<close>

text \<open>The values of an integer kind of C, where \<open>long\<close> and pointers have 64 bits.\<close>

fun c_range :: "TypeKind \<Rightarrow> (int \<times> int) option" where
  "c_range TYPE_I8 = Some (-128, 127)"
| "c_range TYPE_U8 = Some (0, 255)"
| "c_range TYPE_C_UCHAR = Some (0, 255)"
| "c_range TYPE_I16 = Some (-32768, 32767)"
| "c_range TYPE_C_SHORT = Some (-32768, 32767)"
| "c_range TYPE_U16 = Some (0, 65535)"
| "c_range TYPE_C_USHORT = Some (0, 65535)"
| "c_range TYPE_I32 = Some (-2147483648, 2147483647)"
| "c_range TYPE_INT = Some (-2147483648, 2147483647)"
| "c_range TYPE_C_INT = Some (-2147483648, 2147483647)"
| "c_range TYPE_U32 = Some (0, 4294967295)"
| "c_range TYPE_UINT = Some (0, 4294967295)"
| "c_range TYPE_C_UINT = Some (0, 4294967295)"
| "c_range TYPE_I64 = Some (-9223372036854775808, 9223372036854775807)"
| "c_range TYPE_ISIZE = Some (-9223372036854775808, 9223372036854775807)"
| "c_range TYPE_C_LONG = Some (-9223372036854775808, 9223372036854775807)"
| "c_range TYPE_C_LONGLONG = Some (-9223372036854775808, 9223372036854775807)"
| "c_range TYPE_U64 = Some (0, 18446744073709551615)"
| "c_range TYPE_USIZE = Some (0, 18446744073709551615)"
| "c_range TYPE_C_ULONG = Some (0, 18446744073709551615)"
| "c_range TYPE_C_ULONGLONG = Some (0, 18446744073709551615)"
| "c_range _ = None"

definition range_of_width :: "bool \<Rightarrow> nat \<Rightarrow> int \<times> int" where
  "range_of_width neg w = (if neg then (- (2 ^ (w - 1)), 2 ^ (w - 1) - 1) else (0, 2 ^ w - 1))"

lemma kind_range:
  "c_range k = Some (a, b) \<Longrightarrow> 0 < kind_width k \<and> (a, b) = range_of_width (a < 0) (kind_width k)"
  by (cases k) (auto simp: range_of_width_def)

lemma kind_category:
  assumes "resolve_alias p = Some t" "c_range (ty_kind t) = Some (a, b)"
  shows "get_essential_category p = (if a < 0 then ESS_SIGNED else ESS_UNSIGNED)"
proof -
  have "ty_kind t \<notin> {TYPE_ALIAS, TYPE_CHAR, TYPE_C_CHAR, TYPE_BOOL, TYPE_STRUCT}"
    using assms(2) by (cases "ty_kind t") auto
  moreover have "ty_kind t \<in> set unsigned_kinds \<longleftrightarrow> \<not> a < 0" "ty_kind t \<in> set signed_kinds \<longleftrightarrow> a < 0"
    using assms(2) by (cases "ty_kind t"; force simp: signed_kinds_def unsigned_kinds_def)+
  ultimately show ?thesis by (simp add: get_essential_category_def assms(1) struct_named_def)
qed

lemma range_width_iff:
  assumes "0 < w" "0 < v" "(a, b) = range_of_width (a < 0) w" "(c, d) = range_of_width (c < 0) v" "(a < 0) = (c < 0)"
  shows "(a \<le> c \<and> d \<le> b) = (v \<le> w)"
proof (cases "a < 0")
  case True
  then have ab: "a = - (2 ^ (w - 1))" "b = 2 ^ (w - 1) - 1" and cd: "c = - (2 ^ (v - 1))" "d = 2 ^ (v - 1) - 1"
    using assms(3-5) by (simp_all add: range_of_width_def)
  have "(a \<le> c \<and> d \<le> b) = ((2 :: int) ^ (v - 1) \<le> 2 ^ (w - 1))" unfolding ab cd by linarith
  also have "\<dots> = (v - 1 \<le> w - 1)" by simp
  also have "\<dots> = (v \<le> w)" using assms(1,2) by linarith
  finally show ?thesis .
next
  case False
  then have ab: "a = 0" "b = 2 ^ w - 1" and cd: "c = 0" "d = 2 ^ v - 1"
    using assms(3-5) by (simp_all add: range_of_width_def)
  have "(a \<le> c \<and> d \<le> b) = ((2 :: int) ^ v \<le> 2 ^ w)" unfolding ab cd by linarith
  also have "\<dots> = (v \<le> w)" by simp
  finally show ?thesis .
qed

text \<open>
  C10: between the integer types of 8 to 64 bits a conversion is accepted in MISRA mode if and only if both
  types are signed or both unsigned and every value of the source is a value of the target; where the
  source is a composite expression, both have the same values. The types are \<open>i8\<close> to \<open>i64\<close>, \<open>u8\<close> to \<open>u64\<close>,
  \<open>isize\<close>, \<open>usize\<close>, \<open>int\<close>, \<open>uint\<close>, \<open>c_uchar\<close>, and \<open>c_short\<close> to \<open>c_longlong\<close> with their unsigned forms;
  \<open>i128\<close>, \<open>u128\<close>, bit-precise types, \<open>byte\<close>, \<open>rune\<close>, characters and booleans are not among them.
\<close>

theorem accepted_integer_conversions:
  assumes "resolve_alias target = Some t" and "resolve_alias source = Some s"
    and "c_range (ty_kind t) = Some (a, b)" and "c_range (ty_kind s) = Some (c, d)"
  shows "misra_check_implicit_conversion True target source source_node tok = Some []
     \<longleftrightarrow> (a < 0) = (c < 0) \<and> a \<le> c \<and> d \<le> b
         \<and> (is_composite_expression source_node \<longrightarrow> (c, d) = (a, b))"
proof -
  let ?w = "kind_width (ty_kind t)" and ?v = "kind_width (ty_kind s)"
  note tr = kind_range [OF assms(3)] and sr = kind_range [OF assms(4)]
  have clash: "category_clash (get_essential_category target) (get_essential_category source) \<longleftrightarrow> (a < 0) \<noteq> (c < 0)"
    by (auto simp: kind_category [OF assms(1,3)] kind_category [OF assms(2,4)] category_clash_def)
  have widths: "get_type_width target = ?w" "get_type_width source = ?v"
    by (simp_all add: get_type_width_def assms(1,2))
  have no_pointer: "ty_kind t \<noteq> TYPE_POINTER" "ty_kind s \<noteq> TYPE_POINTER"
    using assms(3,4) by auto
  let ?comp = "is_composite_expression source_node"
  have "misra_check_implicit_conversion True target source source_node tok = Some
      (report_if ((a < 0) \<noteq> (c < 0)) tok ''MISRA Rule 10.4''
        @ (if ?v > ?w then report tok ''MISRA Rule 10.3'' else report_if (?w > ?v \<and> ?comp) tok ''MISRA Rule 10.6''))"
    using no_pointer by (simp add: misra_check_implicit_conversion_def assms(1,2) clash widths Let_def)
  then have "misra_check_implicit_conversion True target source source_node tok = Some []
      \<longleftrightarrow> (a < 0) = (c < 0) \<and> ?v \<le> ?w \<and> (?comp \<longrightarrow> ?w \<le> ?v)"
    by (simp add: report_def) linarith
  also have "\<dots> \<longleftrightarrow> (a < 0) = (c < 0) \<and> a \<le> c \<and> d \<le> b
      \<and> (is_composite_expression source_node \<longrightarrow> c \<le> a \<and> b \<le> d)"
  proof (cases "(a < 0) = (c < 0)")
    case True
    have "(a \<le> c \<and> d \<le> b) = (?v \<le> ?w)" "(c \<le> a \<and> b \<le> d) = (?w \<le> ?v)"
      using tr sr True by (intro range_width_iff; simp)+
    then show ?thesis by blast
  qed simp
  also have "\<dots> \<longleftrightarrow> (a < 0) = (c < 0) \<and> a \<le> c \<and> d \<le> b
      \<and> (is_composite_expression source_node \<longrightarrow> (c, d) = (a, b))" by auto
  finally show ?thesis .
qed

theorem accepted_integer_conversions_witness:
  "misra_check_implicit_conversion True (Some (type_new 1 TYPE_I32)) (Some (type_new 2 TYPE_I16)) None TOKEN_UNKNOWN
   = Some []"
  using accepted_integer_conversions [of "Some (type_new 1 TYPE_I32)" "type_new 1 TYPE_I32"
      "Some (type_new 2 TYPE_I16)" "type_new 2 TYPE_I16" _ _ _ _ None TOKEN_UNKNOWN]
  by (simp add: type_new_def is_composite_expression_def)

text \<open>A kind without a width counts as 0 bits, so a narrowing from \<open>i128\<close> is accepted; \<open>byte\<close> and \<open>rune\<close>
  have no category.\<close>

lemma i128_narrowing_accepted:
  "misra_check_implicit_conversion True (Some (type_new 1 TYPE_I8)) (Some (type_new 2 TYPE_I128)) None tok = Some []"
  by (simp add: misra_check_implicit_conversion_def type_new_def get_essential_category_def get_type_width_def
      category_clash_def signed_kinds_def unsigned_kinds_def struct_named_def Let_def is_composite_expression_def)

lemma rune_narrowing_accepted:
  "misra_check_implicit_conversion True (Some (type_new 1 TYPE_U8)) (Some (type_new 2 TYPE_RUNE)) None tok = Some []"
  by (simp add: misra_check_implicit_conversion_def type_new_def get_essential_category_def get_type_width_def
      category_clash_def signed_kinds_def unsigned_kinds_def struct_named_def Let_def is_composite_expression_def)

section \<open>Wrap-around\<close>

fun exact :: "string \<Rightarrow> int \<Rightarrow> int \<Rightarrow> int option" where
  "exact op l r =
     (if op = ''+'' then Some (l + r) else if op = ''-'' then Some (l - r) else if op = ''*'' then Some (l * r)
      else None)"

lemma wraps_exact:
  assumes "l \<le> M" "r \<le> M" "exact op (uint l) (uint r) = Some x"
  shows "wraps op M l r \<longleftrightarrow> x < 0 \<or> uint M < x"
proof -
  have le: "uint r \<le> uint M" using assms(2) by (simp add: word_le_def)
  then have sub: "uint (M - r) = uint M - uint r" by (simp add: uint_sub_lem [symmetric])
  have mult: "l \<noteq> 0 \<and> M div l < r \<longleftrightarrow> uint M < uint l * uint r"
  proof (cases "l = 0")
    case False
    then have "0 < unat l" by (simp add: unat_gt_0)
    then have "unat M div unat l < unat r \<longleftrightarrow> unat M < unat r * unat l" by (rule div_less_iff_less_mult)
    then have "M div l < r \<longleftrightarrow> int (unat M) < int (unat l * unat r)"
      by (simp only: word_less_nat_alt unat_div mult.commute of_nat_less_iff)
    then show ?thesis using False by (simp only: uint_nat of_nat_mult simp_thms not_False_eq_True)
  qed simp
  have nonneg: "0 \<le> uint l" "0 \<le> uint r" "0 \<le> uint l * uint r" by simp_all
  consider "op = ''*''" | "op = ''-''" | "op = ''+''" using assms(3) by (auto split: if_splits)
  then show ?thesis
  proof cases
    case 1
    with assms(3) have x: "x = uint l * uint r" by simp
    moreover have "\<not> x < 0" using nonneg(3) x by (simp only: linorder_not_less)
    ultimately show ?thesis using 1 mult by (simp add: wraps_def)
  next
    case 2
    with assms(3) have x: "x = uint l - uint r" by simp
    moreover have "uint l \<le> uint M" using assms(1) by (simp add: word_le_def)
    then have "\<not> uint M < x" using nonneg(2) x by linarith
    ultimately show ?thesis using 2 by (simp add: wraps_def word_less_def)
  next
    case 3
    with assms(3) have x: "x = uint l + uint r" by simp
    then have "\<not> x < 0" using nonneg(1,2) by linarith
    moreover have "uint M - uint r < uint l \<longleftrightarrow> uint M < x" using x by linarith
    ultimately show ?thesis using 3 by (simp add: wraps_def word_less_def sub)
  qed
qed

text \<open>
  C26: for operands of type \<open>u8\<close>, \<open>u16\<close>, \<open>u32\<close>, \<open>u64\<close> or \<open>usize\<close> that are values of it, the check for
  wrap-around reports an addition, a subtraction or a multiplication if and only if the result over the
  integers is not a value of the type. The other unsigned types, \<open>uint\<close> and those of C, are not covered.
\<close>

theorem unsigned_wrap_exact:
  assumes "resolve_alias t = Some r" and "ty_kind r \<in> {TYPE_U8, TYPE_U16, TYPE_U32, TYPE_U64, TYPE_USIZE}"
    and "c_range (ty_kind r) = Some (least, greatest)"
    and "uint left \<le> greatest" and "uint right \<le> greatest" and "exact op (uint left) (uint right) = Some x"
  shows "misra_check_unsigned_wrap True op left right t tok = [] \<longleftrightarrow> least \<le> x \<and> x \<le> greatest"
proof -
  obtain M where max: "unsigned_max (ty_kind r) = Some M" and range: "c_range (ty_kind r) = Some (0, uint M)"
    using assms(2) by (auto simp: unsigned_max_def)
  then have "left \<le> M" "right \<le> M" using assms(3-5) by (simp_all add: word_le_def)
  from wraps_exact [OF this assms(6)] show ?thesis
    using range assms(3) by (auto simp: misra_check_unsigned_wrap_def assms(1) max)
qed

theorem unsigned_wrap_exact_witness:
  "misra_check_unsigned_wrap True ''+'' 200 100 (Some (type_new 1 TYPE_U8)) TOKEN_UNKNOWN \<noteq> []"
  using unsigned_wrap_exact [of "Some (type_new 1 TYPE_U8)" "type_new 1 TYPE_U8" 0 255 200 100 "''+''" 300 TOKEN_UNKNOWN]
  by (simp add: type_new_def)

text \<open>\<open>uint\<close> and the unsigned types of C are not checked.\<close>

lemma uint_wrap_not_checked:
  "misra_check_unsigned_wrap True ''-'' 0 1 (Some (type_new 1 TYPE_UINT)) tok = []"
  by (simp add: misra_check_unsigned_wrap_def type_new_def unsigned_max_def)

section \<open>Unique identifiers\<close>

definition with_linkage :: "nat \<Rightarrow> misra_symbol list \<Rightarrow> misra_symbol list" where
  "with_linkage k ss = List.filter (\<lambda>y. linkage y = k) ss"


lemma with_linkage_simps [simp]:
  "with_linkage k [] = []"
  "with_linkage k (s # ss) = (if linkage s = k then s # with_linkage k ss else with_linkage k ss)"
  by (simp_all add: with_linkage_def)






section \<open>Matches\<close>

lemma scan_cases_result:
  "scan_cases cs (d, n, e) =
     (d \<or> list_ex is_default_case cs, n + length cs,
      e \<or> (n = 0 \<and> cs \<noteq> [] \<and> is_default_case (hd cs)) \<or> (cs \<noteq> [] \<and> is_default_case (last cs)))"
  by (induction cs arbitrary: d n e) (auto simp: Let_def)

text \<open>
  A match on a type other than \<open>bool\<close> and an enum is accepted if and only if it has at least two cases
  and its first or last case is a default.
\<close>

theorem accepted_matches:
  assumes "resolve_alias (nd_type e) = Some t" and "ty_kind t \<noteq> TYPE_BOOL" and "ty_kind t \<noteq> TYPE_ENUM"
  shows "misra_check_match_stmt True (Match m (e # es) cases) = []
     \<longleftrightarrow> 2 \<le> length cases \<and> (is_default_case (hd cases) \<or> is_default_case (last cases))"
proof -
  have "list_ex is_default_case cases" if "2 \<le> length cases" "is_default_case (hd cases) \<or> is_default_case (last cases)"
  proof -
    from that(1) have "cases \<noteq> []" by auto
    with that(2) show ?thesis by (auto simp: list_ex_iff)
  qed
  then show ?thesis
    using assms by (auto simp: misra_check_match_stmt_def misra_check_strict_match_def scan_cases_result report_def Let_def)
qed

theorem accepted_matches_witness:
  "misra_check_match_stmt True
     (Match (Meta TOKEN_UNKNOWN None []) [Literal (Meta TOKEN_UNKNOWN (Some (type_new 1 TYPE_I32)) []) LITERAL_INT 0 (Finite 0 0) None]
        [MatchCase (Meta TOKEN_UNKNOWN None []) [] [] False, MatchCase (Meta TOKEN_UNKNOWN None []) [] [] True]) = []"
  by (subst accepted_matches [where t = "type_new 1 TYPE_I32"]) (simp_all add: type_new_def is_default_case_def)

text \<open>On an enum rule 16.4 asks for a default and rule Zen 1.3 forbids it: no match on an enum is accepted.\<close>

lemma enum_match_never_accepted:
  assumes "resolve_alias (nd_type e) = Some t" and "ty_kind t = TYPE_ENUM"
  shows "misra_check_match_stmt True (Match m (e # es) cases) \<noteq> []"
proof (cases "list_ex is_default_case cases")
  case True
  then have "List.filter is_default_case cases \<noteq> []" by (auto simp: list_ex_iff filter_empty_conv)
  then show ?thesis
    using assms by (simp add: misra_check_match_stmt_def misra_check_strict_match_def scan_cases_result Let_def)
next
  case False
  then show ?thesis
    using assms by (simp add: misra_check_match_stmt_def scan_cases_result report_def Let_def)
qed

section \<open>Chains of else, calls\<close>

fun if_chain :: "node \<Rightarrow> nat" where
  "if_chain (If _ _ _ els) = (case els of [] \<Rightarrow> 1 | e # _ \<Rightarrow> 1 + if_chain e)"
| "if_chain n = 0"

fun ends_without_else :: "node \<Rightarrow> bool" where
  "ends_without_else (If _ _ _ els) = (case els of [] \<Rightarrow> True | e # _ \<Rightarrow> ends_without_else e)"
| "ends_without_else n = False"

lemma else_chain_Nil:
  "else_chain tok first n = [] \<longleftrightarrow> \<not> (ends_without_else n \<and> (first \<longrightarrow> 2 \<le> if_chain n))"
proof (induction tok first n rule: else_chain.induct)
  case (1 tok first m c b els)
  show ?case
  proof (cases els)
    case (Cons e es)
    have "if_chain e > 0 \<longleftrightarrow> nd_kind e = NODE_IF" "ends_without_else e \<Longrightarrow> nd_kind e = NODE_IF \<and> if_chain e > 0"
      if "\<forall>m k css. e = Other m k css \<longrightarrow> k \<noteq> NODE_IF"
      using that by (cases e; auto split: list.splits)+
    with 1 Cons show ?thesis by (cases e) (auto split: list.splits)
  qed simp
qed auto

lemma terminal_else:
  "misra_check_terminal_else True n = [] \<longleftrightarrow> \<not> (ends_without_else n \<and> 2 \<le> if_chain n)"
  by (simp add: misra_check_terminal_else_def else_chain_Nil)

section \<open>What is missed and what is reported wrongly\<close>

text \<open>The letters that are replaced first do not meet their lower case.\<close>

lemma case_of_replaced_letters:
  "looks_like ''fooT'' ''foot''" "looks_like ''Il'' ''l1''"
  "\<not> looks_like ''fooS'' ''foos''" "\<not> looks_like ''N'' ''n''" "\<not> looks_like ''L'' ''l''"
  by code_simp+

text \<open>A hexadecimal number and the suffix of a number are taken for identifiers.\<close>

lemma numbers_as_identifiers:
  "pp_names ''0x10 + defined(A) && B > 1UL'' = [''x10'', ''B'', ''UL'']"
  by code_simp

end
