(* ===== verification/ZcTransport.thy ===== *)
theory ZcTransport
  imports ZcPrelude
begin

text \<open>
  How requests reach the language server: the loop of \<open>lsp_main\<close> (\<open>src/src/lsp/lsp_main.c\<close>), which reads
  headers and bodies from the standard input, and the decoding of URIs (\<open>src/src/lsp/json_rpc.c\<close>). The
  input is the text that is still to be read; at its end \<open>feof\<close> holds once a read has met it.
\<close>

section \<open>Headers\<close>

definition LINE_SIZE :: nat where "LINE_SIZE = 2048"

text \<open>\<open>fgets\<close>: up to a newline, or as much as the buffer holds.\<close>

definition fgets :: "nat \<Rightarrow> string \<Rightarrow> (string \<times> string) option" where
  "fgets n input =
     (let line = takeWhile (\<lambda>c. c \<noteq> NL) input;
          chunk = take (n - 1) (line @ (if NL \<in> set input then [NL] else []))
      in if input = [] then None else Some (chunk, drop (length chunk) input))"

fun decimal_value :: "int \<Rightarrow> string \<Rightarrow> int" where
  "decimal_value acc [] = acc"
| "decimal_value acc (c # cs) = decimal_value (acc * 10 + int (ord c - 48)) cs"

text \<open>\<open>strtol\<close> in base ten, which stops at the bounds of \<open>long\<close>, and the conversion to \<open>int\<close>.\<close>

definition strtol :: "string \<Rightarrow> int" where
  "strtol s =
     (let t = dropWhile isspace s;
          v = decimal_value 0 (takeWhile isdigit (if at t 0 = CHR ''-'' \<or> at t 0 = CHR ''+'' then drop 1 t else t));
          w = (if at t 0 = CHR ''-'' then - v else v)
      in max (- (2 ^ 63)) (min (2 ^ 63 - 1) w))"

definition to_int :: "int \<Rightarrow> int" where
  "to_int v = sint (word_of_int v :: i32)"

definition content_length_prefix :: string where
  "content_length_prefix = ''Content-Length: ''"

text \<open>The loop over the header lines: the length, what is left of the input, and whether its end was met.\<close>

lemma fgets_shorter: "fgets LINE_SIZE input = Some (line, rest) \<Longrightarrow> length rest < length input"
proof -
  assume "fgets LINE_SIZE input = Some (line, rest)"
  then obtain chunk where c: "chunk = take 2047 (takeWhile (\<lambda>c. c \<noteq> NL) input @ (if NL \<in> set input then [NL] else []))"
    "rest = drop (length chunk) input" "input \<noteq> []"
    by (auto simp: fgets_def LINE_SIZE_def Let_def split: if_splits)
  have "takeWhile (\<lambda>c. c \<noteq> NL) input @ (if NL \<in> set input then [NL] else []) \<noteq> []"
    using c(3) by (cases input) auto
  then have "chunk \<noteq> []" by (simp add: c(1))
  then show "length rest < length input" using c(2,3) by simp
qed

function read_headers :: "string \<Rightarrow> int \<Rightarrow> int \<times> string \<times> bool" where
  "read_headers input content_len =
     (case fgets LINE_SIZE input of
        None \<Rightarrow> (content_len, input, True)
      | Some (line, rest) \<Rightarrow>
          if cstr line = [CR, NL] then (content_len, rest, False)
          else read_headers rest
            (if take 16 (cstr line) = content_length_prefix then to_int (strtol (drop 16 (cstr line)))
             else content_len))"
  by pat_completeness auto
termination
  by (relation "measure (length \<circ> fst)") (auto dest: fgets_shorter)

declare read_headers.simps [simp del]


section \<open>The loop\<close>




section \<open>URIs\<close>

text \<open>The value of a \<open>char\<close>, which is signed, as a hexadecimal digit; only the first of the two digits is
  tested.\<close>

definition char_value :: "char \<Rightarrow> int" where
  "char_value c = (if ord c < 128 then int (ord c) else int (ord c) - 256)"

definition hex_value :: "char \<Rightarrow> int" where
  "hex_value c = (if 65 \<le> char_value c then char_value c - 65 + 10 else char_value c - 48)"

definition is_hex :: "char \<Rightarrow> bool" where
  "is_hex c \<longleftrightarrow> isdigit c \<or> 65 \<le> ord c \<and> ord c \<le> 70"

definition byte_of :: "int \<Rightarrow> char" where
  "byte_of v = char_of (nat (v mod 256))"

fun uri_text :: "string \<Rightarrow> string" where
  "uri_text (c # s1 # s2 # s) =
     (if c = CHR ''%'' \<and> is_hex (toupper s1)
      then byte_of (hex_value (toupper s1) * 16 + hex_value (toupper s2)) # uri_text s
      else c # uri_text (s1 # s2 # s))"
| "uri_text s = s"

text \<open>A decoded NUL ends the text.\<close>

definition uri_decode :: "string \<Rightarrow> string" where
  "uri_decode s = cstr (uri_text s)"

section \<open>Streams of requests\<close>







lemma takeWhile_line: "NL \<notin> set l \<Longrightarrow> takeWhile (\<lambda>c. c \<noteq> NL) (l @ NL # r) = l"
  by (induction l) auto

lemma fgets_line: "NL \<notin> set l \<Longrightarrow> length l \<le> 2046 \<Longrightarrow> fgets LINE_SIZE (l @ NL # r) = Some (l @ [NL], r)"
  by (auto simp: fgets_def LINE_SIZE_def takeWhile_line Let_def)

lemma cstr_line: "NUL \<notin> set l \<Longrightarrow> cstr l = l"
  by (simp add: cstr_id)








lemma read_blank_line: "read_headers (CR # NL # r) n = (n, r, False)"
proof -
  have "fgets LINE_SIZE ([CR] @ NL # r) = Some ([CR] @ [NL], r)"
    by (rule fgets_line) simp_all
  then show ?thesis by (simp add: read_headers.simps [of "CR # NL # r"] cstr_line)
qed






section \<open>URIs\<close>

definition hex_digit :: "bool \<Rightarrow> nat \<Rightarrow> char" where
  "hex_digit upper n = char_of (if n < 10 then 48 + n else if upper then 55 + n else 87 + n)"

definition percent :: "bool \<Rightarrow> char \<Rightarrow> string" where
  "percent upper c = [CHR ''%'', hex_digit upper (ord c div 16), hex_digit upper (ord c mod 16)]"

definition uri_encode :: "(char \<Rightarrow> bool) \<Rightarrow> bool \<Rightarrow> string \<Rightarrow> string" where
  "uri_encode reserved upper s = concat (map (\<lambda>c. if reserved c then percent upper c else [c]) s)"

lemma hex_digit_value:
  assumes "n < 16"
  shows "is_hex (toupper (hex_digit upper n)) \<and> hex_value (toupper (hex_digit upper n)) = int n"
proof -
  have d: "ord (hex_digit upper n) = (if n < 10 then 48 + n else if upper then 55 + n else 87 + n)"
    using assms by (simp add: hex_digit_def)
  then have "ord (toupper (hex_digit upper n)) = (if n < 10 then 48 + n else 55 + n)"
    using assms by (simp add: toupper_def)
  then show ?thesis
    using assms by (auto simp: is_hex_def isdigit_def hex_value_def char_value_def)
qed

lemma byte_of_ord: "byte_of (int (ord c div 16) * 16 + int (ord c mod 16)) = c"
proof -
  have "int (ord c div 16) * 16 + int (ord c mod 16) = int (ord c)" by presburger
  moreover have "ord c < 256" by simp
  ultimately show ?thesis by (simp add: byte_of_def nat_mod_distrib)
qed

lemma uri_text_percent: "uri_text (percent upper c @ s) = c # uri_text s"
proof -
  have "ord c div 16 < 16" using nat_of_char_less_256 [of c] by (simp add: div_less_iff_less_mult)
  then show ?thesis
    using hex_digit_value [of "ord c div 16" upper] hex_digit_value [of "ord c mod 16" upper]
    by (simp add: percent_def byte_of_ord)
qed

lemma uri_text_other: "c \<noteq> CHR ''%'' \<Longrightarrow> uri_text (c # s) = c # uri_text s"
  by (cases s; cases "tl s") auto

text \<open>
  C32: Percent encoding is undone: whatever bytes a client encodes in a URI, the percent sign among them,
  in capital or small hexadecimal digits, the server decodes the path that the client meant.
\<close>

theorem uri_roundtrip:
  assumes "reserved (CHR ''%'')" "NUL \<notin> set s"
  shows "uri_decode (uri_encode reserved upper s) = s"
proof -
  have "uri_text (uri_encode reserved upper s) = s"
    using assms(1)
  proof (induction s)
    case (Cons c s)
    then have "\<not> reserved c \<Longrightarrow> c \<noteq> CHR ''%''" by auto
    with Cons show ?case
      by (cases "reserved c") (auto simp: uri_encode_def uri_text_percent uri_text_other)
  qed (simp add: uri_encode_def)
  then show ?thesis using assms(2) by (simp add: uri_decode_def cstr_line)
qed

theorem uri_roundtrip_witness:
  "uri_decode (uri_encode (\<lambda>c. c \<notin> set ''/ab'') False ''/a b%20'') = ''/a b%20''"
  by (rule uri_roundtrip) simp_all

text \<open>The second digit is not tested; the value is computed from whatever stands there.\<close>

lemma second_digit_not_tested: "uri_decode ''100%4zip'' = ''100cip''"
  by code_simp

text \<open>A header line whose text fills the buffer is read in two pieces, and its line end alone ends the
  headers: the length after it is taken for the body or the next headers.\<close>

lemma long_header_ends_headers:
  assumes "NL \<notin> set h" "length h = 2047"
  shows "read_headers (h @ CR # NL # r) n = (n, r, False) \<or> take 16 (cstr h) = content_length_prefix"
proof -
  have tw: "takeWhile (\<lambda>c. c \<noteq> NL) (h @ CR # NL # r) = h @ [CR]"
    using assms(1) takeWhile_line [of "h @ [CR]" r] by simp
  have "fgets LINE_SIZE (h @ CR # NL # r) = Some (h, CR # NL # r)"
    using assms by (auto simp: fgets_def LINE_SIZE_def tw Let_def)
  moreover have "set (cstr h) \<subseteq> set h" by (auto simp: cstr_def dest: set_takeWhileD)
  then have "cstr h \<noteq> [CR, NL]" using assms(1) by auto
  ultimately show ?thesis
    by (simp add: read_headers.simps [of "h @ CR # NL # r"] read_blank_line)
qed

text \<open>A length that does not fit an \<open>int\<close> passes the test of the size.\<close>

lemma huge_length_read_as_five: "to_int (strtol ''4294967301'') = 5"
  by code_simp

end
