(* ===== verification/ZcOperators.thy ===== *)
theory ZcOperators
  imports ZcMoves
begin

text \<open>
  The nodes that the parser builds for unary and binary operators (\<open>src/src/parser/expr/expr_prec.c\<close>,
  \<open>expr_field.c\<close>, \<open>expr_helpers.c\<close>): operator methods, compound assignment, moves, and the types of the
  operands. What the registries of functions, impls, aliases and traits answer is in the environment.
  A fatal error is reported and the parser goes on, as it does for the language server; otherwise the
  first one ends the process.
\<close>

section \<open>Environment and state\<close>

record func_sig =
  fs_name :: string
  fs_total_args :: nat
  fs_arg_types :: "ty option list"
  fs_ret_type :: "ty option"

text \<open>Fields that the tree does not keep (\<open>is_pointer_access\<close> of a member, \<open>resolved_type\<close>, \<open>is_def\<close> of a
  symbol, the file of an opaque alias) are functions.\<close>

record op_env =
  oe_find_func :: "string \<Rightarrow> func_sig option"
  oe_impls :: "(string option \<times> string) list"
  oe_alias :: "string \<Rightarrow> string option"
  oe_alias_file :: "ty \<Rightarrow> string option"
  oe_filename :: "string option"
  oe_pointer_access :: "node \<Rightarrow> bool"
  oe_resolved_type :: "node \<Rightarrow> string option"
  oe_is_def :: "symbol \<Rightarrow> bool"
  oe_traits :: "string list"
  oe_trait_object :: "string \<Rightarrow> node \<Rightarrow> node"
  oe_copy :: copy_ctx
  oe_warn_always_true :: bool
  oe_warn_always_false :: bool

datatype op_diag = Op_fatal token string "string option" | Op_error token string | Op_warning token string "string option"

record op_state =
  os_ctx :: pctx
  os_depth :: nat
  os_next :: nat
  os_diags :: "op_diag list"
  os_fault :: "str_fault option"

definition emit :: "op_diag \<Rightarrow> op_state \<Rightarrow> op_state" where
  "emit d st = st\<lparr>os_diags := os_diags st @ [d]\<rparr>"

text \<open>A text that is printed into a block; the first fault ends the process.\<close>

definition printed_text :: "str_fault + string \<Rightarrow> op_state \<Rightarrow> string \<times> op_state" where
  "printed_text p st =
     (case p of
        Inr s \<Rightarrow> (s, st)
      | Inl f \<Rightarrow> ([], st\<lparr>os_fault := (case os_fault st of None \<Rightarrow> Some f | Some g \<Rightarrow> Some g)\<rparr>))"

definition text_of_type :: "ty option \<Rightarrow> op_state \<Rightarrow> string \<times> op_state" where
  "text_of_type t st = printed_text (type_to_string t) st"

definition new_type :: "(nat \<Rightarrow> ty) \<Rightarrow> op_state \<Rightarrow> ty \<times> op_state" where
  "new_type mk st = (mk (os_next st), st\<lparr>os_next := Suc (os_next st)\<rparr>)"

definition update_symbol :: "string \<Rightarrow> (symbol \<Rightarrow> symbol) \<Rightarrow> op_state \<Rightarrow> op_state" where
  "update_symbol name f st =
     st\<lparr>os_ctx := (os_ctx st)\<lparr>pc_scopes := symbol_update (pc_scopes (os_ctx st)) name f\<rparr>\<rparr>"

definition lookup_symbol :: "string option \<Rightarrow> op_state \<Rightarrow> symbol option" where
  "lookup_symbol name st = Option.bind name (find_symbol_entry (os_ctx st))"

definition op_meta :: "token \<Rightarrow> ty option \<Rightarrow> meta" where
  "op_meta t ty = Meta t ty []"

definition new_node_meta :: meta where
  "new_node_meta = op_meta TOKEN_UNKNOWN None"

definition MAX_SHORT_MSG_LEN :: nat where "MAX_SHORT_MSG_LEN = 256"

section \<open>Names and types\<close>

definition is_comparison_op :: "string \<Rightarrow> bool" where
  "is_comparison_op op \<longleftrightarrow> op \<in> set [''=='', ''!='', ''<'', ''>'', ''<='', ''>='']"

definition operator_methods :: "(string \<times> string) list" where
  "operator_methods =
     [(''+'', ''add''), (''-'', ''sub''), (''*'', ''mul''), (''/'', ''div''), (''%'', ''rem''), (''**'', ''pow''),
      (''=='', ''eq''), (''!='', ''neq''), (''<'', ''lt''), (''>'', ''gt''), (''<='', ''le''), (''>='', ''ge''),
      (''&'', ''bitand''), (''|'', ''bitor''), (''^'', ''bitxor''), (''<<'', ''shl''), (''>>'', ''shr'')]"

definition get_operator_method :: "string \<Rightarrow> string option" where
  "get_operator_method op = map_of operator_methods op"

abbreviation opaque_alias :: "ty \<Rightarrow> bool" where
  "opaque_alias t \<equiv> ty_kind t = TYPE_ALIAS \<and> ty_flag t"

text \<open>The name of the struct, enum or opaque alias, and whether the type is a pointer to it.\<close>

function resolve_struct_name_from_type :: "op_env \<Rightarrow> ty option \<Rightarrow> (string \<times> bool) option" where
  "resolve_struct_name_from_type env None = None"
| "resolve_struct_name_from_type env (Some t) =
     (if opaque_alias t then map_option (\<lambda>n. (n, False)) (ty_name t)
      else if ty_kind t = TYPE_POINTER \<and> (case ty_inner t of None \<Rightarrow> False | Some i \<Rightarrow> opaque_alias i)
      then map_option (\<lambda>n. (n, True)) (Option.bind (ty_inner t) ty_name)
      else case (if ty_kind t = TYPE_STRUCT then Option.bind (ty_name t) (oe_alias env) else None) of
        Some target \<Rightarrow> Some (takeWhile (\<lambda>c. c \<noteq> CHR ''<'') target, False)
      | None \<Rightarrow>
          if ty_kind t = TYPE_POINTER \<and> ty_inner t \<noteq> None then
            map_option (\<lambda>(n, _). (n, True)) (resolve_struct_name_from_type env (ty_inner t))
          else if ty_kind t = TYPE_STRUCT \<or> ty_kind t = TYPE_ENUM then
            map_option (\<lambda>n. (n, False)) (ty_name t)
          else None)"
  by pat_completeness auto
termination
  by (relation "measure (size_option size \<circ> snd)") (auto simp: size_option_inner)

declare resolve_struct_name_from_type.simps(2) [simp del]

function opaque_alias_base :: "ty \<Rightarrow> ty" where
  "opaque_alias_base t =
     (if opaque_alias t then (case ty_inner t of None \<Rightarrow> t | Some i \<Rightarrow> opaque_alias_base i) else t)"
  by pat_completeness auto
termination by (relation "measure size") auto

declare opaque_alias_base.simps [simp del]

function check_opaque_alias_compat :: "op_env \<Rightarrow> nat \<Rightarrow> ty option \<Rightarrow> ty option \<Rightarrow> bool" where
  "check_opaque_alias_compat env depth None b = False"
| "check_opaque_alias_compat env depth (Some a) None = False"
| "check_opaque_alias_compat env depth (Some a) (Some b) =
     (if Suc depth > MAX_RECURSION_DEPTH then False
      else if \<not> opaque_alias a \<and> \<not> opaque_alias b then True
      else if opaque_alias a \<and> opaque_alias b then ty_name a \<noteq> None \<and> ty_name a = ty_name b
      else if opaque_alias a then
        oe_alias_file env a \<noteq> None \<and> oe_alias_file env a = oe_filename env
        \<and> check_opaque_alias_compat env (Suc depth) (ty_inner a) (Some b)
      else
        oe_alias_file env b \<noteq> None \<and> oe_alias_file env b = oe_filename env
        \<and> check_opaque_alias_compat env (Suc depth) (Some a) (ty_inner b))"
  by pat_completeness auto
termination
  by (relation "measure (\<lambda>(_, _, a, b). size_option size a + size_option size b)") (auto simp: size_option_inner)

declare check_opaque_alias_compat.simps(3) [simp del]

definition may_be_struct :: "ty \<Rightarrow> bool" where
  "may_be_struct t0 =
     (let t = (case ty_inner t0 of Some i \<Rightarrow> if ty_kind t0 = TYPE_POINTER then i else t0 | None \<Rightarrow> t0)
      in ty_kind t \<notin> {TYPE_STRING, TYPE_BOOL, TYPE_CHAR, TYPE_VOID, TYPE_FUNCTION}
         \<and> \<not> is_integer_type (Some t) \<and> \<not> is_float_type (Some t))"

definition type_is_unsigned :: "ty option \<Rightarrow> bool" where
  "type_is_unsigned p =
     (case p of
        None \<Rightarrow> False
      | Some t \<Rightarrow>
          ty_kind t \<in> {TYPE_U8, TYPE_U16, TYPE_U32, TYPE_U64, TYPE_USIZE, TYPE_BYTE, TYPE_U128, TYPE_UINT}
          \<or> struct_named t unsigned_names)"

definition int_type_names :: "string list" where
  "int_type_names =
     [''int'', ''uint'', ''i8'', ''I8'', ''u8'', ''U8'', ''i16'', ''I16'', ''u16'', ''U16'', ''i32'', ''I32'', ''u32'', ''U32'',
      ''i64'', ''I64'', ''u64'', ''U64'', ''i128'', ''I128'', ''u128'', ''U128'', ''byte'', ''rune'', ''long'', ''short'',
      ''ulong'', ''ushort'', ''int8_t'', ''uint8_t'', ''int16_t'', ''uint16_t'', ''int32_t'', ''uint32_t'', ''int64_t'',
      ''uint64_t'']"

definition str_is_int_type :: "string \<Rightarrow> bool" where "str_is_int_type t \<longleftrightarrow> t \<in> set int_type_names"
definition str_is_usize_type :: "string \<Rightarrow> bool" where "str_is_usize_type t \<longleftrightarrow> t \<in> {''usize'', ''size_t''}"
definition str_is_isize_type :: "string \<Rightarrow> bool" where
  "str_is_isize_type t \<longleftrightarrow> t \<in> {''isize'', ''ptrdiff_t'', ''ssize_t''}"

definition trait_base :: "string \<Rightarrow> string" where
  "trait_base name =
     takeWhile (\<lambda>c. c \<noteq> CHR ''*'')
       (if take 7 name = ''struct '' then drop 7 name else if take 6 name = ''union '' then drop 6 name else name)"

definition is_trait :: "op_env \<Rightarrow> string \<Rightarrow> bool" where
  "is_trait env name \<longleftrightarrow> trait_base name \<in> set (oe_traits env)"

text \<open>An expression without an address.\<close>

fun expr_is_rvalue :: "op_env \<Rightarrow> pctx \<Rightarrow> node \<Rightarrow> bool" where
  "expr_is_rvalue env ctx (Call _ _ _) = True"
| "expr_is_rvalue env ctx (Binary _ _ _ _) = True"
| "expr_is_rvalue env ctx (StructInit _ _) = True"
| "expr_is_rvalue env ctx (Cast _ _) = True"
| "expr_is_rvalue env ctx (Literal _ _ _ _ _) = True"
| "expr_is_rvalue env ctx (Match _ _ _) = True"
| "expr_is_rvalue env ctx (Member m (t # ts) f) =
     (\<not> oe_pointer_access env (Member m (t # ts) f) \<and> expr_is_rvalue env ctx t)"
| "expr_is_rvalue env ctx (VarRef _ (Some name) _) =
     (case split_variant name of
        (Some e, v) \<Rightarrow> find_enum_variant_of ctx e v \<noteq> None
      | (None, _) \<Rightarrow> False)"
| "expr_is_rvalue env ctx _ = False"

text \<open>The type of a name: of the symbol, or a new enum type when it is a variant.\<close>

definition find_symbol_type_info :: "string \<Rightarrow> op_state \<Rightarrow> ty option \<times> op_state" where
  "find_symbol_type_info n st =
     (case find_symbol_entry (os_ctx st) n of
        Some y \<Rightarrow> (sy_type y, st)
      | None \<Rightarrow>
          (case find_enum_variant (os_ctx st) n of
             None \<Rightarrow> (None, st)
           | Some ev \<Rightarrow>
               (case new_type (\<lambda>a. Ty a TYPE_ENUM (Some (ev_enum_name ev)) None None [] False False False 0 False False) st of
                  (t, st') \<Rightarrow> (Some t, st'))))"

definition find_symbol_type :: "pctx \<Rightarrow> string \<Rightarrow> string option" where
  "find_symbol_type ctx n =
     (case find_symbol_entry ctx n of
        Some y \<Rightarrow> sy_type_name y
      | None \<Rightarrow> map_option ev_enum_name (find_enum_variant ctx n))"

section \<open>Operator methods\<close>

text \<open>The name of a method, cut to its buffer and with its runs of underscores merged.\<close>

definition method_name :: "string \<Rightarrow> string" where
  "method_name s = merge_run (snprintf_into MAX_ERROR_MSG_LEN s)"

definition find_operator_method :: "op_env \<Rightarrow> string \<Rightarrow> string \<Rightarrow> (func_sig \<times> string) option" where
  "find_operator_method env struct_name method =
     (let own = method_name (struct_name @ ''__'' @ method);
          of_traits = map (\<lambda>(_, trait). method_name (struct_name @ ''__'' @ trait @ ''__'' @ method))
            (List.filter (\<lambda>(target, _). target = Some struct_name) (oe_impls env))
      in case List.find (\<lambda>n. oe_find_func env n \<noteq> None) (own # of_traits) of
           None \<Rightarrow> None
         | Some n \<Rightarrow> map_option (\<lambda>sig. (sig, n)) (oe_find_func env n))"

definition arg_type :: "func_sig \<Rightarrow> nat \<Rightarrow> ty option" where
  "arg_type sig i = (if i < length (fs_arg_types sig) then fs_arg_types sig ! i else None)"

definition is_pointer :: "ty option \<Rightarrow> bool" where
  "is_pointer t \<longleftrightarrow> (case t of None \<Rightarrow> False | Some t \<Rightarrow> ty_kind t = TYPE_POINTER)"

definition callee_node :: "string \<Rightarrow> node" where
  "callee_node name = VarRef new_node_meta (Some name) None"

fun with_type :: "ty option \<Rightarrow> node \<Rightarrow> node" where
  "with_type t (VarRef m n a) = VarRef (Meta (m_token m) t (m_names m)) n a"
| "with_type t n = n"

definition address_op :: "op_env \<Rightarrow> op_state \<Rightarrow> node \<Rightarrow> string" where
  "address_op env st n = (if expr_is_rvalue env (os_ctx st) n then ''&_rval'' else ''&'')"

text \<open>An operator that is put before an argument, with its type.\<close>

type_synonym prefix = "(string \<times> ty option) option"

definition wrap :: "prefix \<Rightarrow> node \<Rightarrow> node" where
  "wrap w n = (case w of None \<Rightarrow> n | Some (op, t) \<Rightarrow> Unary (op_meta TOKEN_UNKNOWN t) (Some op) [n])"

text \<open>A reference to a value of type \<open>t\<close>.\<close>

definition reference_to :: "string \<Rightarrow> ty option \<Rightarrow> op_state \<Rightarrow> prefix \<times> op_state" where
  "reference_to op t st = (case new_type (\<lambda>a. type_new_ptr a t) st of (p, st') \<Rightarrow> (Some (op, Some p), st'))"

text \<open>The right operand with the type of its symbol, when it has none of its own.\<close>

definition typed_operand :: "op_state \<Rightarrow> node \<Rightarrow> node" where
  "typed_operand st rhs =
     (case rhs of
        VarRef m n a \<Rightarrow>
          if m_type m = None then
            (case lookup_symbol n st of
               Some y \<Rightarrow> if sy_type y \<noteq> None then with_type (sy_type y) rhs else rhs
             | None \<Rightarrow> rhs)
          else rhs
      | _ \<Rightarrow> rhs)"

text \<open>The second argument of an operator method: what is put before the right operand, and the operand.\<close>

definition overload_rhs_argument ::
    "op_env \<Rightarrow> token \<Rightarrow> string \<Rightarrow> func_sig \<Rightarrow> node \<Rightarrow> op_state \<Rightarrow> prefix \<times> node \<times> op_state" where
  "overload_rhs_argument env op_tok op sig rhs0 st =
     (if fs_total_args sig < 2 then (None, rhs0, st)
      else case arg_type sig 1 of
        None \<Rightarrow> (None, rhs0, st)
      | Some param \<Rightarrow>
          let rhs = typed_operand st rhs0;
              rt = nd_type rhs;
              param_base = (if ty_kind param = TYPE_POINTER then ty_inner param else Some param)
          in if (case param_base of None \<Rightarrow> False | Some b \<Rightarrow> ty_kind b = TYPE_STRUCT)
                \<and> (case rt of None \<Rightarrow> False | Some r \<Rightarrow> \<not> may_be_struct r) then
               (case text_of_type (Some param) st of
                  (expected, st1) \<Rightarrow>
                    (case text_of_type rt st1 of
                       (found, st2) \<Rightarrow>
                         (None, rhs, emit (Op_fatal op_tok (snprintf_into MAX_SHORT_MSG_LEN
                            (''Operator '' @ [SQUOTE] @ op @ [SQUOTE] @ '' expects '' @ [SQUOTE] @ expected @ [SQUOTE]
                             @ '' as right operand, found '' @ [SQUOTE] @ found @ [SQUOTE]))
                            (Some ''The overloaded operator only accepts the type of its parameter'')) st2)))
             else if ty_kind param \<noteq> TYPE_POINTER then (None, rhs, st)
             else
               let by_reference =
                 (if is_pointer rt then (None, rhs, st)
                  else if rt = None then (Some (address_op env st rhs, None), rhs, st)
                  else case reference_to (address_op env st rhs) rt st of (w, st') \<Rightarrow> (w, rhs, st'))
               in case rhs of
                    Unary m (Some o1) (x # xs) \<Rightarrow>
                      if o1 = ''&'' \<and> expr_is_rvalue env (os_ctx st) x
                      then (None, Unary m (Some ''&_rval'') (x # xs), st)
                      else by_reference
                  | _ \<Rightarrow> by_reference)"

section \<open>Unary operators\<close>

text \<open>A token with its text and the line where it ends.\<close>

record lexeme = token +
  lx_text :: string
  lx_end_line :: nat

definition tok :: "lexeme \<Rightarrow> token" where "tok t = token.truncate t"

text \<open>The first argument of an operator method: the operand, its address or what it points to.\<close>

definition unary_self :: "op_env \<Rightarrow> func_sig \<Rightarrow> bool \<Rightarrow> node \<Rightarrow> op_state \<Rightarrow> prefix \<times> op_state" where
  "unary_self env sig is_ptr operand st =
     (if fs_total_args sig > 0 \<and> is_pointer (arg_type sig 0) \<and> \<not> is_ptr then
        reference_to (address_op env st operand) (nd_type operand) st
      else if is_ptr \<and> \<not> is_pointer (arg_type sig 0) then
        (Some (''*'', Option.bind (nd_type operand) ty_inner), st)
      else (None, st))"

definition unary_method :: "lexeme \<Rightarrow> string option" where
  "unary_method t =
     (if lx_text t = ''-'' then Some ''neg''
      else if lx_text t = ''!'' \<or> tk_kind t = TOK_NOT then Some ''not''
      else if lx_text t = ''~'' then Some ''bitnot'' else None)"

definition unary_overload :: "op_env \<Rightarrow> lexeme \<Rightarrow> node \<Rightarrow> (func_sig \<times> string \<times> bool) option" where
  "unary_overload env t operand =
     Option.bind (unary_method t) (\<lambda>method.
       Option.bind (resolve_struct_name_from_type env (nd_type operand)) (\<lambda>(struct_name, is_ptr).
         let mangled = method_name (struct_name @ ''__'' @ method)
         in map_option (\<lambda>sig. (sig, mangled, is_ptr)) (oe_find_func env mangled)))"

text \<open>The type of an operator without a method: of an address, of what is pointed to, or of the operand.\<close>

definition unary_type :: "lexeme \<Rightarrow> ty option \<Rightarrow> op_state \<Rightarrow> ty option \<times> op_state" where
  "unary_type t ot st =
     (case ot of
        None \<Rightarrow> (None, st)
      | Some o1 \<Rightarrow>
          if lx_text t = ''&'' then (case new_type (\<lambda>a. type_new_ptr a ot) st of (p, st') \<Rightarrow> (Some p, st'))
          else if lx_text t = ''*'' then ((if ty_kind o1 = TYPE_POINTER then ty_inner o1 else None), st)
          else (ot, st))"

text \<open>Two stars are one token: an inner dereference, and an outer one with the token cut to its first
  character.\<close>

definition prefix_tok :: "lexeme \<Rightarrow> lexeme" where
  "prefix_tok t = (if lx_text t = ''**'' then t\<lparr>tk_len := 1, lx_text := ''*''\<rparr> else t)"

definition split_stars :: "lexeme \<Rightarrow> node \<Rightarrow> lexeme \<times> node" where
  "split_stars t operand =
     (prefix_tok t,
      if lx_text t = ''**'' then
        Unary (op_meta (tok t) (if is_pointer (nd_type operand) then Option.bind (nd_type operand) ty_inner else None))
          (Some ''*'') [operand]
      else operand)"

definition check_manifest :: "op_env \<Rightarrow> lexeme \<Rightarrow> node \<Rightarrow> op_state \<Rightarrow> op_state" where
  "check_manifest env t operand st =
     (case operand of
        VarRef _ (Some name) _ \<Rightarrow>
          if lx_text t = ''&'' \<and> (case find_symbol_entry (os_ctx st) name of None \<Rightarrow> False | Some y \<Rightarrow> oe_is_def env y) then
            emit (Op_fatal (tok t) (snprintf_into MAX_ERROR_MSG_LEN
              (''Cannot take address of manifest constant '' @ [SQUOTE] @ name @ [SQUOTE]
               @ '' (use '' @ [SQUOTE] @ ''let'' @ [SQUOTE] @ '' if you need an address)'')) None) st
          else st
      | _ \<Rightarrow> st)"

definition build_unary :: "op_env \<Rightarrow> lexeme \<Rightarrow> node \<Rightarrow> op_state \<Rightarrow> node \<times> op_state" where
  "build_unary env t0 operand0 st0 =
     (case split_stars t0 operand0 of
        (t, operand) \<Rightarrow>
          let st = check_manifest env t operand st0
          in case unary_overload env t operand of
               Some (sig, mangled, is_ptr) \<Rightarrow>
                 (case unary_self env sig is_ptr operand st of
                    (w, st1) \<Rightarrow>
                      (case text_of_type (fs_ret_type sig) st1 of
                         (_, st2) \<Rightarrow> (Call (op_meta (tok t) (fs_ret_type sig)) [callee_node mangled] [wrap w operand], st2)))
             | None \<Rightarrow>
                 (case unary_type t (nd_type operand) st of
                    (ty, st1) \<Rightarrow>
                      (Unary (op_meta (tok t) ty) (Some (if tk_kind t = TOK_NOT then ''!'' else lx_text t)) [operand], st1)))"

section \<open>Binary operators\<close>

definition binary_op_text :: "lexeme \<Rightarrow> string" where
  "binary_op_text op =
     (if tk_kind op = TOK_LANGLE then ''<'' else if tk_kind op = TOK_RANGLE then ''>''
      else if tk_kind op = TOK_AND then ''&&'' else if tk_kind op = TOK_OR then ''||'' else lx_text op)"

fun var_of :: "node \<Rightarrow> string option" where
  "var_of (VarRef _ n _) = n"
| "var_of _ = None"

fun int_literal_of :: "node \<Rightarrow> i64 option" where
  "int_literal_of (Literal _ k v _ _) = (if k = LITERAL_INT then Some v else None)"
| "int_literal_of _ = None"

fun zero_literal :: "node \<Rightarrow> bool" where
  "zero_literal (Literal _ _ v _ _) = (v = 0)"
| "zero_literal _ = False"

text \<open>An assignment moves a variable on the right that is no copy type, and makes one on the left valid.\<close>

definition move_right :: "op_env \<Rightarrow> node \<Rightarrow> op_state \<Rightarrow> op_state" where
  "move_right env rhs st =
     (case var_of rhs of
        None \<Rightarrow> st
      | Some n \<Rightarrow>
          (case find_symbol_type_info n st of
             (t, st1) \<Rightarrow>
               if is_type_copy (oe_copy env) t (os_depth st1) then st1
               else update_symbol n (\<lambda>y. y\<lparr>sy_is_moved := True\<rparr>) st1))"

definition resurrect_left :: "node \<Rightarrow> op_state \<Rightarrow> op_state" where
  "resurrect_left lhs st =
     (case var_of lhs of None \<Rightarrow> st | Some n \<Rightarrow> update_symbol n (\<lambda>y. y\<lparr>sy_is_moved := False\<rparr>) st)"

definition assigned_type_text :: "op_env \<Rightarrow> node \<Rightarrow> op_state \<Rightarrow> string option \<times> op_state" where
  "assigned_type_text env lhs st =
     (case Option.bind (var_of lhs) (find_symbol_type (os_ctx st)) of
        Some s \<Rightarrow> (Some s, st)
      | None \<Rightarrow>
          (case oe_resolved_type env lhs of
             Some s \<Rightarrow> (Some s, st)
           | None \<Rightarrow>
               if nd_type lhs = None then (None, st)
               else case text_of_type (nd_type lhs) st of (s, st') \<Rightarrow> (Some s, st')))"

definition wrap_trait :: "op_env \<Rightarrow> node \<Rightarrow> node \<Rightarrow> op_state \<Rightarrow> node \<times> op_state" where
  "wrap_trait env lhs rhs st =
     (case assigned_type_text env lhs st of
        (None, st') \<Rightarrow> (rhs, st')
      | (Some raw, st') \<Rightarrow>
          let clean = (if take 6 raw = ''const '' then drop 6 raw else raw)
          in (if is_trait env clean then oe_trait_object env clean rhs else rhs, st'))"

definition assignment_effects :: "op_env \<Rightarrow> lexeme \<Rightarrow> node \<Rightarrow> node \<Rightarrow> op_state \<Rightarrow> node \<times> op_state" where
  "assignment_effects env op lhs rhs st =
     (if tk_kind op = TOK_OP \<and> lx_text op = ''='' then
        wrap_trait env lhs rhs (resurrect_left lhs (move_right env rhs st))
      else (rhs, st))"

definition warn_always :: "op_env \<Rightarrow> bool \<Rightarrow> token \<Rightarrow> string \<Rightarrow> op_state \<Rightarrow> op_state" where
  "warn_always env b t reason st =
     (if b then (if oe_warn_always_true env then emit (Op_warning t ''Comparison is always true'' (Some reason)) st else st)
      else if oe_warn_always_false env then emit (Op_warning t ''Comparison is always false'' (Some reason)) st else st)"

definition comparison_warnings :: "op_env \<Rightarrow> token \<Rightarrow> string \<Rightarrow> node \<Rightarrow> node \<Rightarrow> op_state \<Rightarrow> op_state" where
  "comparison_warnings env t op lhs rhs st =
     (if \<not> is_comparison_op op then st
      else
        let reflexive = op \<in> {''=='', ''>='', ''<=''};
            st1 =
              (if nd_kind lhs = NODE_EXPR_VAR \<and> nd_kind rhs = NODE_EXPR_VAR then
                 (if var_of lhs = var_of rhs then warn_always env reflexive t ''Comparing a variable to itself'' st else st)
               else if int_literal_of lhs \<noteq> None \<and> int_literal_of lhs = int_literal_of rhs
               then warn_always env reflexive t ''Comparing identical literals'' st
               else st)
        in if type_is_unsigned (nd_type lhs) \<and> int_literal_of rhs = Some 0 then
             (if op = ''>='' then warn_always env True t ''Unsigned value is always >= 0'' st1
              else if op = ''<'' then warn_always env False t ''Unsigned value is never < 0'' st1 else st1)
           else st1)"

fun base_node :: "node \<Rightarrow> node" where
  "base_node (Index m (a # as) i e) = base_node a"
| "base_node (Member m (t # ts) f) = base_node t"
| "base_node n = n"

definition checked_assignments :: "string list" where
  "checked_assignments = [''='', ''+='', ''-='', ''*='', ''/='']"

definition report_const :: "token \<Rightarrow> string \<Rightarrow> string \<Rightarrow> op_state \<Rightarrow> op_state" where
  "report_const t what n st =
     (case find_symbol_type_info n st of
        (Some ty, st1) \<Rightarrow>
          if ty_is_const ty then
            emit (Op_fatal t (snprintf_into MAX_ERROR_MSG_LEN (what @ [SQUOTE] @ n @ [SQUOTE])) None) st1
          else st1
      | (None, st1) \<Rightarrow> st1)"

definition check_const :: "token \<Rightarrow> string \<Rightarrow> node \<Rightarrow> op_state \<Rightarrow> op_state" where
  "check_const t op lhs st =
     (if op \<notin> set checked_assignments then st
      else if nd_kind lhs = NODE_EXPR_VAR then
        (case var_of lhs of None \<Rightarrow> st | Some n \<Rightarrow> report_const t ''Cannot assign to const variable '' n st)
      else if nd_kind lhs = NODE_EXPR_INDEX \<or> nd_kind lhs = NODE_EXPR_MEMBER then
        (case var_of (base_node lhs) of
           None \<Rightarrow> st | Some n \<Rightarrow> report_const t ''Cannot assign to element of const variable '' n st)
      else st)"

definition is_compound :: "string \<Rightarrow> bool" where
  "is_compound op \<longleftrightarrow>
     length op > 1 \<and> last op = CHR ''=''
     \<and> (hd op \<notin> {CHR ''='', CHR ''!'', CHR ''<'', CHR ''>''} \<or> op = ''<<='' \<or> op = ''>>='')"

section \<open>Compound assignments and overloads\<close>

text \<open>The value assigned by \<open>a op= b\<close>, as a function of the operands, whose types the checks below may still
  set; the chain of the left operand, which an argument list shares when the operand is its first
  argument as it is; and the right operand.\<close>

definition compound_overload :: "op_env \<Rightarrow> string \<Rightarrow> node \<Rightarrow> (func_sig \<times> string \<times> bool) option" where
  "compound_overload env inner_op lhs =
     Option.bind (get_operator_method inner_op) (\<lambda>method.
       Option.bind (resolve_struct_name_from_type env (nd_type lhs)) (\<lambda>(struct_name, is_ptr).
         let mangled = method_name (struct_name @ ''__'' @ method)
         in map_option (\<lambda>sig. (sig, mangled, is_ptr)) (oe_find_func env mangled)))"

definition compound_self :: "func_sig \<Rightarrow> bool \<Rightarrow> node \<Rightarrow> op_state \<Rightarrow> prefix \<times> op_state" where
  "compound_self sig is_ptr lhs st =
     (if fs_total_args sig > 0 \<and> is_pointer (arg_type sig 0) \<and> \<not> is_ptr then reference_to ''&'' (nd_type lhs) st
      else if is_ptr \<and> \<not> is_pointer (arg_type sig 0) then (Some (''*'', None), st)
      else (None, st))"

definition compound_node ::
    "op_env \<Rightarrow> lexeme \<Rightarrow> string \<Rightarrow> node \<Rightarrow> node \<Rightarrow> op_state
     \<Rightarrow> (node \<Rightarrow> node \<Rightarrow> node) \<times> (node \<Rightarrow> node \<Rightarrow> node list) \<times> node \<times> op_state" where
  "compound_node env t op lhs rhs st =
     (let inner_op = butlast op
      in case compound_overload env inner_op lhs of
           None \<Rightarrow>
             (let ty = (if nd_type lhs \<noteq> None \<and> nd_type rhs \<noteq> None \<and> type_eq (nd_type lhs) (nd_type rhs)
                        then nd_type lhs else None)
              in ((\<lambda>l r. Binary (op_meta TOKEN_UNKNOWN ty) (Some inner_op) [l] [r]), (\<lambda>l r. [l]), rhs, st))
         | Some (sig, mangled, is_ptr) \<Rightarrow>
             (case compound_self sig is_ptr lhs st of
                (w1, st1) \<Rightarrow>
                  (case overload_rhs_argument env (tok t) op sig rhs st1 of
                     (w2, rhs', st2) \<Rightarrow>
                       ((\<lambda>l r. Call (op_meta (tok t) (fs_ret_type sig)) [callee_node mangled] [wrap w1 l, wrap w2 r]),
                        (\<lambda>l r. if w1 = None then [l, wrap w2 r] else [l]), rhs', st2))))"

text \<open>\<open>a[i] = v\<close> where \<open>a[i]\<close> has become a call of a \<open>_get\<close> method: the call of the \<open>_set\<close> method.\<close>

definition index_set :: "op_env \<Rightarrow> lexeme \<Rightarrow> node \<Rightarrow> node \<Rightarrow> op_state \<Rightarrow> (node \<times> op_state) option" where
  "index_set env t lhs val st =
     (case lhs of
        Call _ (VarRef _ (Some name) _ # _) args \<Rightarrow>
          let len = length name; set_name = take (len - 3) name @ ''set''
          in if len > 4 \<and> drop (len - 4) name = ''_get'' \<and> oe_find_func env set_name \<noteq> None then
               (case new_type (\<lambda>a. type_new a TYPE_VOID) st of
                  (v, st') \<Rightarrow> Some (Call (op_meta (tok t) (Some v)) [callee_node set_name] (args @ [val]), st'))
             else None
      | _ \<Rightarrow> None)"

definition points_somewhere :: "ty option \<Rightarrow> bool" where
  "points_somewhere t \<longleftrightarrow> (case t of None \<Rightarrow> False | Some t \<Rightarrow> ty_kind t = TYPE_POINTER \<and> ty_inner t \<noteq> None)"

definition operator_overload ::
    "op_env \<Rightarrow> string \<Rightarrow> node \<Rightarrow> node \<Rightarrow> (func_sig \<times> string \<times> bool \<times> bool) option" where
  "operator_overload env op lhs rhs =
     Option.bind (get_operator_method op) (\<lambda>method.
       Option.bind (resolve_struct_name_from_type env (nd_type lhs)) (\<lambda>(struct_name, is_ptr).
         if is_ptr \<and> (op = ''=='' \<or> op = ''!='') \<and> points_somewhere (nd_type rhs) then None
         else case find_operator_method env struct_name method of
           Some (sig, mangled) \<Rightarrow> Some (sig, mangled, is_ptr, False)
         | None \<Rightarrow>
             if op = ''!='' then
               map_option (\<lambda>(sig, mangled). (sig, mangled, is_ptr, True)) (find_operator_method env struct_name ''eq'')
             else None))"

definition binary_self :: "op_env \<Rightarrow> func_sig \<Rightarrow> bool \<Rightarrow> node \<Rightarrow> op_state \<Rightarrow> prefix \<times> op_state" where
  "binary_self env sig is_ptr lhs st =
     (if fs_total_args sig > 0 \<and> is_pointer (arg_type sig 0) then
        (if is_ptr then (None, st) else reference_to (address_op env st lhs) (nd_type lhs) st)
      else if is_ptr then
        (Some (''*'', if is_pointer (nd_type lhs) then Option.bind (nd_type lhs) ty_inner else None), st)
      else (None, st))"

definition overloaded_call ::
    "op_env \<Rightarrow> lexeme \<Rightarrow> string \<Rightarrow> func_sig \<times> string \<times> bool \<times> bool \<Rightarrow> node \<Rightarrow> node \<Rightarrow> op_state
     \<Rightarrow> node \<times> op_state" where
  "overloaded_call env t op found lhs rhs st =
     (case found of
        (sig, mangled, is_ptr, negate) \<Rightarrow>
          (case binary_self env sig is_ptr lhs st of
             (w1, st1) \<Rightarrow>
               (case overload_rhs_argument env (tok t) op sig rhs st1 of
                  (w2, rhs', st2) \<Rightarrow>
                    (case text_of_type (fs_ret_type sig) st2 of
                       (_, st3) \<Rightarrow>
                         let call = Call (op_meta (tok t) (fs_ret_type sig)) [callee_node mangled]
                                      [wrap w1 lhs, wrap w2 rhs']
                         in if negate then
                              (case new_type (\<lambda>a. type_new a TYPE_BOOL) st3 of
                                 (b, st4) \<Rightarrow> (Unary (op_meta (tok t) (Some b)) (Some ''!'') [call], st4))
                            else (call, st3)))))"

section \<open>Types of the operands\<close>

definition unknown_var :: "node \<Rightarrow> bool" where
  "unknown_var n \<longleftrightarrow> nd_kind n = NODE_EXPR_VAR \<and> (case nd_type n of None \<Rightarrow> False | Some t \<Rightarrow> ty_kind t = TYPE_UNKNOWN)"

definition known_type :: "node \<Rightarrow> bool" where
  "known_type n \<longleftrightarrow> (case nd_type n of None \<Rightarrow> False | Some t \<Rightarrow> ty_kind t \<noteq> TYPE_UNKNOWN)"

text \<open>A variable of unknown type, a parameter of a lambda, takes the type of the other operand.\<close>

definition infer_var :: "node \<Rightarrow> node \<Rightarrow> op_state \<Rightarrow> node \<times> op_state" where
  "infer_var n other st =
     (if unknown_var n \<and> known_type other \<and> lookup_symbol (var_of n) st \<noteq> None then
        (case text_of_type (nd_type other) st of
           (name, st1) \<Rightarrow>
             (with_type (nd_type other) n,
              (case var_of n of
                 None \<Rightarrow> st1
               | Some v \<Rightarrow> update_symbol v (\<lambda>y. y\<lparr>sy_type := nd_type other, sy_type_name := Some name\<rparr>) st1)))
      else (n, st))"

definition single_upper :: "string \<Rightarrow> bool" where
  "single_upper t \<longleftrightarrow> length t = 1 \<and> 65 \<le> ord (hd t) \<and> ord (hd t) \<le> 90"

text \<open>A pointer or a string, by the kind or by a star in the text.\<close>

definition pointer_like :: "ty \<Rightarrow> string \<Rightarrow> bool" where
  "pointer_like t name \<longleftrightarrow> ty_kind t = TYPE_POINTER \<or> ty_kind t = TYPE_STRING \<or> CHR ''*'' \<in> set name"

definition is_number :: "ty \<Rightarrow> bool" where
  "is_number t \<longleftrightarrow> is_integer_type (Some t) \<or> is_float_type (Some t)"

definition compared_as_numbers :: "op_env \<Rightarrow> nat \<Rightarrow> ty \<Rightarrow> ty \<Rightarrow> bool" where
  "compared_as_numbers env depth l r \<longleftrightarrow>
     is_number l \<and> is_number r
     \<or> (opaque_alias_base l \<noteq> l \<or> opaque_alias_base r \<noteq> r) \<and> check_opaque_alias_compat env depth (Some l) (Some r)
       \<and> is_number (opaque_alias_base l) \<and> is_number (opaque_alias_base r)"

definition unchecked_comparison :: "ty \<Rightarrow> ty \<Rightarrow> string \<Rightarrow> string \<Rightarrow> node \<Rightarrow> node \<Rightarrow> bool" where
  "unchecked_comparison l r t1 t2 lhs rhs \<longleftrightarrow>
     t1 = ''void*'' \<or> t2 = ''void*'' \<or> ty_kind l = TYPE_GENERIC \<or> ty_kind r = TYPE_GENERIC
     \<or> single_upper t1 \<or> single_upper t2
     \<or> pointer_like l t1 \<and> zero_literal rhs \<or> pointer_like r t2 \<and> zero_literal lhs"

definition msg_cannot_compare :: "string \<Rightarrow> string \<Rightarrow> string" where
  "msg_cannot_compare t1 t2 =
     snprintf_into MAX_SHORT_MSG_LEN
       (''Type mismatch in comparison: cannot compare '' @ [SQUOTE] @ t1 @ [SQUOTE] @ '' and '' @ [SQUOTE] @ t2 @ [SQUOTE])"

definition comparison_type ::
    "op_env \<Rightarrow> token \<Rightarrow> ty \<Rightarrow> ty \<Rightarrow> node \<Rightarrow> node \<Rightarrow> op_state \<Rightarrow> ty option \<times> op_state" where
  "comparison_type env op l r lhs rhs st0 =
     (case new_type (\<lambda>a. type_new a TYPE_INT) st0 of
        (int1, st1) \<Rightarrow>
          (case text_of_type (Some l) st1 of
             (t1, st2) \<Rightarrow>
               (case text_of_type (Some r) st2 of
                  (t2, st) \<Rightarrow>
                    if unchecked_comparison l r t1 t2 lhs rhs \<or> type_eq (Some l) (Some r)
                       \<or> compared_as_numbers env (os_depth st) l r then (Some int1, st)
                    else if pc_mode_lsp (os_ctx st) then
                      (case new_type (\<lambda>a. type_new a TYPE_INT)
                              (emit (Op_warning op (snprintf_into MAX_ERROR_MSG_LEN (''LSP: '' @ msg_cannot_compare t1 t2)) None) st) of
                         (int2, st') \<Rightarrow> (Some int2, st'))
                    else
                      (Some int1, emit (Op_fatal op (msg_cannot_compare t1 t2)
                         (Some ''Both operands must have compatible types for comparison'')) st))))"

definition int_like :: "ty \<Rightarrow> string \<Rightarrow> bool" where
  "int_like t name \<longleftrightarrow> is_integer_type (Some t) \<or> str_is_int_type name \<or> str_is_usize_type name \<or> str_is_isize_type name"

definition pointer_arithmetic :: "string \<Rightarrow> ty \<Rightarrow> ty \<Rightarrow> string \<Rightarrow> string \<Rightarrow> bool" where
  "pointer_arithmetic op l r t1 t2 \<longleftrightarrow>
     (op = ''+'' \<or> op = ''-'')
     \<and> (pointer_like l t1 \<and> int_like r t2 \<or> int_like l t1 \<and> pointer_like r t2)"

definition plain_number :: "ty \<Rightarrow> bool" where
  "plain_number t \<longleftrightarrow> is_integer_type (Some t) \<or> ty_kind t \<in> {TYPE_F32, TYPE_F64, TYPE_FLOAT}"

text \<open>The type of mixed arithmetic.\<close>

definition promoted :: "ty \<Rightarrow> ty \<Rightarrow> ty" where
  "promoted l r =
     (if ty_kind l = TYPE_F64 then l else if ty_kind r = TYPE_F64 then r
      else if ty_kind l \<in> {TYPE_F32, TYPE_FLOAT} then l else if ty_kind r \<in> {TYPE_F32, TYPE_FLOAT} then r
      else l)"

text \<open>The inference that the code repeats before the null assignment finds nothing: where it applies, the
  first one has been made already.\<close>

definition mixed_type ::
    "op_env \<Rightarrow> token \<Rightarrow> string \<Rightarrow> ty \<Rightarrow> ty \<Rightarrow> node \<Rightarrow> op_state \<Rightarrow> ty option \<times> op_state" where
  "mixed_type env op_tok op l r rhs st0 =
     (case text_of_type (Some l) st0 of
        (t1, st1) \<Rightarrow>
          (case text_of_type (Some r) st1 of
             (t2, st) \<Rightarrow>
               if resolve_struct_name_from_type env (Some l) \<noteq> None
                  \<and> resolve_struct_name_from_type env (Some l) = resolve_struct_name_from_type env (Some r) then (Some l, st)
               else if pointer_arithmetic op l r t1 t2 then (Some (if pointer_like l t1 then l else r), st)
               else if op = ''='' \<and> pointer_like l t1 \<and> zero_literal rhs then (None, st)
               else if plain_number l \<and> plain_number r \<and> op \<in> {''+'', ''-'', ''*'', ''/''} then (Some (promoted l r), st)
               else
                 (case printed_text (sprintf_into MAX_MANGLED_NAME_LEN
                         (''Left operand has type '' @ [SQUOTE] @ t1 @ [SQUOTE] @ '', right operand has type '' @ [SQUOTE] @ t2
                          @ [SQUOTE] @ [NL] @ ''   = note: Consider casting one operand to match the other'')) st of
                    (note, st') \<Rightarrow>
                      (None, emit (Op_fatal op_tok
                         (snprintf_into MAX_SHORT_MSG_LEN (''Type mismatch in binary operation '' @ [SQUOTE] @ op @ [SQUOTE]))
                         (Some note)) st'))))"

definition check_operands ::
    "op_env \<Rightarrow> token \<Rightarrow> string \<Rightarrow> node \<Rightarrow> node \<Rightarrow> op_state \<Rightarrow> ty option \<times> node \<times> node \<times> op_state" where
  "check_operands env op_tok op lhs0 rhs0 st0 =
     (if nd_type lhs0 = None \<or> nd_type rhs0 = None then (None, lhs0, rhs0, st0)
      else case infer_var lhs0 rhs0 st0 of
        (lhs, st1) \<Rightarrow>
          (case infer_var rhs0 lhs st1 of
             (rhs, st) \<Rightarrow>
               (case (nd_type lhs, nd_type rhs) of
                  (Some l, Some r) \<Rightarrow>
                    if is_comparison_op op then
                      (case comparison_type env op_tok l r lhs rhs st of (ty, st') \<Rightarrow> (ty, lhs, rhs, st'))
                    else if type_eq (Some l) (Some r) \<or> check_opaque_alias_compat env (os_depth st) (Some l) (Some r)
                    then (Some l, lhs, rhs, st)
                    else (case mixed_type env op_tok op l r rhs st of (ty, st') \<Rightarrow> (ty, lhs, rhs, st'))
                | _ \<Rightarrow> (None, lhs, rhs, st))))"

section \<open>The node of a binary operator\<close>

text \<open>The assigned value is checked against the operands of the operator. Hooks that print remarks on what
  the source uses are left out.\<close>

definition finish_binary ::
    "op_env \<Rightarrow> lexeme \<Rightarrow> lexeme \<Rightarrow> string \<Rightarrow> (node \<Rightarrow> node \<Rightarrow> node) \<Rightarrow> (node \<Rightarrow> node \<Rightarrow> node list)
     \<Rightarrow> node \<Rightarrow> node \<Rightarrow> op_state \<Rightarrow> node \<times> op_state" where
  "finish_binary env t op_tok op right left_chain lhs rhs st =
     (case (if op = ''='' then index_set env t lhs (right lhs rhs) st else None) of
        Some res \<Rightarrow> res
      | None \<Rightarrow>
          (case operator_overload env op lhs rhs of
             Some found \<Rightarrow> overloaded_call env t op found lhs rhs st
           | None \<Rightarrow>
               (case check_operands env (tok op_tok) op lhs rhs st of
                  (ty, l, r, st') \<Rightarrow>
                    (Binary (op_meta (tok op_tok) ty) (Some op) (left_chain l r) [right l r], st'))))"

definition build_binary :: "op_env \<Rightarrow> lexeme \<Rightarrow> lexeme \<Rightarrow> node \<Rightarrow> node \<Rightarrow> op_state \<Rightarrow> node \<times> op_state" where
  "build_binary env t op_tok lhs rhs0 st0 =
     (case assignment_effects env op_tok lhs rhs0 st0 of
        (rhs1, st1) \<Rightarrow>
          let op = binary_op_text op_tok;
              st2 = check_const (tok op_tok) op lhs (comparison_warnings env (tok op_tok) op lhs rhs1 st1)
          in if is_compound op then
               (case compound_node env t op lhs rhs1 st2 of
                  (right, left_chain, rhs, st) \<Rightarrow> finish_binary env t op_tok ''='' right left_chain lhs rhs st)
             else finish_binary env t op_tok op (\<lambda>l r. r) (\<lambda>l r. [l]) lhs rhs1 st2)"

end
