(* ===== verification/ZcExprEmit.thy ===== *)
theory ZcExprEmit
  imports ZcOperators
begin

text \<open>
  The C text of an expression: \<open>codegen_expression\<close> (\<open>src/src/codegen/codegen.c\<close>) and its handlers
  (\<open>codegen_expr_core.c\<close>, \<open>codegen_expr_simple.c\<close>, \<open>codegen_expr_handlers.c\<close>, \<open>codegen_expr_member.c\<close>,
  \<open>codegen_expr_misc.c\<close>, \<open>codegen_utils.c\<close>). What the inference of types and the registries answer is in the
  environment, and so are the handlers of calls, struct initialisers, blocks, matches and lambdas.
\<close>

section \<open>Output and environment\<close>

text \<open>What is printed, in order, with the reports between; a crash ends the process.\<close>

datatype c_out =
    Out string
  | Out_panic token string
  | Out_warning token string
  | Out_crash str_fault

definition out_text :: "c_out list \<Rightarrow> string" where
  "out_text os = concat (map (\<lambda>p. case p of Out s \<Rightarrow> s | _ \<Rightarrow> []) os)"

definition printed_type :: "str_fault + string \<Rightarrow> (string \<Rightarrow> c_out list) \<Rightarrow> c_out list" where
  "printed_type r f = (case r of Inl e \<Rightarrow> [Out_crash e] | Inr s \<Rightarrow> f s)"

text \<open>Of the definition of a struct or an enum: its kind, which variants have a payload, and whether its
  type, if it has one, must be dropped. Of an alias: its name, what it stands for, whether it is opaque.\<close>

record c_def =
  cd_is_enum :: bool
  cd_payloads :: "bool list"
  cd_drop :: "bool option"

record c_alias =
  ca_alias :: string
  ca_original :: string
  ca_opaque :: bool

text \<open>Of the node: the type that is printed for a cast, \<open>is_pointer_access\<close>, \<open>temp_id\<close>, \<open>resolved_type\<close>, the
  suggestion for an unknown name. Of the registries: functions, symbols with their link names and
  signatures. The captures of the lambda around the expression, with their modes.\<close>

record cg_env =
  ce_misra :: bool
  ce_cpp :: bool
  ce_cc :: "string option"
  ce_silent :: bool
  ce_ctx :: pctx
  ce_callee :: bool
  ce_captures :: "(string \<times> i32 option) list"
  ce_infer :: "node \<Rightarrow> string option"
  ce_def :: "string \<Rightarrow> c_def option"
  ce_alias :: "string \<Rightarrow> c_alias option"
  ce_func :: "string \<Rightarrow> func_sig option"
  ce_link :: "string \<Rightarrow> string option"
  ce_sig :: "string \<Rightarrow> (func_sig \<times> string option) option"
  ce_float :: "dbl \<Rightarrow> string"
  ce_cast :: "node \<Rightarrow> string"
  ce_access :: "node \<Rightarrow> nat"
  ce_temp :: "node \<Rightarrow> nat"
  ce_resolved :: "node \<Rightarrow> string option"
  ce_suggestion :: "node \<Rightarrow> string option"
  ce_other :: "nat \<Rightarrow> node \<Rightarrow> c_out list"

section \<open>Names and types\<close>

definition strip_struct :: "string \<Rightarrow> string" where
  "strip_struct s = (if take 7 s = ''struct '' then drop 7 s else s)"

definition has_sub :: "string \<Rightarrow> string \<Rightarrow> bool" where
  "has_sub s t \<longleftrightarrow> strstr s t \<noteq> None"

definition str_is_basic_type :: "string \<Rightarrow> bool" where
  "str_is_basic_type t \<longleftrightarrow>
     str_is_int_type t
     \<or> t \<in> set [''bool'', ''char'', ''void'', ''float'', ''f32'', ''F32'', ''double'', ''f64'', ''F64'']
     \<or> str_is_usize_type t \<or> str_is_isize_type t \<or> t = ''__auto_type''"

text \<open>\<open>z_path_match_compiler\<close> for \<open>tcc\<close>: a word of the command, after the character \<open>prev\<close>.\<close>

definition word_start :: "char option \<Rightarrow> bool" where
  "word_start prev \<longleftrightarrow> (case prev of None \<Rightarrow> True | Some c \<Rightarrow> isspace c \<or> c = CHR ''/'' \<or> c = CHR 0x5C)"

definition word_end :: "char \<Rightarrow> bool" where
  "word_end c \<longleftrightarrow> c = NUL \<or> isspace c \<or> c = CHR ''.'' \<or> c = CHR ''-'' \<or> c = US"

function tcc_word :: "char option \<Rightarrow> string \<Rightarrow> bool" where
  "tcc_word prev p =
     (case strstr p ''tcc'' of
        None \<Rightarrow> False
      | Some i \<Rightarrow>
          word_start (if i = 0 then prev else Some (at p (i - 1))) \<and> word_end (at p (i + 3))
          \<or> tcc_word (Some (CHR ''c'')) (drop (i + 3) p))"
  by pat_completeness auto
termination
proof (relation "measure (\<lambda>(_, p). length p)")
  fix prev p i assume "strstr p ''tcc'' = Some i"
  then have "p \<noteq> []" by auto
  then show "((Some CHR ''c'', drop (i + 3) p), prev, p) \<in> measure (\<lambda>(_, p). length p)" by (cases p) auto
qed simp

declare tcc_word.simps [simp del]

definition uses_tcc :: "cg_env \<Rightarrow> bool" where
  "uses_tcc env \<longleftrightarrow> (case ce_cc env of None \<Rightarrow> False | Some p \<Rightarrow> tcc_word None p)"

definition emit_mangled_name :: "cg_env \<Rightarrow> string \<Rightarrow> string \<Rightarrow> c_out list" where
  "emit_mangled_name env base meth =
     (let merged = mangle_method_symbol base None meth
      in [Out (case ce_link env merged of Some l \<Rightarrow> l | None \<Rightarrow> merged)])"

definition is_enum_type_name :: "cg_env \<Rightarrow> string option \<Rightarrow> bool" where
  "is_enum_type_name env name =
     (case Option.bind name (\<lambda>n. ce_def env (strip_struct n)) of None \<Rightarrow> False | Some d \<Rightarrow> cd_is_enum d)"

definition is_simple_enum :: "cg_env \<Rightarrow> string \<Rightarrow> bool" where
  "is_simple_enum env name =
     (case ce_def env (strip_struct name) of
        None \<Rightarrow> False | Some d \<Rightarrow> cd_is_enum d \<and> True \<notin> set (cd_payloads d))"

text \<open>The definition of the type that is inferred for a node.\<close>

definition inferred_def :: "cg_env \<Rightarrow> node \<Rightarrow> c_def option" where
  "inferred_def env n = Option.bind (ce_infer env n) (\<lambda>t. ce_def env (strip_struct t))"

definition has_drop :: "cg_env \<Rightarrow> node \<Rightarrow> bool" where
  "has_drop env n =
     (let def_drop = Option.bind (inferred_def env n) cd_drop
      in case nd_type n of
           None \<Rightarrow> def_drop = Some True
         | Some t \<Rightarrow>
             if ty_kind t = TYPE_FUNCTION then ty_has_drop t \<and> \<not> ty_is_raw t
             else if ty_kind t = TYPE_STRUCT \<or> ty_kind t = TYPE_ENUM then
               (case def_drop of Some b \<Rightarrow> b | None \<Rightarrow> ty_has_drop t)
             else False)"

section \<open>Literals and names\<close>

text \<open>A character of a raw string in a C string.\<close>

definition raw_char :: "char \<Rightarrow> string" where
  "raw_char c =
     (if c = BSLASH then [BSLASH, BSLASH] else if c = DQUOTE then [BSLASH, DQUOTE]
      else if c = CHR 0x0A then [BSLASH, CHR ''n''] else if c = CHR 0x0D then [BSLASH, CHR ''r'']
      else if c = CHR 0x09 then [BSLASH, CHR ''t''] else [c])"

definition int_text :: "i64 \<Rightarrow> string" where
  "int_text v = (if v > 9223372036854775807 then show_nat (unat v) @ ''ULL'' else show_int (sint v))"

definition codegen_literal_expr :: "cg_env \<Rightarrow> LiteralKind \<Rightarrow> i64 \<Rightarrow> dbl \<Rightarrow> string option \<Rightarrow> c_out list" where
  "codegen_literal_expr env k v x s =
     (case k of
        LITERAL_STRING \<Rightarrow> (case s of None \<Rightarrow> [Out_crash Null_pointer] | Some s \<Rightarrow> [Out (DQUOTE # s @ [DQUOTE])])
      | LITERAL_RAW_STRING \<Rightarrow>
          (case s of None \<Rightarrow> [Out_crash Null_pointer]
           | Some s \<Rightarrow> [Out (DQUOTE # concat (map raw_char s) @ [DQUOTE])])
      | LITERAL_CHAR \<Rightarrow> [Out (if v > 127 then show_nat (unat v mod 2 ^ 32) else field_text s)]
      | LITERAL_FLOAT \<Rightarrow>
          (let buf = ce_float env x
           in [Out (if set buf \<inter> {CHR ''.'', CHR ''e'', CHR ''E''} = {} then buf @ ''.0'' else buf)])
      | LITERAL_INT \<Rightarrow> [Out (int_text v)])"

text \<open>The last \<open>"__"\<close> of a name, as the loop over \<open>strstr\<close> finds it.\<close>

function last_double :: "string \<Rightarrow> nat option" where
  "last_double s =
     (case strstr s ''__'' of
        None \<Rightarrow> None
      | Some i \<Rightarrow> (case last_double (drop (i + 2) s) of None \<Rightarrow> Some i | Some j \<Rightarrow> Some (i + 2 + j)))"
  by pat_completeness auto
termination
proof (relation "measure length")
  fix s i assume "strstr s ''__'' = Some i"
  then have "s \<noteq> []" by auto
  then show "(drop (i + 2) s, s) \<in> measure length" by (cases s) auto
qed simp

declare last_double.simps [simp del]

definition is_instance_enum_variant :: "cg_env \<Rightarrow> string \<Rightarrow> bool" where
  "is_instance_enum_variant env name =
     (case last_double name of
        None \<Rightarrow> False
      | Some i \<Rightarrow> i \<noteq> 0 \<and> find_enum_variant_of (ce_ctx env) (take i name) (drop (i + 2) name) \<noteq> None)"

definition captured :: "cg_env \<Rightarrow> string \<Rightarrow> i32 option option" where
  "captured env name = map_option snd (List.find (\<lambda>(v, _). v = name) (ce_captures env))"

definition unknown_warning :: "cg_env \<Rightarrow> node \<Rightarrow> string \<Rightarrow> c_out list" where
  "unknown_warning env n name =
     (case ce_suggestion env n of
        Some s \<Rightarrow>
          if ce_resolved env n = Some ''unknown'' \<and> \<not> ce_silent env \<and> ce_func env name = None then
            [Out_warning (nd_token n)
               (snprintf_into MAX_SHORT_MSG_LEN (''Undefined variable '' @ [SQUOTE] @ name @ [SQUOTE]) @ [NL] @ ''   = help: ''
                @ snprintf_into MAX_SHORT_MSG_LEN (''Did you mean '' @ [SQUOTE] @ s @ [SQUOTE] @ ''?''))]
          else []
      | None \<Rightarrow> [])"

text \<open>A name with a separator: of a method or of an enum variant, which is a call of its constructor.\<close>

definition qualified_name :: "cg_env \<Rightarrow> string \<Rightarrow> nat \<Rightarrow> c_out list" where
  "qualified_name env name i =
     (let base = take i name; meth = drop (i + 2) name
      in case (case ce_alias env base of None \<Rightarrow> None | Some a \<Rightarrow> if ca_opaque a then None else Some (ca_original a)) of
           Some target \<Rightarrow> emit_mangled_name env target meth
         | None \<Rightarrow>
             emit_mangled_name env base meth
             @ (if \<not> ce_callee env
                   \<and> (find_enum_variant_of (ce_ctx env) base meth \<noteq> None \<or> is_instance_enum_variant env name)
                then [Out ''()''] else []))"

definition common_enum :: "string \<Rightarrow> bool" where
  "common_enum base \<longleftrightarrow> take 6 base = ''Result'' \<or> take 6 base = ''Option'' \<or> take 8 base = ''JsonType''"

text \<open>The enum of an old name \<open>Enum_Variant\<close>, and where the variant begins.\<close>

definition legacy_enum :: "cg_env \<Rightarrow> string \<Rightarrow> nat option" where
  "legacy_enum env name =
     (case strstr name ''_'' of
        None \<Rightarrow> None
      | Some u \<Rightarrow>
          if u \<noteq> 0 \<and> at name (u + 1) \<noteq> US \<and> \<not> has_sub name ''__'' \<and> u < MAX_TYPE_NAME_LEN
             \<and> (common_enum (take u name) \<or> (case ce_def env (take u name) of None \<Rightarrow> False | Some d \<Rightarrow> cd_is_enum d))
          then Some u else None)"

definition codegen_var_expr :: "cg_env \<Rightarrow> node \<Rightarrow> string option \<Rightarrow> c_out list" where
  "codegen_var_expr env n oname =
     (case oname of
        None \<Rightarrow> [Out_crash Null_pointer]
      | Some name \<Rightarrow>
          (case captured env name of
             Some mode \<Rightarrow> [Out (if mode = Some 1 then ''(*ctx->'' @ name @ '')'' else ''ctx->'' @ name)]
           | None \<Rightarrow>
               unknown_warning env n name
               @ (case (case strstr name ''::'' of Some i \<Rightarrow> Some i | None \<Rightarrow> strstr name ''__'') of
                    Some i \<Rightarrow> qualified_name env name i
                  | None \<Rightarrow>
                      if name = ''self'' \<and> (case nd_type n of None \<Rightarrow> False | Some t \<Rightarrow> ty_kind t = TYPE_STRUCT)
                      then [Out ''(*self)'']
                      else (case legacy_enum env name of
                              Some u \<Rightarrow> emit_mangled_name env (take u name) (drop (u + 1) name)
                            | None \<Rightarrow> [Out (case ce_link env name of Some l \<Rightarrow> l | None \<Rightarrow> name)]))))"

section \<open>Moves and inferred declarations\<close>

text \<open>The text of the node itself is an argument of the definitions in this section.\<close>

definition emit_move_invalidation :: "cg_env \<Rightarrow> node \<Rightarrow> c_out list \<Rightarrow> c_out list" where
  "emit_move_invalidation env n self =
     (if \<not> has_drop env n then []
      else case n of
        VarRef _ (Some name) _ \<Rightarrow>
          (if name = ''self'' then []
           else [Out ((if captured env name = Some (Some 0) then ''ctx->'' else []) @ ''__z_drop_flag_'' @ name @ '' = 0'')])
      | VarRef _ None _ \<Rightarrow> [Out_crash Null_pointer]
      | Member _ _ _ \<Rightarrow> [Out ''memset(&''] @ self @ [Out '', 0, sizeof(''] @ self @ [Out ''))'']
      | _ \<Rightarrow> [])"

definition with_move :: "cg_env \<Rightarrow> node \<Rightarrow> c_out list \<Rightarrow> c_out list" where
  "with_move env n self =
     (if nd_kind n = NODE_EXPR_VAR \<and> has_drop env n then
        [Out ''({ ''] @ emit_move_invalidation env n self @ [Out ''; ''] @ self @ [Out ''; })'']
      else if nd_kind n = NODE_EXPR_MEMBER \<and> has_drop env n then
        [Out ''({ __typeof__(''] @ self @ [Out '') _mv = ''] @ self @ [Out ''; '']
        @ emit_move_invalidation env n self @ [Out ''; _mv; })'']
      else self)"

definition emit_auto_type :: "cg_env \<Rightarrow> node option \<Rightarrow> c_out list \<Rightarrow> c_out list" where
  "emit_auto_type env n self =
     (case Option.bind n (ce_infer env) of
        Some t \<Rightarrow>
          if t \<noteq> ''__auto_type'' \<and> t \<noteq> ''unknown'' then [Out t]
          else if uses_tcc env then [Out ''__typeof__((''] @ self @ [Out ''))''] else [Out ''ZC_AUTO'']
      | None \<Rightarrow>
          if uses_tcc env \<and> n \<noteq> None then [Out ''__typeof__((''] @ self @ [Out ''))''] else [Out ''ZC_AUTO''])"

text \<open>The address of a value: of a place, or of a temporary with the value.\<close>

definition temporary :: "cg_env \<Rightarrow> c_out list \<Rightarrow> c_out list" where
  "temporary env self =
     (if ce_cpp env then [Out ''({ __typeof__((''] @ self @ [Out '')) _tmp = ''] @ self @ [Out ''; &_tmp; })'']
      else [Out ''(__typeof__((''] @ self @ [Out ''))[]){''] @ self @ [Out ''}''])"

definition address_of :: "cg_env \<Rightarrow> node \<Rightarrow> c_out list \<Rightarrow> c_out list" where
  "address_of env n self =
     (if nd_kind n \<in> {NODE_EXPR_VAR, NODE_EXPR_INDEX, NODE_EXPR_MEMBER} then [Out ''&''] @ self else temporary env self)"

section \<open>Operators\<close>

definition emit_unary :: "cg_env \<Rightarrow> node \<Rightarrow> string option \<Rightarrow> node option \<Rightarrow> c_out list \<Rightarrow> c_out list" where
  "emit_unary env n op operand self =
     (if ce_temp env n > 0 then [Out (''(&_z_temp_'' @ show_nat (ce_temp env n - 1) @ '')'')]
      else if op = Some ''&_rval'' then temporary env self
      else if op = Some ''?'' then
        [Out ''({ ''] @ emit_auto_type env operand self @ [Out '' _t = (''] @ self
        @ [Out ''); if (_t.tag != 0) return _t; _t.data.Ok; })'']
      else if op = Some ''_post++'' then [Out ''(''] @ self @ [Out ''++)'']
      else if op = Some ''_post--'' then [Out ''(''] @ self @ [Out ''--)'']
      else [Out (CHR ''('' # field_text op)] @ self @ [Out '')''])"

text \<open>The type of the left operand of a comparison through its aliases: what it stands for, the name its
  methods have, whether an opaque alias is on the way, whether it is a pointer.\<close>

fun chase_alias :: "cg_env \<Rightarrow> nat \<Rightarrow> string \<Rightarrow> string \<Rightarrow> bool \<Rightarrow> string \<times> string \<times> bool \<times> bool" where
  "chase_alias env 0 cur base found = (cur, base, found, False)"
| "chase_alias env (Suc k) cur base found =
     (if CHR ''*'' \<in> set cur then (cur, base, found, True)
      else case ce_alias env cur of
        None \<Rightarrow> (cur, base, found, False)
      | Some a \<Rightarrow>
          if ca_opaque a then chase_alias env k (ca_original a) (if found then base else ca_alias a) True
          else chase_alias env k (ca_original a) (if found then base else ca_original a) found)"

definition compared_by_method :: "cg_env \<Rightarrow> string \<Rightarrow> string option" where
  "compared_by_method env t =
     (case chase_alias env 20 t t False of
        (resolved, base, found, is_ptr) \<Rightarrow>
          let def = ce_def env t;
              simple = (case def of None \<Rightarrow> False | Some d \<Rightarrow> cd_is_enum d \<and> True \<notin> set (cd_payloads d))
          in if (def \<noteq> None \<or> found) \<and> \<not> str_is_basic_type resolved \<and> \<not> is_ptr \<and> \<not> simple
             then Some (strip_struct base) else None)"

definition eq_method :: "cg_env \<Rightarrow> string \<Rightarrow> string \<times> bool" where
  "eq_method env base =
     (let trait_meth = snprintf_into MAX_TYPE_NAME_LEN (base @ ''__Eq__eq'');
          own_meth = snprintf_into MAX_TYPE_NAME_LEN (base @ ''__eq'')
      in case (case ce_sig env trait_meth of Some s \<Rightarrow> Some s | None \<Rightarrow> ce_sig env own_meth) of
           None \<Rightarrow> (trait_meth, True)
         | Some (sig, link) \<Rightarrow>
             (case link of Some l \<Rightarrow> l | None \<Rightarrow> fs_name sig,
              fs_total_args sig > 1 \<and> is_pointer (arg_type sig 1)))"

definition infix_text :: "string \<Rightarrow> c_out list \<Rightarrow> c_out list \<Rightarrow> c_out list" where
  "infix_text op l r = [Out ''(''] @ l @ [Out (CHR '' '' # op @ '' '')] @ r @ [Out '')'']"

definition emit_equality :: "cg_env \<Rightarrow> string \<Rightarrow> node \<Rightarrow> node \<Rightarrow> c_out list \<Rightarrow> c_out list \<Rightarrow> c_out list" where
  "emit_equality env op left right l r =
     (case ce_infer env left of
        None \<Rightarrow> infix_text op l r
      | Some t \<Rightarrow>
          (case compared_by_method env t of
             Some base \<Rightarrow>
               (case eq_method env base of
                  (name, needs_ptr) \<Rightarrow>
                    (if op = ''!='' then [Out ''(!''] else [])
                    @ [Out (name @ ''('')] @ address_of env left l @ [Out '', '']
                    @ (if needs_ptr then address_of env right r else r) @ [Out '')'']
                    @ (if op = ''!='' then [Out '')''] else []))
           | None \<Rightarrow>
               if t = ''string'' \<and> ce_infer env right = Some ''string'' then
                 [Out ''(strcmp(''] @ l @ [Out '', ''] @ r @ [Out (if op = ''=='' then '') == 0)'' else '') != 0)'')]
               else infix_text op l r))"

definition is_assignment_op :: "string \<Rightarrow> bool" where
  "is_assignment_op op \<longleftrightarrow> op \<noteq> [] \<and> last op = CHR ''='' \<and> op \<notin> {''=='', ''!='', ''<='', ''>=''}"

text \<open>In C++ an assignment to a variable with a value to drop goes through its drop flag: the type.\<close>

definition drop_assignment :: "cg_env \<Rightarrow> string \<Rightarrow> node \<Rightarrow> string option" where
  "drop_assignment env op left =
     (if op = ''='' \<and> ce_cpp env \<and> nd_kind left = NODE_EXPR_VAR then
        (case ce_infer env left of
           None \<Rightarrow> None
         | Some t \<Rightarrow>
             if CHR ''*'' \<in> set t then None
             else if Option.bind (ce_def env (strip_struct t)) cd_drop = Some True then Some (strip_struct t) else None)
      else None)"

text \<open>The right operand, cast to the type of the left one in MISRA mode and for some C++ assignments.\<close>

definition cast_right :: "cg_env \<Rightarrow> string \<Rightarrow> node \<Rightarrow> c_out list \<Rightarrow> c_out list" where
  "cast_right env op left r =
     (let lt = nd_type left;
          cpp_cast = (case lt of None \<Rightarrow> False
                      | Some t \<Rightarrow> ty_kind t = TYPE_POINTER \<or> ty_kind t = TYPE_ENUM \<or> is_enum_type_name env (ty_name t))
      in if ce_misra env \<or> ce_cpp env \<and> op = ''='' \<and> cpp_cast then
           (if lt = None then r
            else printed_type (type_to_c_string lt (ce_misra env)) (\<lambda>s.
              if s \<noteq> ''unknown'' \<and> s \<noteq> ''void'' then [Out (CHR ''('' # s @ '')('')] @ r @ [Out '')''] else r))
         else r)"

definition drop_assignment_text ::
    "string \<Rightarrow> string \<Rightarrow> c_out list \<Rightarrow> c_out list \<Rightarrow> c_out list" where
  "drop_assignment_text clean name l moved_r =
     [Out ''({ '', Out ''ZC_AUTO _z_tmp = (''] @ moved_r @ [Out ''); '', Out ''__typeof__((''] @ l
     @ [Out ''))* _z_dest = &(''] @ l @ [Out ''); '']
     @ [Out (''if (__z_drop_flag_'' @ name @ '') '' @ clean @ ''__Drop__glue(_z_dest); ''),
        Out ''*_z_dest = _z_tmp; '', Out (''__z_drop_flag_'' @ name @ '' = 1; ''), Out ''*_z_dest; })'']"

definition emit_binary_op ::
    "cg_env \<Rightarrow> string \<Rightarrow> node \<Rightarrow> node \<Rightarrow> c_out list \<Rightarrow> c_out list \<Rightarrow> c_out list" where
  "emit_binary_op env op left right l r =
     (if op = ''??'' then
        [Out ''({ ''] @ emit_auto_type env (Some left) l @ [Out '' _l = (''] @ l @ [Out ''); _l ? _l : (''] @ r @ [Out ''); })'']
      else if op = ''??='' then
        [Out ''({ if (!(''] @ l @ [Out '')) ''] @ l @ [Out '' = (''] @ r @ [Out ''); ''] @ l @ [Out ''; })'']
      else if op = ''=='' \<or> op = ''!='' then emit_equality env op left right l r
      else if op = ''**'' then
        [Out ''(_zc_pow((double)(''] @ l @ [Out ''), (double)(''] @ r @ [Out '')))'']
      else if op = ''**='' then
        [Out ''({ ''] @ l @ [Out '' = _zc_pow((double)(''] @ l @ [Out ''), (double)(''] @ r @ [Out '')); ''] @ l @ [Out ''; })'']
      else case drop_assignment env op left of
        Some clean \<Rightarrow>
          (case var_of left of
             None \<Rightarrow> [Out_crash Null_pointer]
           | Some name \<Rightarrow> drop_assignment_text clean name l (with_move env right r))
      | None \<Rightarrow>
          infix_text op (if is_assignment_op op then l else with_move env left l)
            (cast_right env op left (with_move env right r)))"

definition emit_binary :: "cg_env \<Rightarrow> string \<Rightarrow> node \<Rightarrow> node \<Rightarrow> c_out list \<Rightarrow> c_out list \<Rightarrow> c_out list" where
  "emit_binary env op left right l r =
     (if ce_misra env then [Out ''(''] @ emit_binary_op env op left right l r @ [Out '')'']
      else emit_binary_op env op left right l r)"

section \<open>Places and composite expressions\<close>

definition is_digit_field :: "string \<Rightarrow> bool" where "is_digit_field f \<longleftrightarrow> isdigit (at f 0)"

definition array_length :: "ty option \<Rightarrow> i32 option" where
  "array_length t = (case t of None \<Rightarrow> None | Some t \<Rightarrow> if ty_kind t = TYPE_ARRAY then Some (ty_array_size t) else None)"

definition field_suffix :: "string \<Rightarrow> string" where
  "field_suffix f = (if is_digit_field f then CHR ''v'' # f else f)"

definition emit_member :: "cg_env \<Rightarrow> node \<Rightarrow> node \<Rightarrow> string \<Rightarrow> c_out list \<Rightarrow> c_out list" where
  "emit_member env n target f self =
     (let inferred = ce_infer env target;
          enum_name = (case target of VarRef _ (Some v) _ \<Rightarrow> Some v | _ \<Rightarrow> None)
      in if f = ''len'' \<and> (case array_length (nd_type target) of None \<Rightarrow> False | Some k \<Rightarrow> sint k > 0)
         then [Out (show_int (case array_length (nd_type target) of None \<Rightarrow> 0 | Some k \<Rightarrow> sint k))]
         else if (case nd_type target of None \<Rightarrow> False | Some t \<Rightarrow> ty_kind t = TYPE_VECTOR) then self
         else if f = ''tag'' \<and> (case inferred of None \<Rightarrow> False | Some t \<Rightarrow> is_simple_enum env t) then self
         else if ce_access env n = 2 then
           [Out ''({ ''] @ emit_auto_type env (Some target) self @ [Out '' _t = (''] @ self
           @ [Out (''); _t ? _t->'' @ field_suffix f @ '' : 0; })'')]
         else if (case Option.bind enum_name (ce_def env) of None \<Rightarrow> False | Some d \<Rightarrow> cd_is_enum d)
         then [Out (field_text enum_name @ ''__'' @ f)]
         else self @ [Out ((if (case inferred of None \<Rightarrow> False | Some t \<Rightarrow> CHR ''*'' \<in> set t) then ''->'' else ''.'') @ field_suffix f)])"

definition is_slice :: "cg_env \<Rightarrow> node \<Rightarrow> bool" where
  "is_slice env a \<longleftrightarrow>
     array_length (nd_type a) = Some 0
     \<or> (case ce_resolved env a of Some r \<Rightarrow> take 7 r = ''Slice__'' | None \<Rightarrow> False)
     \<or> nd_type a = None \<and> ce_resolved env a = None
       \<and> (case ce_infer env a of Some t \<Rightarrow> take 7 t = ''Slice__'' | None \<Rightarrow> False)"

text \<open>A method \<open>index\<close> or \<open>get\<close> of the type of the array.\<close>

definition index_method :: "cg_env \<Rightarrow> node \<Rightarrow> (string \<times> bool) option" where
  "index_method env a =
     (case ce_infer env a of
        None \<Rightarrow> None
      | Some t \<Rightarrow>
          if CHR ''*'' \<in> set t then None
          else
            let clean = strip_struct (take (MAX_TYPE_NAME_LEN - 1) t);
                meths = map (\<lambda>m. snprintf_into MAX_MANGLED_NAME_LEN (clean @ m)) [''__index'', ''__get'']
            in case List.find (\<lambda>m. ce_func env m \<noteq> None) meths of
                 None \<Rightarrow> None
               | Some m \<Rightarrow>
                   map_option (\<lambda>sig. (m, fs_total_args sig > 0 \<and> is_pointer (arg_type sig 0))) (ce_func env m))"

definition fixed_length :: "ty option \<Rightarrow> int" where
  "fixed_length t =
     (case t of None \<Rightarrow> - 1
      | Some t \<Rightarrow> if ty_kind t \<in> {TYPE_ARRAY, TYPE_VECTOR} then sint (ty_array_size t) else - 1)"

definition emit_index :: "cg_env \<Rightarrow> node \<Rightarrow> c_out list \<Rightarrow> c_out list \<Rightarrow> c_out list list \<Rightarrow> c_out list" where
  "emit_index env array a i extra =
     (if is_slice env array then
        (if nd_kind array = NODE_EXPR_VAR then
           a @ [Out ''.data[_z_check_bounds(''] @ i @ [Out '', ''] @ a @ [Out ''.len)]'']
         else a @ [Out ''.data[''] @ i @ [Out '']''])
      else case index_method env array of
        Some (m, needs_addr) \<Rightarrow>
          [Out (m @ ''('')] @ (if needs_addr then [Out ''&''] else []) @ a @ [Out '', ''] @ i
          @ concat (map (\<lambda>x. Out '', '' # x) extra) @ [Out '')'']
      | None \<Rightarrow>
          let k = fixed_length (nd_type array)
          in a @ [Out ''[''] @ (if k > 0 then [Out ''_z_check_bounds(''] else []) @ i
             @ (if k > 0 then [Out ('', '' @ show_int k @ '')'')] else []) @ [Out '']''])"

definition emit_slice ::
    "cg_env \<Rightarrow> node \<Rightarrow> node \<Rightarrow> c_out list \<Rightarrow> c_out list option \<Rightarrow> c_out list option \<Rightarrow> c_out list" where
  "emit_slice env n array a from_text to_text =
     (let known = (case array_length (nd_type array) of None \<Rightarrow> - 1 | Some k \<Rightarrow> sint k);
          body = (\<lambda>tname.
            [Out ''({ ''] @ emit_auto_type env (Some array) a @ [Out '' _arr = ''] @ a @ [Out ''; int _start = '']
            @ (case from_text of Some s \<Rightarrow> s | None \<Rightarrow> [Out ''0'']) @ [Out ''; int _len = '']
            @ (case to_text of
                 Some e \<Rightarrow> e @ [Out '' - _start; '']
               | None \<Rightarrow>
                   [Out (if known > 0 then show_int known @ '' - _start; ''
                         else if known = 0 then ''_arr.len - _start; '' else ''0; '')])
            @ [Out (''(Slice__'' @ tname @ ''){ .data = _arr'' @ (if known = 0 then ''.data'' else [])
                    @ '' + _start, .len = _len, .cap = _len }; })'')])
      in case Option.bind (nd_type n) ty_inner of
           None \<Rightarrow> body ''unknown''
         | Some t \<Rightarrow> printed_type (type_to_c_string (Some t) (ce_misra env)) body)"

text \<open>An enum with payloads is cast by its tag.\<close>

definition cast_tag :: "cg_env \<Rightarrow> node \<Rightarrow> bool" where
  "cast_tag env e =
     (case nd_type e of
        None \<Rightarrow> False
      | Some t \<Rightarrow>
          ty_kind t = TYPE_ENUM
          \<and> (case Option.bind (ty_name t) (\<lambda>n. ce_def env (strip_struct n)) of
               None \<Rightarrow> False | Some d \<Rightarrow> cd_is_enum d \<and> True \<in> set (cd_payloads d)))"

definition emit_cast :: "cg_env \<Rightarrow> node \<Rightarrow> node \<Rightarrow> c_out list \<Rightarrow> c_out list" where
  "emit_cast env n e self =
     [Out (''(('' @ ce_cast env n @ '')('')] @ self @ (if cast_tag env e then [Out ''.tag''] else []) @ [Out ''))'']"

fun separated :: "c_out list list \<Rightarrow> c_out list" where
  "separated [] = []"
| "separated [x] = x"
| "separated (x # xs) = x @ [Out '', ''] @ separated xs"

definition tuple_type :: "cg_env \<Rightarrow> node \<Rightarrow> (string \<Rightarrow> c_out list) \<Rightarrow> c_out list" where
  "tuple_type env n f =
     (case ce_resolved env n of
        Some r \<Rightarrow> f r
      | None \<Rightarrow> if nd_type n = None then f ''unknown'' else printed_type (type_to_string (nd_type n)) f)"

definition emit_ternary :: "c_out list \<Rightarrow> c_out list \<Rightarrow> c_out list \<Rightarrow> c_out list" where
  "emit_ternary c a b = [Out ''((''] @ c @ [Out '') ? (''] @ a @ [Out '') : (''] @ b @ [Out ''))'']"

definition erroneous_text :: string where
  "erroneous_text = ''/* <error-recovered> */'' @ [NL]"

section \<open>Expressions\<close>

text \<open>An expression at a depth of recursion; a missing child prints nothing.\<close>

function codegen_expression :: "cg_env \<Rightarrow> nat \<Rightarrow> node \<Rightarrow> c_out list"
  and codegen_child :: "cg_env \<Rightarrow> nat \<Rightarrow> node list \<Rightarrow> c_out list"
  and codegen_all :: "cg_env \<Rightarrow> nat \<Rightarrow> node list \<Rightarrow> c_out list list"
where
  "codegen_expression env d n =
     (if Suc d > MAX_RECURSION_DEPTH then [Out_panic (nd_token n) ''Recursion limit exceeded'']
      else
        let d1 = Suc d
        in case n of
          Literal _ k v x s \<Rightarrow> codegen_literal_expr env k v x s
        | VarRef _ name _ \<Rightarrow> codegen_var_expr env n name
        | Binary _ (Some op) (l # ls) (r # rs) \<Rightarrow>
            emit_binary env op l r (codegen_expression env d1 l) (codegen_expression env d1 r)
        | Binary _ _ _ _ \<Rightarrow> [Out_crash Null_pointer]
        | Unary _ op xs \<Rightarrow>
            emit_unary env n op (case xs of [] \<Rightarrow> None | x # _ \<Rightarrow> Some x) (codegen_child env d1 xs)
        | Member _ (t # ts) (Some f) \<Rightarrow> emit_member env n t f (codegen_expression env d1 t)
        | Member _ _ _ \<Rightarrow> [Out_crash Null_pointer]
        | Index _ (a # as) is es \<Rightarrow>
            emit_index env a (codegen_expression env d1 a) (codegen_child env d1 is) (codegen_all env d1 es)
        | Index _ _ _ _ \<Rightarrow> [Out_crash Null_pointer]
        | Slice _ (a # as) ss es \<Rightarrow>
            emit_slice env n a (codegen_expression env d1 a)
              (if ss = [] then None else Some (codegen_child env d1 ss))
              (if es = [] then None else Some (codegen_child env d1 es))
        | Slice _ _ _ _ \<Rightarrow> [Out_crash Null_pointer]
        | Cast _ (e # es) \<Rightarrow> emit_cast env n e (codegen_expression env d1 e)
        | Cast _ _ \<Rightarrow> [Out_crash Null_pointer]
        | ArrayLiteral _ es \<Rightarrow> [Out ''{''] @ separated (codegen_all env d1 es) @ [Out ''}'']
        | TupleLiteral _ es \<Rightarrow>
            tuple_type env n (\<lambda>s. [Out (CHR ''('' # s @ ''){'')]) @ separated (codegen_all env d1 es) @ [Out ''}'']
        | Other _ k cs \<Rightarrow>
            (case cs of
               [c, a, b] \<Rightarrow>
                 if k = NODE_TERNARY then
                   emit_ternary (codegen_child env d1 c) (codegen_child env d1 a) (codegen_child env d1 b)
                 else ce_other env d n
             | [a, b] \<Rightarrow>
                 if k = NODE_VA_START then
                   [Out ''va_start(''] @ codegen_child env d1 a @ [Out '', ''] @ codegen_child env d1 b @ [Out '')'']
                 else if k = NODE_VA_COPY then
                   [Out ''va_copy(''] @ codegen_child env d1 a @ [Out '', ''] @ codegen_child env d1 b @ [Out '')'']
                 else ce_other env d n
             | [a] \<Rightarrow>
                 if k = NODE_VA_END then [Out ''va_end_args(''] @ codegen_child env d1 a @ [Out '')'']
                 else if k = NODE_VA_ARG then
                   printed_type (type_to_c_string (nd_type n) (ce_misra env)) (\<lambda>s.
                     [Out ''va_arg(''] @ codegen_child env d1 a @ [Out ('', '' @ s @ '')'')])
                 else ce_other env d n
             | _ \<Rightarrow> if k = NODE_ERRONEOUS then [Out erroneous_text] else ce_other env d n)
        | _ \<Rightarrow> ce_other env d n)"
| "codegen_child env d [] = []"
| "codegen_child env d (x # xs) = codegen_expression env d x"
| "codegen_all env d [] = []"
| "codegen_all env d (x # xs) = codegen_expression env d x # codegen_all env d xs"
  by pat_completeness auto
termination
  by (relation "measure (\<lambda>x. case x of Inl (_, _, n) \<Rightarrow> 2 * size n + 1 | Inr (Inl (_, _, ns)) \<Rightarrow> 2 * size_list size ns
        | Inr (Inr (_, _, ns)) \<Rightarrow> 2 * size_list size ns)") auto

declare codegen_expression.simps [simp del]

text \<open>An expression whose outer parentheses the context already gives.\<close>

definition bare_ops :: "string list" where
  "bare_ops = [''<'', ''>'', ''<='', ''>='', ''+'', ''-'', ''*'', ''/'', ''%'', ''+='', ''-='', ''*='', ''/='', ''='']"

definition codegen_expression_bare :: "cg_env \<Rightarrow> nat \<Rightarrow> node \<Rightarrow> c_out list" where
  "codegen_expression_bare env d n =
     (if Suc d > MAX_RECURSION_DEPTH then [Out_panic (nd_token n) ''Recursion limit exceeded'']
      else case n of
        Binary _ (Some op) ls rs \<Rightarrow>
          if op \<in> set bare_ops then
            codegen_child env (Suc d) ls @ [Out (CHR '' '' # op @ '' '')] @ codegen_child env (Suc d) rs
          else codegen_expression env (Suc d) n
      | Unary _ (Some op) xs \<Rightarrow>
          if op = ''_post++'' then codegen_child env (Suc d) xs @ [Out ''++'']
          else if op = ''_post--'' then codegen_child env (Suc d) xs @ [Out ''--'']
          else codegen_expression env (Suc d) n
      | _ \<Rightarrow> codegen_expression env (Suc d) n)"

end
