(* ===== verification/ZcIntLiteral.thy ===== *)
theory ZcIntLiteral
  imports ZcOperators
begin

text \<open>
  The value and the type of an integer literal: \<open>parse_int_literal\<close> (\<open>src/src/parser/expr/expr_literal.c\<close>).
\<close>

definition digit_value :: "char \<Rightarrow> nat option" where
  "digit_value c =
     (if isdigit c then Some (ord c - 48)
      else if 97 \<le> ord c \<and> ord c \<le> 122 then Some (ord c - 87)
      else if 65 \<le> ord c \<and> ord c \<le> 90 then Some (ord c - 55) else None)"

definition base_digit :: "nat \<Rightarrow> char \<Rightarrow> bool" where
  "base_digit base c \<longleftrightarrow> (case digit_value c of None \<Rightarrow> False | Some d \<Rightarrow> d < base)"

definition base_value :: "nat \<Rightarrow> string \<Rightarrow> nat" where
  "base_value base ds = foldl (\<lambda>v c. v * base + the (digit_value c)) 0 ds"

text \<open>\<open>strtoull\<close> on a text without blanks and signs: the value, at most the greatest of the type, and what is
  left. A prefix is skipped in base 16.\<close>

definition strtoull :: "nat \<Rightarrow> string \<Rightarrow> i64 \<times> string" where
  "strtoull base s =
     (let t = (if base = 16 \<and> at s 0 = CHR ''0'' \<and> (at s 1 = CHR ''x'' \<or> at s 1 = CHR ''X'') \<and> base_digit 16 (at s 2)
               then drop 2 s else s);
          ds = takeWhile (base_digit base) t
      in if ds = [] then (0, s)
         else (of_nat (min (base_value base ds) (2 ^ 64 - 1)), dropWhile (base_digit base) t))"

definition has_base_prefix :: "lexeme \<Rightarrow> string \<Rightarrow> char \<Rightarrow> bool" where
  "has_base_prefix t s c \<longleftrightarrow> tk_len t > 2 \<and> at s 0 = CHR ''0'' \<and> tolower (at s 1) = c"

text \<open>The digits without separators; a text of more than twenty characters is not read.\<close>

definition literal_value :: "lexeme \<Rightarrow> string \<Rightarrow> i64 \<times> string" where
  "literal_value t s =
     (if length s > 20 then (1048576, [])
      else if has_base_prefix t s (CHR ''b'') then strtoull 2 (drop 2 s)
      else if has_base_prefix t s (CHR ''x'') then strtoull 16 (drop 2 s)
      else if has_base_prefix t s (CHR ''o'') then strtoull 8 (drop 2 s)
      else strtoull 10 s)"

definition valid_int_suffixes :: "string list" where
  "valid_int_suffixes =
     [''u'', ''U'', ''l'', ''L'', ''ul'', ''UL'', ''uL'', ''Ul'', ''lu'', ''LU'', ''lU'', ''Lu'', ''ll'', ''LL'', ''ull'', ''ULL'',
      ''uLL'', ''Ull'', ''llu'', ''LLu'', ''lLu'', ''llU'', ''u8'', ''u16'', ''u32'', ''u64'', ''usize'', ''i8'', ''i16'',
      ''i32'', ''i64'', ''isize'']"

definition is_valid_int_suffix :: "string \<Rightarrow> bool" where
  "is_valid_int_suffix s \<longleftrightarrow> s = [] \<or> s \<in> set valid_int_suffixes"

definition suffix_kind :: "string \<Rightarrow> TypeKind" where
  "suffix_kind e =
     (let l = map tolower e
      in if l = ''u'' then TYPE_UINT else if l = ''l'' then TYPE_C_LONG else if l = ''ll'' then TYPE_C_LONGLONG
         else if l = ''ul'' \<or> l = ''lu'' then TYPE_C_ULONG
         else if l = ''ull'' \<or> l = ''llu'' then TYPE_C_ULONGLONG
         else if e = ''u8'' then TYPE_U8 else if e = ''u16'' then TYPE_U16 else if e = ''u32'' then TYPE_U32
         else if e = ''u64'' then TYPE_U64 else if e = ''usize'' then TYPE_USIZE
         else if e = ''i8'' then TYPE_I8 else if e = ''i16'' then TYPE_I16 else if e = ''i32'' then TYPE_I32
         else if e = ''i64'' then TYPE_I64 else if e = ''isize'' then TYPE_ISIZE else TYPE_INT)"

definition non_decimal :: "lexeme \<Rightarrow> string \<Rightarrow> bool" where
  "non_decimal t s \<longleftrightarrow> (\<exists>c \<in> set ''xbo''. has_base_prefix t s c)"

definition literal_diags :: "lexeme \<Rightarrow> string \<Rightarrow> i64 \<Rightarrow> string \<Rightarrow> op_state \<Rightarrow> op_state" where
  "literal_diags t s val e st =
     (let misra = pc_misra_mode (os_ctx st);
          rule_7_2 = misra \<and> CHR ''u'' \<notin> set e \<and> CHR ''U'' \<notin> set e \<and> non_decimal t s \<and> val > 2147483647;
          st1 = (if is_valid_int_suffix e then st
                 else emit (Op_fatal (tok t) (snprintf_into MAX_SHORT_MSG_LEN
                   (''Invalid integer literal suffix: '' @ [SQUOTE] @ e @ [SQUOTE])) None) st);
          st2 = (if misra \<and> CHR ''l'' \<in> set e then emit (Op_error (tok t) ''MISRA Rule 7.3'') st1 else st1)
      in if rule_7_2 then emit (Op_error (tok t) ''MISRA Rule 7.2'') st2 else st2)"

definition parse_int_literal :: "lexeme \<Rightarrow> op_state \<Rightarrow> node \<times> op_state" where
  "parse_int_literal t st =
     (let s = List.filter (\<lambda>c. c \<noteq> CHR ''_'') (cstr (lx_text t))
      in case literal_value t s of
           (val, e) \<Rightarrow>
             let kind = (if e \<noteq> [] then suffix_kind e else if val > 2147483647 then TYPE_I64 else TYPE_INT)
             in (case new_type (\<lambda>a. type_new a kind) st of
                   (ty, st1) \<Rightarrow>
                     (Literal (op_meta (tok t) (Some ty)) LITERAL_INT val (Finite 0 0) None, literal_diags t s val e st1)))"

end
