(* ===== verification/ZcExprParse.thy ===== *)
theory ZcExprParse
  imports ZcIntLiteral
begin

text \<open>
  The parser of expressions (\<open>src/src/parser/expr/expr_prec.c\<close>, \<open>expr_entry.c\<close>): precedences, prefix and
  postfix operators, the ternary operator, and the climbing over binary operators. Of the primary
  expressions (\<open>expr_primary.c\<close>) integer literals and parentheses are modelled; the others, and calls,
  indices and members behind an expression, are functions that take the parser's state.
\<close>

section \<open>Precedences\<close>

datatype Precedence =
    PREC_NONE | PREC_ASSIGNMENT | PREC_TERNARY | PREC_OR | PREC_AND | PREC_EQUALITY
  | PREC_COMPARISON | PREC_TERM | PREC_FACTOR | PREC_POWER | PREC_UNARY | PREC_CALL | PREC_PRIMARY

fun prec_code :: "Precedence \<Rightarrow> nat" where
  "prec_code PREC_NONE = 0" | "prec_code PREC_ASSIGNMENT = 1" | "prec_code PREC_TERNARY = 2"
| "prec_code PREC_OR = 3" | "prec_code PREC_AND = 4" | "prec_code PREC_EQUALITY = 5"
| "prec_code PREC_COMPARISON = 6" | "prec_code PREC_TERM = 7" | "prec_code PREC_FACTOR = 8"
| "prec_code PREC_POWER = 9" | "prec_code PREC_UNARY = 10" | "prec_code PREC_CALL = 11"
| "prec_code PREC_PRIMARY = 12"

instantiation Precedence :: linorder
begin

definition less_eq_Precedence :: "Precedence \<Rightarrow> Precedence \<Rightarrow> bool" where
  "less_eq_Precedence p q \<longleftrightarrow> prec_code p \<le> prec_code q"

definition less_Precedence :: "Precedence \<Rightarrow> Precedence \<Rightarrow> bool" where
  "less_Precedence p q \<longleftrightarrow> prec_code p < prec_code q"

instance
proof
  fix p q :: Precedence
  show "p \<le> q \<Longrightarrow> q \<le> p \<Longrightarrow> p = q"
    by (cases p; cases q) (simp_all add: less_eq_Precedence_def)
qed (auto simp: less_eq_Precedence_def less_Precedence_def)

end

definition assignment_ops :: "string list" where
  "assignment_ops =
     [''='', ''+='', ''-='', ''*='', ''/='', ''%='', ''|='', ''&='', ''^='', ''<<='', ''>>='', ''**='']"

text \<open>The precedences of the texts of operator tokens.\<close>

definition op_table :: "(string \<times> Precedence) list" where
  "op_table =
     map (\<lambda>s. (s, PREC_ASSIGNMENT)) assignment_ops
     @ [(''||'', PREC_OR), (''or'', PREC_OR), (''&&'', PREC_AND), (''and'', PREC_AND),
        (''|'', PREC_TERM), (''^'', PREC_TERM), (''&'', PREC_TERM), (''<<'', PREC_TERM), (''>>'', PREC_TERM),
        (''=='', PREC_EQUALITY), (''!='', PREC_EQUALITY),
        (''<'', PREC_COMPARISON), (''>'', PREC_COMPARISON), (''<='', PREC_COMPARISON), (''>='', PREC_COMPARISON),
        (''+'', PREC_TERM), (''-'', PREC_TERM), (''*'', PREC_FACTOR), (''/'', PREC_FACTOR), (''%'', PREC_FACTOR),
        (''**'', PREC_POWER), (''.'', PREC_CALL), (''|>'', PREC_TERM)]"

definition is_arrow :: "lexeme \<Rightarrow> bool" where
  "is_arrow t \<longleftrightarrow> tk_kind t = TOK_ARROW \<and> at (lx_text t) 0 = CHR ''-''"

definition get_token_precedence :: "lexeme \<Rightarrow> Precedence" where
  "get_token_precedence t =
     (let k = tk_kind t
      in if k \<in> {TOK_INT, TOK_FLOAT, TOK_STRING, TOK_IDENT, TOK_FSTRING} then PREC_NONE
         else if k = TOK_QUESTION \<or> is_arrow t \<or> k = TOK_Q_DOT then PREC_CALL
         else if k = TOK_QQ then PREC_OR
         else if k = TOK_AND then PREC_AND
         else if k = TOK_OR then PREC_OR
         else if k = TOK_QQ_EQ then PREC_ASSIGNMENT
         else if k = TOK_PIPE then PREC_TERM
         else if k = TOK_LANGLE \<or> k = TOK_RANGLE then PREC_COMPARISON
         else if k = TOK_OP \<and> map_of op_table (lx_text t) \<noteq> None then the (map_of op_table (lx_text t))
         else if k = TOK_LBRACKET \<or> k = TOK_LPAREN then PREC_CALL
         else if lx_text t = ''??'' then PREC_OR
         else if lx_text t = ''??='' then PREC_ASSIGNMENT
         else PREC_NONE)"

section \<open>The parser's state\<close>

text \<open>The tokens to come, and the line that the scanner has reached.\<close>

record parse_state =
  ps_ops :: op_state
  ps_line :: nat
  ps_toks :: "lexeme list"

definition end_of_file :: "nat \<Rightarrow> lexeme" where
  "end_of_file line = \<lparr>tk_kind = TOK_EOF, tk_start = None, tk_len = 0, tk_line = line, tk_col = 0, tk_file = [],
     lx_text = [], lx_end_line = line\<rparr>"

definition peek_at :: "nat \<Rightarrow> parse_state \<Rightarrow> lexeme" where
  "peek_at i st = (if i < length (ps_toks st) then ps_toks st ! i else end_of_file (ps_line st))"

abbreviation peek :: "parse_state \<Rightarrow> lexeme" where "peek st \<equiv> peek_at 0 st"

definition advance :: "parse_state \<Rightarrow> parse_state" where
  "advance st =
     (case ps_toks st of [] \<Rightarrow> st | t # ts \<Rightarrow> st\<lparr>ps_line := lx_end_line t, ps_toks := ts\<rparr>)"

definition report_op :: "op_diag \<Rightarrow> parse_state \<Rightarrow> parse_state" where
  "report_op d st = st\<lparr>ps_ops := emit d (ps_ops st)\<rparr>"

definition set_ops :: "parse_state \<Rightarrow> op_state \<Rightarrow> parse_state" where
  "set_ops st os = st\<lparr>ps_ops := os\<rparr>"

text \<open>A token of the kind, or an error at token \<open>at_tok\<close>.\<close>

definition take_token :: "ZenTokenType \<Rightarrow> lexeme \<Rightarrow> string \<Rightarrow> parse_state \<Rightarrow> parse_state" where
  "take_token k at_tok msg st =
     (if tk_kind (peek st) = k then advance st else report_op (Op_fatal (tok at_tok) msg None) (advance st))"

definition z_parse_expect :: "ZenTokenType \<Rightarrow> string \<Rightarrow> parse_state \<Rightarrow> parse_state" where
  "z_parse_expect k msg st =
     take_token k (peek st)
       (snprintf_into MAX_ERROR_MSG_LEN (''Expected '' @ msg @ '', but got '' @ [SQUOTE] @ lx_text (peek st) @ [SQUOTE])) st"

definition is_op :: "lexeme \<Rightarrow> string list \<Rightarrow> bool" where
  "is_op t texts \<longleftrightarrow> tk_kind t = TOK_OP \<and> lx_text t \<in> set texts"

definition erroneous_node :: node where
  "erroneous_node = Other new_node_meta NODE_ERRONEOUS []"

text \<open>The parts that are not modelled: what follows a prompt \<open>? "text"\<close>, the other primary expressions,
  tuples, \<open>sizeof\<close>, types, and calls, indices and members behind an expression.\<close>

record parser_parts =
  pt_prompt :: "parse_state \<Rightarrow> node option \<times> parse_state"
  pt_other :: "parse_state \<Rightarrow> node option \<times> parse_state"
  pt_tuple :: "node \<Rightarrow> parse_state \<Rightarrow> node option \<times> parse_state"
  pt_sizeof :: "parse_state \<Rightarrow> node \<times> parse_state"
  pt_type :: "parse_state \<Rightarrow> ty option \<times> parse_state"
  pt_suffix :: "lexeme \<Rightarrow> node \<Rightarrow> parse_state \<Rightarrow> node option \<times> parse_state"
  pt_postfix :: "lexeme \<Rightarrow> lexeme \<Rightarrow> node \<Rightarrow> parse_state \<Rightarrow> node option \<times> bool \<times> parse_state"

section \<open>Looking ahead\<close>

text \<open>\<open>? "text"\<close> asks for input and \<open>! "text"\<close> prints to the standard error.\<close>

definition is_prompt :: "parse_state \<Rightarrow> bool" where
  "is_prompt st \<longleftrightarrow>
     (tk_kind (peek st) = TOK_QUESTION \<or> tk_kind (peek st) = TOK_OP \<and> lx_text (peek st) = ''!'')
     \<and> tk_kind (peek_at 1 st) \<in> {TOK_STRING, TOK_FSTRING, TOK_RAW_STRING}"

definition unary_ops :: "string list" where
  "unary_ops = [''-'', ''!'', ''*'', ''&'', ''~'', ''&&'', ''++'', ''--'', ''**'']"

definition starts_unary :: "lexeme \<Rightarrow> bool" where
  "starts_unary t \<longleftrightarrow> is_op t unary_ops \<or> tk_kind t = TOK_NOT"

text \<open>What may follow the question mark of a ternary operator.\<close>

definition is_ternary :: "lexeme \<Rightarrow> bool" where
  "is_ternary t \<longleftrightarrow>
     tk_kind t \<in> {TOK_INT, TOK_FLOAT, TOK_STRING, TOK_IDENT, TOK_LPAREN, TOK_LBRACE, TOK_SIZEOF, TOK_DEFER,
                  TOK_FSTRING, TOK_CHAR}
     \<or> is_op t [''-'', ''!'', ''*'', ''&'', ''~'', ''.'']"

definition kind_of :: "lexeme list \<Rightarrow> ZenTokenType" where
  "kind_of ts = (case ts of [] \<Rightarrow> TOK_EOF | t # _ \<Rightarrow> tk_kind t)"

text \<open>The parameters of a lambda behind an opening parenthesis: names, with types behind colons, and an
  arrow behind the closing parenthesis. \<open>None\<close> stands for a seventeenth name, which is an error.\<close>

function lambda_params :: "nat \<Rightarrow> lexeme list \<Rightarrow> bool option" where
  "lambda_params n ts =
     (if kind_of ts \<noteq> TOK_IDENT then Some (n = 0 \<and> kind_of ts = TOK_RPAREN \<and> kind_of (tl ts) = TOK_ARROW)
      else if n \<ge> 16 then None
      else
        let us = (if kind_of (tl ts) = TOK_COLON
                  then dropWhile (\<lambda>t. tk_kind t \<notin> {TOK_EOF, TOK_COMMA, TOK_RPAREN}) (tl (tl ts)) else tl ts)
        in if kind_of us = TOK_COMMA then lambda_params (Suc n) (tl us)
           else Some (kind_of us = TOK_RPAREN \<and> kind_of (tl us) = TOK_ARROW))"
  by pat_completeness auto
termination by (relation "measure (\<lambda>(n, _). 16 - n)") auto

declare lambda_params.simps [simp del]

text \<open>A path of names and stars that a parenthesis closes, before what a cast may apply to.\<close>

fun cast_path :: "lexeme list \<Rightarrow> lexeme list" where
  "cast_path (c # t # ts) =
     (if tk_kind c = TOK_DCOLON then (if tk_kind t = TOK_IDENT then cast_path ts else t # ts) else c # t # ts)"
| "cast_path [c] = (if tk_kind c = TOK_DCOLON then [] else [c])"
| "cast_path [] = []"

definition stars :: "lexeme \<Rightarrow> bool" where
  "stars t \<longleftrightarrow> tk_kind t = TOK_OP \<and> lx_text t \<noteq> [] \<and> list_all (\<lambda>c. c = CHR ''*'') (lx_text t)"

definition cast_operand :: "lexeme list \<Rightarrow> bool" where
  "cast_operand ts \<longleftrightarrow>
     kind_of ts \<in> {TOK_STRING, TOK_INT, TOK_FLOAT, TOK_CHAR, TOK_FSTRING, TOK_RAW_STRING, TOK_IDENT, TOK_LPAREN}
     \<or> (case ts of [] \<Rightarrow> False | t # _ \<Rightarrow> is_op t [''&'', ''*'', ''**'', ''!''])"

definition cast_ahead :: "lexeme list \<Rightarrow> bool" where
  "cast_ahead ts \<longleftrightarrow>
     kind_of ts = TOK_IDENT
     \<and> (let us = dropWhile stars (cast_path (tl ts)) in kind_of us = TOK_RPAREN \<and> cast_operand (tl us))"

section \<open>The parser\<close>

text \<open>Its functions are the tasks of one function: \<open>parse_expr_prec\<close>, \<open>parse_expr_prec_impl\<close> from its start and
  from a turn of its main loop, and \<open>parse_primary_impl\<close> from its start and from a turn of the loop at
  its end. The recursion has fuel; \<open>None\<close> is no return.\<close>

datatype task = Whole nat | Inner nat | Turn nat lexeme node | Primary | Suffix lexeme node

abbreviation prec_of :: "lexeme \<Rightarrow> nat" where "prec_of t \<equiv> prec_code (get_token_precedence t)"

text \<open>An operator on a new line that could also begin a statement ends the expression.\<close>

definition on_new_line :: "lexeme \<Rightarrow> parse_state \<Rightarrow> bool" where
  "on_new_line op st \<longleftrightarrow> tk_line op > ps_line st \<and> is_op op [''*'', ''&'', ''+'', ''-'']"

definition is_step :: "lexeme \<Rightarrow> bool" where
  "is_step op \<longleftrightarrow> is_op op [''++'', ''--'']"

definition step_node :: "lexeme \<Rightarrow> node \<Rightarrow> node" where
  "step_node op lhs =
     Unary (op_meta (tok op) (nd_type lhs)) (Some (if lx_text op = ''++'' then ''_post++'' else ''_post--'')) [lhs]"

definition next_prec :: "lexeme \<Rightarrow> nat" where
  "next_prec op = (if is_op op [''**'', ''**=''] then prec_of op else Suc (prec_of op))"

text \<open>A pipe puts the left operand before the arguments of a call, or calls the right one with it.\<close>

definition pipe_node :: "lexeme \<Rightarrow> node \<Rightarrow> node \<Rightarrow> node" where
  "pipe_node t lhs rhs =
     (case rhs of
        Call m callee args \<Rightarrow> Call m callee (lhs # args)
      | _ \<Rightarrow> Call (op_meta (tok t) None) [rhs] [lhs])"

definition ternary_node :: "node \<Rightarrow> node \<Rightarrow> node \<Rightarrow> node" where
  "ternary_node c a b = Other (op_meta (nd_token c) None) NODE_TERNARY [[c], [a], [b]]"

definition value_of :: "node option \<Rightarrow> node" where
  "value_of n = (case n of None \<Rightarrow> erroneous_node | Some x \<Rightarrow> x)"

definition too_deep :: "parse_state \<Rightarrow> bool" where "too_deep st \<longleftrightarrow> Suc (os_depth (ps_ops st)) > 64"

definition deep_error :: "parse_state \<Rightarrow> parse_state" where
  "deep_error st = report_op (Op_fatal (tok (peek st)) ''Expression nesting too deep (max 64)'' None) st"

definition enter :: "parse_state \<Rightarrow> parse_state" where
  "enter st = set_ops st ((ps_ops st)\<lparr>os_depth := Suc (os_depth (ps_ops st))\<rparr>)"

definition leave :: "node option \<times> parse_state \<Rightarrow> node option \<times> parse_state" where
  "leave r =
     (let st = snd r
      in (Some (value_of (fst r)), set_ops st ((ps_ops st)\<lparr>os_depth := os_depth (ps_ops st) - 1\<rparr>)))"

definition await_error :: "parse_state \<Rightarrow> parse_state" where
  "await_error st =
     report_op (Op_error (tok (peek st)) ([SQUOTE] @ ''await'' @ [SQUOTE] @ '' was removed; async/await is no longer supported''))
       (advance st)"

definition as_error :: "parse_state \<Rightarrow> parse_state" where
  "as_error st =
     report_op (Op_fatal (tok (peek st)) ([CHR 0x60] @ ''as'' @ [CHR 0x60] @ '' is not a cast in Zen C'')
       (Some (''Casts are written '' @ [CHR 0x60] @ ''(T)value'' @ [CHR 0x60] @ '', for example ''
         @ [CHR 0x60] @ ''(u8)300'' @ [CHR 0x60]))) st"

definition open_group :: "parse_state \<Rightarrow> parse_state" where
  "open_group st =
     (let st1 = advance st
      in if lambda_params 0 (ps_toks st1) = None then
           report_op (Op_fatal (tok (peek st1)) ''Too many lambda parameters (max 16)'' None) st1
         else st1)"

definition group_error :: "parse_state \<Rightarrow> parse_state" where
  "group_error st = report_op (Op_fatal (tok (peek (advance st))) ''Expected )'' None) (advance st)"

definition expect_colon :: "parse_state \<Rightarrow> parse_state" where
  "expect_colon st = z_parse_expect TOK_COLON ''Expected : in ternary'' st"

definition is_lambda_or_cast :: "parse_state \<Rightarrow> bool" where
  "is_lambda_or_cast st \<longleftrightarrow>
     lambda_params 0 (ps_toks (advance st)) = Some True \<or> cast_ahead (ps_toks (advance st))"

definition is_await :: "lexeme \<Rightarrow> bool" where "is_await t \<longleftrightarrow> tk_kind t = TOK_IDENT \<and> lx_text t = ''await''"
definition is_as :: "lexeme \<Rightarrow> bool" where "is_as t \<longleftrightarrow> tk_kind t = TOK_IDENT \<and> lx_text t = ''as''"
definition is_va :: "lexeme \<Rightarrow> string \<Rightarrow> bool" where "is_va t name \<longleftrightarrow> lx_text t = name"
definition is_pipe :: "lexeme \<Rightarrow> bool" where "is_pipe op \<longleftrightarrow> tk_kind op = TOK_PIPE \<or> is_op op [''|>'']"

definition is_postfix :: "lexeme \<Rightarrow> bool" where
  "is_postfix op \<longleftrightarrow>
     is_arrow op \<or> tk_kind op = TOK_Q_DOT \<or> tk_kind op = TOK_LPAREN \<or> tk_kind op = TOK_LBRACKET \<or> is_op op [''['', ''.'']"

definition va_open :: "parse_state \<Rightarrow> parse_state" where
  "va_open st =
     take_token TOK_LPAREN (peek st) (''Expected '' @ [SQUOTE] @ ''('' @ [SQUOTE] @ '' after '' @ lx_text (peek st)) (advance st)"

definition va_comma :: "lexeme \<Rightarrow> parse_state \<Rightarrow> parse_state" where
  "va_comma t st = take_token TOK_COMMA t (''Expected '' @ [SQUOTE] @ '','' @ [SQUOTE] @ '' in '' @ lx_text t) st"

definition va_close :: "lexeme \<Rightarrow> parse_state \<Rightarrow> parse_state" where
  "va_close t st =
     take_token TOK_RPAREN t
       (''Expected '' @ [SQUOTE] @ '')'' @ [SQUOTE] @ '' after '' @ lx_text t
        @ (if lx_text t = ''va_end_args'' then '' arg'' else '' args'')) st"

definition va_pair :: "lexeme \<Rightarrow> node option \<Rightarrow> node option \<Rightarrow> node" where
  "va_pair t a b =
     Other new_node_meta (if lx_text t = ''va_start'' then NODE_VA_START else NODE_VA_COPY) [[value_of a], [value_of b]]"

definition va_end_node :: "node option \<Rightarrow> node" where
  "va_end_node a = Other new_node_meta NODE_VA_END [[value_of a]]"

definition va_arg_node :: "ty \<Rightarrow> node option \<Rightarrow> node" where
  "va_arg_node ty a = Other (op_meta TOKEN_UNKNOWN (Some ty)) NODE_VA_ARG [[value_of a]]"

definition unary_of :: "op_env \<Rightarrow> lexeme \<Rightarrow> node option \<times> parse_state \<Rightarrow> node \<times> parse_state" where
  "unary_of env t r =
     (case build_unary env t (value_of (fst r)) (ps_ops (snd r)) of (n, os) \<Rightarrow> (n, set_ops (snd r) os))"

definition binary_of :: "op_env \<Rightarrow> lexeme \<Rightarrow> lexeme \<Rightarrow> node \<Rightarrow> node option \<times> parse_state \<Rightarrow> node \<times> parse_state" where
  "binary_of env t op lhs r =
     (case build_binary env t op lhs (value_of (fst r)) (ps_ops (snd r)) of (n, os) \<Rightarrow> (n, set_ops (snd r) os))"

definition int_of :: "parse_state \<Rightarrow> node \<times> parse_state" where
  "int_of st = (case parse_int_literal (peek st) (ps_ops st) of (n, os) \<Rightarrow> (n, set_ops (advance st) os))"

definition try_node :: "node \<Rightarrow> node" where "try_node lhs = Other new_node_meta NODE_TRY [[lhs]]"

fun parse ::
    "nat \<Rightarrow> parser_parts \<Rightarrow> op_env \<Rightarrow> task \<Rightarrow> parse_state \<Rightarrow> (node option \<times> parse_state) option" where
  "parse 0 pt env task st = None"
| "parse (Suc k) pt env (Whole m) st =
     (if too_deep st then Some (Some erroneous_node, deep_error st)
       else Option.bind (parse k pt env (Inner m) (enter st)) (\<lambda>r. Some (leave r)))"
| "parse (Suc k) pt env (Inner m) st =
     (if is_prompt st then Some (pt_prompt pt st)
       else if is_await (peek st) then
         Option.bind (parse k pt env (Whole 10) (await_error st)) (\<lambda>r.
           parse k pt env (Turn m (peek st) (value_of (fst r))) (snd r))
       else if starts_unary (peek st) then
         Option.bind (parse k pt env (Whole 10) (advance st)) (\<lambda>r.
           parse k pt env (Turn m (prefix_tok (peek st)) (fst (unary_of env (peek st) r))) (snd (unary_of env (peek st) r)))
       else if is_va (peek st) ''va_start'' \<or> is_va (peek st) ''va_copy'' then
         Option.bind (parse k pt env (Whole 0) (va_open st)) (\<lambda>a.
           Option.bind (parse k pt env (Whole 0) (va_comma (peek st) (snd a))) (\<lambda>b.
             parse k pt env (Turn m (peek st) (va_pair (peek st) (fst a) (fst b))) (va_close (peek st) (snd b))))
       else if is_va (peek st) ''va_end_args'' then
         Option.bind (parse k pt env (Whole 0) (va_open st)) (\<lambda>a.
           parse k pt env (Turn m (peek st) (va_end_node (fst a))) (va_close (peek st) (snd a)))
       else if is_va (peek st) ''va_arg'' then
         Option.bind (parse k pt env (Whole 0) (va_open st)) (\<lambda>a.
           case pt_type pt (va_comma (peek st) (snd a)) of
             (None, st2) \<Rightarrow> Some (None, st2)
           | (Some ty, st2) \<Rightarrow> parse k pt env (Turn m (peek st) (va_arg_node ty (fst a))) (va_close (peek st) st2))
       else if is_va (peek st) ''sizeof'' then
         parse k pt env (Turn m (peek st) (fst (pt_sizeof pt (advance st)))) (snd (pt_sizeof pt (advance st)))
       else
         Option.bind (parse k pt env Primary st) (\<lambda>r.
           case fst r of None \<Rightarrow> Some (None, snd r) | Some lhs \<Rightarrow> parse k pt env (Turn m (peek st) lhs) (snd r)))"
| "parse (Suc k) pt env (Turn m t lhs) st =
     (if is_as (peek st) then Some (None, as_error st)
       else if on_new_line (peek st) st then Some (Some lhs, st)
       else if is_step (peek st) then parse k pt env (Turn m t (step_node (peek st) lhs)) (advance st)
       else if prec_of (peek st) = 0 \<or> prec_of (peek st) < m then Some (Some lhs, st)
       else if is_postfix (peek st) then
         (case pt_postfix pt t (peek st) lhs st of
            (None, _, st') \<Rightarrow> Some (None, st')
          | (Some n, go_on, st') \<Rightarrow> if go_on then parse k pt env (Turn m t n) st' else Some (Some n, st'))
       else if tk_kind (peek st) = TOK_QUESTION then
         (if is_ternary (peek_at 1 st) then
            (if 2 < m then Some (Some lhs, st)
             else
               Option.bind (parse k pt env (Whole 0) (advance st)) (\<lambda>a.
                 Option.bind (parse k pt env (Whole 2) (expect_colon (snd a))) (\<lambda>b.
                   parse k pt env (Turn m t (ternary_node lhs (value_of (fst a)) (value_of (fst b)))) (snd b))))
          else if 11 < m then Some (Some lhs, st)
          else parse k pt env (Turn m t (try_node lhs)) (advance st))
       else if is_pipe (peek st) then
         Option.bind (parse k pt env (Whole (Suc (prec_of (peek st)))) (advance st)) (\<lambda>r.
           parse k pt env (Turn m t (pipe_node t lhs (value_of (fst r)))) (snd r))
       else
         Option.bind (parse k pt env (Whole (next_prec (peek st))) (advance st)) (\<lambda>r.
           parse k pt env (Turn m t (fst (binary_of env t (peek st) lhs r))) (snd (binary_of env t (peek st) lhs r))))"
| "parse (Suc k) pt env Primary st =
     (if tk_kind (peek st) = TOK_INT then
         parse k pt env (Suffix (peek st) (fst (int_of st))) (snd (int_of st))
       else if tk_kind (peek st) = TOK_LPAREN \<and> \<not> is_lambda_or_cast st then
         Option.bind (parse k pt env (Whole 0) (open_group st)) (\<lambda>r.
           if tk_kind (peek (snd r)) = TOK_COMMA then Some (pt_tuple pt (value_of (fst r)) (snd r))
           else if tk_kind (peek (snd r)) = TOK_RPAREN
           then parse k pt env (Suffix (peek st) (value_of (fst r))) (advance (snd r))
           else Some (None, group_error (snd r)))
       else Some (pt_other pt st))"
| "parse (Suc k) pt env (Suffix t n) st =
     (if tk_kind (peek st) = TOK_LPAREN \<or> tk_kind (peek st) = TOK_LBRACKET then
         (case pt_suffix pt t n st of
            (None, st') \<Rightarrow> Some (None, st')
          | (Some n', st') \<Rightarrow> parse k pt env (Suffix t n') st')
       else Some (Some n, st))"

text \<open>Fuel that is enough when the parts use up the tokens they are given.\<close>

fun task_rank :: "task \<Rightarrow> nat" where
  "task_rank (Whole m) = 5" | "task_rank (Inner m) = 4" | "task_rank Primary = 3" | "task_rank (Turn m t n) = 2"
| "task_rank (Suffix t n) = 1"

definition fuel_for :: "task \<Rightarrow> parse_state \<Rightarrow> nat" where
  "fuel_for task st = 5 * length (ps_toks st) + task_rank task"

definition parse_expression :: "parser_parts \<Rightarrow> op_env \<Rightarrow> parse_state \<Rightarrow> (node option \<times> parse_state) option" where
  "parse_expression pt env st = parse (fuel_for (Whole 0) st) pt env (Whole 0) st"

end
