(* ===== verification/ZcExprTotal.thy ===== *)
theory ZcExprTotal
  imports ZcExprParse
begin

text \<open>
  The parser of expressions returns: fuel in proportion to the tokens is enough, more fuel changes nothing.
\<close>

section \<open>How many tokens are left\<close>

definition left :: "parse_state \<Rightarrow> nat" where "left st = length (ps_toks st)"

named_theorems tokens_left

lemma left_simps [tokens_left, simp]:
  "left (advance st) = left st - 1" "left (report_op d st) = left st" "left (set_ops st os) = left st"
  "left (enter st) = left st" "left (deep_error st) = left st"
  "left (as_error st) = left st" "left (await_error st) = left st - 1"
  "left (open_group st) = left st - 1" "left (group_error st) = left st - 1"
  "left (take_token k t msg st) = left st - 1" "left (snd (leave r)) = left (snd r)"
  "left (expect_colon st) = left st - 1" "left (va_comma t st) = left st - 1" "left (va_close t st) = left st - 1"
  by (simp_all add: left_def advance_def report_op_def set_ops_def enter_def leave_def deep_error_def as_error_def await_error_def
      open_group_def group_error_def take_token_def expect_colon_def z_parse_expect_def va_comma_def va_close_def
      Let_def split: list.split)

lemma left_va_open [tokens_left, simp]: "left (va_open st) = left st - 2"
  by (simp add: va_open_def)

lemma left_of_simps [tokens_left, simp]:
  "left (snd (unary_of env t r)) = left (snd r)" "left (snd (binary_of env t op lhs r)) = left (snd r)"
  "left (snd (int_of st)) = left st - 1"
  by (simp_all add: unary_of_def binary_of_def int_of_def split: prod.split)

lemma peek_end [simp]: "left st = 0 \<Longrightarrow> peek st = end_of_file (ps_line st)"
  by (simp add: left_def peek_at_def)

lemma end_of_file_simps [simp]:
  "tk_kind (end_of_file l) = TOK_EOF" "lx_text (end_of_file l) = []"
  by (simp_all add: end_of_file_def)

lemma token_there: "tk_kind (peek st) \<noteq> TOK_EOF \<Longrightarrow> 0 < left st" "lx_text (peek st) \<noteq> [] \<Longrightarrow> 0 < left st"
  by (auto intro: gr0I)

lemma starter_there:
  "is_await (peek st) \<Longrightarrow> 0 < left st" "starts_unary (peek st) \<Longrightarrow> 0 < left st"
  "is_step (peek st) \<Longrightarrow> 0 < left st"
  "is_pipe (peek st) \<Longrightarrow> 0 < left st"
  by (auto intro!: gr0I simp: is_await_def starts_unary_def is_op_def is_step_def is_pipe_def)

lemma infix_there: "prec_of (peek st) \<noteq> 0 \<Longrightarrow> 0 < left st"
  by (rule ccontr) (simp add: get_token_precedence_def is_arrow_def Let_def)

lemma fuel_for_left: "fuel_for task st = 5 * left st + task_rank task"
  by (simp add: fuel_for_def left_def)

section \<open>Enough fuel\<close>

text \<open>The other parts keep to the tokens they are given, and those behind an operand use one up.\<close>

definition shrinks :: "parser_parts \<Rightarrow> bool" where
  "shrinks pt \<longleftrightarrow>
     (\<forall>st. left (snd (pt_prompt pt st)) \<le> left st) \<and> (\<forall>st. left (snd (pt_other pt st)) \<le> left st)
     \<and> (\<forall>n st. left (snd (pt_tuple pt n st)) \<le> left st) \<and> (\<forall>st. left (snd (pt_sizeof pt st)) \<le> left st)
     \<and> (\<forall>st. left (snd (pt_type pt st)) \<le> left st)
     \<and> (\<forall>t n st. 0 < left st \<longrightarrow> left (snd (pt_suffix pt t n st)) < left st)
     \<and> (\<forall>t op n st. 0 < left st \<longrightarrow> left (snd (snd (pt_postfix pt t op n st))) < left st)"

lemma shrinksD:
  assumes "shrinks pt"
  shows "left (snd (pt_prompt pt st)) \<le> left st" "left (snd (pt_other pt st)) \<le> left st"
    "left (snd (pt_tuple pt n st)) \<le> left st" "left (snd (pt_sizeof pt st)) \<le> left st"
    "left (snd (pt_type pt st)) \<le> left st"
    "0 < left st \<Longrightarrow> left (snd (pt_suffix pt t n st)) < left st"
    "0 < left st \<Longrightarrow> left (snd (snd (pt_postfix pt t op n st))) < left st"
  using assms by (auto simp: shrinks_def)

text \<open>An answer that leaves at most \<open>n\<close> tokens.\<close>

definition ends :: "nat \<Rightarrow> ('a \<times> parse_state) option \<Rightarrow> bool" where
  "ends n x \<longleftrightarrow> (\<exists>r. x = Some r \<and> left (snd r) \<le> n)"

lemma ends_Some [simp]: "ends n (Some r) \<longleftrightarrow> left (snd r) \<le> n" by (simp add: ends_def)

lemma ends_bind: "ends n x \<Longrightarrow> (\<And>r. left (snd r) \<le> n \<Longrightarrow> ends m (f r)) \<Longrightarrow> ends m (Option.bind x f)"
  by (auto simp: ends_def)

lemma ends_if: "(c \<Longrightarrow> ends n x) \<Longrightarrow> (\<not> c \<Longrightarrow> ends n y) \<Longrightarrow> ends n (if c then x else y)"
  by simp

lemma ends_le: "ends n x \<Longrightarrow> n \<le> m \<Longrightarrow> ends m x" by (auto simp: ends_def)

lemma parse_ends: "shrinks pt \<Longrightarrow> fuel_for task st \<le> k \<Longrightarrow> ends (left st) (parse k pt env task st)"
proof (induction k arbitrary: task st)
  case 0
  then show ?case by (cases task) (simp_all add: fuel_for_def)
next
  case (Suc k)
  have IH: "ends n (parse k pt env task st)" if "fuel_for task st \<le> k" "left st \<le> n" for task st n
    using Suc.IH [OF Suc.prems(1) that(1)] that(2) by (rule ends_le)
  note sh = shrinksD [OF Suc.prems(1)]
  show ?case
  proof (cases task)
    case (Whole m)
    then show ?thesis using Suc.prems(2)
      by (auto intro!: ends_bind [where n = "left st"] IH simp: fuel_for_left)
  next
    case (Inner m)
    have fuel: "5 * left st + 4 \<le> Suc k" using Suc.prems(2) Inner by (simp add: fuel_for_left)
    have less: "ends n (parse k pt env task' st')" if "0 < left st" "left st' \<le> left st - 1" "left st' \<le> n" for task' st' n
      using that fuel by (intro IH; cases task') (auto simp: fuel_for_left)
    have va: "0 < left st" if "lx_text (peek st) \<in> {''va_start'', ''va_copy'', ''va_end_args'', ''va_arg'', ''sizeof''}"
      using that by (intro gr0I) auto
    have typed: "left st2 \<le> left st1" if "pt_type pt (va_comma t st1) = (u, st2)" for t st1 u st2
      using sh(5) [of "va_comma t st1"] that by simp
    show ?thesis unfolding Inner parse.simps
      apply (intro ends_if)
      subgoal by (simp add: sh)
      subgoal by (rule ends_bind [where n = "left st - 1"]) (auto intro!: less dest: starter_there)
      subgoal by (rule ends_bind [where n = "left st - 1"]) (auto intro!: less dest: starter_there)
      subgoal using va by (auto intro!: less ends_bind [where n = "left st - 1"] simp: is_va_def)
      subgoal using va by (auto intro!: less ends_bind [where n = "left st - 1"] simp: is_va_def)
      subgoal using va
        by (auto 0 3 intro!: less ends_bind [where n = "left st - 1"] simp: is_va_def split: prod.split option.split
            dest: typed)
      subgoal using va sh(4) [of "advance st"] by (auto intro!: less simp: is_va_def)
      subgoal using fuel
        by (rule_tac ends_bind [where n = "left st"]) (auto intro!: IH simp: fuel_for_left split: option.split)
      done
  next
    case (Turn m t n)
    have fuel: "5 * left st + 2 \<le> Suc k" using Suc.prems(2) Turn by (simp add: fuel_for_left)
    have less: "ends n (parse k pt env task' st')" if "0 < left st" "left st' \<le> left st - 1" "left st' \<le> n" for task' st' n
      using that fuel by (intro IH; cases task') (auto simp: fuel_for_left)
    have post: "left st' \<le> left st - 1" if "0 < left st" "pt_postfix pt t op l st = (u, go_on, st')" for op l u go_on st'
      using sh(7) [OF that(1), of t op l] that by simp
    have quest: "0 < left st" if "tk_kind (peek st) = TOK_QUESTION" using that by (intro gr0I) auto
    show ?thesis unfolding Turn parse.simps
      apply (intro ends_if)
      subgoal by simp
      subgoal by simp
      subgoal by (auto intro!: less dest: starter_there)
      subgoal by simp
      subgoal using infix_there [of st]
        by (auto 0 3 split: prod.split option.split intro!: less dest: post)
      subgoal by simp
      subgoal using quest by (auto intro!: less ends_bind [where n = "left st - 1"])
      subgoal by simp
      subgoal using quest by (auto intro!: less)
      subgoal using infix_there [of st] by (auto intro!: less ends_bind [where n = "left st - 1"])
      subgoal using infix_there [of st] by (auto intro!: less ends_bind [where n = "left st - 1"])
      done
  next
    case Primary
    have fuel: "5 * left st + 3 \<le> Suc k" using Suc.prems(2) Primary by (simp add: fuel_for_left)
    have less: "ends n (parse k pt env task' st')" if "0 < left st" "left st' \<le> left st - 1" "left st' \<le> n" for task' st' n
      using that fuel by (intro IH; cases task') (auto simp: fuel_for_left)
    have int: "0 < left st" if "tk_kind (peek st) = TOK_INT" using that by (intro gr0I) auto
    have group: "0 < left st" if "tk_kind (peek st) = TOK_LPAREN" using that by (intro gr0I) auto
    have tuple: "left (snd (pt_tuple pt n r)) \<le> m" if "left r \<le> m" for n r m
      using sh(3) [of n r] that by simp
    show ?thesis unfolding Primary parse.simps
      apply (intro ends_if)
      subgoal using int by (auto intro!: less)
      subgoal using group by (auto intro!: less ends_bind [where n = "left st - 1"] ends_if tuple)
      subgoal using sh(2) by simp
      done
  next
    case (Suffix t n)
    have fuel: "5 * left st + 1 \<le> Suc k" using Suc.prems(2) Suffix by (simp add: fuel_for_left)
    have less: "ends n (parse k pt env task' st')" if "0 < left st" "left st' \<le> left st - 1" "left st' \<le> n" for task' st' n
      using that fuel by (intro IH; cases task') (auto simp: fuel_for_left)
    have suffix: "left st' \<le> left st - 1" if "0 < left st" "pt_suffix pt t n st = (u, st')" for u st'
      using sh(6) [OF that(1), of t n] that by simp
    have there: "0 < left st" if "tk_kind (peek st) = TOK_LPAREN \<or> tk_kind (peek st) = TOK_LBRACKET"
      using that by (intro gr0I) auto
    show ?thesis unfolding Suffix parse.simps
      apply (intro ends_if)
      subgoal using there
        by (auto 0 3 split: prod.split option.split intro!: less dest: suffix)
      subgoal by simp
      done
  qed
qed

text \<open>More fuel changes nothing.\<close>

definition agrees :: "'a option \<Rightarrow> 'a option \<Rightarrow> bool" where
  "agrees x y \<longleftrightarrow> x = None \<or> x = y"

lemma agrees_refl [simp]: "agrees x x" by (simp add: agrees_def)
lemma agrees_None [simp]: "agrees None x" by (simp add: agrees_def)
lemma agrees_trans: "agrees x y \<Longrightarrow> agrees y z \<Longrightarrow> agrees x z" by (auto simp: agrees_def)
lemma agrees_Some: "agrees x y \<Longrightarrow> x = Some r \<Longrightarrow> y = Some r" by (auto simp: agrees_def)

lemma agrees_if: "agrees x x' \<Longrightarrow> agrees y y' \<Longrightarrow> agrees (if c then x else y) (if c then x' else y')"
  by simp

lemma agrees_bind: "agrees x y \<Longrightarrow> (\<And>r. agrees (f r) (g r)) \<Longrightarrow> agrees (Option.bind x f) (Option.bind y g)"
  unfolding agrees_def by (cases x) (simp, metis bind.bind_lunit option.distinct(1))

lemma agrees_option: "agrees x x' \<Longrightarrow> (\<And>a. agrees (f a) (g a)) \<Longrightarrow> agrees (case_option x f u) (case_option x' g u)"
  by (auto split: option.split)

lemma agrees_prod: "(\<And>a b. agrees (f a b) (g a b)) \<Longrightarrow> agrees (case_prod f u) (case_prod g u)"
  by (auto split: prod.split)

lemmas agrees_rules = agrees_refl agrees_if agrees_bind agrees_option agrees_prod

lemma parse_grows_step:
  assumes "\<And>task st. agrees (parse j pt env task st) (parse k pt env task st)"
  shows "agrees (parse (Suc j) pt env task st) (parse (Suc k) pt env task st)"
  by (cases task; simp only: parse.simps; intro agrees_rules assms)

lemma parse_grows_Suc: "agrees (parse k pt env task st) (parse (Suc k) pt env task st)"
  by (induction k arbitrary: task st) (simp, rule parse_grows_step)

lemma parse_grows: "j \<le> k \<Longrightarrow> agrees (parse j pt env task st) (parse k pt env task st)"
  by (induction k) (auto simp: le_Suc_eq intro: agrees_trans parse_grows_Suc)

lemma parse_more: "parse j pt env task st = Some r \<Longrightarrow> j \<le> k \<Longrightarrow> parse k pt env task st = Some r"
  using parse_grows [of j k pt env task st] by (rule agrees_Some) simp_all

end
