(* ===== verification/ZcExprTree.thy ===== *)
theory ZcExprTree
  imports ZcExprTotal
begin

text \<open>
  Reading operators back: the tokens of a tree of operators, with parentheses only where the precedences
  need them, are parsed to a node of the same shape.
\<close>

section \<open>Nodes without operator methods\<close>

definition no_methods :: "op_env \<Rightarrow> bool" where
  "no_methods env \<longleftrightarrow> (\<forall>name. oe_find_func env name = None) \<and> oe_traits env = []"

lemma no_methodsD [simp]:
  assumes "no_methods env"
  shows "oe_find_func env name = None" "\<not> is_trait env name"
  using assms by (simp_all add: no_methods_def is_trait_def)

lemma no_methods_simps [simp]:
  assumes "no_methods env"
  shows "find_operator_method env s meth = None" "unary_overload env t n = None"
    "compound_overload env op n = None" "operator_overload env op l r = None" "index_set env t l v st = None"
  using assms
  by (auto simp: find_operator_method_def Let_def find_None_iff unary_overload_def compound_overload_def
      operator_overload_def index_set_def split: Option.bind_splits node.split list.split option.split prod.split)

section \<open>The depth of nesting\<close>

abbreviation depth :: "op_state \<Rightarrow> nat" where "depth \<equiv> os_depth"

lemma depth_simps [simp]:
  "depth (emit d st) = depth st" "depth (snd (printed_text p st)) = depth st"
  "depth (snd (text_of_type t st)) = depth st" "depth (snd (new_type mk st)) = depth st"
  "depth (update_symbol s f st) = depth st"
  by (simp_all add: emit_def printed_text_def text_of_type_def new_type_def update_symbol_def split: sum.split)

lemma depth_eqs:
  "printed_text p st = (s, st') \<Longrightarrow> depth st' = depth st"
  "text_of_type t st = (s, st') \<Longrightarrow> depth st' = depth st"
  "new_type mk st = (ty, st') \<Longrightarrow> depth st' = depth st"
  by (metis depth_simps(2) snd_conv, metis depth_simps(3) snd_conv, metis depth_simps(4) snd_conv)

lemma depth_find_type: "find_symbol_type_info n st = (t, st') \<Longrightarrow> depth st' = depth st"
  by (auto simp: find_symbol_type_info_def split: option.splits prod.splits dest: depth_eqs)

lemma depth_comparison: "comparison_type env op l r lhs rhs st = (ty, st') \<Longrightarrow> depth st' = depth st"
  by (auto simp: comparison_type_def split: prod.splits if_splits dest!: depth_eqs)

lemma depth_mixed: "mixed_type env op_tok op l r rhs st = (ty, st') \<Longrightarrow> depth st' = depth st"
  by (auto simp: mixed_type_def split: prod.splits if_splits dest!: depth_eqs)

lemma depth_warnings [simp]: "depth (comparison_warnings env t op lhs rhs st) = depth st"
  by (simp add: comparison_warnings_def warn_always_def Let_def)

lemma depth_report_const [simp]: "depth (report_const t what n st) = depth st"
  by (auto simp: report_const_def split: prod.split option.split dest: depth_find_type)

lemma depth_check_const [simp]: "depth (check_const t op lhs st) = depth st"
  by (simp add: check_const_def split: option.split)

lemma depth_manifest [simp]: "depth (check_manifest env t n st) = depth st"
  by (simp add: check_manifest_def split: node.split option.split)

lemma depth_unary_type: "unary_type t ty st = (ty', st') \<Longrightarrow> depth st' = depth st"
  by (auto simp: unary_type_def split: option.splits prod.splits if_splits dest: depth_eqs)

section \<open>Shapes\<close>

text \<open>What a node says, without positions and types.\<close>

datatype shape = Num i64 | Apply string "shape list" | Hole

fun shape_of :: "node \<Rightarrow> shape" where
  "shape_of (Literal _ k v _ _) = (if k = LITERAL_INT then Num v else Hole)"
| "shape_of (Unary _ (Some op) [x]) = Apply op [shape_of x]"
| "shape_of (Binary _ (Some op) [l] [r]) = Apply op [shape_of l, shape_of r]"
| "shape_of (Other _ k [[c], [a], [b]]) =
     (if k = NODE_TERNARY then Apply ''?:'' [shape_of c, shape_of a, shape_of b] else Hole)"
| "shape_of _ = Hole"

lemma shape_no_var: "shape_of n \<noteq> Hole \<Longrightarrow> nd_kind n \<noteq> NODE_EXPR_VAR \<and> var_of n = None"
  by (cases n rule: shape_of.cases) (auto split: if_splits)

definition prefix_shape :: "lexeme \<Rightarrow> shape \<Rightarrow> shape" where
  "prefix_shape t s =
     (if lx_text t = ''**'' then Apply ''*'' [Apply ''*'' [s]]
      else Apply (if tk_kind t = TOK_NOT then ''!'' else lx_text t) [s])"

definition infix_shape :: "lexeme \<Rightarrow> shape \<Rightarrow> shape \<Rightarrow> shape" where
  "infix_shape op l r =
     (let o1 = binary_op_text op
      in if is_compound o1 then Apply ''='' [l, Apply (butlast o1) [l, r]] else Apply o1 [l, r])"

lemma build_unary_shape:
  assumes "no_methods env" and "build_unary env t n st = (n', st')" and "lx_text t = ''**'' \<Longrightarrow> tk_kind t \<noteq> TOK_NOT"
  shows "shape_of n' = prefix_shape t (shape_of n)" and "depth st' = depth st"
  using assms
  by (auto simp: build_unary_def split_stars_def prefix_tok_def prefix_shape_def Let_def split: prod.splits if_splits dest!: depth_unary_type)

lemma infer_var_id [simp]: "nd_kind n \<noteq> NODE_EXPR_VAR \<Longrightarrow> infer_var n other st = (n, st)"
  by (simp add: infer_var_def unknown_var_def)

lemma check_operands_id:
  assumes "nd_kind lhs \<noteq> NODE_EXPR_VAR" and "nd_kind rhs \<noteq> NODE_EXPR_VAR"
    and "check_operands env t op lhs rhs st = (ty, l, r, st')"
  shows "l = lhs" and "r = rhs" and "depth st' = depth st"
  using assms
  by (auto simp: check_operands_def split: prod.splits if_splits option.splits dest: depth_comparison depth_mixed)

lemma finish_binary_plain:
  assumes "no_methods env"
  shows "finish_binary env t op_tok op right chain lhs rhs st =
     (case check_operands env (tok op_tok) op lhs rhs st of
        (ty, l, r, st') \<Rightarrow> (Binary (op_meta (tok op_tok) ty) (Some op) (chain l r) [right l r], st'))"
  using assms by (cases "op = ''=''") (simp_all add: finish_binary_def)

lemma finish_binary_shape:
  assumes "no_methods env" and "nd_kind lhs \<noteq> NODE_EXPR_VAR" and "nd_kind rhs \<noteq> NODE_EXPR_VAR"
    and "finish_binary env t op_tok op right (\<lambda>l r. [l]) lhs rhs st = (n, st')"
  shows "shape_of n = Apply op [shape_of lhs, shape_of (right lhs rhs)]" and "depth st' = depth st"
proof -
  obtain ty l r st2 where c: "check_operands env (tok op_tok) op lhs rhs st = (ty, l, r, st2)"
    by (cases "check_operands env (tok op_tok) op lhs rhs st") blast
  show "shape_of n = Apply op [shape_of lhs, shape_of (right lhs rhs)]" "depth st' = depth st"
    using assms(1,4) c check_operands_id [OF assms(2,3) c] by (auto simp: finish_binary_plain)
qed

lemma assigned_type_depth: "assigned_type_text env lhs st = (u, st') \<Longrightarrow> depth st' = depth st"
  by (auto simp: assigned_type_text_def split: option.splits prod.splits if_splits dest: depth_eqs)

lemma wrap_trait_id:
  assumes "no_methods env" and "wrap_trait env lhs rhs st = (rhs', st')"
  shows "rhs' = rhs" and "depth st' = depth st"
  using assms by (auto simp: wrap_trait_def Let_def split: option.splits prod.splits dest: assigned_type_depth)

lemma depth_resurrect [simp]: "depth (resurrect_left lhs st) = depth st"
  by (simp add: resurrect_left_def split: option.split)

lemma assignment_effects_id:
  assumes "no_methods env" and "var_of rhs = None" and "assignment_effects env op lhs rhs st = (rhs', st')"
  shows "rhs' = rhs" and "depth st' = depth st"
  using assms by (auto simp: assignment_effects_def move_right_def split: if_splits dest: wrap_trait_id(1) wrap_trait_id(2))

lemma build_binary_shape:
  assumes "no_methods env" and "shape_of lhs \<noteq> Hole" and "shape_of rhs \<noteq> Hole"
    and "build_binary env t op lhs rhs st = (n, st')"
  shows "shape_of n = infix_shape op (shape_of lhs) (shape_of rhs)" and "depth st' = depth st"
proof -
  note vars = shape_no_var [OF assms(2)] shape_no_var [OF assms(3)]
  obtain rhs1 st1 where ae: "assignment_effects env op lhs rhs st = (rhs1, st1)" by fastforce
  from assignment_effects_id [OF assms(1) _ this] vars have 1: "rhs1 = rhs" "depth st1 = depth st" by simp_all
  define st2 where "st2 = check_const (tok op) (binary_op_text op) lhs
    (comparison_warnings env (tok op) (binary_op_text op) lhs rhs st1)"
  have d: "depth st2 = depth st" by (simp add: st2_def 1)
  define right where "right = (if is_compound (binary_op_text op)
    then fst (compound_node env t (binary_op_text op) lhs rhs st2) else (\<lambda>l r. r))"
  have fb: "finish_binary env t op (if is_compound (binary_op_text op) then ''='' else binary_op_text op)
      right (\<lambda>l r. [l]) lhs rhs st2 = (n, st')"
    using assms(4) ae 1 assms(1) by (auto simp: build_binary_def right_def st2_def compound_node_def Let_def)
  have right: "shape_of (right lhs rhs) =
      (if is_compound (binary_op_text op) then Apply (butlast (binary_op_text op)) [shape_of lhs, shape_of rhs]
       else shape_of rhs)"
    using assms(1) by (simp add: right_def compound_node_def Let_def)
  show "shape_of n = infix_shape op (shape_of lhs) (shape_of rhs)" "depth st' = depth st"
    using finish_binary_shape [OF assms(1) _ _ fb] vars right d by (auto simp: infix_shape_def Let_def)
qed

section \<open>Trees of operators\<close>

datatype tree =
    Leaf lexeme
  | Paren lexeme tree lexeme
  | Prefix lexeme tree
  | Step tree lexeme
  | Infix tree lexeme tree
  | Cond tree lexeme tree lexeme tree

fun tree_toks :: "tree \<Rightarrow> lexeme list" where
  "tree_toks (Leaf t) = [t]"
| "tree_toks (Paren o1 e c) = o1 # tree_toks e @ [c]"
| "tree_toks (Prefix op e) = op # tree_toks e"
| "tree_toks (Step e op) = tree_toks e @ [op]"
| "tree_toks (Infix l op r) = tree_toks l @ op # tree_toks r"
| "tree_toks (Cond c q a col b) = tree_toks c @ q # tree_toks a @ col # tree_toks b"

fun first_tok :: "tree \<Rightarrow> lexeme" where
  "first_tok (Leaf t) = t" | "first_tok (Paren o1 e c) = o1" | "first_tok (Prefix op e) = op"
| "first_tok (Step e op) = first_tok e" | "first_tok (Infix l op r) = first_tok l"
| "first_tok (Cond c q a col b) = first_tok c"

text \<open>The token that the parser keeps for the nodes of the whole tree.\<close>

fun lead_tok :: "tree \<Rightarrow> lexeme" where
  "lead_tok (Leaf t) = t" | "lead_tok (Paren o1 e c) = o1" | "lead_tok (Prefix op e) = prefix_tok op"
| "lead_tok (Step e op) = lead_tok e" | "lead_tok (Infix l op r) = lead_tok l"
| "lead_tok (Cond c q a col b) = lead_tok c"

fun end_line :: "tree \<Rightarrow> nat" where
  "end_line (Leaf t) = lx_end_line t" | "end_line (Paren o1 e c) = lx_end_line c"
| "end_line (Prefix op e) = end_line e" | "end_line (Step e op) = lx_end_line op"
| "end_line (Infix l op r) = end_line r" | "end_line (Cond c q a col b) = end_line b"

text \<open>The value of a literal, and what a tree means.\<close>

definition literal_num :: "lexeme \<Rightarrow> i64" where
  "literal_num t = fst (literal_value t (List.filter (\<lambda>c. c \<noteq> CHR ''_'') (cstr (lx_text t))))"

fun meaning :: "tree \<Rightarrow> shape" where
  "meaning (Leaf t) = Num (literal_num t)"
| "meaning (Paren o1 e c) = meaning e"
| "meaning (Prefix op e) = prefix_shape op (meaning e)"
| "meaning (Step e op) = Apply (if lx_text op = ''++'' then ''_post++'' else ''_post--'') [meaning e]"
| "meaning (Infix l op r) = infix_shape op (meaning l) (meaning r)"
| "meaning (Cond c q a col b) = Apply ''?:'' [meaning c, meaning a, meaning b]"

text \<open>The precedence of a tree, the one that a following operator must not exceed for the tree to be its
  operand, and how deep the parser goes.\<close>

fun level :: "tree \<Rightarrow> nat" where
  "level (Infix l op r) = prec_of op" | "level (Cond c q a col b) = 2" | "level (Prefix op e) = 10" | "level e = 12"

fun edge :: "tree \<Rightarrow> nat" where
  "edge (Infix l op r) = next_prec op" | "edge (Cond c q a col b) = 2" | "edge (Prefix op e) = 10" | "edge e = 12"

fun nest :: "tree \<Rightarrow> nat" where
  "nest (Leaf t) = 0" | "nest (Paren o1 e c) = Suc (nest e)" | "nest (Prefix op e) = Suc (nest e)"
| "nest (Step e op) = nest e" | "nest (Infix l op r) = max (nest l) (Suc (nest r))"
| "nest (Cond c q a col b) = max (nest c) (Suc (max (nest a) (nest b)))"

text \<open>Tokens of the kinds, and the operators that may stand on a new line.\<close>

definition is_token :: "ZenTokenType \<Rightarrow> string \<Rightarrow> lexeme \<Rightarrow> bool" where
  "is_token k s t \<longleftrightarrow> tk_kind t = k \<and> lx_text t = s"

definition int_token :: "lexeme \<Rightarrow> bool" where
  "int_token t \<longleftrightarrow>
     tk_kind t = TOK_INT \<and> lx_text t \<notin> set [''va_start'', ''va_copy'', ''va_end_args'', ''va_arg'', ''sizeof'']"

definition infix_token :: "lexeme \<Rightarrow> bool" where
  "infix_token op \<longleftrightarrow> 0 < prec_of op \<and> prec_of op \<le> 9 \<and> \<not> is_pipe op"

definition same_line :: "nat \<Rightarrow> lexeme \<Rightarrow> bool" where
  "same_line line op \<longleftrightarrow> \<not> (tk_line op > line \<and> is_op op [''*'', ''&'', ''+'', ''-''])"

text \<open>Parentheses are where the precedences need them.\<close>

fun ordered :: "tree \<Rightarrow> bool" where
  "ordered (Leaf t) = int_token t"
| "ordered (Paren o1 e c) = (is_token TOK_LPAREN ''('' o1 \<and> is_token TOK_RPAREN '')'' c \<and> ordered e)"
| "ordered (Prefix op e) = (starts_unary op \<and> \<not> (tk_kind op = TOK_NOT \<and> lx_text op = ''**'') \<and> 10 \<le> level e \<and> ordered e)"
| "ordered (Step e op) = (is_step op \<and> level e = 12 \<and> ordered e)"
| "ordered (Infix l op r) =
     (infix_token op \<and> same_line (end_line l) op \<and> prec_of op < edge l \<and> next_prec op \<le> level r
      \<and> ordered l \<and> ordered r)"
| "ordered (Cond c q a col b) =
     (is_token TOK_QUESTION ''?'' q \<and> is_token TOK_COLON '':'' col \<and> is_ternary (first_tok a)
      \<and> 2 < edge c \<and> 2 \<le> level b \<and> ordered c \<and> ordered a \<and> ordered b)"

text \<open>Where a loop over operators ends, and what may follow a tree.\<close>

definition tok_at :: "nat \<Rightarrow> lexeme list \<Rightarrow> nat \<Rightarrow> lexeme" where
  "tok_at line ts i = (if i < length ts then ts ! i else end_of_file line)"

definition turn_ends :: "nat \<Rightarrow> nat \<Rightarrow> lexeme list \<Rightarrow> bool" where
  "turn_ends m line ts \<longleftrightarrow>
     (let t = tok_at line ts 0
      in \<not> is_as t
         \<and> (\<not> same_line line t
            \<or> \<not> is_step t
              \<and> (prec_of t = 0 \<or> prec_of t < m \<or> tk_kind t = TOK_QUESTION \<and> is_ternary (tok_at line ts 1) \<and> 2 < m)))"

definition closes :: "tree \<Rightarrow> lexeme list \<Rightarrow> bool" where
  "closes e ts \<longleftrightarrow>
     kind_of ts \<noteq> TOK_LPAREN \<and> kind_of ts \<noteq> TOK_LBRACKET \<and> (edge e < 12 \<longrightarrow> turn_ends (edge e) (end_line e) ts)"

abbreviation pstate :: "op_state \<Rightarrow> nat \<Rightarrow> lexeme list \<Rightarrow> parse_state" where
  "pstate os line ts \<equiv> \<lparr>ps_ops = os, ps_line = line, ps_toks = ts\<rparr>"

lemma peek_pstate [simp]: "peek_at i (pstate os line ts) = tok_at line ts i"
  by (simp add: peek_at_def tok_at_def)

lemma tok_at_simps [simp]:
  "tok_at line (t # ts) 0 = t" "tok_at line (t # ts) (Suc i) = tok_at line ts i" "tok_at line [] i = end_of_file line"
  by (simp_all add: tok_at_def)

lemma kind_tok_at: "tk_kind (tok_at line ts 0) = kind_of ts"
  by (cases ts) (simp_all add: kind_of_def)

lemma pstate_simps [simp]:
  "advance (pstate os line (t # ts)) = pstate os (lx_end_line t) ts" "set_ops (pstate os line ts) os' = pstate os' line ts"
  "enter (pstate os line ts) = pstate (os\<lparr>os_depth := Suc (os_depth os)\<rparr>) line ts"
  "on_new_line op (pstate os line ts) \<longleftrightarrow> \<not> same_line line op"
  by (simp_all add: advance_def set_ops_def enter_def on_new_line_def same_line_def)

section \<open>Precedences\<close>

lemma next_prec_bounds: "prec_of op \<le> next_prec op" "next_prec op \<le> Suc (prec_of op)"
  by (simp_all add: next_prec_def)

lemma prec_bound: "prec_of t \<le> 12" by (cases "get_token_precedence t") simp_all

lemma prec_kind:
  "tk_kind t = TOK_QUESTION \<Longrightarrow> prec_of t = 11" "tk_kind t = TOK_Q_DOT \<Longrightarrow> prec_of t = 11"
  "is_arrow t \<Longrightarrow> prec_of t = 11" "is_op t [''.''] \<Longrightarrow> prec_of t = 11"
  "tk_kind t = TOK_IDENT \<Longrightarrow> prec_of t = 0" "is_step t \<Longrightarrow> prec_of t = 0" "is_op t [''[''] \<Longrightarrow> prec_of t = 0"
  by (auto simp: get_token_precedence_def Let_def is_arrow_def is_op_def is_step_def op_table_def assignment_ops_def)

lemma prec_bracket: "tk_kind t \<in> {TOK_LPAREN, TOK_LBRACKET} \<Longrightarrow> prec_of t = 11"
  by (auto simp: get_token_precedence_def Let_def is_arrow_def)

lemma prec_closing:
  "is_token TOK_COLON '':'' t \<Longrightarrow> prec_of t = 0" "is_token TOK_RPAREN '')'' t \<Longrightarrow> prec_of t = 0"
  by (auto simp: is_token_def get_token_precedence_def Let_def is_arrow_def)

lemma infix_token_not:
  assumes "infix_token op"
  shows "\<not> is_as op" "\<not> is_step op" "\<not> is_postfix op" "tk_kind op \<noteq> TOK_QUESTION" "\<not> is_pipe op"
    "tk_kind op \<noteq> TOK_LPAREN" "tk_kind op \<noteq> TOK_LBRACKET" "prec_of op \<noteq> 0"
  using assms prec_kind [of op] prec_bracket [of op]
  by (auto simp: infix_token_def is_as_def is_postfix_def is_op_def)

lemma level_edge: "level e \<le> edge e" "edge e \<le> Suc (level e)"
  by (cases e; simp add: next_prec_bounds)+

lemma turn_ends_mono: "turn_ends m line ts \<Longrightarrow> m \<le> m' \<Longrightarrow> turn_ends m' line ts"
  by (auto simp: turn_ends_def Let_def)

lemma closesI:
  assumes "turn_ends m (end_line e) ts" "m \<le> level e" "kind_of ts \<noteq> TOK_LPAREN" "kind_of ts \<noteq> TOK_LBRACKET"
  shows "closes e ts"
  using assms level_edge(1) [of e] turn_ends_mono [OF assms(1), of "edge e"] by (auto simp: closes_def)

section \<open>Rules of the parser\<close>

definition evals :: "parser_parts \<Rightarrow> op_env \<Rightarrow> task \<Rightarrow> parse_state \<Rightarrow> node option \<times> parse_state \<Rightarrow> bool" where
  "evals pt env task st r \<longleftrightarrow> (\<exists>k. parse k pt env task st = Some r)"

lemma evals_Suc: "parse (Suc k) pt env task st = Some r \<Longrightarrow> evals pt env task st r"
  by (auto simp: evals_def simp del: parse.simps)

lemma evals_both:
  assumes "evals pt env task st r" and "evals pt env task' st' r'"
  obtains k where "parse k pt env task st = Some r" and "parse k pt env task' st' = Some r'"
proof -
  from assms obtain i j where "parse i pt env task st = Some r" "parse j pt env task' st' = Some r'"
    by (auto simp: evals_def)
  then show thesis by (intro that [of "max i j"]) (auto elim: parse_more)
qed

lemma evals_three:
  assumes "evals pt env task st r" and "evals pt env task' st' r'" and "evals pt env task2 st2 r2"
  obtains k where "parse k pt env task st = Some r" and "parse k pt env task' st' = Some r'"
    and "parse k pt env task2 st2 = Some r2"
proof -
  from evals_both [OF assms(1,2)] obtain i where "parse i pt env task st = Some r" "parse i pt env task' st' = Some r'" .
  moreover from assms(3) obtain j where "parse j pt env task2 st2 = Some r2" by (auto simp: evals_def)
  ultimately show thesis by (intro that [of "max i j"]) (auto elim: parse_more)
qed

lemma evals_Whole:
  assumes "\<not> too_deep st" and "evals pt env (Inner m) (enter st) r"
  shows "evals pt env (Whole m) st (leave r)"
proof -
  from assms(2) obtain k where "parse k pt env (Inner m) (enter st) = Some r" by (auto simp: evals_def)
  then show ?thesis using assms(1) by (intro evals_Suc [of k]) simp
qed

lemma evals_Prefix:
  assumes "\<not> is_prompt st" and "starts_unary (peek st)" and "evals pt env (Whole 10) (advance st) a"
    and "evals pt env (Turn m (prefix_tok (peek st)) (fst (unary_of env (peek st) a))) (snd (unary_of env (peek st) a)) r"
  shows "evals pt env (Inner m) st r"
proof -
  have "\<not> is_await (peek st)" using assms(2) by (auto simp: starts_unary_def is_op_def is_await_def)
  moreover from evals_both [OF assms(3,4)] obtain k where "parse k pt env (Whole 10) (advance st) = Some a"
    "parse k pt env (Turn m (prefix_tok (peek st)) (fst (unary_of env (peek st) a))) (snd (unary_of env (peek st) a)) = Some r" .
  ultimately show ?thesis using assms(1,2) by (intro evals_Suc [of k]) simp
qed

lemma evals_primary:
  assumes "int_token (peek st) \<or> is_token TOK_LPAREN ''('' (peek st)"
    and "evals pt env Primary st (Some n, st')" and "evals pt env (Turn m (peek st) n) st' r"
  shows "evals pt env (Inner m) st r"
proof -
  from evals_both [OF assms(2,3)] obtain k where "parse k pt env Primary st = Some (Some n, st')"
    "parse k pt env (Turn m (peek st) n) st' = Some r" .
  then show ?thesis using assms(1)
    by (intro evals_Suc [of k])
      (auto simp: is_prompt_def is_await_def starts_unary_def is_op_def is_va_def int_token_def is_token_def)
qed

lemma evals_Suffix:
  "tk_kind (peek st) \<noteq> TOK_LPAREN \<Longrightarrow> tk_kind (peek st) \<noteq> TOK_LBRACKET \<Longrightarrow> evals pt env (Suffix t n) st (Some n, st)"
  by (intro evals_Suc [of 0]) simp

lemma evals_int:
  assumes "int_token (peek st)" and "evals pt env (Suffix (peek st) (fst (int_of st))) (snd (int_of st)) r"
  shows "evals pt env Primary st r"
proof -
  from assms(2) obtain k where "parse k pt env (Suffix (peek st) (fst (int_of st))) (snd (int_of st)) = Some r"
    by (auto simp: evals_def)
  then show ?thesis using assms(1) by (intro evals_Suc [of k]) (simp add: int_token_def)
qed

lemma evals_group:
  assumes "tk_kind (peek st) = TOK_LPAREN" and "\<not> is_lambda_or_cast st"
    and "evals pt env (Whole 0) (open_group st) a" and "tk_kind (peek (snd a)) = TOK_RPAREN"
    and "evals pt env (Suffix (peek st) (value_of (fst a))) (advance (snd a)) r"
  shows "evals pt env Primary st r"
proof -
  from evals_both [OF assms(3,5)] obtain k where "parse k pt env (Whole 0) (open_group st) = Some a"
    "parse k pt env (Suffix (peek st) (value_of (fst a))) (advance (snd a)) = Some r" .
  then show ?thesis using assms(1,2,4) by (intro evals_Suc [of k]) simp
qed

lemma evals_ends:
  assumes "turn_ends m line ts"
  shows "evals pt env (Turn m t n) (pstate os line ts) (Some n, pstate os line ts)"
proof -
  have "parse (Suc 0) pt env (Turn m t n) (pstate os line ts) = Some (Some n, pstate os line ts)"
    using assms prec_kind(1) [of "tok_at line ts 0"]
    by (auto simp: turn_ends_def Let_def is_postfix_def is_arrow_def is_op_def)
  then show ?thesis by (rule evals_Suc)
qed

lemma evals_step_op:
  assumes "is_step (peek st)" and "evals pt env (Turn m t (step_node (peek st) n)) (advance st) r"
  shows "evals pt env (Turn m t n) st r"
proof -
  from assms(2) obtain k where "parse k pt env (Turn m t (step_node (peek st) n)) (advance st) = Some r"
    by (auto simp: evals_def)
  moreover have "\<not> is_as (peek st)" "\<not> on_new_line (peek st) st"
    using assms(1) by (auto simp: is_step_def is_as_def on_new_line_def is_op_def)
  ultimately show ?thesis using assms(1) by (intro evals_Suc [of k]) simp
qed

lemma evals_infix:
  assumes "infix_token (peek st)" and "\<not> on_new_line (peek st) st" and "m \<le> prec_of (peek st)"
    and "evals pt env (Whole (next_prec (peek st))) (advance st) a"
    and "evals pt env (Turn m t (fst (binary_of env t (peek st) n a))) (snd (binary_of env t (peek st) n a)) r"
  shows "evals pt env (Turn m t n) st r"
proof -
  from evals_both [OF assms(4,5)] obtain k where "parse k pt env (Whole (next_prec (peek st))) (advance st) = Some a"
    "parse k pt env (Turn m t (fst (binary_of env t (peek st) n a))) (snd (binary_of env t (peek st) n a)) = Some r" .
  then show ?thesis using assms(2,3) infix_token_not [OF assms(1)]
    by (intro evals_Suc [of k]) simp
qed

lemma evals_cond:
  assumes "tk_kind (peek st) = TOK_QUESTION" and "is_ternary (peek_at 1 st)" and "m \<le> 2"
    and "evals pt env (Whole 0) (advance st) a" and "evals pt env (Whole 2) (expect_colon (snd a)) b"
    and "evals pt env (Turn m t (ternary_node n (value_of (fst a)) (value_of (fst b)))) (snd b) r"
  shows "evals pt env (Turn m t n) st r"
proof -
  from evals_three [OF assms(4,5,6)] obtain k where "parse k pt env (Whole 0) (advance st) = Some a"
    "parse k pt env (Whole 2) (expect_colon (snd a)) = Some b"
    "parse k pt env (Turn m t (ternary_node n (value_of (fst a)) (value_of (fst b)))) (snd b) = Some r" .
  moreover have "\<not> is_as (peek st)" "\<not> on_new_line (peek st) st" "\<not> is_step (peek st)" "\<not> is_postfix (peek st)"
    using assms(1) by (auto simp: is_step_def is_as_def on_new_line_def is_op_def is_postfix_def is_arrow_def)
  ultimately show ?thesis using assms(1-3) prec_kind(1) [OF assms(1)] by (intro evals_Suc [of k]) simp
qed

section \<open>Reading a tree\<close>

lemma first_tok_toks: "\<exists>ts. tree_toks e = first_tok e # ts"
  by (induction e) auto

lemma tok_at_tree [simp]: "tok_at line (tree_toks e @ ts) 0 = first_tok e"
  using first_tok_toks [of e] by auto

lemma first_tok_kind:
  "ordered e \<Longrightarrow> tk_kind (first_tok e) \<in> {TOK_INT, TOK_LPAREN, TOK_OP, TOK_NOT}"
  by (induction e) (auto simp: int_token_def is_token_def starts_unary_def is_op_def)

lemma kind_of_tree: "kind_of (tree_toks e @ ts) = tk_kind (first_tok e)"
  using first_tok_toks [of e] by (auto simp: kind_of_def)

lemma not_lambda_or_cast:
  assumes "ordered e" shows "\<not> is_lambda_or_cast (pstate os line (o1 # tree_toks e @ ts))"
proof -
  have "kind_of (tree_toks e @ ts) \<notin> {TOK_IDENT, TOK_RPAREN}"
    using first_tok_kind [OF assms] by (auto simp: kind_of_tree)
  then show ?thesis
    by (auto simp: is_lambda_or_cast_def cast_ahead_def lambda_params.simps [of 0])
qed

lemma open_group_tree:
  assumes "ordered e"
  shows "open_group (pstate os line (o1 # tree_toks e @ ts)) = pstate os (lx_end_line o1) (tree_toks e @ ts)"
proof -
  have "kind_of (tree_toks e @ ts) \<noteq> TOK_IDENT"
    using first_tok_kind [OF assms] by (auto simp: kind_of_tree)
  then show ?thesis by (simp add: open_group_def Let_def lambda_params.simps [of 0])
qed

lemma meaning_no_hole: "meaning e \<noteq> Hole"
  by (induction e) (simp_all add: prefix_shape_def infix_shape_def Let_def)

text \<open>Reading \<open>e\<close> from its start is a turn of the loop behind it.\<close>

definition loop_reads :: "parser_parts \<Rightarrow> op_env \<Rightarrow> tree \<Rightarrow> nat \<Rightarrow> op_state \<Rightarrow> nat \<Rightarrow> lexeme list \<Rightarrow> node \<Rightarrow> op_state \<Rightarrow> bool" where
  "loop_reads pt env e m os line ts n os' \<longleftrightarrow>
     shape_of n = meaning e \<and> depth os' = depth os
     \<and> (\<forall>r. evals pt env (Turn m (lead_tok e) n) (pstate os' (end_line e) ts) r
          \<longrightarrow> evals pt env (Inner m) (pstate os line (tree_toks e @ ts)) r)"

lemma loop_readsD:
  "loop_reads pt env e m os line ts n os' \<Longrightarrow> evals pt env (Turn m (lead_tok e) n) (pstate os' (end_line e) ts) r
   \<Longrightarrow> evals pt env (Inner m) (pstate os line (tree_toks e @ ts)) r"
  unfolding loop_reads_def by blast

definition yields :: "parser_parts \<Rightarrow> op_env \<Rightarrow> tree \<Rightarrow> nat \<Rightarrow> op_state \<Rightarrow> nat \<Rightarrow> lexeme list \<Rightarrow> node \<Rightarrow> op_state \<Rightarrow> bool" where
  "yields pt env e m os line ts n os' \<longleftrightarrow>
     shape_of n = meaning e \<and> depth os' = depth os
     \<and> evals pt env (Whole m) (pstate os line (tree_toks e @ ts)) (Some n, pstate os' (end_line e) ts)"

lemma loop_reads_whole:
  assumes r: "loop_reads pt env e m (os\<lparr>os_depth := Suc (depth os)\<rparr>) line ts n os'"
    and "turn_ends m (end_line e) ts" and "depth os < 64"
  shows "yields pt env e m os line ts n (os'\<lparr>os_depth := depth os\<rparr>)"
proof -
  from evals_ends [OF assms(2), of pt env "lead_tok e" n os'] r
  have "evals pt env (Inner m) (enter (pstate os line (tree_toks e @ ts))) (Some n, pstate os' (end_line e) ts)"
    by (auto simp: loop_reads_def)
  from evals_Whole [OF _ this] r assms(3) show ?thesis
    by (simp add: too_deep_def leave_def Let_def value_of_def loop_reads_def yields_def)
qed

lemma loop_reads_leaf:
  assumes "int_token t" and "kind_of ts \<noteq> TOK_LPAREN" "kind_of ts \<noteq> TOK_LBRACKET"
  shows "\<exists>n os'. loop_reads pt env (Leaf t) m os line ts n os'"
proof -
  obtain n os' where n: "parse_int_literal t os = (n, os')" by fastforce
  have shape: "shape_of n = meaning (Leaf t)" "depth os' = depth os"
    using n by (auto simp: parse_int_literal_def literal_num_def literal_diags_def Let_def split: prod.splits
        dest!: depth_eqs)
  have "loop_reads pt env (Leaf t) m os line ts n os'"
    unfolding loop_reads_def
  proof (intro conjI allI impI shape)
    fix r assume a: "evals pt env (Turn m (lead_tok (Leaf t)) n) (pstate os' (end_line (Leaf t)) ts) r"
    have "evals pt env Primary (pstate os line (t # ts)) (Some n, pstate os' (lx_end_line t) ts)"
      using assms n by (intro evals_int) (auto simp: int_of_def kind_tok_at intro!: evals_Suffix)
    from evals_primary [OF _ this, of m r] assms(1) a
    show "evals pt env (Inner m) (pstate os line (tree_toks (Leaf t) @ ts)) r" by simp
  qed
  then show ?thesis by blast
qed

definition readable :: "parser_parts \<Rightarrow> op_env \<Rightarrow> tree \<Rightarrow> bool" where
  "readable pt env e \<longleftrightarrow>
     (\<forall>m os line ts. m \<le> level e \<longrightarrow> depth os + nest e \<le> 64 \<longrightarrow> closes e ts
        \<longrightarrow> (\<exists>n os'. loop_reads pt env e m os line ts n os'))"

lemma readableD:
  "readable pt env e \<Longrightarrow> m \<le> level e \<Longrightarrow> depth os + nest e \<le> 64 \<Longrightarrow> closes e ts
   \<Longrightarrow> \<exists>n os'. loop_reads pt env e m os line ts n os'"
  by (simp add: readable_def)

lemma readable_whole:
  assumes "readable pt env e" and "m \<le> level e" and "Suc (depth os) + nest e \<le> 64" and "turn_ends m (end_line e) ts"
    and "kind_of ts \<noteq> TOK_LPAREN" "kind_of ts \<noteq> TOK_LBRACKET"
  shows "\<exists>n os'. yields pt env e m os line ts n os'"
proof -
  have "\<exists>n os'. loop_reads pt env e m (os\<lparr>os_depth := Suc (depth os)\<rparr>) line ts n os'"
    using assms(3) by (intro readableD [OF assms(1,2) _ closesI [OF assms(4,2,5,6)]]) simp
  with assms(3) loop_reads_whole [OF _ assms(4), of pt env os line] show ?thesis by fastforce
qed

lemma readable_leaf: "int_token t \<Longrightarrow> readable pt env (Leaf t)"
  unfolding readable_def by (auto simp: closes_def intro: loop_reads_leaf)

lemma readable_paren:
  assumes e: "readable pt env e" "ordered e" and o1: "is_token TOK_LPAREN ''('' o1" and c: "is_token TOK_RPAREN '')'' c"
  shows "readable pt env (Paren o1 e c)"
  unfolding readable_def
proof (intro allI impI)
  fix m os line ts
  assume d: "depth os + nest (Paren o1 e c) \<le> 64" and cl: "closes (Paren o1 e c) ts"
  have k: "tk_kind o1 = TOK_LPAREN" "tk_kind c = TOK_RPAREN" using o1 c by (auto simp: is_token_def)
  have te: "turn_ends 0 (end_line e) (c # ts)"
    using k prec_closing(2) [OF c] by (simp add: turn_ends_def is_as_def is_step_def is_op_def)
  have "\<exists>n os'. yields pt env e 0 os (lx_end_line o1) (c # ts) n os'"
    using d k by (intro readable_whole [OF e(1) _ _ te]) (simp_all add: kind_of_def)
  then obtain n os' where n: "shape_of n = meaning e" "depth os' = depth os"
      "evals pt env (Whole 0) (pstate os (lx_end_line o1) (tree_toks e @ c # ts)) (Some n, pstate os' (end_line e) (c # ts))"
    by (auto simp: yields_def)
  have p: "evals pt env Primary (pstate os line (o1 # tree_toks e @ c # ts)) (Some n, pstate os' (lx_end_line c) ts)"
    using n(3) k cl not_lambda_or_cast [OF e(2)] open_group_tree [OF e(2)]
    by (intro evals_group [where a = "(Some n, pstate os' (end_line e) (c # ts))"])
      (auto simp: value_of_def closes_def kind_tok_at intro!: evals_Suffix)
  have "loop_reads pt env (Paren o1 e c) m os line ts n os'"
    unfolding loop_reads_def using n(1,2) evals_primary [OF _ p] o1 by simp
  then show "\<exists>n os'. loop_reads pt env (Paren o1 e c) m os line ts n os'" by blast
qed

lemma readable_prefix:
  assumes env: "no_methods env" and e: "readable pt env e" "ordered (Prefix op e)"
  shows "readable pt env (Prefix op e)"
  unfolding readable_def
proof (intro allI impI)
  fix m os line ts
  assume d: "depth os + nest (Prefix op e) \<le> 64" and cl: "closes (Prefix op e) ts"
  have op: "starts_unary op" "lx_text op = ''**'' \<Longrightarrow> tk_kind op \<noteq> TOK_NOT" and lv: "10 \<le> level e"
    using e(2) by auto
  have te: "turn_ends 10 (end_line e) ts" and ts: "kind_of ts \<noteq> TOK_LPAREN" "kind_of ts \<noteq> TOK_LBRACKET"
    using cl by (auto simp: closes_def)
  have "\<exists>n os'. yields pt env e 10 os (lx_end_line op) ts n os'"
    using d by (intro readable_whole [OF e(1) lv _ te ts]) simp
  then obtain n os' where n: "shape_of n = meaning e" "depth os' = depth os"
      "evals pt env (Whole 10) (pstate os (lx_end_line op) (tree_toks e @ ts)) (Some n, pstate os' (end_line e) ts)"
    by (auto simp: yields_def)
  obtain n1 os1 where u: "build_unary env op n os' = (n1, os1)" by fastforce
  have np: "\<not> is_prompt (pstate os line (op # tree_toks e @ ts))"
    using first_tok_kind [of e] e(2) by (auto simp: is_prompt_def)
  have "loop_reads pt env (Prefix op e) m os line ts n1 os1"
    unfolding loop_reads_def
    using build_unary_shape [OF env u op(2)] n np op(1) u
    by (auto intro!: evals_Prefix [where a = "(Some n, pstate os' (end_line e) ts)"] simp: unary_of_def value_of_def)
  then show "\<exists>n os'. loop_reads pt env (Prefix op e) m os line ts n os'" by blast
qed

lemma readable_step:
  assumes e: "readable pt env e" "ordered e" and op: "is_step op" and lv: "level e = 12"
  shows "readable pt env (Step e op)"
  unfolding readable_def
proof (intro allI impI)
  fix m os line ts
  assume m: "m \<le> level (Step e op)" and d: "depth os + nest (Step e op) \<le> 64"
  have "edge e = 12" using lv e(2) by (cases e) (auto simp: infix_token_def)
  then have "closes e (op # ts)" using op by (auto simp: closes_def kind_of_def is_step_def is_op_def)
  then have "\<exists>n os'. loop_reads pt env e m os line (op # ts) n os'"
    using m d lv by (intro readableD [OF e(1)]) simp_all
  then obtain n os' where n: "loop_reads pt env e m os line (op # ts) n os'" by blast
  have "loop_reads pt env (Step e op) m os line ts (step_node op n) os'"
    unfolding loop_reads_def
  proof (intro conjI allI impI)
    show "shape_of (step_node op n) = meaning (Step e op)" using n by (simp add: step_node_def loop_reads_def)
    show "depth os' = depth os" using n by (simp add: loop_reads_def)
    fix r assume "evals pt env (Turn m (lead_tok (Step e op)) (step_node op n)) (pstate os' (end_line (Step e op)) ts) r"
    then have "evals pt env (Turn m (lead_tok e) n) (pstate os' (end_line e) (op # ts)) r"
      using op by (rule_tac evals_step_op) simp_all
    from loop_readsD [OF n this] show "evals pt env (Inner m) (pstate os line (tree_toks (Step e op) @ ts)) r" by simp
  qed
  then show "\<exists>n os'. loop_reads pt env (Step e op) m os line ts n os'" by blast
qed

lemma readable_infix:
  assumes env: "no_methods env" and l: "readable pt env l" and r: "readable pt env r" and o: "ordered (Infix l op r)"
  shows "readable pt env (Infix l op r)"
  unfolding readable_def
proof (intro allI impI)
  fix m os line ts
  assume m: "m \<le> level (Infix l op r)" and d: "depth os + nest (Infix l op r) \<le> 64" and cl: "closes (Infix l op r) ts"
  have op: "infix_token op" "same_line (end_line l) op" "prec_of op < edge l" "next_prec op \<le> level r" using o by auto
  note no = infix_token_not [OF op(1)]
  have ts: "kind_of ts \<noteq> TOK_LPAREN" "kind_of ts \<noteq> TOK_LBRACKET" using cl by (auto simp: closes_def)
  have "next_prec op < 12" using op(1) next_prec_bounds(2) [of op] by (auto simp: infix_token_def)
  then have te: "turn_ends (next_prec op) (end_line r) ts" using cl by (simp add: closes_def)
  have "closes l (op # tree_toks r @ ts)"
    using no op by (auto simp: closes_def kind_of_def turn_ends_def Let_def)
  moreover have "m \<le> level l" using m op(3) level_edge(2) [of l] by simp
  ultimately have "\<exists>n os'. loop_reads pt env l m os line (op # tree_toks r @ ts) n os'"
    using d by (intro readableD [OF l]) simp_all
  then obtain n1 os1 where n1: "loop_reads pt env l m os line (op # tree_toks r @ ts) n1 os1" by blast
  then have d1: "depth os1 = depth os" by (simp add: loop_reads_def)
  have "\<exists>n os'. yields pt env r (next_prec op) os1 (lx_end_line op) ts n os'"
    using d d1 by (intro readable_whole [OF r op(4) _ te ts]) simp
  then obtain n2 os2 where n2: "shape_of n2 = meaning r" "depth os2 = depth os1"
      "evals pt env (Whole (next_prec op)) (pstate os1 (lx_end_line op) (tree_toks r @ ts))
        (Some n2, pstate os2 (end_line r) ts)"
    by (auto simp: yields_def)
  obtain n os' where b: "build_binary env (lead_tok l) op n1 n2 os2 = (n, os')" by fastforce
  have s: "shape_of n1 = meaning l" using n1 by (simp add: loop_reads_def)
  note shape = build_binary_shape [OF env _ _ b]
  have "loop_reads pt env (Infix l op r) m os line ts n os'"
    unfolding loop_reads_def
  proof (intro conjI allI impI)
    show "shape_of n = meaning (Infix l op r)" using shape(1) s n2(1) by (simp add: meaning_no_hole)
    show "depth os' = depth os" using shape(2) s n2 d1 by (simp add: meaning_no_hole)
    fix x assume x: "evals pt env (Turn m (lead_tok (Infix l op r)) n) (pstate os' (end_line (Infix l op r)) ts) x"
    have "evals pt env (Turn m (lead_tok l) n1) (pstate os1 (end_line l) (op # tree_toks r @ ts)) x"
      using op m n2(3) x b
      by (rule_tac evals_infix [where a = "(Some n2, pstate os2 (end_line r) ts)"]) (simp_all add: binary_of_def value_of_def)
    from loop_readsD [OF n1 this] show "evals pt env (Inner m) (pstate os line (tree_toks (Infix l op r) @ ts)) x" by simp
  qed
  then show "\<exists>n os'. loop_reads pt env (Infix l op r) m os line ts n os'" by blast
qed

lemma readable_cond:
  assumes c: "readable pt env c" and a: "readable pt env a" and b: "readable pt env b" and o: "ordered (Cond c q a col b)"
  shows "readable pt env (Cond c q a col b)"
  unfolding readable_def
proof (intro allI impI)
  fix m os line ts
  assume m: "m \<le> level (Cond c q a col b)" and d: "depth os + nest (Cond c q a col b) \<le> 64"
    and cl: "closes (Cond c q a col b) ts"
  have k: "tk_kind q = TOK_QUESTION" "tk_kind col = TOK_COLON" and t: "is_ternary (first_tok a)"
    and e: "2 < edge c" "2 \<le> level b" and col: "prec_of col = 0"
    using o by (auto simp: is_token_def prec_closing)
  have te: "turn_ends 2 (end_line b) ts" and ts: "kind_of ts \<noteq> TOK_LPAREN" "kind_of ts \<noteq> TOK_LBRACKET"
    using cl by (auto simp: closes_def)
  have "closes c (q # tree_toks a @ col # tree_toks b @ ts)"
    using k e t by (auto simp: closes_def kind_of_def turn_ends_def Let_def is_as_def is_step_def is_op_def)
  moreover have "m \<le> level c" using m e level_edge(2) [of c] by simp
  ultimately have "\<exists>n os'. loop_reads pt env c m os line (q # tree_toks a @ col # tree_toks b @ ts) n os'"
    using d by (intro readableD [OF c]) simp_all
  then obtain n1 os1 where n1: "loop_reads pt env c m os line (q # tree_toks a @ col # tree_toks b @ ts) n1 os1" by blast
  then have d1: "depth os1 = depth os" by (simp add: loop_reads_def)
  have "turn_ends 0 (end_line a) (col # tree_toks b @ ts)"
    using k col by (simp add: turn_ends_def is_as_def is_step_def is_op_def)
  then have "\<exists>n os'. yields pt env a 0 os1 (lx_end_line q) (col # tree_toks b @ ts) n os'"
    using d d1 k by (intro readable_whole [OF a]) (simp_all add: kind_of_def)
  then obtain n2 os2 where n2: "shape_of n2 = meaning a" "depth os2 = depth os1"
      "evals pt env (Whole 0) (pstate os1 (lx_end_line q) (tree_toks a @ col # tree_toks b @ ts))
        (Some n2, pstate os2 (end_line a) (col # tree_toks b @ ts))"
    by (auto simp: yields_def)
  have "\<exists>n os'. yields pt env b 2 os2 (lx_end_line col) ts n os'"
    using d d1 n2(2) by (intro readable_whole [OF b e(2) _ te ts]) simp
  then obtain n3 os3 where n3: "shape_of n3 = meaning b" "depth os3 = depth os2"
      "evals pt env (Whole 2) (pstate os2 (lx_end_line col) (tree_toks b @ ts)) (Some n3, pstate os3 (end_line b) ts)"
    by (auto simp: yields_def)
  have colon: "expect_colon (pstate os2 (end_line a) (col # tree_toks b @ ts)) = pstate os2 (lx_end_line col) (tree_toks b @ ts)"
    using k by (simp add: expect_colon_def z_parse_expect_def take_token_def)
  have "loop_reads pt env (Cond c q a col b) m os line ts (ternary_node n1 n2 n3) os3"
    unfolding loop_reads_def
  proof (intro conjI allI impI)
    show "shape_of (ternary_node n1 n2 n3) = meaning (Cond c q a col b)"
      using n1 n2(1) n3(1) by (simp add: ternary_node_def loop_reads_def)
    show "depth os3 = depth os" using n2(2) n3(2) d1 by simp
    fix x assume x: "evals pt env (Turn m (lead_tok (Cond c q a col b)) (ternary_node n1 n2 n3))
        (pstate os3 (end_line (Cond c q a col b)) ts) x"
    have "evals pt env (Turn m (lead_tok c) n1) (pstate os1 (end_line c) (q # tree_toks a @ col # tree_toks b @ ts)) x"
      using k t m n2(3) n3(3) x colon
      by (rule_tac evals_cond [where a = "(Some n2, pstate os2 (end_line a) (col # tree_toks b @ ts))"
            and b = "(Some n3, pstate os3 (end_line b) ts)"]) (simp_all add: value_of_def)
    from loop_readsD [OF n1 this] show "evals pt env (Inner m) (pstate os line (tree_toks (Cond c q a col b) @ ts)) x"
      by simp
  qed
  then show "\<exists>n os'. loop_reads pt env (Cond c q a col b) m os line ts n os'" by blast
qed

lemma ordered_readable: "no_methods env \<Longrightarrow> ordered e \<Longrightarrow> readable pt env e"
proof (induction e)
  case (Leaf t)
  then show ?case by (simp add: readable_leaf)
next
  case (Paren o1 e c)
  then show ?case by (simp add: readable_paren)
next
  case (Prefix op e)
  then show ?case by (intro readable_prefix) simp_all
next
  case (Step e op)
  then show ?case by (intro readable_step) simp_all
next
  case (Infix l op r)
  then show ?case by (intro readable_infix) simp_all
next
  case (Cond c q a col b)
  then show ?case by (intro readable_cond) simp_all
qed

end
