(* ===== verification/ZcExprProps.thy ===== *)
theory ZcExprProps
  imports ZcExprTree
begin

text \<open>
  What the parser of expressions promises: it returns, it restores the depth of nesting, it reads integer
  literals to their values and operators to the tree that the precedences give, and what types the
  operators get.
\<close>

section \<open>Integer literals\<close>


lemma base_value_append: "base_value b (ds @ [c]) = base_value b ds * b + the (digit_value c)"
  by (simp add: base_value_def)

lemma base_value_show: "base_value 10 (show_nat n) = n"
proof (induction n rule: show_nat.induct)
  case (1 n)
  have d: "the (digit_value (char_of (48 + d))) = d" if "d < 10" for d :: nat
    using that by (simp add: digit_value_def isdigit_def)
  show ?case
  proof (cases "n < 10")
    case True
    then show ?thesis using base_value_append [of 10 "[]"] d [OF True]
      by (simp add: show_nat.simps [of n]) (simp add: base_value_def)
  next
    case False
    with 1 show ?thesis by (simp add: show_nat.simps [of n] base_value_append d)
  qed
qed













definition ex_lexeme :: "ZenTokenType \<Rightarrow> string \<Rightarrow> lexeme" where
  "ex_lexeme k s = \<lparr>tk_kind = k, tk_start = None, tk_len = length s, tk_line = 1, tk_col = 0, tk_file = [],
     lx_text = s, lx_end_line = 1\<rparr>"

lemma ex_lexeme_simps [simp]:
  "tk_kind (ex_lexeme k s) = k" "tk_len (ex_lexeme k s) = length s" "lx_text (ex_lexeme k s) = s"
  "tk_line (ex_lexeme k s) = 1" "lx_end_line (ex_lexeme k s) = 1"
  by (simp_all add: ex_lexeme_def)


section \<open>The parser returns\<close>

text \<open>
  Whatever the tokens are, the parser of expressions returns, and it does not put tokens back; fuel of
  five per token is enough and more changes nothing.
\<close>

theorem expression_parser_returns:
  assumes "shrinks pt"
  shows "\<exists>n st'. parse_expression pt env st = Some (n, st') \<and> length (ps_toks st') \<le> length (ps_toks st)
     \<and> (\<forall>k \<ge> fuel_for (Whole 0) st. parse k pt env (Whole 0) st = Some (n, st'))"
proof -
  have "ends (left st) (parse_expression pt env st)"
    unfolding parse_expression_def by (rule parse_ends [OF assms order_refl])
  then show ?thesis
    by (auto simp: ends_def left_def parse_expression_def intro: parse_more)
qed

definition ex_parts :: parser_parts where
  "ex_parts = \<lparr>pt_prompt = (\<lambda>st. (None, st)), pt_other = (\<lambda>st. (Some erroneous_node, advance st)),
     pt_tuple = (\<lambda>n st. (Some n, st)), pt_sizeof = (\<lambda>st. (erroneous_node, st)), pt_type = (\<lambda>st. (None, st)),
     pt_suffix = (\<lambda>t n st. (Some n, advance st)), pt_postfix = (\<lambda>t op n st. (Some n, True, advance st))\<rparr>"

lemma ex_parts_shrinks: "shrinks ex_parts"
  by (simp add: shrinks_def ex_parts_def)

theorem expression_parser_returns_witness:
  "\<forall>env os. \<exists>n st'.
     parse_expression ex_parts env (pstate os 1 [ex_lexeme TOK_OP ''-'', ex_lexeme TOK_LPAREN ''('', ex_lexeme TOK_INT ''7'']) =
       Some (n, st') \<and> length (ps_toks st') \<le> 3"
proof (intro allI)
  fix env os
  show "\<exists>n st'.
     parse_expression ex_parts env (pstate os 1 [ex_lexeme TOK_OP ''-'', ex_lexeme TOK_LPAREN ''('', ex_lexeme TOK_INT ''7'']) =
       Some (n, st') \<and> length (ps_toks st') \<le> 3"
    using expression_parser_returns [OF ex_parts_shrinks, of env
      "pstate os 1 [ex_lexeme TOK_OP ''-'', ex_lexeme TOK_LPAREN ''('', ex_lexeme TOK_INT ''7'']"]
    by auto
qed

section \<open>Operators\<close>








section \<open>Nesting\<close>

definition keeps_depth :: "parser_parts \<Rightarrow> bool" where
  "keeps_depth pt \<longleftrightarrow>
     (\<forall>st. depth (ps_ops (snd (pt_prompt pt st))) = depth (ps_ops st))
     \<and> (\<forall>st. depth (ps_ops (snd (pt_other pt st))) = depth (ps_ops st))
     \<and> (\<forall>n st. depth (ps_ops (snd (pt_tuple pt n st))) = depth (ps_ops st))
     \<and> (\<forall>st. depth (ps_ops (snd (pt_sizeof pt st))) = depth (ps_ops st))
     \<and> (\<forall>st. depth (ps_ops (snd (pt_type pt st))) = depth (ps_ops st))
     \<and> (\<forall>t n st. depth (ps_ops (snd (pt_suffix pt t n st))) = depth (ps_ops st))
     \<and> (\<forall>t op n st. depth (ps_ops (snd (snd (pt_postfix pt t op n st)))) = depth (ps_ops st))"

lemma depth_reference: "reference_to op t st = (w, st') \<Longrightarrow> depth st' = depth st"
  by (auto simp: reference_to_def split: prod.splits dest: depth_eqs)

lemma depth_rhs_argument: "overload_rhs_argument env t op sig rhs st = (w, n, st') \<Longrightarrow> depth st' = depth st"
  by (auto simp: overload_rhs_argument_def Let_def split: if_splits option.splits prod.splits node.splits list.splits
      dest!: depth_eqs depth_reference)

lemma depth_unary_self: "unary_self env sig p n st = (w, st') \<Longrightarrow> depth st' = depth st"
  by (auto simp: unary_self_def split: if_splits dest: depth_reference)

lemma depth_binary_self: "binary_self env sig p n st = (w, st') \<Longrightarrow> depth st' = depth st"
  by (auto simp: binary_self_def split: if_splits dest: depth_reference)

lemma depth_compound_self: "compound_self sig p n st = (w, st') \<Longrightarrow> depth st' = depth st"
  by (auto simp: compound_self_def split: if_splits dest: depth_reference)

lemma depth_overloaded: "overloaded_call env t op found l r st = (n, st') \<Longrightarrow> depth st' = depth st"
  by (auto simp: overloaded_call_def Let_def split: prod.splits if_splits
      dest!: depth_eqs depth_binary_self depth_rhs_argument)

lemma depth_infer: "infer_var n other st = (n', st') \<Longrightarrow> depth st' = depth st"
  by (auto simp: infer_var_def split: prod.splits if_splits option.splits dest!: depth_eqs)

lemma depth_check_operands: "check_operands env t op l r st = (ty, l', r', st') \<Longrightarrow> depth st' = depth st"
  by (auto simp: check_operands_def split: prod.splits if_splits option.splits
      dest!: depth_infer depth_comparison depth_mixed)

lemma depth_index_set: "index_set env t l v st = Some (n, st') \<Longrightarrow> depth st' = depth st"
  by (auto simp: index_set_def Let_def split: node.splits list.splits option.splits if_splits prod.splits
      dest!: depth_eqs)

lemma depth_finish: "finish_binary env t o1 op rt ch l r st = (n, st') \<Longrightarrow> depth st' = depth st"
  by (auto simp: finish_binary_def split: option.splits prod.splits if_splits
      dest: depth_index_set depth_overloaded depth_check_operands)

lemma depth_compound: "compound_node env t op l r st = (f, c, n, st') \<Longrightarrow> depth st' = depth st"
  by (auto simp: compound_node_def Let_def split: option.splits prod.splits if_splits
      dest!: depth_compound_self depth_rhs_argument)

lemma depth_move_right [simp]: "depth (move_right env rhs st) = depth st"
  by (auto simp: move_right_def split: option.split prod.split dest: depth_find_type)

lemma depth_wrap_trait: "wrap_trait env l r st = (n, st') \<Longrightarrow> depth st' = depth st"
  by (auto simp: wrap_trait_def Let_def split: option.splits prod.splits dest: assigned_type_depth)

lemma depth_assignment: "assignment_effects env op l r st = (n, st') \<Longrightarrow> depth st' = depth st"
  by (auto simp: assignment_effects_def split: if_splits dest: depth_wrap_trait)

lemma depth_build_binary: "build_binary env t op l r st = (n, st') \<Longrightarrow> depth st' = depth st"
  by (auto simp: build_binary_def Let_def split: prod.splits if_splits
      dest!: depth_assignment depth_finish depth_compound)

lemma depth_build_unary: "build_unary env t n st = (n', st') \<Longrightarrow> depth st' = depth st"
  by (auto simp: build_unary_def Let_def split: prod.splits option.splits
      dest!: depth_unary_type depth_unary_self depth_eqs)

text \<open>An answer, if there is one, that leaves the depth \<open>d\<close>.\<close>

definition at_depth :: "nat \<Rightarrow> ('a \<times> parse_state) option \<Rightarrow> bool" where
  "at_depth d x \<longleftrightarrow> (\<forall>r. x = Some r \<longrightarrow> depth (ps_ops (snd r)) = d)"

lemma at_depth_simps [simp]: "at_depth d None" "at_depth d (Some r) \<longleftrightarrow> depth (ps_ops (snd r)) = d"
  by (auto simp: at_depth_def)

lemma at_depth_if: "(c \<Longrightarrow> at_depth d x) \<Longrightarrow> (\<not> c \<Longrightarrow> at_depth d y) \<Longrightarrow> at_depth d (if c then x else y)"
  by simp

lemma at_depth_bind:
  "at_depth d x \<Longrightarrow> (\<And>r. depth (ps_ops (snd r)) = d \<Longrightarrow> at_depth d' (f r)) \<Longrightarrow> at_depth d' (Option.bind x f)"
  by (cases x) auto

lemma depth_state [simp]:
  "depth (ps_ops (advance st)) = depth (ps_ops st)" "depth (ps_ops (report_op d st)) = depth (ps_ops st)"
  "depth (ps_ops (take_token k t msg st)) = depth (ps_ops st)" "depth (ps_ops (as_error st)) = depth (ps_ops st)"
  "depth (ps_ops (await_error st)) = depth (ps_ops st)" "depth (ps_ops (deep_error st)) = depth (ps_ops st)"
  "depth (ps_ops (open_group st)) = depth (ps_ops st)" "depth (ps_ops (group_error st)) = depth (ps_ops st)"
  "depth (ps_ops (expect_colon st)) = depth (ps_ops st)" "depth (ps_ops (va_open st)) = depth (ps_ops st)"
  "depth (ps_ops (va_comma t st)) = depth (ps_ops st)" "depth (ps_ops (va_close t st)) = depth (ps_ops st)"
  "depth (ps_ops (enter st)) = Suc (depth (ps_ops st))"
  "depth (ps_ops (snd (leave r))) = depth (ps_ops (snd r)) - 1"
  by (simp_all add: advance_def report_op_def take_token_def as_error_def await_error_def deep_error_def open_group_def
      group_error_def expect_colon_def va_open_def va_comma_def va_close_def z_parse_expect_def Let_def enter_def
      leave_def set_ops_def split: list.split)

lemma depth_built [simp]:
  "depth (ps_ops (snd (unary_of env t r))) = depth (ps_ops (snd r))"
  "depth (ps_ops (snd (binary_of env t op l r))) = depth (ps_ops (snd r))"
  "depth (ps_ops (snd (int_of st))) = depth (ps_ops st)"
  by (auto simp: unary_of_def binary_of_def int_of_def set_ops_def parse_int_literal_def literal_diags_def Let_def
      split: prod.split dest: depth_build_unary depth_build_binary depth_eqs)

lemma keeps_depthD:
  assumes "keeps_depth pt"
  shows "depth (ps_ops (snd (pt_prompt pt s))) = depth (ps_ops s)"
    and "depth (ps_ops (snd (pt_other pt s))) = depth (ps_ops s)"
    and "depth (ps_ops (snd (pt_tuple pt n s))) = depth (ps_ops s)"
    and "depth (ps_ops (snd (pt_sizeof pt s))) = depth (ps_ops s)"
    and "pt_type pt s = (u, s1) \<Longrightarrow> depth (ps_ops s1) = depth (ps_ops s)"
    and "pt_suffix pt t n s = (v, s1) \<Longrightarrow> depth (ps_ops s1) = depth (ps_ops s)"
    and "pt_postfix pt t op n s = (v, go_on, s1) \<Longrightarrow> depth (ps_ops s1) = depth (ps_ops s)"
  using assms unfolding keeps_depth_def by (simp_all, (metis snd_conv)+)

lemma parse_at_depth:
  assumes "keeps_depth pt"
  shows "at_depth (depth (ps_ops st)) (parse k pt env task st)"
proof (induction k arbitrary: task st)
  case 0
  then show ?case by simp
next
  case (Suc k)
  have IH: "at_depth d (parse k pt env task st)" if "depth (ps_ops st) = d" for task st d
    using Suc.IH [of st task] that by simp
  note keeps = keeps_depthD [OF assms]
  show ?case
    by (cases task; simp only: parse.simps; intro at_depth_if at_depth_bind IH)
      (auto intro!: IH at_depth_bind at_depth_if split: prod.split option.split dest: keeps(5-7) simp: keeps(1-4))
qed

text \<open>
  Every parse of an expression leaves the depth of nesting as it found it, also where it reports an
  error, so that one expression cannot use up the depth of the next.
\<close>

theorem nesting_restored:
  assumes "keeps_depth pt" and "parse_expression pt env st = Some (n, st')"
  shows "os_depth (ps_ops st') = os_depth (ps_ops st)"
  using parse_at_depth [OF assms(1), of st "fuel_for (Whole 0) st" env "Whole 0"] assms(2)
  by (simp add: parse_expression_def)

lemma ex_parts_keep: "keeps_depth ex_parts"
  by (simp add: keeps_depth_def ex_parts_def)

theorem nesting_restored_witness:
  "\<forall>env os. \<exists>n st'.
     parse_expression ex_parts env (pstate os 1 [ex_lexeme TOK_OP ''-'', ex_lexeme TOK_LPAREN ''('', ex_lexeme TOK_INT ''7'']) =
       Some (n, st') \<and> os_depth (ps_ops st') = os_depth os"
proof (intro allI)
  fix env os
  let ?st = "pstate os 1 [ex_lexeme TOK_OP ''-'', ex_lexeme TOK_LPAREN ''('', ex_lexeme TOK_INT ''7'']"
  obtain n st' where r: "parse_expression ex_parts env ?st = Some (n, st')"
    using parse_ends [where env = env and task = "Whole 0" and st = ?st, OF ex_parts_shrinks order_refl]
    by (auto simp: ends_def parse_expression_def)
  from nesting_restored [OF ex_parts_keep r] have "os_depth (ps_ops st') = os_depth os" by simp
  with r show "\<exists>n st'. parse_expression ex_parts env ?st = Some (n, st') \<and> os_depth (ps_ops st') = os_depth os" by blast
qed

section \<open>Types of operands\<close>

lemma type_text_diags: "text_of_type t st = (s, st') \<Longrightarrow> os_diags st' = os_diags st"
  by (auto simp: text_of_type_def printed_text_def split: sum.splits)

text \<open>Two operands that may be compared: of equal types or numbers, or a case that is not checked.\<close>

definition comparable :: "ty \<Rightarrow> ty \<Rightarrow> string \<Rightarrow> string \<Rightarrow> node \<Rightarrow> node \<Rightarrow> bool" where
  "comparable l r t1 t2 lhs rhs \<longleftrightarrow>
     type_eq (Some l) (Some r) \<or> is_number l \<and> is_number r \<or> unchecked_comparison l r t1 t2 lhs rhs"

text \<open>
  For operands that are no variables and whose types are no opaque aliases, a comparison has type \<open>int\<close>
  and is reported exactly when the operands are not comparable; every other operator has the type of its
  left operand, and no mismatch is reported, whatever the type of the right one.
\<close>

theorem operand_types:
  assumes "nd_kind lhs \<noteq> NODE_EXPR_VAR" "nd_kind rhs \<noteq> NODE_EXPR_VAR" "nd_type lhs = Some l" "nd_type rhs = Some r"
    and "\<not> opaque_alias l" "\<not> opaque_alias r" "os_depth st < MAX_RECURSION_DEPTH"
    and "type_to_string (Some l) = Inr t1" "type_to_string (Some r) = Inr t2"
    and "check_operands env op_tok op lhs rhs st = (ty, lhs', rhs', st')"
  shows "lhs' = lhs \<and> rhs' = rhs
     \<and> (is_comparison_op op \<longrightarrow>
          map_option ty_kind ty = Some TYPE_INT
          \<and> (os_diags st' = os_diags st \<longleftrightarrow> comparable l r t1 t2 lhs rhs))
     \<and> (\<not> is_comparison_op op \<longrightarrow> ty = Some l \<and> st' = st)"
proof -
  have base: "opaque_alias_base l = l" "opaque_alias_base r = r"
    using assms(5,6) by (auto simp: opaque_alias_base.simps)
  have compat: "check_opaque_alias_compat env (os_depth s) (Some l) (Some r)" if "os_depth s = os_depth st" for s
    using assms(5-7) that by (simp add: check_opaque_alias_compat.simps)
  have ok: "unchecked_comparison l r t1 t2 lhs rhs \<or> type_eq (Some l) (Some r) \<or> compared_as_numbers env d l r
      \<longleftrightarrow> comparable l r t1 t2 lhs rhs" for d
    by (auto simp: compared_as_numbers_def base comparable_def simp del: type_eq.simps)
  have texts: "text_of_type (Some l) s = (t1, s)" "text_of_type (Some r) s = (t2, s)" for s
    using assms(8,9) by (simp_all add: text_of_type_def printed_text_def)
  have comparison: "map_option ty_kind ty' = Some TYPE_INT \<and> (os_diags s' = os_diags st \<longleftrightarrow> comparable l r t1 t2 lhs rhs)"
    if c: "comparison_type env op_tok l r lhs rhs st = (ty', s')" for ty' s'
  proof -
    have "comparison_type env op_tok l r lhs rhs st =
        (let st1 = st\<lparr>os_next := Suc (os_next st)\<rparr>; int1 = type_new (os_next st) TYPE_INT
         in if comparable l r t1 t2 lhs rhs then (Some int1, st1)
            else if pc_mode_lsp (os_ctx st1) then
              (case new_type (\<lambda>a. type_new a TYPE_INT)
                      (emit (Op_warning op_tok (snprintf_into MAX_ERROR_MSG_LEN (''LSP: '' @ msg_cannot_compare t1 t2)) None) st1) of
                 (int2, st') \<Rightarrow> (Some int2, st'))
            else
              (Some int1, emit (Op_fatal op_tok (msg_cannot_compare t1 t2)
                 (Some ''Both operands must have compatible types for comparison'')) st1))"
      unfolding comparison_type_def new_type_def texts prod.case ok Let_def ..
    then show ?thesis using c
      by (auto simp: Let_def new_type_def emit_def type_new_def split: if_splits)
  qed
  show ?thesis
    using assms(1-4,10) compat [of st] comparison
    by (auto simp: check_operands_def split: if_splits prod.splits simp del: type_eq.simps)
qed

definition ex_operand :: "TypeKind \<Rightarrow> node" where
  "ex_operand k = Literal (op_meta TOKEN_UNKNOWN (Some (type_new 1 k))) LITERAL_INT 1 (Finite 0 0) None"

lemma ex_type_texts:
  "type_to_string (Some (type_new 1 TYPE_I32)) = Inr ''int32_t''" "type_to_string (Some (type_new 1 TYPE_F64)) = Inr ''double''"
  by code_simp+

theorem operand_types_witness:
  "\<forall>env t st. check_operands env t ''+'' (ex_operand TYPE_I32) (ex_operand TYPE_F64) (st\<lparr>os_depth := 0\<rparr>) =
     (Some (type_new 1 TYPE_I32), ex_operand TYPE_I32, ex_operand TYPE_F64, st\<lparr>os_depth := 0\<rparr>)"
proof (intro allI)
  fix env t st
  obtain ty l r st' where c: "check_operands env t ''+'' (ex_operand TYPE_I32) (ex_operand TYPE_F64) (st\<lparr>os_depth := 0\<rparr>) =
      (ty, l, r, st')"
    by (cases "check_operands env t ''+'' (ex_operand TYPE_I32) (ex_operand TYPE_F64) (st\<lparr>os_depth := 0\<rparr>)") blast
  have "\<not> is_comparison_op ''+''" by (simp add: is_comparison_op_def)
  with operand_types [OF _ _ _ _ _ _ _ ex_type_texts c] c
  show "check_operands env t ''+'' (ex_operand TYPE_I32) (ex_operand TYPE_F64) (st\<lparr>os_depth := 0\<rparr>) =
     (Some (type_new 1 TYPE_I32), ex_operand TYPE_I32, ex_operand TYPE_F64, st\<lparr>os_depth := 0\<rparr>)"
    by (simp add: ex_operand_def op_meta_def type_new_def MAX_RECURSION_DEPTH_def)
qed

end
