(* ===== verification/ZcExprEmitProps.thy ===== *)
theory ZcExprEmitProps
  imports ZcExprEmit ZcExprProps
begin

text \<open>
  The C text of operators: a C reader gives back the operators and operands of the node, so that what
  the parser has read keeps its meaning. Raw strings are read back by the escapes of C.
\<close>

section \<open>A reader of C expressions\<close>



definition opens_with :: "string \<Rightarrow> string \<Rightarrow> bool" where
  "opens_with p s \<longleftrightarrow> take (length p) s = p"

definition expect_text :: "string \<Rightarrow> (shape \<times> string) option \<Rightarrow> (shape \<times> string) option" where
  "expect_text p r = (case r of None \<Rightarrow> None | Some (x, s) \<Rightarrow> if opens_with p s then Some (x, drop (length p) s) else None)"




section \<open>The text of a shape\<close>




section \<open>Reading numbers back\<close>

lemma opens_with_append [simp]: "opens_with p (p @ s)" by (simp add: opens_with_def)

lemma digit_dec: "isdigit c \<longleftrightarrow> base_digit 10 c"
  by (auto simp: base_digit_def digit_value_def isdigit_def)




section \<open>Reading shapes back\<close>

text \<open>What a text may be followed by: no digit and no letter of a suffix.\<close>

definition safe_end :: "string \<Rightarrow> bool" where
  "safe_end rs \<longleftrightarrow> \<not> isdigit (at rs 0) \<and> \<not> opens_with ''U'' rs"

lemma safe_end_simps [simp]:
  "safe_end ('')'' @ rs)" "safe_end (CHR '')'' # rs)" "safe_end (CHR '' '' # rs)" "safe_end (CHR ''+'' # rs)"
  "safe_end (CHR ''-'' # rs)" "safe_end []"
  by (simp_all add: safe_end_def isdigit_def opens_with_def)







lemma opens_with_Cons [simp]: "opens_with (c # p) (d # s) \<longleftrightarrow> c = d \<and> opens_with p s" "opens_with [] s" "\<not> opens_with (c # p) []"
  by (auto simp: opens_with_def)

lemma expect_text_simps [simp]:
  "expect_text p (Some (x, p @ s)) = Some (x, s)" "expect_text [c] (Some (x, c # s)) = Some (x, s)"
  by (simp_all add: expect_text_def)










section \<open>What is emitted\<close>


lemma out_text_simps [simp]:
  "out_text [] = []" "out_text (Out s # os) = s @ out_text os" "out_text (os @ ps) = out_text os @ out_text ps"
  by (simp_all add: out_text_def)














section \<open>Strings\<close>

text \<open>A string literal of C behind its opening quote: the characters, and what follows the closing one.\<close>

fun c_string :: "string \<Rightarrow> (string \<times> string) option" where
  "c_string [] = None"
| "c_string (c # cs) =
     (if c = DQUOTE then Some ([], cs)
      else if c = CHR 0x0A then None
      else if c = BSLASH then
        (case cs of
           [] \<Rightarrow> None
         | d # ds \<Rightarrow>
             (case map_of [(BSLASH, BSLASH), (DQUOTE, DQUOTE), (CHR ''n'', CHR 0x0A), (CHR ''r'', CHR 0x0D), (CHR ''t'', CHR 0x09)] d of
                None \<Rightarrow> None
              | Some x \<Rightarrow> map_option (\<lambda>(s, r). (x # s, r)) (c_string ds)))
      else map_option (\<lambda>(s, r). (c # s, r)) (c_string cs))"

lemma c_string_raw: "c_string (concat (map raw_char s) @ DQUOTE # rs) = Some (s, rs)"
  by (induction s) (auto simp: raw_char_def)

text \<open>
  C14: whatever characters a raw string has, C reads them back from the literal that is emitted for it.
\<close>

theorem raw_strings_read_back:
  "\<exists>body. codegen_expression env d (Literal m LITERAL_RAW_STRING v x (Some s)) =
       (if Suc d > MAX_RECURSION_DEPTH then [Out_panic (m_token m) ''Recursion limit exceeded'']
        else [Out (DQUOTE # body)])
     \<and> c_string body = Some (s, [])"
  using c_string_raw [of s "[]"]
  by (intro exI [of _ "concat (map raw_char s) @ [DQUOTE]"])
    (simp add: codegen_expression.simps [of env d] codegen_literal_expr_def Let_def)

end
