(* ===== verification/ZcStmtEmit.thy ===== *)
theory ZcStmtEmit
  imports ZcExprEmit
begin

text \<open>
  The C text of statements: \<open>codegen_node_single\<close> and \<open>codegen_walker\<close> (\<open>src/src/codegen/codegen_stmt.c\<close>)
  with the handlers of \<open>codegen_stmt_handlers.c\<close>. The deferred statements of the open blocks are a stack of
  the state; what a block, a loop or a function leaves is emitted again at every way out of it. The
  handlers of the other kinds of statements are an argument.
\<close>

section \<open>State\<close>

text \<open>A deferred statement, or the release of a variable: a raw statement with a token for its position.\<close>

datatype pending = Deferred "node option" | Drop_of token string

text \<open>\<open>ss_defers\<close> has the innermost first, so \<open>defer_count\<close> is its length; \<open>ss_loops\<close> has for each open loop
  the number of deferred statements before it; \<open>ss_line\<close> is the line of the last mapping to the source.\<close>

record stmt_state =
  ss_defers :: "pending list"
  ss_loops :: "nat list"
  ss_line :: int

text \<open>\<open>se_path\<close> escapes the name of a file, \<open>se_raw\<close> replaces captured names in raw text, \<open>se_after\<close> releases
  the closures of a statement, \<open>se_discard\<close> is the number of its temporary.\<close>

record stmt_env =
  se_cg :: cg_env
  se_debug :: bool
  se_path :: "string \<Rightarrow> string"
  se_raw :: "string \<Rightarrow> string"
  se_ret :: "string option"
  se_ret_info :: "ty option"
  se_self_ptr :: bool
  se_type_str :: "node \<Rightarrow> string option"
  se_static :: "node \<Rightarrow> bool"
  se_thread :: "node \<Rightarrow> bool"
  se_step :: "node \<Rightarrow> string option"
  se_literal_message :: "node \<Rightarrow> bool"
  se_after :: "node \<Rightarrow> c_out list"
  se_discard :: "node \<Rightarrow> nat"
  se_other :: "node \<Rightarrow> stmt_state \<Rightarrow> c_out list \<times> stmt_state"

type_synonym stmt_out = "stmt_state \<Rightarrow> (c_out list \<times> stmt_state) option"

definition emits :: "c_out list \<Rightarrow> stmt_out" where "emits o1 = (\<lambda>st. Some (o1, st))"

definition emit_str :: "string \<Rightarrow> stmt_out" where "emit_str s = emits [Out s]"

definition updates :: "(stmt_state \<Rightarrow> stmt_state) \<Rightarrow> stmt_out" where "updates f = (\<lambda>st. Some ([], f st))"

fun emit_all :: "stmt_out list \<Rightarrow> stmt_out" where
  "emit_all [] = (\<lambda>st. Some ([], st))"
| "emit_all (m # ms) =
     (\<lambda>st. case m st of
        None \<Rightarrow> None
      | Some (o1, st1) \<Rightarrow> map_option (\<lambda>(o2, st2). (o1 @ o2, st2)) (emit_all ms st1))"

section \<open>Lines of the source\<close>

definition should_emit_source_mapping :: "NodeType \<Rightarrow> bool" where
  "should_emit_source_mapping k \<longleftrightarrow>
     node_type_code k < node_type_code NODE_REPL_PRINT \<and> k \<notin> {NODE_BLOCK, NODE_EXPR_UNARY, NODE_FIELD}"

definition emit_source_mapping :: "stmt_env \<Rightarrow> bool \<Rightarrow> NodeType \<Rightarrow> token \<Rightarrow> stmt_out" where
  "emit_source_mapping env duplicate k t =
     (\<lambda>st. if \<not> se_debug env \<or> \<not> should_emit_source_mapping k \<or> \<not> duplicate \<and> int (tk_line t) = ss_line st
           then Some ([], st)
           else if tk_start t = None \<or> tk_file t = [] then
             Some ([Out_warning t (''Encountered source mapping issue for node type ''
                      @ show_nat (node_type_code k) @ '', please report this issue.'')], st)
           else
             Some (if ce_misra (se_cg env) then []
                   else [Out (NL # ''#line '' @ show_nat (tk_line t) @ '' '' @ [DQUOTE] @ se_path env (tk_file t) @ [DQUOTE, NL])],
                   st\<lparr>ss_line := int (tk_line t)\<rparr>))"

section \<open>Expressions, types and raw text in statements\<close>

definition expr_out :: "stmt_env \<Rightarrow> node list \<Rightarrow> c_out list" where
  "expr_out env ns = codegen_child (se_cg env) 0 ns"

definition bare_out :: "stmt_env \<Rightarrow> node list \<Rightarrow> c_out list" where
  "bare_out env ns = (case ns of [] \<Rightarrow> [] | n # _ \<Rightarrow> codegen_expression_bare (se_cg env) 0 n)"

definition auto_type :: "stmt_env \<Rightarrow> node list \<Rightarrow> c_out list" where
  "auto_type env ns = emit_auto_type (se_cg env) (case ns of [] \<Rightarrow> None | n # _ \<Rightarrow> Some n) (expr_out env ns)"

definition emit_raw_with_captures :: "stmt_env \<Rightarrow> string \<Rightarrow> string" where
  "emit_raw_with_captures env s = (if ce_captures (se_cg env) = [] then s else se_raw env s)"

text \<open>Whether a type has to be dropped, by its definition.\<close>

definition drops :: "stmt_env \<Rightarrow> string \<Rightarrow> bool" where
  "drops env t \<longleftrightarrow> Option.bind (ce_def (se_cg env) (strip_struct t)) cd_drop = Some True"

text \<open>\<open>emit_c_decl\<close>: the declarator of a name with the text of its type.\<close>

definition generic_decl :: "stmt_env \<Rightarrow> string \<Rightarrow> string \<Rightarrow> nat \<Rightarrow> string" where
  "generic_decl env t name g =
     (let r = drop g t;
          mangled = (case strstr r ''>'' of
                       None \<Rightarrow> None
                     | Some a \<Rightarrow>
                         if g + (a - 1) + 2 < 256 then
                           (let c = snprintf_into 256 (take g t @ ''__'' @ take (a - 1) (drop 1 r))
                            in if ce_def (se_cg env) c = None then None else Some (c, a))
                         else None)
      in (case mangled of
            None \<Rightarrow> take g t @ '' '' @ name
          | Some (c, a) \<Rightarrow> c @ '' '' @ name @ (if at r (a + 1) = CHR ''*'' then ''*'' else []))
         @ (case strstr t ''['' of None \<Rightarrow> [] | Some b \<Rightarrow> drop b t))"

definition emit_c_decl :: "stmt_env \<Rightarrow> string \<Rightarrow> string \<Rightarrow> string" where
  "emit_c_decl env t name =
     (case strstr t ''(*'' of
        Some f \<Rightarrow>
          (let e = (case strstr (drop f t) '')'' of Some j \<Rightarrow> f + j | None \<Rightarrow> f + 2)
           in take e t @ name @ drop e t)
      | None \<Rightarrow>
          (case (strstr t ''<'', strstr t ''['') of
             (Some g, None) \<Rightarrow> generic_decl env t name g
           | (Some g, Some b) \<Rightarrow> if g < b then generic_decl env t name g else take b t @ '' '' @ name @ drop b t
           | (None, Some b) \<Rightarrow> take b t @ '' '' @ name @ drop b t
           | (None, None) \<Rightarrow> t @ '' '' @ name))"

section \<open>Deferred statements\<close>

definition MAX_DEFER :: nat where "MAX_DEFER = 1024"

definition push_defer :: "pending \<Rightarrow> stmt_out" where
  "push_defer p =
     updates (\<lambda>st. if length (ss_defers st) < MAX_DEFER then st\<lparr>ss_defers := p # ss_defers st\<rparr> else st)"

definition handle_node_defer :: "node list \<Rightarrow> stmt_out" where
  "handle_node_defer ss = push_defer (Deferred (case ss of [] \<Rightarrow> None | s # _ \<Rightarrow> Some s))"

text \<open>The generator of a statement, with less fuel, is the argument \<open>g\<close> of what follows.\<close>

definition emit_pending :: "stmt_env \<Rightarrow> (node \<Rightarrow> stmt_out) \<Rightarrow> pending \<Rightarrow> stmt_out" where
  "emit_pending env g p =
     (case p of
        Deferred None \<Rightarrow> emits []
      | Deferred (Some d) \<Rightarrow> emit_all [emit_source_mapping env True (nd_kind d) (nd_token d), g d]
      | Drop_of t s \<Rightarrow>
          emit_all [emit_source_mapping env True NODE_RAW_STMT t,
            emit_str (emit_raw_with_captures env s @ [NL])])"

definition emit_defers_down_to :: "stmt_env \<Rightarrow> (node \<Rightarrow> stmt_out) \<Rightarrow> nat \<Rightarrow> stmt_out" where
  "emit_defers_down_to env g boundary =
     (\<lambda>st. emit_all (map (emit_pending env g) (take (length (ss_defers st) - boundary) (ss_defers st))) st)"

definition codegen_walker :: "stmt_env \<Rightarrow> (node \<Rightarrow> stmt_out) \<Rightarrow> node list \<Rightarrow> stmt_out" where
  "codegen_walker env g ns =
     emit_all (map (\<lambda>n. emit_all [emit_source_mapping env False (nd_kind n) (nd_token n), g n]) ns)"

definition single :: "(node \<Rightarrow> stmt_out) \<Rightarrow> node list \<Rightarrow> stmt_out" where
  "single g ns = (case ns of [] \<Rightarrow> emits [] | n # _ \<Rightarrow> g n)"

definition handle_node_block :: "stmt_env \<Rightarrow> (node \<Rightarrow> stmt_out) \<Rightarrow> node list \<Rightarrow> stmt_out" where
  "handle_node_block env g ss =
     (\<lambda>st. let saved = length (ss_defers st)
           in emit_all
                [emit_str (''{'' @ [NL]), codegen_walker env g ss, emit_defers_down_to env g saved,
                 updates (\<lambda>st'. st'\<lparr>ss_defers := drop (length (ss_defers st') - saved) (ss_defers st')\<rparr>),
                 emit_str (''}'' @ [NL])] st)"

section \<open>Control flow\<close>

definition is_block :: "node list \<Rightarrow> bool" where
  "is_block ns \<longleftrightarrow> (case ns of n # _ \<Rightarrow> nd_kind n = NODE_BLOCK | [] \<Rightarrow> False)"

definition braced :: "bool \<Rightarrow> stmt_out \<Rightarrow> stmt_out" where
  "braced b m = (if b then emit_all [emit_str (''{'' @ [NL]), m, emit_str (NL # ''}'')] else m)"

definition handle_node_if ::
    "stmt_env \<Rightarrow> (node \<Rightarrow> stmt_out) \<Rightarrow> node list \<Rightarrow> node list \<Rightarrow> node list \<Rightarrow> stmt_out" where
  "handle_node_if env g c thn els =
     (let misra = ce_misra (se_cg env)
      in emit_all
           [emits ([Out ''if (''] @ expr_out env c @ [Out '') '']),
            braced (misra \<and> \<not> is_block thn) (single g thn),
            (case els of
               e # _ \<Rightarrow>
                 emit_all [emit_source_mapping env False (nd_kind e) (nd_token e), emit_str '' else '',
                   braced (misra \<and> \<not> is_block els) (g e)]
             | [] \<Rightarrow> if misra then emit_str '' else { } /* MISRA */ '' else emits [])])"

definition codegen_loop_enter :: "string option \<Rightarrow> stmt_out" where
  "codegen_loop_enter label =
     emit_all
       [emits (case label of None \<Rightarrow> [] | Some l \<Rightarrow> [Out (l @ '':;'' @ [NL])]),
        updates (\<lambda>st. st\<lparr>ss_loops := length (ss_defers st) # ss_loops st\<rparr>)]"

definition codegen_loop_body ::
    "stmt_env \<Rightarrow> (node \<Rightarrow> stmt_out) \<Rightarrow> node list \<Rightarrow> string option \<Rightarrow> bool \<Rightarrow> stmt_out" where
  "codegen_loop_body env g body label misra_wrap =
     (case label of
        Some l \<Rightarrow>
          emit_all [emit_str (''{'' @ [NL]), single g body, emit_str (''__continue_'' @ l @ '':;'' @ [NL]), emit_str (''}'' @ [NL])]
      | None \<Rightarrow> braced (misra_wrap \<and> ce_misra (se_cg env) \<and> \<not> is_block body) (single g body))"

definition codegen_loop_exit :: "string option \<Rightarrow> stmt_out" where
  "codegen_loop_exit label =
     emit_all
       [updates (\<lambda>st. st\<lparr>ss_loops := drop 1 (ss_loops st)\<rparr>),
        emits (case label of None \<Rightarrow> [] | Some l \<Rightarrow> [Out (''__break_'' @ l @ '':;'' @ [NL])])]"

definition emit_loop ::
    "stmt_env \<Rightarrow> (node \<Rightarrow> stmt_out) \<Rightarrow> c_out list \<Rightarrow> node list \<Rightarrow> string option \<Rightarrow> bool \<Rightarrow> stmt_out" where
  "emit_loop env g head body label misra_wrap =
     emit_all
       [codegen_loop_enter label, emits head, codegen_loop_body env g body label misra_wrap,
        codegen_loop_exit label]"

definition for_init :: "stmt_env \<Rightarrow> node list \<Rightarrow> c_out list" where
  "for_init env init =
     (case init of
        VarDecl m name ini t # _ \<Rightarrow>
          (case (case se_type_str env (VarDecl m name ini t) of
                   None \<Rightarrow> None | Some s \<Rightarrow> if s = ''__auto_type'' then None else Some s) of
             Some s \<Rightarrow> [Out (s @ '' '' @ field_text name @ '' = ('' @ s @ '')('')] @ expr_out env ini @ [Out '')'']
           | None \<Rightarrow> auto_type env ini @ [Out ('' '' @ field_text name @ '' = '')] @ expr_out env ini)
      | _ \<Rightarrow> expr_out env init)"

definition for_range_init :: "stmt_env \<Rightarrow> string option \<Rightarrow> node list \<Rightarrow> c_out list" where
  "for_range_init env v start =
     (if uses_tcc (se_cg env) then [Out ''__typeof__((''] @ expr_out env start @ [Out (CHR '')'' # '') '' @ field_text v @ '' = '')]
      else [Out (''ZC_AUTO '' @ field_text v @ '' = '')])
     @ expr_out env start"

definition for_range_test :: "stmt_env \<Rightarrow> string option \<Rightarrow> string option \<Rightarrow> bool \<Rightarrow> node list \<Rightarrow> c_out list" where
  "for_range_test env v step inclusive end_node =
     [Out (field_text v
        @ (if (case step of None \<Rightarrow> False | Some s \<Rightarrow> at s 0 = CHR ''-'')
           then (if inclusive then '' >= '' else '' > '') else (if inclusive then '' <= '' else '' < '')))]
     @ expr_out env end_node"

definition for_range_step :: "string option \<Rightarrow> string option \<Rightarrow> c_out list" where
  "for_range_step v step =
     [Out (field_text v @ (case step of Some s \<Rightarrow> '' += '' @ s | None \<Rightarrow> ''++''))]"

definition for_head :: "c_out list \<Rightarrow> c_out list \<Rightarrow> c_out list \<Rightarrow> c_out list" where
  "for_head i c s = [Out ''for (''] @ i @ [Out ''; ''] @ c @ [Out ''; ''] @ s @ [Out '') '']"

text \<open>The deferred statements since the innermost loop began, whatever loop the label names.\<close>

definition loop_defers :: "stmt_env \<Rightarrow> (node \<Rightarrow> stmt_out) \<Rightarrow> stmt_out" where
  "loop_defers env g =
     (\<lambda>st. case ss_loops st of [] \<Rightarrow> Some ([], st) | b # _ \<Rightarrow> emit_defers_down_to env g b st)"

definition handle_break :: "stmt_env \<Rightarrow> (node \<Rightarrow> stmt_out) \<Rightarrow> string option \<Rightarrow> stmt_out" where
  "handle_break env g label =
     emit_all
       [loop_defers env g,
        emit_str ((case label of Some l \<Rightarrow> ''goto __break_'' @ l | None \<Rightarrow> ''break'') @ '';'' @ [NL])]"

definition handle_continue :: "stmt_env \<Rightarrow> (node \<Rightarrow> stmt_out) \<Rightarrow> string option \<Rightarrow> stmt_out" where
  "handle_continue env g label =
     emit_all
       [loop_defers env g,
        emit_str ((case label of Some l \<Rightarrow> ''goto __continue_'' @ l | None \<Rightarrow> ''continue'') @ '';'' @ [NL])]"

section \<open>Return\<close>

fun is_place_expression :: "nat \<Rightarrow> node \<Rightarrow> bool" where
  "is_place_expression depth (VarRef m v s) = (depth \<le> 32)"
| "is_place_expression depth (Member m (t # ts) f) = (depth \<le> 32 \<and> is_place_expression (depth + 1) t)"
| "is_place_expression depth (Index m (a # as) i e) = (depth \<le> 32 \<and> is_place_expression (depth + 1) a)"
| "is_place_expression depth (Unary m op xs) = (depth \<le> 32 \<and> op = Some ''*'')"
| "is_place_expression depth _ = False"

definition is_self :: "node \<Rightarrow> bool" where
  "is_self n \<longleftrightarrow> (case n of VarRef _ (Some v) _ \<Rightarrow> v = ''self'' | _ \<Rightarrow> False)"

text \<open>The name of a slice in the type that the function returns.\<close>

definition slice_return :: "stmt_env \<Rightarrow> node list \<Rightarrow> string option" where
  "slice_return env value =
     (case (value, se_ret env) of
        (ArrayLiteral _ _ # _, Some r) \<Rightarrow> if take 7 r = ''Slice__'' then Some r else None
      | _ \<Rightarrow> None)"

definition emit_slice_return :: "stmt_env \<Rightarrow> string \<Rightarrow> node list \<Rightarrow> c_out list" where
  "emit_slice_return env r es =
     (let t = drop 7 r; n = show_nat (length es)
      in [Out (''{ '' @ t @ '' *_tmp_arr = ('' @ t @ ''*)malloc('' @ n @ '' * sizeof('' @ t @ ''));'' @ [NL])]
         @ concat (map (\<lambda>(i, e). [Out (''_tmp_arr['' @ show_nat i @ ''] = '')] @ expr_out env [e] @ [Out ('';'' @ [NL])])
             (enumerate 0 es))
         @ [Out (if ce_cpp (se_cg env) then ''return ('' @ r @ ''){_tmp_arr, '' @ n @ '', '' @ n @ ''};'' @ [NL]
                 else ''return ('' @ r @ ''){.data = _tmp_arr, .len = '' @ n @ '', .cap = '' @ n @ ''};'' @ [NL])]
         @ [Out (''}'' @ [NL])])"

text \<open>A place with a value to drop, which is moved out of it.\<close>

definition moved_return :: "stmt_env \<Rightarrow> node list \<Rightarrow> bool" where
  "moved_return env value =
     (case value of
        [] \<Rightarrow> False
      | v # _ \<Rightarrow>
          is_place_expression 0 v
          \<and> (case ce_infer (se_cg env) v of None \<Rightarrow> False | Some t \<Rightarrow> drops env t))"

definition move_text :: "stmt_env \<Rightarrow> node \<Rightarrow> c_out list" where
  "move_text env v =
     (let x = expr_out env [v];
          self = is_self v \<and> se_self_ptr env;
          star = (if self then [Out ''*''] else [])
      in case v of
           VarRef _ name _ \<Rightarrow>
             (if uses_tcc (se_cg env) then [Out ''__typeof__(''] @ x @ [Out '')''] else [Out ''ZC_AUTO''])
             @ [Out '' _z_ret_mv = ''] @ star @ x @ [Out ''; memset(&''] @ star @ x @ [Out '', 0, sizeof(_z_ret_mv)); '']
             @ (if self then [] else [Out (''__z_drop_flag_'' @ field_text name @ '' = 0; '')])
         | _ \<Rightarrow>
             [Out ''__typeof__(&(''] @ x @ [Out '')) _z_ret_place = &(''] @ x
             @ [Out ''); ZC_AUTO_INIT(_z_ret_mv, *_z_ret_place); '', Out ''memset(_z_ret_place, 0, sizeof(_z_ret_mv)); ''])"

definition self_star :: "stmt_env \<Rightarrow> node list \<Rightarrow> c_out list" where
  "self_star env value =
     (case value of v # _ \<Rightarrow> if is_self v \<and> se_self_ptr env then [Out ''*''] else [] | [] \<Rightarrow> [])"

definition ret_type_text :: "stmt_env \<Rightarrow> node list \<Rightarrow> c_out list" where
  "ret_type_text env value =
     (case se_ret_info env of
        Some t \<Rightarrow> printed_type (type_to_c_string (Some t) (ce_misra (se_cg env))) (\<lambda>s. [Out s])
      | None \<Rightarrow>
          (case se_ret env of
             Some r \<Rightarrow> if r \<noteq> ''void'' \<and> r \<noteq> ''unknown'' then [Out r] else auto_type env value
           | None \<Rightarrow> auto_type env value))"

definition address_of_self :: "node list \<Rightarrow> node option" where
  "address_of_self value =
     (case value of
        Unary _ (Some op) (x # _) # _ \<Rightarrow> if op = ''&'' \<and> is_self x then Some x else None
      | _ \<Rightarrow> None)"

definition misra_end :: string where "misra_end = ''goto _misra_end_of_func;'' @ [NL]"

definition plain_return :: "stmt_env \<Rightarrow> node list \<Rightarrow> c_out list" where
  "plain_return env value =
     (let misra = ce_misra (se_cg env)
      in (if misra then
            (case se_ret env of
               Some r \<Rightarrow> if r \<noteq> ''void'' then [Out ''_misra_ret = ''] else []
             | None \<Rightarrow> [])
          else [Out ''return ''])
         @ (case (self_star env value, address_of_self value) of
              ([], Some x) \<Rightarrow> expr_out env [x]
            | (star, _) \<Rightarrow> star @ expr_out env value)
         @ [Out ('';'' @ [NL])] @ (if misra then [Out misra_end] else []))"

definition handle_return :: "stmt_env \<Rightarrow> (node \<Rightarrow> stmt_out) \<Rightarrow> node list \<Rightarrow> stmt_out" where
  "handle_return env g value =
     (\<lambda>st.
       let misra = ce_misra (se_cg env); defers = emit_defers_down_to env g 0
       in case slice_return env value of
            Some r \<Rightarrow> Some (emit_slice_return env r (case value of ArrayLiteral _ es # _ \<Rightarrow> es | _ \<Rightarrow> []), st)
          | None \<Rightarrow>
              if moved_return env value then
                emit_all
                  [emit_str (if misra then ''_misra_ret = ({ '' else ''return ({ ''),
                   emits (case value of [] \<Rightarrow> [] | v # _ \<Rightarrow> move_text env v), defers,
                   emit_str (''_z_ret_mv; });'' @ [NL]), emits (if misra then [Out misra_end] else [])] st
              else if ss_defers st \<noteq> [] \<and> value \<noteq> [] then
                emit_all
                  [emits ([Out ''{ ''] @ ret_type_text env value @ [Out '' _z_ret = ''] @ self_star env value
                     @ expr_out env value @ [Out ''; '']),
                   defers,
                   emit_str ((if misra then ''_misra_ret = _z_ret; goto _misra_end_of_func; }'' else ''return _z_ret; }'') @ [NL])] st
              else if ss_defers st \<noteq> [] then
                emit_all [defers, emit_str (if misra then misra_end else ''return;'' @ [NL])] st
              else Some (plain_return env value, st))"

section \<open>Declarations\<close>

definition flag_text :: "string \<Rightarrow> string" where
  "flag_text name = ''int __z_drop_flag_'' @ name @ '' = 1; ''"

definition drop_text :: "string \<Rightarrow> string \<Rightarrow> string" where
  "drop_text name t = ''if (__z_drop_flag_'' @ name @ '') '' @ strip_struct t @ ''__Drop__glue(&'' @ name @ '');''"

definition closure_drop_text :: "string \<Rightarrow> string" where
  "closure_drop_text name =
     ''if (__z_drop_flag_'' @ name @ '' && '' @ name @ ''.drop) '' @ name @ ''.drop('' @ name @ ''.ctx);''"

text \<open>The type text of a declaration from its node, where it has one that is not \<open>void*\<close> or unknown.\<close>

definition decl_type :: "stmt_env \<Rightarrow> node \<Rightarrow> str_fault + string option" where
  "decl_type env n =
     (let known = (\<lambda>s. if s \<noteq> ''void*'' \<and> s \<noteq> ''unknown'' then Some s else None)
      in case nd_type n of
           Some t \<Rightarrow>
             (case type_to_c_string (Some t) (ce_misra (se_cg env)) of Inl e \<Rightarrow> Inl e | Inr s \<Rightarrow> Inr (known s))
         | None \<Rightarrow>
             Inr (case se_type_str env n of
                    None \<Rightarrow> None | Some s \<Rightarrow> if s = ''__auto_type'' then None else known s))"

definition is_int_type :: "TypeKind \<Rightarrow> bool" where
  "is_int_type k \<longleftrightarrow>
     k \<in> {TYPE_CHAR, TYPE_I8, TYPE_U8, TYPE_I16, TYPE_U16, TYPE_I32, TYPE_U32, TYPE_I64, TYPE_U64, TYPE_I128,
       TYPE_U128, TYPE_INT, TYPE_UINT, TYPE_USIZE, TYPE_ISIZE, TYPE_BYTE, TYPE_RUNE, TYPE_ENUM, TYPE_C_INT,
       TYPE_C_UINT, TYPE_C_LONG, TYPE_C_ULONG, TYPE_C_LONGLONG, TYPE_C_ULONGLONG, TYPE_C_SHORT, TYPE_C_USHORT,
       TYPE_C_CHAR, TYPE_C_UCHAR, TYPE_BITINT, TYPE_UBITINT}"

definition default_value :: "stmt_env \<Rightarrow> ty option \<Rightarrow> string" where
  "default_value env t =
     (case t of
        None \<Rightarrow> []
      | Some t \<Rightarrow>
          if ty_kind t = TYPE_ARRAY \<or> ty_kind t = TYPE_STRUCT then '' = '' @ (if ce_cpp (se_cg env) then ''{}'' else ''{0}'')
          else if is_int_type (ty_kind t) then '' = 0''
          else if ty_kind t = TYPE_F32 \<or> ty_kind t = TYPE_FLOAT then '' = 0.0f''
          else if ty_kind t = TYPE_F64 then '' = 0.0''
          else if ty_kind t = TYPE_BOOL then '' = false''
          else [])"

definition moved_after :: "stmt_env \<Rightarrow> node list \<Rightarrow> c_out list" where
  "moved_after env init =
     (case init of
        [] \<Rightarrow> []
      | i # _ \<Rightarrow>
          (case emit_move_invalidation (se_cg env) i (expr_out env init) of
             [] \<Rightarrow> [] | o1 \<Rightarrow> o1 @ [Out ('';'' @ [NL])]))"

definition is_void_decl :: "stmt_env \<Rightarrow> node \<Rightarrow> node \<Rightarrow> bool" where
  "is_void_decl env n init \<longleftrightarrow>
     (case (nd_type n, se_type_str env n) of
        (Some t, s) \<Rightarrow> ty_kind t = TYPE_VOID \<or> s = Some ''void''
      | (None, Some s) \<Rightarrow> s = ''void''
      | (None, None) \<Rightarrow> (case ce_infer (se_cg env) init of None \<Rightarrow> True | Some r \<Rightarrow> r = ''void''))"

text \<open>What is printed for a declaration, and the release it leaves pending.\<close>

definition var_decl_out :: "stmt_env \<Rightarrow> node \<Rightarrow> string \<Rightarrow> node list \<Rightarrow> c_out list \<times> string option" where
  "var_decl_out env n name init =
     (let x = expr_out env init;
          cast = (\<lambda>b t. if b then [Out (CHR ''('' # t @ '')('')] @ x @ [Out '')''] else x);
          prefix = (if se_thread env n then [Out ''_Thread_local ''] else []) @ (if se_static env n then [Out ''static ''] else []);
          finish = [Out ('';'' @ [NL])] @ moved_after env init
      in if name = ''_'' \<and> init \<noteq> [] \<and> is_void_decl env n (hd init) then (x @ [Out ('';'' @ [NL])], None)
         else case decl_type env n of
           Inl e \<Rightarrow> (prefix @ [Out_crash e], None)
         | Inr (Some t) \<Rightarrow>
             (prefix @ (if drops env t then [Out (flag_text name)] else []) @ [Out (emit_c_decl env t name)]
                @ (if init \<noteq> [] then
                     [Out '' = '']
                     @ cast (ce_cpp (se_cg env)
                         \<and> (case nd_type n of None \<Rightarrow> False | Some t \<Rightarrow> ty_kind t = TYPE_POINTER \<or> ty_kind t = TYPE_ENUM)) t
                   else [Out (default_value env (nd_type n))])
                @ finish,
              if drops env t then Some (drop_text name t) else None)
         | Inr None \<Rightarrow>
             (case Option.bind (case init of [] \<Rightarrow> None | i # _ \<Rightarrow> Some i) (ce_infer (se_cg env)) of
                Some t \<Rightarrow>
                  if t = ''__auto_type'' then (prefix @ auto_type env init @ [Out ('' '' @ name), Out '' = ''] @ x @ finish, None)
                  else
                    (prefix @ (if drops env t then [Out (flag_text name)] else []) @ [Out (emit_c_decl env t name), Out '' = '']
                       @ cast (ce_cpp (se_cg env) \<and> (CHR ''*'' \<in> set t \<or> is_enum_type_name (se_cg env) (Some t))) t
                       @ finish,
                     if \<not> drops env t then None
                     else Some (if (case Option.bind (case init of [] \<Rightarrow> None | i # _ \<Rightarrow> Some i) nd_type of
                                      None \<Rightarrow> False | Some u \<Rightarrow> ty_kind u = TYPE_FUNCTION)
                                then closure_drop_text name else drop_text name t))
              | None \<Rightarrow> (prefix @ auto_type env init @ [Out ('' '' @ name), Out '' = ''] @ x @ finish, None)))"

definition handle_node_var_decl :: "stmt_env \<Rightarrow> node \<Rightarrow> string option \<Rightarrow> node list \<Rightarrow> stmt_out" where
  "handle_node_var_decl env n oname init =
     (case oname of
        None \<Rightarrow> emits [Out_crash Null_pointer]
      | Some name \<Rightarrow>
          (case var_decl_out env n name init of
             (o1, None) \<Rightarrow> emits o1
           | (o1, Some d) \<Rightarrow> emit_all [push_defer (Drop_of (nd_token n) d), emits o1]))"

section \<open>Simple statements\<close>

definition handle_node_assert :: "stmt_env \<Rightarrow> node \<Rightarrow> bool \<Rightarrow> node list \<Rightarrow> string option \<Rightarrow> c_out list" where
  "handle_node_assert env n expects c message =
     [Out (if expects then ''__zenc_expect('' else ''__zenc_assert('')] @ expr_out env c
     @ [Out (case message of
               Some s \<Rightarrow> if se_literal_message env n then '', '' @ s else '', '' @ [DQUOTE] @ ''%s'' @ [DQUOTE] @ '', '' @ s
             | None \<Rightarrow> '', '' @ [DQUOTE] @ (if expects then ''Expectation failed'' else ''Assertion failed'') @ [DQUOTE]),
        Out ('');'' @ [NL])]"

text \<open>The struct that a call returns, must be dropped and is bound to no name.\<close>

definition discarded_drop_type :: "stmt_env \<Rightarrow> node \<Rightarrow> string option" where
  "discarded_drop_type env n =
     (if nd_kind n \<noteq> NODE_EXPR_CALL then None
      else
        let tname = (case nd_type n of
                       Some t \<Rightarrow> if ty_kind t = TYPE_STRUCT \<and> ty_name t \<noteq> None then ty_name t else ce_infer (se_cg env) n
                     | None \<Rightarrow> ce_infer (se_cg env) n)
        in case tname of
             None \<Rightarrow> None
           | Some t \<Rightarrow>
               if CHR ''*'' \<in> set t then None
               else (case ce_def (se_cg env) (strip_struct t) of
                       None \<Rightarrow> None
                     | Some d \<Rightarrow> if \<not> cd_is_enum d \<and> cd_drop d = Some True then Some (strip_struct t) else None))"

definition expr_stmt :: "stmt_env \<Rightarrow> node \<Rightarrow> c_out list" where
  "expr_stmt env n =
     (case discarded_drop_type env n of
        Some t \<Rightarrow>
          (let id = show_nat (se_discard env n)
           in [Out (''{ '' @ t @ '' _z_discard_'' @ id @ '' = '')] @ expr_out env [n]
              @ [Out (''; '' @ t @ ''__Drop__glue(&_z_discard_'' @ id @ ''); }'' @ [NL])])
      | None \<Rightarrow> expr_out env [n] @ [Out ('';'' @ [NL])])
     @ se_after env n"

definition literal_stmt :: "stmt_env \<Rightarrow> node \<Rightarrow> LiteralKind \<Rightarrow> c_out list" where
  "literal_stmt env n k =
     (if k = LITERAL_STRING then
        [Out (''printf('' @ [DQUOTE] @ ''%s'' @ [BSLASH] @ ''n'' @ [DQUOTE] @ '', '')] @ expr_out env [n] @ [Out ('');'' @ [NL])]
      else expr_out env [n] @ [Out ('';'' @ [NL])])"

text \<open>A member as a statement: no semicolon is printed.\<close>

definition member_stmt :: "stmt_env \<Rightarrow> node list \<Rightarrow> string option \<Rightarrow> c_out list" where
  "member_stmt env target f =
     expr_out env target
     @ [Out ((case Option.bind (case target of [] \<Rightarrow> None | t # _ \<Rightarrow> Some t) (ce_infer (se_cg env)) of
                Some t \<Rightarrow> if CHR ''*'' \<in> set t then ''->'' else ''.''
              | None \<Rightarrow> ''.'') @ field_text f)]"

section \<open>Statements\<close>

definition codegen_node :: "stmt_env \<Rightarrow> (node \<Rightarrow> stmt_out) \<Rightarrow> node \<Rightarrow> stmt_out" where
  "codegen_node env g n =
     (case n of
        Assert _ expects c msg \<Rightarrow> emits (handle_node_assert env n expects c msg)
      | Defer _ ss \<Rightarrow> handle_node_defer ss
      | Block _ ss \<Rightarrow> handle_node_block env g ss
      | VarDecl _ name init _ \<Rightarrow> handle_node_var_decl env n name init
      | If _ c thn els \<Rightarrow> handle_node_if env g c thn els
      | While _ c body label \<Rightarrow>
          emit_loop env g ([Out ''while (''] @ expr_out env c @ [Out '') '']) body label True
      | For _ init c step body label \<Rightarrow>
          emit_loop env g (for_head (for_init env init) (bare_out env c) (bare_out env step)) body label True
      | Loop _ body label \<Rightarrow> emit_loop env g [Out ''while (1) ''] body label False
      | ForRange _ v start end_node inclusive body label \<Rightarrow>
          emit_loop env g
            (for_head (for_range_init env v start) (for_range_test env v (se_step env n) inclusive end_node)
              (for_range_step v (se_step env n)))
            body label False
      | Break _ label \<Rightarrow> handle_break env g label
      | Continue _ label \<Rightarrow> handle_continue env g label
      | Return _ value \<Rightarrow> handle_return env g value
      | Member _ target f \<Rightarrow> emits (member_stmt env target f)
      | Literal _ k _ _ _ \<Rightarrow> emits (literal_stmt env n k)
      | VarRef _ _ _ \<Rightarrow> emits (expr_stmt env n)
      | Binary _ _ _ _ \<Rightarrow> emits (expr_stmt env n)
      | Unary _ _ _ \<Rightarrow> emits (expr_stmt env n)
      | Call _ _ _ \<Rightarrow> emits (expr_stmt env n)
      | Index _ _ _ _ \<Rightarrow> emits (expr_stmt env n)
      | Slice _ _ _ _ \<Rightarrow> emits (expr_stmt env n)
      | Cast _ _ \<Rightarrow> emits (expr_stmt env n)
      | StructInit _ _ \<Rightarrow> emits (expr_stmt env n)
      | ArrayLiteral _ _ \<Rightarrow> emits (expr_stmt env n)
      | TupleLiteral _ _ \<Rightarrow> emits (expr_stmt env n)
      | _ \<Rightarrow> (\<lambda>st. Some (se_other env n st)))"

text \<open>A deferred statement is emitted again where it is pending, so the recursion is not on the tree: it
  runs on fuel, and \<open>None\<close> is its end.\<close>

primrec codegen_node_single :: "stmt_env \<Rightarrow> nat \<Rightarrow> node \<Rightarrow> stmt_out" where
  "codegen_node_single env 0 = (\<lambda>n st. None)"
| "codegen_node_single env (Suc k) = (\<lambda>n. codegen_node env (codegen_node_single env k) n)"

text \<open>The body of a function, behind its opening brace: the releases of its arguments are pending.\<close>

definition arg_drops :: "stmt_env \<Rightarrow> token \<Rightarrow> (ty option \<times> string option) list \<Rightarrow> (string \<times> string) list" where
  "arg_drops env t args =
     concat (map (\<lambda>(ty, name). case (ty, name) of
         (Some a, Some x) \<Rightarrow>
           if ty_kind a = TYPE_FUNCTION then
             (if ty_has_drop a then [(x, closure_drop_text x)] else [])
           else if ty_kind a = TYPE_STRUCT then
             (case Option.bind (ty_name a) (\<lambda>n. map_option (\<lambda>d. (n, d)) (ce_def (se_cg env) n)) of
                Some (n, d) \<Rightarrow>
                  if \<not> cd_is_enum d \<and> cd_drop d = Some True then
                    [(x, ''if (__z_drop_flag_'' @ x @ '') '' @ n @ ''__Drop__glue('' @ (if x = ''self'' then x else CHR ''&'' # x) @ '');'')]
                  else []
              | None \<Rightarrow> [])
           else []
       | _ \<Rightarrow> []) args)"

definition function_body ::
    "stmt_env \<Rightarrow> (node \<Rightarrow> stmt_out) \<Rightarrow> token \<Rightarrow> (ty option \<times> string option) list \<Rightarrow> node list \<Rightarrow> stmt_out" where
  "function_body env g t args body =
     emit_all
       [updates (\<lambda>st. st\<lparr>ss_defers := []\<rparr>),
        emit_all (map (\<lambda>(x, d). emit_all
          [emit_source_mapping env True NODE_FUNCTION t,
           emit_str (''int __z_drop_flag_'' @ x @ '' = 1;'' @ [NL]), push_defer (Drop_of t d)]) (arg_drops env t args)),
        codegen_walker env g body, emit_defers_down_to env g 0]"

end
