(* ===== verification/ZcStmtRuns.thy ===== *)
theory ZcStmtRuns
  imports ZcStmtEmit ZcFlow
begin

text \<open>
  What statements do: a statement of the source has a set of runs, where a block registers what it defers
  and runs it, innermost first, however it is left. C statements have their own runs, with gotos for
  labelled loops, and their text. Shown: with which outcomes statements can end, and how the pieces that a
  generator prints are put together.
\<close>

section \<open>Runs\<close>

text \<open>What happens, in order: a simple statement is executed or an expression evaluated, as its C text, or a
  condition is tested.\<close>

datatype event = Eval string | Test string bool

type_synonym trace = "event list"
type_synonym 'r runs_set = "(trace \<times> 'r) set"

definition eval_of :: "string \<Rightarrow> trace" where
  "eval_of s = (if s = [] then [] else [Eval s])"

text \<open>The conditions 1 and the empty one are always true.\<close>

definition tests :: "string \<Rightarrow> (trace \<times> bool) set" where
  "tests c = (if c = [] \<or> c = ''1'' then {([], True)} else {([Test c True], True), ([Test c False], False)})"

text \<open>One after the other, where the first ends with the outcome \<open>n\<close>.\<close>

definition andthen :: "'r \<Rightarrow> 'r runs_set \<Rightarrow> 'r runs_set \<Rightarrow> 'r runs_set" where
  "andthen n A B = {(t, r). (t, r) \<in> A \<and> r \<noteq> n} \<union> {(t @ u, r) |t u r. (t, n) \<in> A \<and> (u, r) \<in> B}"

text \<open>A loop with a test, a step and the turns of its body: \<open>None\<close> goes on, \<open>Some r\<close> leaves with \<open>r\<close>.\<close>

inductive_set loop_runs :: "(trace \<times> bool) set \<Rightarrow> trace \<Rightarrow> 'r \<Rightarrow> (trace \<times> 'r option) set \<Rightarrow> 'r runs_set"
  for T p n B where
  stop: "(t, False) \<in> T \<Longrightarrow> (t, n) \<in> loop_runs T p n B"
| again: "(t, True) \<in> T \<Longrightarrow> (u, None) \<in> B \<Longrightarrow> (v, q) \<in> loop_runs T p n B \<Longrightarrow> (t @ u @ p @ v, q) \<in> loop_runs T p n B"
| leave: "(t, True) \<in> T \<Longrightarrow> (u, Some r) \<in> B \<Longrightarrow> (t @ u, r) \<in> loop_runs T p n B"

section \<open>C statements\<close>

text \<open>A simple statement is its text.\<close>

datatype c_stmt =
    C_Text string
  | C_Return string
  | C_Return_void
  | C_Save_return string string "c_stmt list"
  | C_Move_return string "c_stmt list"
  | C_Break
  | C_Continue
  | C_Goto string
  | C_Block "c_stmt list"
  | C_If string c_stmt "c_stmt option"
  | C_While string c_stmt
  | C_For string string string c_stmt
  | C_Labelled string c_stmt
  | C_Body string c_stmt

fun c_text :: "c_stmt \<Rightarrow> string" where
  "c_text (C_Text s) = s"
| "c_text (C_Return e) = ''return '' @ e @ '';'' @ [NL]"
| "c_text C_Return_void = ''return;'' @ [NL]"
| "c_text (C_Save_return t e ds) = ''{ '' @ t @ '' _z_ret = '' @ e @ ''; '' @ concat (map c_text ds) @ ''return _z_ret; }'' @ [NL]"
| "c_text (C_Move_return s ds) = ''return ({ '' @ s @ concat (map c_text ds) @ ''_z_ret_mv; });'' @ [NL]"
| "c_text C_Break = ''break;'' @ [NL]"
| "c_text C_Continue = ''continue;'' @ [NL]"
| "c_text (C_Goto l) = ''goto '' @ l @ '';'' @ [NL]"
| "c_text (C_Block ss) = ''{'' @ [NL] @ concat (map c_text ss) @ ''}'' @ [NL]"
| "c_text (C_If c a b) = ''if ('' @ c @ '') '' @ c_text a @ (case b of None \<Rightarrow> [] | Some e \<Rightarrow> '' else '' @ c_text e)"
| "c_text (C_While c s) = ''while ('' @ c @ '') '' @ c_text s"
| "c_text (C_For i c p s) = ''for ('' @ i @ ''; '' @ c @ ''; '' @ p @ '') '' @ c_text s"
| "c_text (C_Labelled l s) = l @ '':;'' @ [NL] @ c_text s @ ''__break_'' @ l @ '':;'' @ [NL]"
| "c_text (C_Body l s) = ''{'' @ [NL] @ c_text s @ ''__continue_'' @ l @ '':;'' @ [NL] @ ''}'' @ [NL]"

definition c_texts :: "c_stmt list \<Rightarrow> string" where "c_texts ss = concat (map c_text ss)"

lemma c_texts_simps [simp]: "c_texts [] = []" "c_texts (s # ss) = c_text s @ c_texts ss" "c_texts (xs @ ys) = c_texts xs @ c_texts ys"
  by (simp_all add: c_texts_def)

datatype c_outcome = Next | Breaks | Continues | Returns | Jumps string

definition c_seq :: "c_outcome runs_set list \<Rightarrow> c_outcome runs_set" where
  "c_seq Xs = foldr (andthen Next) Xs {([], Next)}"

text \<open>A jump arrives at the label behind the statement.\<close>

definition catch :: "string \<Rightarrow> c_outcome runs_set \<Rightarrow> c_outcome runs_set" where
  "catch l X = (\<lambda>(t, r). (t, if r = Jumps l then Next else r)) ` X"

fun c_turn :: "c_outcome \<Rightarrow> c_outcome option" where
  "c_turn Next = None"
| "c_turn Continues = None"
| "c_turn Breaks = Some Next"
| "c_turn r = Some r"

fun c_runs :: "c_stmt \<Rightarrow> c_outcome runs_set" where
  "c_runs (C_Text s) = {([Eval s], Next)}"
| "c_runs (C_Return e) = {(eval_of e, Returns)}"
| "c_runs C_Return_void = {([], Returns)}"
| "c_runs (C_Save_return t e ds) =
     andthen Next {(eval_of e, Next)} (andthen Next (c_seq (map c_runs ds)) {([], Returns)})"
| "c_runs (C_Move_return s ds) =
     andthen Next {(eval_of s, Next)} (andthen Next (c_seq (map c_runs ds)) {([], Returns)})"
| "c_runs C_Break = {([], Breaks)}"
| "c_runs C_Continue = {([], Continues)}"
| "c_runs (C_Goto l) = {([], Jumps l)}"
| "c_runs (C_Block ss) = c_seq (map c_runs ss)"
| "c_runs (C_If c a b) =
     {(t @ u, r) |t u r v. (t, v) \<in> tests c
        \<and> (u, r) \<in> (if v then c_runs a else case b of None \<Rightarrow> {([], Next)} | Some e \<Rightarrow> c_runs e)}"
| "c_runs (C_While c s) = loop_runs (tests c) [] Next (map_prod id c_turn ` c_runs s)"
| "c_runs (C_For i c p s) =
     {(eval_of i @ t, r) |t r. (t, r) \<in> loop_runs (tests c) (eval_of p) Next (map_prod id c_turn ` c_runs s)}"
| "c_runs (C_Labelled l s) = catch (''__break_'' @ l) (c_runs s)"
| "c_runs (C_Body l s) = catch (''__continue_'' @ l) (c_runs s)"

section \<open>Statements of the source\<close>

text \<open>The text of a simple statement, and the release it leaves pending.\<close>

definition simple_out :: "stmt_env \<Rightarrow> node \<Rightarrow> c_out list option" where
  "simple_out env n =
     (case n of
        Assert _ expects c msg \<Rightarrow> Some (handle_node_assert env n expects c msg)
      | VarDecl _ (Some name) init _ \<Rightarrow> Some (fst (var_decl_out env n name init))
      | Literal _ k _ _ _ \<Rightarrow> Some (literal_stmt env n k)
      | VarRef _ _ _ \<Rightarrow> Some (expr_stmt env n)
      | Binary _ _ _ _ \<Rightarrow> Some (expr_stmt env n)
      | Unary _ _ _ \<Rightarrow> Some (expr_stmt env n)
      | Call _ _ _ \<Rightarrow> Some (expr_stmt env n)
      | Index _ _ _ _ \<Rightarrow> Some (expr_stmt env n)
      | Slice _ _ _ _ \<Rightarrow> Some (expr_stmt env n)
      | Cast _ _ \<Rightarrow> Some (expr_stmt env n)
      | StructInit _ _ \<Rightarrow> Some (expr_stmt env n)
      | ArrayLiteral _ _ \<Rightarrow> Some (expr_stmt env n)
      | TupleLiteral _ _ \<Rightarrow> Some (expr_stmt env n)
      | _ \<Rightarrow> None)"

definition release :: "stmt_env \<Rightarrow> node \<Rightarrow> string option" where
  "release env n =
     (case n of VarDecl _ (Some name) init _ \<Rightarrow> snd (var_decl_out env n name init) | _ \<Rightarrow> None)"

definition raw_line :: "stmt_env \<Rightarrow> string \<Rightarrow> string" where
  "raw_line env s = emit_raw_with_captures env s @ [NL]"

definition return_events :: "stmt_env \<Rightarrow> node list \<Rightarrow> trace" where
  "return_events env value =
     (if moved_return env value then eval_of (out_text (case value of [] \<Rightarrow> [] | v # _ \<Rightarrow> move_text env v))
      else eval_of (out_text (self_star env value @ expr_out env value)))"

text \<open>One run of each, the first before the second.\<close>

definition conc :: "trace set \<Rightarrow> trace set \<Rightarrow> trace set" where
  "conc D E = {t @ u |t u. t \<in> D \<and> u \<in> E}"

fun unwinds :: "trace set list \<Rightarrow> trace set" where
  "unwinds [] = {[]}"
| "unwinds (D # Ds) = conc D (unwinds Ds)"

definition normal_runs :: "outcome runs_set \<Rightarrow> trace set" where "normal_runs X = {t. (t, Normal) \<in> X}"

fun source_turn :: "string option \<Rightarrow> outcome \<Rightarrow> outcome option" where
  "source_turn label Normal = None"
| "source_turn label (Continued l) = (if l = None \<or> l = label then None else Some (Continued l))"
| "source_turn label (Broken l) = (if l = None \<or> l = label then Some Normal else Some (Broken l))"
| "source_turn label Returned = Some Returned"

text \<open>The statements of a block, each with its runs, where \<open>ds\<close> is deferred, the innermost first.\<close>

fun block_runs :: "stmt_env \<Rightarrow> trace set list \<Rightarrow> (node \<times> outcome runs_set) list \<Rightarrow> outcome runs_set" where
  "block_runs env ds [] = {(t, Normal) |t. t \<in> unwinds ds}"
| "block_runs env ds ((n, X) # rest') =
     (if nd_kind n = NODE_DEFER then block_runs env (normal_runs X # ds) rest'
      else
        {(t @ u, r) |t u r. (t, r) \<in> X \<and> r \<noteq> Normal \<and> u \<in> unwinds ds}
        \<union> {(t @ u, r) |t u r. (t, Normal) \<in> X
             \<and> (u, r) \<in> block_runs env (case release env n of None \<Rightarrow> ds | Some d \<Rightarrow> {[Eval (raw_line env d)]} # ds) rest'})"

definition first_runs :: "outcome runs_set list \<Rightarrow> outcome runs_set" where
  "first_runs Xs = (case Xs of [] \<Rightarrow> {([], Normal)} | X # _ \<Rightarrow> X)"

fun stmt_runs :: "stmt_env \<Rightarrow> node \<Rightarrow> outcome runs_set" where
  "stmt_runs env (Block m ss) = block_runs env [] (map (\<lambda>s. (s, stmt_runs env s)) ss)"
| "stmt_runs env (Defer m ds) = first_runs (map (stmt_runs env) ds)"
| "stmt_runs env (If m c thn els) =
     {(t @ u, r) |t u r v. (t, v) \<in> tests (out_text (expr_out env c))
        \<and> (u, r) \<in> first_runs (if v then map (stmt_runs env) thn else map (stmt_runs env) els)}"
| "stmt_runs env (While m c body l) =
     loop_runs (tests (out_text (expr_out env c))) [] Normal
       (map_prod id (source_turn l) ` first_runs (map (stmt_runs env) body))"
| "stmt_runs env (For m init c step body l) =
     {(eval_of (out_text (for_init env init)) @ t, r) |t r. (t, r) \<in>
        loop_runs (tests (out_text (bare_out env c))) (eval_of (out_text (bare_out env step))) Normal
          (map_prod id (source_turn l) ` first_runs (map (stmt_runs env) body))}"
| "stmt_runs env (Loop m body l) =
     loop_runs (tests ''1'') [] Normal (map_prod id (source_turn l) ` first_runs (map (stmt_runs env) body))"
| "stmt_runs env (ForRange m v start end_node inclusive body l) =
     (let step = se_step env (ForRange m v start end_node inclusive body l)
      in {(eval_of (out_text (for_range_init env v start)) @ t, r) |t r. (t, r) \<in>
        loop_runs (tests (out_text (for_range_test env v step inclusive end_node)))
          (eval_of (out_text (for_range_step v step))) Normal
          (map_prod id (source_turn l) ` first_runs (map (stmt_runs env) body))})"
| "stmt_runs env (Break m l) = {([], Broken l)}"
| "stmt_runs env (Continue m l) = {([], Continued l)}"
| "stmt_runs env (Return m value) = {(return_events env value, Returned)}"
| "stmt_runs env n = (case simple_out env n of Some o1 \<Rightarrow> {([Eval (out_text o1)], Normal)} | None \<Rightarrow> {})"


section \<open>The statements concerned\<close>

text \<open>Expressions that leave the statement at its end only: no \<open>?\<close>, which returns, and no statements inside.\<close>

fun calm :: "node \<Rightarrow> bool" where
  "calm (Literal m k v x s) = True"
| "calm (VarRef m v s) = True"
| "calm (Binary m op ls rs) = ((\<forall>x \<in> set ls. calm x) \<and> (\<forall>x \<in> set rs. calm x))"
| "calm (Unary m op xs) = (op \<noteq> Some ''?'' \<and> (\<forall>x \<in> set xs. calm x))"
| "calm (Call m xs ys) = ((\<forall>x \<in> set xs. calm x) \<and> (\<forall>x \<in> set ys. calm x))"
| "calm (Member m xs f) = (\<forall>x \<in> set xs. calm x)"
| "calm (Index m xs ys zs) = ((\<forall>x \<in> set xs. calm x) \<and> (\<forall>x \<in> set ys. calm x) \<and> (\<forall>x \<in> set zs. calm x))"
| "calm (Slice m xs ys zs) = ((\<forall>x \<in> set xs. calm x) \<and> (\<forall>x \<in> set ys. calm x) \<and> (\<forall>x \<in> set zs. calm x))"
| "calm (Cast m xs) = (\<forall>x \<in> set xs. calm x)"
| "calm (StructInit m xs) = (\<forall>x \<in> set xs. calm x)"
| "calm (FieldInit m f xs) = (\<forall>x \<in> set xs. calm x)"
| "calm (ArrayLiteral m xs) = (\<forall>x \<in> set xs. calm x)"
| "calm (TupleLiteral m xs) = (\<forall>x \<in> set xs. calm x)"
| "calm (Other m k cs) = (k = NODE_TERNARY \<and> (\<forall>xs \<in> set cs. \<forall>x \<in> set xs. calm x))"
| "calm _ = False"

definition calm_all :: "node list \<Rightarrow> bool" where "calm_all ns \<longleftrightarrow> (\<forall>n \<in> set ns. calm n)"

fun calm_for :: "node list \<Rightarrow> bool" where
  "calm_for (VarDecl m name init t # ns) = calm_all init"
| "calm_for ns = calm_all ns"

fun calm_simple :: "node \<Rightarrow> bool" where
  "calm_simple (Assert m e c msg) = calm_all c"
| "calm_simple (VarDecl m name init t) = calm_all init"
| "calm_simple n = calm n"

text \<open>Statements that may return or not, in a loop with a label or none (\<open>Some None\<close>) or in no loop: every
  body is a block, a label names the innermost loop, what is deferred leaves neither a loop nor the function.\<close>

fun stmt_ok :: "stmt_env \<Rightarrow> bool \<Rightarrow> string option option \<Rightarrow> node \<Rightarrow> bool" where
  "stmt_ok env rt lp (Block m ss) = (\<forall>s \<in> set ss. stmt_ok env rt lp s)"
| "stmt_ok env rt lp (Defer m ds) =
     (length ds = 1 \<and> (\<forall>d \<in> set ds. nd_kind d \<noteq> NODE_DEFER \<and> release env d = None \<and> stmt_ok env False None d))"
| "stmt_ok env rt lp (If m c thn els) =
     (calm_all c \<and> length thn = 1 \<and> length els \<le> 1
      \<and> (\<forall>s \<in> set thn. nd_kind s = NODE_BLOCK \<and> stmt_ok env rt lp s)
      \<and> (\<forall>s \<in> set els. nd_kind s \<in> {NODE_BLOCK, NODE_IF} \<and> stmt_ok env rt lp s))"
| "stmt_ok env rt lp (While m c body l) =
     (calm_all c \<and> length body = 1 \<and> (\<forall>s \<in> set body. nd_kind s = NODE_BLOCK \<and> stmt_ok env rt (Some l) s))"
| "stmt_ok env rt lp (For m init c step body l) =
     (calm_for init \<and> calm_all c \<and> calm_all step
      \<and> length body = 1 \<and> (\<forall>s \<in> set body. nd_kind s = NODE_BLOCK \<and> stmt_ok env rt (Some l) s))"
| "stmt_ok env rt lp (Loop m body l) =
     (length body = 1 \<and> (\<forall>s \<in> set body. nd_kind s = NODE_BLOCK \<and> stmt_ok env rt (Some l) s))"
| "stmt_ok env rt lp (ForRange m v start end_node inclusive body l) =
     (calm_all start \<and> calm_all end_node
      \<and> length body = 1 \<and> (\<forall>s \<in> set body. nd_kind s = NODE_BLOCK \<and> stmt_ok env rt (Some l) s))"
| "stmt_ok env rt lp (Break m l) = (case lp of None \<Rightarrow> False | Some lab \<Rightarrow> l = None \<or> l = lab)"
| "stmt_ok env rt lp (Continue m l) = (case lp of None \<Rightarrow> False | Some lab \<Rightarrow> l = None \<or> l = lab)"
| "stmt_ok env rt lp (Return m value) =
     (rt \<and> calm_all value \<and> slice_return env value = None \<and> address_of_self value = None)"
| "stmt_ok env rt lp n = (simple_out env n \<noteq> None \<and> calm_simple n)"

text \<open>How many statements and releases are deferred in a statement.\<close>

fun deferred_in :: "stmt_env \<Rightarrow> node \<Rightarrow> nat" where
  "deferred_in env (Block m ss) = sum_list (map (deferred_in env) ss)"
| "deferred_in env (Defer m ds) = Suc (sum_list (map (deferred_in env) ds))"
| "deferred_in env (If m c thn els) = sum_list (map (deferred_in env) thn) + sum_list (map (deferred_in env) els)"
| "deferred_in env (While m c body l) = sum_list (map (deferred_in env) body)"
| "deferred_in env (For m init c step body l) = sum_list (map (deferred_in env) body)"
| "deferred_in env (Loop m body l) = sum_list (map (deferred_in env) body)"
| "deferred_in env (ForRange m v start end_node inclusive body l) = sum_list (map (deferred_in env) body)"
| "deferred_in env n = (if release env n = None then 0 else 1)"

section \<open>Outcomes\<close>

fun may_end :: "bool \<Rightarrow> string option option \<Rightarrow> outcome \<Rightarrow> bool" where
  "may_end rt lp Normal = True"
| "may_end rt lp Returned = rt"
| "may_end rt lp (Broken l) = (case lp of None \<Rightarrow> False | Some lab \<Rightarrow> l = None \<or> l = lab)"
| "may_end rt lp (Continued l) = (case lp of None \<Rightarrow> False | Some lab \<Rightarrow> l = None \<or> l = lab)"

lemma block_ends:
  assumes "(t, r) \<in> block_runs env ds (map (\<lambda>s. (s, f s)) ss)"
    and "\<forall>s \<in> set ss. nd_kind s \<noteq> NODE_DEFER \<longrightarrow> (\<forall>t r. (t, r) \<in> f s \<longrightarrow> may_end rt lp r)"
  shows "may_end rt lp r"
  using assms
proof (induction ss arbitrary: ds t)
  case (Cons s ss)
  then have ih: "may_end rt lp r" if "(u, r) \<in> block_runs env ds' (map (\<lambda>s. (s, f s)) ss)" for u ds'
    using that by simp
  show ?case
  proof (cases "nd_kind s = NODE_DEFER")
    case True
    with Cons.prems(1) show ?thesis by (auto intro: ih)
  next
    case False
    with Cons.prems(2) have "may_end rt lp r" if "(u, r) \<in> f s" for u using that by simp
    with Cons.prems(1) False show ?thesis by (auto intro: ih)
  qed
qed auto

lemma loop_ends:
  assumes "(t, r) \<in> loop_runs T p Normal (map_prod id (source_turn l) ` B)"
    and "\<And>u q. (u, q) \<in> B \<Longrightarrow> may_end rt (Some l) q"
  shows "may_end rt None r"
  using assms(1)
proof (induction rule: loop_runs.induct)
  case (leave t u r)
  then obtain q where "(u, q) \<in> B" "source_turn l q = Some r" by auto
  with assms(2) [of u q] show ?case by (cases q) (auto split: if_splits)
qed auto

lemma may_end_loose: "may_end rt None r \<Longrightarrow> may_end rt lp r" by (cases r) auto

lemma first_runs_single: "length xs = 1 \<Longrightarrow> (t, r) \<in> first_runs (map f xs) \<Longrightarrow> \<exists>x. xs = [x] \<and> (t, r) \<in> f x"
  by (cases xs) (auto simp: first_runs_def)

lemma stmt_ends: "(t, r) \<in> stmt_runs env n \<Longrightarrow> stmt_ok env rt lp n \<Longrightarrow> nd_kind n \<noteq> NODE_DEFER \<Longrightarrow> may_end rt lp r"
proof (induction env n arbitrary: t r lp rule: stmt_runs.induct)
  case (1 env m ss)
  then show ?case using block_ends [of t r env "[]" "stmt_runs env" ss rt lp] by simp
next
  case (3 env m c thn els)
  from 3(3) obtain u v where u: "(u, r) \<in> first_runs (if v then map (stmt_runs env) thn else map (stmt_runs env) els)"
    by auto
  show ?case
  proof (cases v)
    case True
    with u 3(4) obtain b where "thn = [b]" "(u, r) \<in> stmt_runs env b" by (cases thn) (auto simp: first_runs_def)
    with 3(1) [of v b u r lp] True 3(4) show ?thesis by simp
  next
    case False
    show ?thesis
    proof (cases els)
      case Nil
      with u False show ?thesis by (simp add: first_runs_def)
    next
      case (Cons b bs)
      with u False have "(u, r) \<in> stmt_runs env b" by (simp add: first_runs_def)
      with 3(2) [of v b u r lp] False 3(4) Cons show ?thesis by auto
    qed
  qed
next
  case (4 env m c body l)
  from 4(2,3) obtain b where b: "body = [b]" by (cases body) auto
  have "may_end rt None r"
    by (rule loop_ends [of t r "tests (out_text (expr_out env c))" "[]" l "stmt_runs env b"])
      (use 4 b in \<open>auto simp: first_runs_def\<close>)
  then show ?case by (rule may_end_loose)
next
  case (5 env m init c step body l)
  from 5(2,3) obtain b u where b: "body = [b]" and u: "(u, r) \<in> loop_runs (tests (out_text (bare_out env c)))
      (eval_of (out_text (bare_out env step))) Normal (map_prod id (source_turn l) ` stmt_runs env b)"
    by (cases body) (auto simp: first_runs_def)
  have "may_end rt None r"
    by (rule loop_ends [OF u]) (use 5 b in auto)
  then show ?case by (rule may_end_loose)
next
  case (6 env m body l)
  from 6(2,3) obtain b where b: "body = [b]" by (cases body) auto
  have "may_end rt None r"
    by (rule loop_ends [of t r "tests ''1''" "[]" l "stmt_runs env b"])
      (use 6 b in \<open>auto simp: first_runs_def\<close>)
  then show ?case by (rule may_end_loose)
next
  case (7 env m v start end_node inclusive body l)
  let ?s = "se_step env (ForRange m v start end_node inclusive body l)"
  from 7(2,3) obtain b u where b: "body = [b]" and u: "(u, r) \<in> loop_runs (tests (out_text (for_range_test env v ?s inclusive end_node)))
      (eval_of (out_text (for_range_step v ?s))) Normal (map_prod id (source_turn l) ` stmt_runs env b)"
    by (cases body) (auto simp: first_runs_def Let_def)
  have "may_end rt None r"
    by (rule loop_ends [OF u]) (use 7 b in auto)
  then show ?case by (rule may_end_loose)
qed (auto split: option.splits)

section \<open>Sequences\<close>

lemma andthen_unit [simp]: "andthen n {([], n)} B = B" "andthen n A {([], n)} = A"
  by (auto simp: andthen_def)

lemma andthen_assoc: "andthen n (andthen n A B) C = andthen n A (andthen n B C)"
  by (auto simp: andthen_def) (metis append.assoc)+

lemma c_seq_simps [simp]: "c_seq [] = {([], Next)}" "c_seq (X # Xs) = andthen Next X (c_seq Xs)"
  by (simp_all add: c_seq_def)

lemma c_seq_append: "c_seq (xs @ ys) = andthen Next (c_seq xs) (c_seq ys)"
  by (induction xs) (simp_all add: andthen_assoc)

definition nexts :: "trace set \<Rightarrow> c_outcome runs_set" where "nexts D = (\<lambda>t. (t, Next)) ` D"

lemma nexts_simps [simp]: "nexts {[]} = {([], Next)}" "nexts {t} = {(t, Next)}"
  by (auto simp: nexts_def)

lemma nexts_iff [simp]: "(t, r) \<in> nexts D \<longleftrightarrow> t \<in> D \<and> r = Next"
  by (auto simp: nexts_def)

lemma andthen_nexts: "andthen Next (nexts D) B = {(t @ u, r) |t u r. t \<in> D \<and> (u, r) \<in> B}"
  by (auto simp: andthen_def)

lemma nexts_conc: "andthen Next (nexts D) (nexts E) = nexts (conc D E)"
  by (auto simp: andthen_nexts conc_def) blast

lemma conc_unit [simp]: "conc {[]} D = D" "conc D {[]} = D"
  by (auto simp: conc_def)

lemma conc_assoc: "conc (conc A B) C = conc A (conc B C)"
  by (auto simp: conc_def) (metis append.assoc)+

lemma unwinds_append: "unwinds (xs @ ys) = conc (unwinds xs) (unwinds ys)"
  by (induction xs) (simp_all add: conc_assoc)

section \<open>What a generator prints with enough fuel\<close>

definition produces :: "(nat \<Rightarrow> stmt_out) \<Rightarrow> stmt_state \<Rightarrow> string \<Rightarrow> stmt_state \<Rightarrow> bool" where
  "produces m st s st' \<longleftrightarrow> (\<exists>k0. \<forall>k \<ge> k0. \<exists>o1. m k st = Some (o1, st') \<and> out_text o1 = s)"

lemma out_text_append [simp]: "out_text (xs @ ys) = out_text xs @ out_text ys"
  by (simp add: out_text_def)

lemma out_pieces [simp]: "out_text [] = []" "out_text (Out s # xs) = s @ out_text xs"
  by (simp_all add: out_text_def)

lemma produces_emits: "produces (\<lambda>k. emits o1) st (out_text o1) st"
  by (simp add: produces_def emits_def)

lemma produces_str: "produces (\<lambda>k. emit_str s) st s st"
  by (simp add: produces_def emits_def emit_str_def)

lemma produces_updates: "produces (\<lambda>k. updates f) st [] (f st)"
  by (simp add: produces_def updates_def)

lemma produces_Nil: "produces (\<lambda>k. emit_all []) st [] st"
  by (simp add: produces_def)

lemma produces_Cons:
  assumes "produces m st s1 st1" and "produces (\<lambda>k. emit_all (ms k)) st1 s2 st2"
  shows "produces (\<lambda>k. emit_all (m k # ms k)) st (s1 @ s2) st2"
proof -
  from assms obtain k1 k2 where
    "\<forall>k \<ge> k1. \<exists>o1. m k st = Some (o1, st1) \<and> out_text o1 = s1"
    "\<forall>k \<ge> k2. \<exists>o2. emit_all (ms k) st1 = Some (o2, st2) \<and> out_text o2 = s2"
    by (auto simp: produces_def)
  then have "\<forall>k \<ge> max k1 k2. \<exists>o1. emit_all (m k # ms k) st = Some (o1, st2) \<and> out_text o1 = s1 @ s2"
    by fastforce
  then show ?thesis unfolding produces_def by (rule exI)
qed

lemma produces_one: "produces (\<lambda>k. emit_all [m k]) st s st' \<longleftrightarrow> produces m st s st'"
proof -
  have "emit_all [m k] st = m k st" for k by (auto split: option.splits)
  then show ?thesis by (simp only: produces_def)
qed

lemma produces_append:
  assumes "produces (\<lambda>k. emit_all (ms k)) st s1 st1" and "produces (\<lambda>k. emit_all (ns k)) st1 s2 st2"
  shows "produces (\<lambda>k. emit_all (ms k @ ns k)) st (s1 @ s2) st2"
proof -
  have step: "emit_all (xs @ ys) st = (case emit_all xs st of None \<Rightarrow> None
      | Some (o1, st1) \<Rightarrow> map_option (\<lambda>(o2, st2). (o1 @ o2, st2)) (emit_all ys st1))" for xs ys st
    by (induction xs arbitrary: st) (auto simp: option.map_comp comp_def case_prod_unfold option.map_ident split: option.splits)
  from assms obtain k1 k2 where
    "\<forall>k \<ge> k1. \<exists>o1. emit_all (ms k) st = Some (o1, st1) \<and> out_text o1 = s1"
    "\<forall>k \<ge> k2. \<exists>o2. emit_all (ns k) st1 = Some (o2, st2) \<and> out_text o2 = s2"
    by (auto simp: produces_def)
  then have "\<forall>k \<ge> max k1 k2. \<exists>o1. emit_all (ms k @ ns k) st = Some (o1, st2) \<and> out_text o1 = s1 @ s2"
    by (fastforce simp: step)
  then show ?thesis unfolding produces_def by (rule exI)
qed

lemma produces_node:
  assumes "produces (\<lambda>k. codegen_node env (codegen_node_single env k) n) st s st'"
  shows "produces (\<lambda>k. codegen_node_single env k n) st s st'"
proof -
  from assms obtain k0 where
    k: "\<forall>k \<ge> k0. \<exists>o1. codegen_node env (codegen_node_single env k) n st = Some (o1, st') \<and> out_text o1 = s"
    by (auto simp: produces_def)
  have "\<exists>o1. codegen_node_single env k n st = Some (o1, st') \<and> out_text o1 = s" if "k \<ge> Suc k0" for k
    using that k by (cases k) auto
  then show ?thesis by (auto simp: produces_def)
qed

lemma produces_eq: "produces m st s st' \<Longrightarrow> s = s' \<Longrightarrow> produces m st s' st'" by simp

lemma produces_mapping: "\<not> se_debug env \<Longrightarrow> produces (\<lambda>k. emit_source_mapping env d kd t) st [] st"
  by (simp add: produces_def emit_source_mapping_def)

end
