(* ===== verification/ZcStmtProps.thy ===== *)
theory ZcStmtProps
  imports ZcStmtRuns
begin

text \<open>
  Deferred statements in C: the text that is emitted for a function is that of C statements with the runs
  of the source, so that everything deferred runs exactly once on every way out. The proof follows the
  statements: for each there is C whose runs are its own, followed at an exit by what is pending there.
\<close>

section \<open>Pending statements\<close>

definition pend_runs :: "stmt_env \<Rightarrow> pending \<Rightarrow> trace set" where
  "pend_runs env p =
     (case p of
        Deferred None \<Rightarrow> {[]}
      | Deferred (Some d) \<Rightarrow> normal_runs (stmt_runs env d)
      | Drop_of t s \<Rightarrow> {[Eval (raw_line env s)]})"

lemma pend_runs_simps [simp]: "pend_runs env (Deferred (Some d)) = normal_runs (stmt_runs env d)"
  "pend_runs env (Drop_of t s) = {[Eval (raw_line env s)]}"
  by (simp_all add: pend_runs_def)

definition pend_weight :: "stmt_env \<Rightarrow> pending \<Rightarrow> nat" where
  "pend_weight env p = (case p of Deferred (Some d) \<Rightarrow> deferred_in env d | _ \<Rightarrow> 0)"

definition weights :: "stmt_env \<Rightarrow> pending list \<Rightarrow> nat" where
  "weights env ps = sum_list (map (pend_weight env) ps)"

lemma weights_simps [simp]: "weights env [] = 0" "weights env (p # ps) = pend_weight env p + weights env ps"
  "weights env (xs @ ys) = weights env xs + weights env ys"
  by (simp_all add: weights_def)

text \<open>Wherever a pending statement is emitted, there is C with its runs.\<close>

definition pend_ok :: "stmt_env \<Rightarrow> pending \<Rightarrow> bool" where
  "pend_ok env p \<longleftrightarrow>
     (\<forall>st. length (ss_defers st) + pend_weight env p \<le> MAX_DEFER \<longrightarrow>
        (\<exists>cs. produces (\<lambda>k. emit_pending env (codegen_node_single env k) p) st (c_texts cs) st
           \<and> c_seq (map c_runs cs) = nexts (pend_runs env p)))"

lemma drop_ok: "\<not> se_debug env \<Longrightarrow> pend_ok env (Drop_of t s)"
  unfolding pend_ok_def
proof (intro allI impI)
  fix st assume d: "\<not> se_debug env"
  have "produces (\<lambda>k. emit_pending env (codegen_node_single env k) (Drop_of t s)) st (c_texts [C_Text (raw_line env s)]) st"
    unfolding emit_pending_def pending.case
    by (rule produces_eq, rule produces_Cons [OF produces_mapping [OF d]], rule produces_Cons [OF produces_str produces_Nil])
      (simp add: raw_line_def)
  then show "\<exists>cs. produces (\<lambda>k. emit_pending env (codegen_node_single env k) (Drop_of t s)) st (c_texts cs) st
      \<and> c_seq (map c_runs cs) = nexts (pend_runs env (Drop_of t s))"
    by (intro exI [of _ "[C_Text (raw_line env s)]"]) simp
qed

lemma pending_emitted:
  assumes "\<forall>p \<in> set ps. pend_ok env p" and "length (ss_defers st) + weights env ps \<le> MAX_DEFER"
  shows "\<exists>cs. produces (\<lambda>k. emit_all (map (emit_pending env (codegen_node_single env k)) ps)) st (c_texts cs) st
    \<and> c_seq (map c_runs cs) = nexts (unwinds (map (pend_runs env) ps))"
  using assms
proof (induction ps)
  case Nil
  show ?case using produces_Nil by (intro exI [of _ "[]"]) simp
next
  case (Cons p ps)
  have "pend_ok env p" "length (ss_defers st) + pend_weight env p \<le> MAX_DEFER" using Cons.prems by simp_all
  then obtain c1 where c1: "produces (\<lambda>k. emit_pending env (codegen_node_single env k) p) st (c_texts c1) st"
    "c_seq (map c_runs c1) = nexts (pend_runs env p)"
    unfolding pend_ok_def by blast
  from Cons obtain c2 where c2: "produces (\<lambda>k. emit_all (map (emit_pending env (codegen_node_single env k)) ps)) st (c_texts c2) st"
    "c_seq (map c_runs c2) = nexts (unwinds (map (pend_runs env) ps))"
    by auto
  have "c_seq (map c_runs (c1 @ c2)) = nexts (unwinds (map (pend_runs env) (p # ps)))"
    by (simp add: c_seq_append c1(2) c2(2) nexts_conc)
  then show ?case
    using produces_Cons [OF c1(1) c2(1)] by (intro exI [of _ "c1 @ c2"]) simp
qed

lemma defers_emitted:
  assumes "\<forall>p \<in> set (take (length (ss_defers st) - b) (ss_defers st)). pend_ok env p"
    and "length (ss_defers st) + weights env (take (length (ss_defers st) - b) (ss_defers st)) \<le> MAX_DEFER"
  shows "\<exists>cs. produces (\<lambda>k. emit_defers_down_to env (codegen_node_single env k) b) st (c_texts cs) st
    \<and> c_seq (map c_runs cs) = nexts (unwinds (map (pend_runs env) (take (length (ss_defers st) - b) (ss_defers st))))"
proof -
  from pending_emitted [OF assms] show ?thesis unfolding produces_def emit_defers_down_to_def by simp
qed

section \<open>Statements in C\<close>

fun c_of :: "outcome \<Rightarrow> c_outcome" where
  "c_of Normal = Next"
| "c_of Returned = Returns"
| "c_of (Broken None) = Breaks"
| "c_of (Continued None) = Continues"
| "c_of (Broken (Some l)) = Jumps (''__break_'' @ l)"
| "c_of (Continued (Some l)) = Jumps (''__continue_'' @ l)"

lemma c_of_Next [simp]: "c_of r = Next \<longleftrightarrow> r = Normal" "Next = c_of r \<longleftrightarrow> r = Normal"
  by (cases r rule: c_of.cases; simp)+

definition loop_part :: "stmt_state \<Rightarrow> pending list" where
  "loop_part st = (case ss_loops st of [] \<Rightarrow> [] | b # _ \<Rightarrow> take (length (ss_defers st) - b) (ss_defers st))"

text \<open>What is still to run when a statement ends that way in a state.\<close>

definition leaving :: "stmt_env \<Rightarrow> stmt_state \<Rightarrow> outcome \<Rightarrow> trace set" where
  "leaving env st r =
     (case r of
        Normal \<Rightarrow> {[]}
      | Returned \<Rightarrow> unwinds (map (pend_runs env) (ss_defers st))
      | _ \<Rightarrow> unwinds (map (pend_runs env) (loop_part st)))"

lemma leaving_Normal [simp]: "leaving env st Normal = {[]}" by (simp add: leaving_def)

definition with_leaving :: "stmt_env \<Rightarrow> stmt_state \<Rightarrow> outcome runs_set \<Rightarrow> c_outcome runs_set" where
  "with_leaving env st X = {(t @ u, c_of r) |t u r. (t, r) \<in> X \<and> u \<in> leaving env st r}"

lemma with_leavingI: "(t, r) \<in> X \<Longrightarrow> u \<in> leaving env st r \<Longrightarrow> (t @ u, c_of r) \<in> with_leaving env st X"
  by (auto simp: with_leaving_def)

lemma with_leavingE:
  assumes "(v, q) \<in> with_leaving env st X"
  obtains t u r where "(t, r) \<in> X" "u \<in> leaving env st r" "v = t @ u" "q = c_of r"
  using assms by (auto simp: with_leaving_def)

definition reach :: "bool \<Rightarrow> string option option \<Rightarrow> stmt_state \<Rightarrow> pending list" where
  "reach rt lp st = (if rt then ss_defers st else if lp = None then [] else loop_part st)"

definition fits :: "stmt_env \<Rightarrow> bool \<Rightarrow> string option option \<Rightarrow> nat \<Rightarrow> stmt_state \<Rightarrow> bool" where
  "fits env rt lp w st \<longleftrightarrow>
     (lp \<noteq> None \<longrightarrow> (\<exists>b bs. ss_loops st = b # bs \<and> b \<le> length (ss_defers st)))
     \<and> (\<forall>p \<in> set (reach rt lp st). pend_ok env p)
     \<and> length (ss_defers st) + w + weights env (reach rt lp st) \<le> MAX_DEFER"

definition in_c :: "stmt_env \<Rightarrow> stmt_state \<Rightarrow> node \<Rightarrow> bool" where
  "in_c env st n \<longleftrightarrow>
     (\<exists>cs. produces (\<lambda>k. codegen_node_single env k n) st (c_texts cs) st
        \<and> c_seq (map c_runs cs) = with_leaving env st (stmt_runs env n)
        \<and> (nd_kind n \<in> {NODE_BLOCK, NODE_IF} \<longrightarrow> length cs = 1))"

definition registers :: "stmt_env \<Rightarrow> node \<Rightarrow> bool" where
  "registers env n \<longleftrightarrow> nd_kind n = NODE_DEFER \<or> release env n \<noteq> None"

lemma fits_less: "fits env rt lp w st \<Longrightarrow> w' \<le> w \<Longrightarrow> fits env rt lp w' st"
  by (auto simp: fits_def)

lemma set_take_weights: "weights env (take k ps) \<le> weights env ps"
proof -
  have "weights env ps = weights env (take k ps) + weights env (drop k ps)"
    by (simp flip: weights_simps(3))
  then show ?thesis by simp
qed

lemma with_leaving_normal:
  assumes "\<And>t r. (t, r) \<in> X \<Longrightarrow> r = Normal"
  shows "with_leaving env st X = nexts (normal_runs X)"
proof (intro equalityI subrelI)
  fix v q assume "(v, q) \<in> with_leaving env st X"
  then obtain t u r where "(t, r) \<in> X" "u \<in> leaving env st r" "v = t @ u" "q = c_of r" by (rule with_leavingE)
  with assms [of t r] show "(v, q) \<in> nexts (normal_runs X)" by (simp add: normal_runs_def)
next
  fix v q assume "(v, q) \<in> nexts (normal_runs X)"
  then have "(v, Normal) \<in> X" "q = Next" by (auto simp: normal_runs_def)
  with with_leavingI [of v Normal X "[]"] show "(v, q) \<in> with_leaving env st X" by simp
qed

lemma deferred_pending:
  assumes "stmt_ok env False None d" and "\<not> se_debug env"
    and "\<And>st. fits env False None (deferred_in env d) st \<Longrightarrow> in_c env st d"
    and "nd_kind d \<noteq> NODE_DEFER"
  shows "pend_ok env (Deferred (Some d))"
  unfolding pend_ok_def
proof (intro allI impI)
  fix st :: stmt_state assume w: "length (ss_defers st) + pend_weight env (Deferred (Some d)) \<le> MAX_DEFER"
  have "fits env False None (deferred_in env d) st"
    using w by (simp add: fits_def reach_def pend_weight_def)
  from assms(3) [OF this] obtain cs where cs:
    "produces (\<lambda>k. codegen_node_single env k d) st (c_texts cs) st"
    "c_seq (map c_runs cs) = with_leaving env st (stmt_runs env d)"
    by (auto simp: in_c_def)
  have n: "r = Normal" if "(t, r) \<in> stmt_runs env d" for t r
    using stmt_ends [OF that assms(1,4)] by (cases r) auto
  have "with_leaving env st (stmt_runs env d) = nexts (pend_runs env (Deferred (Some d)))"
    using with_leaving_normal [OF n] by simp
  moreover have "produces (\<lambda>k. emit_pending env (codegen_node_single env k) (Deferred (Some d))) st (c_texts cs) st"
    unfolding emit_pending_def pending.case option.case
    by (rule produces_eq, rule produces_Cons [OF produces_mapping [OF assms(2)]],
        rule produces_Cons [OF cs(1) produces_Nil]) simp
  ultimately show "\<exists>cs. produces (\<lambda>k. emit_pending env (codegen_node_single env k) (Deferred (Some d))) st (c_texts cs) st
      \<and> c_seq (map c_runs cs) = nexts (pend_runs env (Deferred (Some d)))"
    using cs(2) by auto
qed

section \<open>Blocks\<close>

text \<open>A state inside a block: \<open>new\<close> is what the block has deferred so far.\<close>

definition inside :: "stmt_state \<Rightarrow> pending list \<Rightarrow> stmt_state" where
  "inside st new = st\<lparr>ss_defers := new @ ss_defers st\<rparr>"

lemma inside_simps [simp]: "ss_defers (inside st new) = new @ ss_defers st" "ss_loops (inside st new) = ss_loops st"
  "ss_line (inside st new) = ss_line st" "inside st [] = st" "(inside st new)\<lparr>ss_defers := p # new @ ss_defers st\<rparr> = inside st (p # new)"
  by (simp_all add: inside_def)

lemma loop_part_inside:
  "ss_loops st = b # bs \<Longrightarrow> b \<le> length (ss_defers st) \<Longrightarrow> loop_part (inside st new) = new @ loop_part st"
  by (simp add: loop_part_def Suc_diff_le add_diff_assoc)

definition fits_inside :: "stmt_env \<Rightarrow> bool \<Rightarrow> string option option \<Rightarrow> nat \<Rightarrow> stmt_state \<Rightarrow> pending list \<Rightarrow> bool" where
  "fits_inside env rt lp w st new \<longleftrightarrow>
     (lp \<noteq> None \<longrightarrow> (\<exists>b bs. ss_loops st = b # bs \<and> b \<le> length (ss_defers st)))
     \<and> (\<forall>p \<in> set (new @ reach rt lp st). pend_ok env p)
     \<and> length new + length (ss_defers st) + w + weights env (new @ reach rt lp st) \<le> MAX_DEFER"

lemma fits_inside_fits: "fits_inside env rt lp w st new \<Longrightarrow> fits env rt lp w (inside st new)"
  by (auto simp: fits_inside_def fits_def reach_def loop_part_inside split: if_splits)

lemma leaving_inside:
  assumes "fits_inside env rt lp w st new" and "may_end rt lp r" and "r \<noteq> Normal"
  shows "leaving env (inside st new) r = conc (unwinds (map (pend_runs env) new)) (leaving env st r)"
  using assms
  by (cases r) (auto simp: leaving_def unwinds_append fits_inside_def loop_part_inside split: option.splits)

definition rest_out :: "stmt_env \<Rightarrow> nat \<Rightarrow> nat \<Rightarrow> node list \<Rightarrow> stmt_out" where
  "rest_out env b k ss =
     emit_all [codegen_walker env (codegen_node_single env k) ss, emit_defers_down_to env (codegen_node_single env k) b]"

lemma rest_out_Cons:
  assumes "produces (\<lambda>k. codegen_node_single env k n) st s st1" and "produces (\<lambda>k. rest_out env b k ss) st1 s2 st2"
    and "\<not> se_debug env"
  shows "produces (\<lambda>k. rest_out env b k (n # ss)) st (s @ s2) st2"
proof -
  have "rest_out env b k (n # ss) =
      emit_all [emit_all [emit_source_mapping env False (nd_kind n) (nd_token n), codegen_node_single env k n], rest_out env b k ss]" for k
    by (rule ext) (auto simp: rest_out_def codegen_walker_def option.map_comp comp_def case_prod_unfold split: option.splits)
  moreover have "produces (\<lambda>k. emit_all [emit_all [emit_source_mapping env False (nd_kind n) (nd_token n), codegen_node_single env k n], rest_out env b k ss]) st
      ((([] @ s @ [])) @ s2 @ []) st2"
    by (rule produces_Cons [OF produces_Cons [OF produces_mapping [OF assms(3)] produces_Cons [OF assms(1) produces_Nil]]
          produces_Cons [OF assms(2) produces_Nil]])
  ultimately show ?thesis by simp
qed

lemma block_step:
  assumes "fits_inside env rt lp w st new" and "\<And>t r. (t, r) \<in> X \<Longrightarrow> may_end rt lp r"
  shows "andthen Next (with_leaving env (inside st new) X) (with_leaving env st R) =
    with_leaving env st
      ({(t @ u, r) |t u r. (t, r) \<in> X \<and> r \<noteq> Normal \<and> u \<in> unwinds (map (pend_runs env) new)}
       \<union> {(t @ u, r) |t u r. (t, Normal) \<in> X \<and> (u, r) \<in> R})"
    (is "?L = with_leaving env st ?X")
proof (intro equalityI subrelI)
  have l: "leaving env (inside st new) r = conc (unwinds (map (pend_runs env) new)) (leaving env st r)"
    if "(t, r) \<in> X" "r \<noteq> Normal" for t r
    using leaving_inside [OF assms(1) assms(2) [OF that(1)] that(2)] .
  {
    fix v q assume "(v, q) \<in> ?L"
    then consider (out) "(v, q) \<in> with_leaving env (inside st new) X" "q \<noteq> Next"
      | (on) t u where "(t, Next) \<in> with_leaving env (inside st new) X" "(u, q) \<in> with_leaving env st R" "v = t @ u"
      by (auto simp: andthen_def)
    then show "(v, q) \<in> with_leaving env st ?X"
    proof cases
      case out
      then obtain t x r where x: "(t, r) \<in> X" "x \<in> leaving env (inside st new) r" "v = t @ x" "q = c_of r" "r \<noteq> Normal"
        by (auto elim: with_leavingE)
      with l [OF x(1,5)] obtain y z where y: "y \<in> unwinds (map (pend_runs env) new)" "z \<in> leaving env st r" "x = y @ z"
        by (auto simp: conc_def)
      with x have "(t @ y, r) \<in> ?X" by blast
      from with_leavingI [OF this y(2)] x y show ?thesis by simp
    next
      case on
      then obtain t' where t: "(t', Normal) \<in> X" "t = t'" by (auto elim!: with_leavingE)
      from on obtain u' x r where u: "(u', r) \<in> R" "x \<in> leaving env st r" "u = u' @ x" "q = c_of r"
        by (auto elim: with_leavingE)
      with t have "(t' @ u', r) \<in> ?X" by blast
      from with_leavingI [OF this u(2)] t u on show ?thesis by simp
    qed
  next
    fix v q assume "(v, q) \<in> with_leaving env st ?X"
    then obtain w z r where w: "(w, r) \<in> ?X" "z \<in> leaving env st r" "v = w @ z" "q = c_of r" by (rule with_leavingE)
    from w(1) consider (out) t y where "(t, r) \<in> X" "r \<noteq> Normal" "y \<in> unwinds (map (pend_runs env) new)" "w = t @ y"
      | (on) t u where "(t, Normal) \<in> X" "(u, r) \<in> R" "w = t @ u"
      by blast
    then show "(v, q) \<in> ?L"
    proof cases
      case out
      with w(2) have "y @ z \<in> leaving env (inside st new) r" using l [OF out(1,2)] by (auto simp: conc_def)
      from with_leavingI [OF out(1) this] out w show ?thesis by (simp add: andthen_def)
    next
      case on
      from with_leavingI [OF on(1), of "[]" env "inside st new"] have "(t, Next) \<in> with_leaving env (inside st new) X" by simp
      moreover have "(u @ z, q) \<in> with_leaving env st R" using with_leavingI [OF on(2) w(2)] w(4) by simp
      ultimately show ?thesis using on(3) w(3) by (auto simp: andthen_def)
    qed
  }
qed

lemma text_step: "andthen Next {([e], Next)} (with_leaving env st R) =
    with_leaving env st {(e # u, r) |u r. (u, r) \<in> R}" (is "?L = with_leaving env st ?X")
proof (intro equalityI subrelI)
  fix v q assume "(v, q) \<in> ?L"
  then obtain u where u: "(u, q) \<in> with_leaving env st R" "v = e # u" by (auto simp: andthen_def)
  from u(1) obtain t x r where x: "(t, r) \<in> R" "x \<in> leaving env st r" "u = t @ x" "q = c_of r" by (rule with_leavingE)
  then have "(e # t, r) \<in> ?X" by simp
  from with_leavingI [OF this x(2)] x u show "(v, q) \<in> with_leaving env st ?X" by simp
next
  fix v q assume "(v, q) \<in> with_leaving env st ?X"
  then obtain w x r where x: "(w, r) \<in> ?X" "x \<in> leaving env st r" "v = w @ x" "q = c_of r" by (rule with_leavingE)
  then obtain u where "(u, r) \<in> R" "w = e # u" by auto
  with with_leavingI [of u r R x env st] x show "(v, q) \<in> ?L" by (auto simp: andthen_def)
qed

lemma push_produced:
  assumes "length new + length (ss_defers st) < MAX_DEFER"
  shows "produces (\<lambda>k. push_defer p) (inside st new) [] (inside st (p # new))"
proof -
  have "push_defer p (inside st new) = Some ([], inside st (p # new))"
    using assms by (simp add: push_defer_def updates_def inside_def)
  then show ?thesis by (simp add: produces_def)
qed

lemma defer_produced:
  assumes "length new + length (ss_defers st) < MAX_DEFER"
  shows "produces (\<lambda>k. codegen_node_single env k (Defer m [d])) (inside st new) [] (inside st (Deferred (Some d) # new))"
  by (rule produces_node) (simp add: codegen_node_def handle_node_defer_def push_produced [OF assms])

lemma release_cases:
  assumes "release env n = Some d"
  obtains m name init t where "n = VarDecl m (Some name) init t" "snd (var_decl_out env n name init) = Some d"
    "simple_out env n = Some (fst (var_decl_out env n name init))"
  using assms by (cases n) (auto simp: release_def simple_out_def split: option.splits)

lemma decl_produced:
  assumes "length new + length (ss_defers st) < MAX_DEFER" and "release env n = Some d"
  shows "produces (\<lambda>k. codegen_node_single env k n) (inside st new) (out_text (the (simple_out env n))) (inside st (Drop_of (nd_token n) d # new))"
proof -
  from assms(2) obtain m name init t where n: "n = VarDecl m (Some name) init t" "snd (var_decl_out env n name init) = Some d"
    "simple_out env n = Some (fst (var_decl_out env n name init))"
    by (rule release_cases)
  have "produces (\<lambda>k. emit_all [push_defer (Drop_of (nd_token n) d), emits (fst (var_decl_out env n name init))]) (inside st new)
      ([] @ out_text (fst (var_decl_out env n name init)) @ []) (inside st (Drop_of (nd_token n) d # new))"
    by (rule produces_Cons [OF push_produced [OF assms(1)] produces_Cons [OF produces_emits produces_Nil]])
  moreover have "codegen_node env g n = emit_all [push_defer (Drop_of (nd_token n) d), emits (fst (var_decl_out env n name init))]" for g
    using n by (cases "var_decl_out env n name init") (simp add: codegen_node_def handle_node_var_decl_def)
  ultimately show ?thesis using n(3) by (intro produces_node) (simp del: emit_all.simps)
qed

lemma release_runs:
  "release env n = Some d \<Longrightarrow> stmt_runs env n = {([Eval (out_text (the (simple_out env n)))], Normal)} \<and> nd_kind n \<noteq> NODE_DEFER
     \<and> deferred_in env n = 1"
  by (erule release_cases) (auto simp: release_def)

lemma block_in_c:
  assumes "\<not> se_debug env"
    and "\<forall>s \<in> set ss. stmt_ok env rt lp s"
    and "\<forall>s \<in> set ss. \<not> registers env s \<longrightarrow> (\<forall>st. fits env rt lp (deferred_in env s) st \<longrightarrow> in_c env st s)"
    and "\<forall>s \<in> set ss. \<forall>m d. s = Defer m [d] \<longrightarrow> pend_ok env (Deferred (Some d))"
    and "fits_inside env rt lp (sum_list (map (deferred_in env) ss)) st new"
  shows "\<exists>cs new'. produces (\<lambda>k. rest_out env (length (ss_defers st)) k ss) (inside st new) (c_texts cs) (inside st new')
    \<and> c_seq (map c_runs cs) = with_leaving env st (block_runs env (map (pend_runs env) new) (map (\<lambda>s. (s, stmt_runs env s)) ss))"
  using assms(2-)
proof (induction ss arbitrary: new)
  case Nil
  have "\<forall>p \<in> set new. pend_ok env p" "length (ss_defers (inside st new)) + weights env new \<le> MAX_DEFER"
    using Nil by (auto simp: fits_inside_def)
  with defers_emitted [of "inside st new" "length (ss_defers st)" env] obtain cs where
    cs: "produces (\<lambda>k. emit_defers_down_to env (codegen_node_single env k) (length (ss_defers st))) (inside st new) (c_texts cs) (inside st new)"
      "c_seq (map c_runs cs) = nexts (unwinds (map (pend_runs env) new))"
    by auto
  have "produces (\<lambda>k. rest_out env (length (ss_defers st)) k []) (inside st new) ([] @ c_texts cs @ []) (inside st new)"
    unfolding rest_out_def codegen_walker_def list.map
    by (rule produces_Cons [OF produces_Nil produces_Cons [OF cs(1) produces_Nil]])
  moreover have "with_leaving env st {(t, Normal) |t. t \<in> unwinds (map (pend_runs env) new)} = nexts (unwinds (map (pend_runs env) new))"
    by (subst with_leaving_normal) (auto simp: normal_runs_def)
  ultimately show ?case using cs(2) by auto
next
  case (Cons s ss)
  have kept: "\<forall>s \<in> set ss. stmt_ok env rt lp s"
    "\<forall>s \<in> set ss. \<not> registers env s \<longrightarrow> (\<forall>st. fits env rt lp (deferred_in env s) st \<longrightarrow> in_c env st s)"
    "\<forall>s \<in> set ss. \<forall>m d. s = Defer m [d] \<longrightarrow> pend_ok env (Deferred (Some d))"
    using Cons.prems by simp_all
  consider (deferring) m d where "s = Defer m [d]" | (declaring) d where "release env s = Some d" | (plain) "\<not> registers env s"
    using Cons.prems(1)
    by (cases "nd_kind s = NODE_DEFER"; cases "release env s"; cases s) (auto simp: registers_def length_Suc_conv simple_out_def split: if_splits)
  then show ?case
  proof cases
    case deferring
    have fit: "length new + length (ss_defers st) < MAX_DEFER"
      "fits_inside env rt lp (sum_list (map (deferred_in env) ss)) st (Deferred (Some d) # new)"
      using Cons.prems(3,4) deferring by (auto simp: fits_inside_def pend_weight_def)
    from Cons.IH [OF kept fit(2)] obtain cs new' where cs:
      "produces (\<lambda>k. rest_out env (length (ss_defers st)) k ss) (inside st (Deferred (Some d) # new)) (c_texts cs) (inside st new')"
      "c_seq (map c_runs cs) = with_leaving env st
        (block_runs env (map (pend_runs env) (Deferred (Some d) # new)) (map (\<lambda>s. (s, stmt_runs env s)) ss))"
      by blast
    have "produces (\<lambda>k. rest_out env (length (ss_defers st)) k (s # ss)) (inside st new) ([] @ c_texts cs) (inside st new')"
      unfolding deferring by (rule rest_out_Cons [OF defer_produced [OF fit(1)] cs(1) assms(1)])
    with cs(2) deferring show ?thesis
      by (intro exI [of _ cs] exI [of _ new']) (simp add: first_runs_def)
  next
    case declaring
    from release_runs [OF declaring] have r: "stmt_runs env s = {([Eval (out_text (the (simple_out env s)))], Normal)}"
      "nd_kind s \<noteq> NODE_DEFER" "deferred_in env s = 1"
      by simp_all
    have fit: "length new + length (ss_defers st) < MAX_DEFER"
      "fits_inside env rt lp (sum_list (map (deferred_in env) ss)) st (Drop_of (nd_token s) d # new)"
      using Cons.prems(4) r(3) drop_ok [OF assms(1)] by (auto simp: fits_inside_def pend_weight_def)
    from Cons.IH [OF kept fit(2)] obtain cs new' where cs:
      "produces (\<lambda>k. rest_out env (length (ss_defers st)) k ss) (inside st (Drop_of (nd_token s) d # new)) (c_texts cs) (inside st new')"
      "c_seq (map c_runs cs) = with_leaving env st
        (block_runs env (map (pend_runs env) (Drop_of (nd_token s) d # new)) (map (\<lambda>s. (s, stmt_runs env s)) ss))"
      by blast
    have "produces (\<lambda>k. rest_out env (length (ss_defers st)) k (s # ss)) (inside st new)
        (out_text (the (simple_out env s)) @ c_texts cs) (inside st new')"
      by (rule rest_out_Cons [OF decl_produced [OF fit(1) declaring] cs(1) assms(1)])
    with cs(2) show ?thesis
      by (intro exI [of _ "C_Text (out_text (the (simple_out env s))) # cs"] exI [of _ new'])
        (simp add: text_step r declaring)
  next
    case plain
    have fit: "fits env rt lp (deferred_in env s) (inside st new)"
      "fits_inside env rt lp (sum_list (map (deferred_in env) ss)) st new"
      using Cons.prems(4) fits_inside_fits [OF Cons.prems(4)]
      by (auto simp: fits_inside_def intro: fits_less)
    with Cons.prems(2) plain have "in_c env (inside st new) s" by simp
    then obtain c1 where c1: "produces (\<lambda>k. codegen_node_single env k s) (inside st new) (c_texts c1) (inside st new)"
      "c_seq (map c_runs c1) = with_leaving env (inside st new) (stmt_runs env s)"
      by (auto simp: in_c_def)
    from Cons.IH [OF kept fit(2)] obtain c2 new' where c2:
      "produces (\<lambda>k. rest_out env (length (ss_defers st)) k ss) (inside st new) (c_texts c2) (inside st new')"
      "c_seq (map c_runs c2) = with_leaving env st
        (block_runs env (map (pend_runs env) new) (map (\<lambda>s. (s, stmt_runs env s)) ss))"
      by blast
    have k: "nd_kind s \<noteq> NODE_DEFER" "release env s = None" using plain by (auto simp: registers_def)
    have ends: "may_end rt lp r" if "(t, r) \<in> stmt_runs env s" for t r
      using stmt_ends [OF that] Cons.prems(1) k(1) by simp
    have "produces (\<lambda>k. rest_out env (length (ss_defers st)) k (s # ss)) (inside st new) (c_texts c1 @ c_texts c2) (inside st new')"
      by (rule rest_out_Cons [OF c1(1) c2(1) assms(1)])
    then show ?thesis using c1(2) c2(2) block_step [OF Cons.prems(4) ends] k
      by (intro exI [of _ "c1 @ c2"] exI [of _ new']) (simp add: c_seq_append)
  qed
qed

lemma whole_block_in_c:
  assumes "\<not> se_debug env" and "fits env rt lp (deferred_in env (Block m ss)) st"
    and "stmt_ok env rt lp (Block m ss)"
    and "\<forall>s \<in> set ss. \<not> registers env s \<longrightarrow> (\<forall>st. fits env rt lp (deferred_in env s) st \<longrightarrow> in_c env st s)"
    and "\<forall>s \<in> set ss. \<forall>m d. s = Defer m [d] \<longrightarrow> pend_ok env (Deferred (Some d))"
  shows "in_c env st (Block m ss)"
proof -
  let ?b = "length (ss_defers st)"
  let ?u = "\<lambda>st'. st'\<lparr>ss_defers := drop (length (ss_defers st') - ?b) (ss_defers st')\<rparr>"
  have "\<forall>s \<in> set ss. stmt_ok env rt lp s" "fits_inside env rt lp (sum_list (map (deferred_in env) ss)) st []"
    using assms(2,3) by (auto simp: fits_def fits_inside_def)
  from block_in_c [OF assms(1) this(1) assms(4,5) this(2)] obtain cs new where
    cs: "produces (\<lambda>k. rest_out env ?b k ss) st (c_texts cs) (inside st new)"
      "c_seq (map c_runs cs) = with_leaving env st (stmt_runs env (Block m ss))"
    by auto
  have st: "?u (inside st new) = st" by (simp add: inside_def)
  have tail': "produces (\<lambda>k. emit_all [updates ?u, emit_str (''}'' @ [NL])]) (inside st new) ([] @ (''}'' @ [NL]) @ []) st"
    using produces_Cons [OF produces_updates [of ?u "inside st new"] produces_Cons [OF produces_str produces_Nil]]
    by (simp only: st)
  have "produces (\<lambda>k. emit_all ([emit_str (''{'' @ [NL])]
      @ ([codegen_walker env (codegen_node_single env k) ss, emit_defers_down_to env (codegen_node_single env k) ?b]
      @ [updates ?u, emit_str (''}'' @ [NL])]))) st (((''{'' @ [NL]) @ []) @ c_texts cs @ [] @ (''}'' @ [NL]) @ []) st"
    by (rule produces_append [OF produces_Cons [OF produces_str produces_Nil]
          produces_append [OF cs(1) [unfolded rest_out_def] tail']])
  then have "produces (\<lambda>k. codegen_node env (codegen_node_single env k) (Block m ss)) st (c_texts [C_Block cs]) st"
    unfolding produces_def by (simp add: codegen_node_def handle_node_block_def Let_def c_texts_def)
  from produces_node [OF this] cs(2) show ?thesis
    unfolding in_c_def by (intro exI [of _ "[C_Block cs]"]) simp
qed

section \<open>Return, break and continue\<close>

lemma loop_part_defers: "\<exists>k. loop_part st = take k (ss_defers st)"
  by (cases "ss_loops st") (auto simp: loop_part_def intro: exI [of _ 0])

lemma exit_defers_emitted:
  assumes "fits env rt lp w st" and "lp \<noteq> None"
  shows "\<exists>cs. produces (\<lambda>k. loop_defers env (codegen_node_single env k)) st (c_texts cs) st
    \<and> c_seq (map c_runs cs) = nexts (unwinds (map (pend_runs env) (loop_part st)))"
proof -
  from assms obtain b bs where b: "ss_loops st = b # bs" "b \<le> length (ss_defers st)" by (auto simp: fits_def)
  have l: "loop_part st = take (length (ss_defers st) - b) (ss_defers st)" using b by (simp add: loop_part_def)
  have "set (loop_part st) \<subseteq> set (reach rt lp st)" "weights env (loop_part st) \<le> weights env (reach rt lp st)"
    using assms(2) set_take_weights by (auto simp: reach_def l dest: in_set_takeD)
  with assms(1) have "\<forall>p \<in> set (loop_part st). pend_ok env p"
    "length (ss_defers st) + weights env (loop_part st) \<le> MAX_DEFER"
    by (auto simp: fits_def)
  then have "\<exists>cs. produces (\<lambda>k. emit_defers_down_to env (codegen_node_single env k) b) st (c_texts cs) st
      \<and> c_seq (map c_runs cs) = nexts (unwinds (map (pend_runs env) (loop_part st)))"
    unfolding l by (rule defers_emitted)
  moreover have "loop_defers env g st = emit_defers_down_to env g b st" for g by (simp add: loop_defers_def b(1))
  ultimately show ?thesis by (simp add: produces_def)
qed

lemma c_seq_defers:
  "c_seq (map c_runs cs) = nexts D \<Longrightarrow> c_runs c = {(t, r)}
    \<Longrightarrow> c_seq (map c_runs (cs @ [c])) = {(u @ t, r) |u. u \<in> D}"
  by (auto simp: c_seq_append andthen_nexts)

lemma break_in_c:
  assumes "fits env rt lp w st" and "lp \<noteq> None"
  shows "in_c env st (Break m l)" and "in_c env st (Continue m l)"
proof -
  from exit_defers_emitted [OF assms] obtain cs where
    cs: "produces (\<lambda>k. loop_defers env (codegen_node_single env k)) st (c_texts cs) st"
      "c_seq (map c_runs cs) = nexts (unwinds (map (pend_runs env) (loop_part st)))"
    by blast
  have p: "produces (\<lambda>k. emit_all [loop_defers env (codegen_node_single env k), emit_str s]) st (c_texts cs @ s @ []) st" for s
    by (rule produces_Cons [OF cs(1) produces_Cons [OF produces_str produces_Nil]])
  let ?b = "case l of None \<Rightarrow> C_Break | Some l \<Rightarrow> C_Goto (''__break_'' @ l)"
  let ?c = "case l of None \<Rightarrow> C_Continue | Some l \<Rightarrow> C_Goto (''__continue_'' @ l)"
  have "produces (\<lambda>k. codegen_node_single env k (Break m l)) st (c_texts (cs @ [?b])) st"
    using p [of "(case l of Some l \<Rightarrow> ''goto __break_'' @ l | None \<Rightarrow> ''break'') @ '';'' @ [NL]"]
    by (intro produces_node) (simp add: codegen_node_def handle_break_def split: option.splits)
  moreover have "c_seq (map c_runs (cs @ [?b])) = with_leaving env st (stmt_runs env (Break m l))"
    using c_seq_defers [OF cs(2), of ?b "[]" "c_of (Broken l)"]
    by (cases l) (simp_all add: with_leaving_def leaving_def)
  ultimately show "in_c env st (Break m l)" unfolding in_c_def by (intro exI [of _ "cs @ [?b]"]) simp
  have "produces (\<lambda>k. codegen_node_single env k (Continue m l)) st (c_texts (cs @ [?c])) st"
    using p [of "(case l of Some l \<Rightarrow> ''goto __continue_'' @ l | None \<Rightarrow> ''continue'') @ '';'' @ [NL]"]
    by (intro produces_node) (simp add: codegen_node_def handle_continue_def split: option.splits)
  moreover have "c_seq (map c_runs (cs @ [?c])) = with_leaving env st (stmt_runs env (Continue m l))"
    using c_seq_defers [OF cs(2), of ?c "[]" "c_of (Continued l)"]
    by (cases l) (simp_all add: with_leaving_def leaving_def)
  ultimately show "in_c env st (Continue m l)" unfolding in_c_def by (intro exI [of _ "cs @ [?c]"]) simp
qed

lemma saved_runs:
  "c_seq (map c_runs cs) = nexts D \<Longrightarrow>
     andthen Next {(t, Next)} (andthen Next (c_seq (map c_runs cs)) {([], Returns)}) = {(t @ u, Returns) |u. u \<in> D}"
  by (auto simp: andthen_def)

lemma return_in_c:
  assumes "\<not> ce_misra (se_cg env)" and "fits env rt lp w st" and "stmt_ok env rt lp (Return m value)"
  shows "in_c env st (Return m value)"
proof -
  have ok: "slice_return env value = None" "address_of_self value = None" and r: "reach rt lp st = ss_defers st"
    using assms(3) by (auto simp: reach_def)
  have "\<forall>p \<in> set (take (length (ss_defers st) - 0) (ss_defers st)). pend_ok env p"
    "length (ss_defers st) + weights env (take (length (ss_defers st) - 0) (ss_defers st)) \<le> MAX_DEFER"
    using assms(2) r by (auto simp: fits_def)
  from defers_emitted [OF this] obtain cs where
    cs: "produces (\<lambda>k. emit_defers_down_to env (codegen_node_single env k) 0) st (c_texts cs) st"
      "c_seq (map c_runs cs) = nexts (unwinds (map (pend_runs env) (ss_defers st)))"
    by auto
  have wl: "with_leaving env st (stmt_runs env (Return m value)) =
      {(return_events env value @ u, Returns) |u. u \<in> unwinds (map (pend_runs env) (ss_defers st))}"
    by (simp add: with_leaving_def leaving_def)
  have node: "codegen_node env g (Return m value) = handle_return env g value" for g by (simp add: codegen_node_def)
  consider (move) "moved_return env value" | (save) "\<not> moved_return env value" "ss_defers st \<noteq> []" "value \<noteq> []"
    | (empty) "\<not> moved_return env value" "ss_defers st \<noteq> []" "value = []" | (plain) "\<not> moved_return env value" "ss_defers st = []"
    by blast
  then obtain xs where "produces (\<lambda>k. handle_return env (codegen_node_single env k) value) st (c_texts xs) st"
      "c_seq (map c_runs xs) = with_leaving env st (stmt_runs env (Return m value))"
  proof cases
    case move
    let ?s = "case value of [] \<Rightarrow> [] | v # _ \<Rightarrow> move_text env v"
    have "produces (\<lambda>k. emit_all [emit_str ''return ({ '', emits ?s, emit_defers_down_to env (codegen_node_single env k) 0,
        emit_str (''_z_ret_mv; });'' @ [NL]), emits []]) st
        (''return ({ '' @ out_text ?s @ c_texts cs @ (''_z_ret_mv; });'' @ [NL]) @ out_text [] @ []) st"
      by (rule produces_Cons [OF produces_str produces_Cons [OF produces_emits produces_Cons [OF cs(1)
            produces_Cons [OF produces_str produces_Cons [OF produces_emits produces_Nil]]]]])
    then have "produces (\<lambda>k. handle_return env (codegen_node_single env k) value) st (c_texts [C_Move_return (out_text ?s) cs]) st"
      using move ok assms(1) unfolding produces_def by (simp add: handle_return_def Let_def c_texts_def del: emit_all.simps)
    moreover have "c_seq (map c_runs [C_Move_return (out_text ?s) cs]) = with_leaving env st (stmt_runs env (Return m value))"
      using saved_runs [OF cs(2), of "eval_of (out_text ?s)"] move unfolding wl by (simp add: return_events_def)
    ultimately show thesis by (rule that)
  next
    case save
    let ?t = "ret_type_text env value" and ?e = "self_star env value @ expr_out env value"
    have "produces (\<lambda>k. emit_all [emits ([Out ''{ ''] @ ?t @ [Out '' _z_ret = ''] @ self_star env value
          @ expr_out env value @ [Out ''; '']), emit_defers_down_to env (codegen_node_single env k) 0,
        emit_str (''return _z_ret; }'' @ [NL])]) st
        (out_text ([Out ''{ ''] @ ?t @ [Out '' _z_ret = ''] @ self_star env value
          @ expr_out env value @ [Out ''; '']) @ c_texts cs @ (''return _z_ret; }'' @ [NL]) @ []) st"
      by (rule produces_Cons [OF produces_emits produces_Cons [OF cs(1) produces_Cons [OF produces_str produces_Nil]]])
    then have "produces (\<lambda>k. handle_return env (codegen_node_single env k) value) st
        (c_texts [C_Save_return (out_text ?t) (out_text ?e) cs]) st"
      using save ok assms(1) unfolding produces_def by (simp add: handle_return_def Let_def c_texts_def del: emit_all.simps)
    moreover have "c_seq (map c_runs [C_Save_return (out_text ?t) (out_text ?e) cs]) = with_leaving env st (stmt_runs env (Return m value))"
      using saved_runs [OF cs(2), of "eval_of (out_text ?e)"] save unfolding wl by (simp add: return_events_def)
    ultimately show thesis by (rule that)
  next
    case empty
    have "produces (\<lambda>k. emit_all [emit_defers_down_to env (codegen_node_single env k) 0, emit_str (''return;'' @ [NL])]) st
        (c_texts cs @ (''return;'' @ [NL]) @ []) st"
      by (rule produces_Cons [OF cs(1) produces_Cons [OF produces_str produces_Nil]])
    then have "produces (\<lambda>k. handle_return env (codegen_node_single env k) value) st (c_texts (cs @ [C_Return_void])) st"
      using empty ok assms(1) unfolding produces_def by (simp add: handle_return_def Let_def del: emit_all.simps)
    moreover have "return_events env value = []"
      using empty by (simp add: return_events_def self_star_def expr_out_def eval_of_def)
    then have "c_seq (map c_runs (cs @ [C_Return_void])) = with_leaving env st (stmt_runs env (Return m value))"
      using c_seq_defers [OF cs(2), of C_Return_void "[]" Returns] unfolding wl by simp
    ultimately show thesis by (rule that)
  next
    case plain
    let ?e = "self_star env value @ expr_out env value"
    have "out_text (plain_return env value) = c_texts [C_Return (out_text ?e)]"
      using ok assms(1) by (cases "self_star env value") (simp_all add: plain_return_def Let_def, simp add: out_text_def)
    moreover have "handle_return env g value st = Some (plain_return env value, st)" for g
      using plain ok by (simp add: handle_return_def Let_def)
    ultimately have "produces (\<lambda>k. handle_return env (codegen_node_single env k) value) st (c_texts [C_Return (out_text ?e)]) st"
      by (simp add: produces_def)
    moreover have "c_seq (map c_runs [C_Return (out_text ?e)]) = with_leaving env st (stmt_runs env (Return m value))"
      using plain unfolding wl by (simp add: return_events_def)
    ultimately show thesis by (rule that)
  qed
  then show ?thesis
    unfolding in_c_def by (intro exI [of _ xs]) (simp add: produces_node node)
qed

section \<open>Conditions and loops\<close>

lemma if_in_c:
  assumes "\<not> ce_misra (se_cg env)" and "\<not> se_debug env"
    and "in_c env st b" "nd_kind b = NODE_BLOCK"
    and "\<forall>e \<in> set els. in_c env st e \<and> nd_kind e \<in> {NODE_BLOCK, NODE_IF}" and "length els \<le> 1"
  shows "in_c env st (If m c [b] els)"
proof -
  from assms(3,4) obtain x where x: "produces (\<lambda>k. codegen_node_single env k b) st (c_text x) st"
    "c_runs x = with_leaving env st (stmt_runs env b)"
    by (auto simp: in_c_def length_Suc_conv)
  let ?c = "out_text (expr_out env c)"
  let ?head = "emits ([Out ''if (''] @ expr_out env c @ [Out '') ''])"
  have node: "codegen_node env g (If m c [b] els) = emit_all [?head, g b,
      (case els of e # _ \<Rightarrow> emit_all [emit_source_mapping env False (nd_kind e) (nd_token e), emit_str '' else '', g e]
       | [] \<Rightarrow> emits [])]" for g
    using assms(1) by (simp add: codegen_node_def handle_node_if_def Let_def braced_def single_def del: emit_all.simps split: list.split)
  have runs: "with_leaving env st (stmt_runs env (If m c [b] els)) =
      {(t @ u, r) |t u r v. (t, v) \<in> tests ?c
        \<and> (u, r) \<in> with_leaving env st (first_runs (if v then [stmt_runs env b] else map (stmt_runs env) els))}" (is "?L = ?R")
  proof (intro equalityI subrelI)
    fix w q assume "(w, q) \<in> ?L"
    then obtain s z r where s: "(s, r) \<in> stmt_runs env (If m c [b] els)" "z \<in> leaving env st r" "w = s @ z" "q = c_of r"
      by (rule with_leavingE)
    from s(1) obtain t u v where t: "(t, v) \<in> tests ?c" "s = t @ u"
      "(u, r) \<in> first_runs (if v then [stmt_runs env b] else map (stmt_runs env) els)"
      by (simp only: stmt_runs.simps list.map) blast
    with with_leavingI [OF t(3) s(2)] s(3,4) show "(w, q) \<in> ?R"
      by (intro CollectI case_prodI exI [of _ t] exI [of _ "u @ z"] exI [of _ q] exI [of _ v]) simp
  next
    fix w q assume "(w, q) \<in> ?R"
    then obtain t y v where t: "(t, v) \<in> tests ?c" "w = t @ y"
      "(y, q) \<in> with_leaving env st (first_runs (if v then [stmt_runs env b] else map (stmt_runs env) els))"
      by blast
    from t(3) obtain u z r where u: "(u, r) \<in> first_runs (if v then [stmt_runs env b] else map (stmt_runs env) els)"
      "z \<in> leaving env st r" "y = u @ z" "q = c_of r"
      by (rule with_leavingE)
    from u(1) t(1) have "(t @ u, r) \<in> stmt_runs env (If m c [b] els)" by (auto split: if_splits)
    from with_leavingI [OF this u(2)] t(2) u(3,4) show "(w, q) \<in> ?L" by simp
  qed
  obtain e where e: "produces (\<lambda>k. case els of e # _ \<Rightarrow> emit_all [emit_source_mapping env False (nd_kind e) (nd_token e),
        emit_str '' else '', codegen_node_single env k e] | [] \<Rightarrow> emits []) st
      (case e of None \<Rightarrow> [] | Some y \<Rightarrow> '' else '' @ c_text y) st"
    "(case e of None \<Rightarrow> {([], Next)} | Some y \<Rightarrow> c_runs y) = with_leaving env st (first_runs (map (stmt_runs env) els))"
  proof (cases els)
    case Nil
    have "with_leaving env st {([], Normal)} = {([], Next)}" by (auto simp: with_leaving_def)
    then show thesis using Nil produces_emits [of "[]" st] by (intro that [of None]) (simp_all add: first_runs_def)
  next
    case (Cons n ns)
    with assms(5) obtain y where y: "produces (\<lambda>k. codegen_node_single env k n) st (c_text y) st"
      "c_runs y = with_leaving env st (stmt_runs env n)"
      by (auto simp: in_c_def length_Suc_conv)
    have "produces (\<lambda>k. emit_all [emit_source_mapping env False (nd_kind n) (nd_token n), emit_str '' else '', codegen_node_single env k n]) st
        ([] @ '' else '' @ c_text y @ []) st"
      by (rule produces_Cons [OF produces_mapping [OF assms(2)] produces_Cons [OF produces_str produces_Cons [OF y(1) produces_Nil]]])
    then show thesis using Cons y(2) by (intro that [of "Some y"]) (simp_all add: first_runs_def del: emit_all.simps)
  qed
  let ?i = "C_If ?c x e"
  have "produces (\<lambda>k. codegen_node env (codegen_node_single env k) (If m c [b] els)) st
      (out_text ([Out ''if (''] @ expr_out env c @ [Out '') '']) @ c_text x @ (case e of None \<Rightarrow> [] | Some y \<Rightarrow> '' else '' @ c_text y) @ []) st"
    unfolding node by (rule produces_Cons [OF produces_emits produces_Cons [OF x(1) produces_Cons [OF e(1) produces_Nil]]])
  then have "produces (\<lambda>k. codegen_node_single env k (If m c [b] els)) st (c_texts [?i]) st"
    by (intro produces_node) simp
  moreover have "c_runs ?i = with_leaving env st (stmt_runs env (If m c [b] els))"
    unfolding runs c_runs.simps e(2) x(2) by (auto simp: first_runs_def)
  ultimately show ?thesis unfolding in_c_def by (intro exI [of _ "[?i]"]) simp
qed

lemma loop_image:
  assumes "X None = {[]}" and "X (Some n) = {[]}" and "f n = n'"
  shows "loop_runs T p n' {(u @ w, map_option f q) |u w q. (u, q) \<in> B \<and> w \<in> X q} =
    {(t @ w, f r) |t w r. (t, r) \<in> loop_runs T p n B \<and> w \<in> X (Some r)}" (is "loop_runs T p n' ?B = ?R")
proof (intro equalityI subrelI)
  fix v q assume "(v, q) \<in> loop_runs T p n' ?B"
  then show "(v, q) \<in> ?R"
  proof (induction rule: loop_runs.induct)
    case (stop t)
    then show ?case using assms by (intro CollectI case_prodI exI [of _ t] exI [of _ "[]"] exI [of _ n]) (simp add: loop_runs.stop)
  next
    case (again t u v q)
    then obtain v0 w r where "v = v0 @ w" "q = f r" "(v0, r) \<in> loop_runs T p n B" "w \<in> X (Some r)" "(u, None) \<in> B"
      using assms(1) by auto
    with again(1) show ?case
      by (intro CollectI case_prodI exI [of _ "t @ u @ p @ v0"] exI [of _ w] exI [of _ r]) (simp add: loop_runs.again)
  next
    case (leave t u r)
    then obtain u0 w q where "u = u0 @ w" "Some r = map_option f q" "(u0, q) \<in> B" "w \<in> X q" by blast
    then obtain r0 where "u = u0 @ w" "r = f r0" "(u0, Some r0) \<in> B" "w \<in> X (Some r0)" by (cases q) auto
    with leave(1) show ?case
      by (intro CollectI case_prodI exI [of _ "t @ u0"] exI [of _ w] exI [of _ r0]) (simp add: loop_runs.leave)
  qed
next
  fix v q assume "(v, q) \<in> ?R"
  then obtain t w r where t: "(t, r) \<in> loop_runs T p n B" "w \<in> X (Some r)" "v = t @ w" "q = f r" by blast
  have "(t @ w, f r) \<in> loop_runs T p n' ?B" using t(1,2)
  proof (induction rule: loop_runs.induct)
    case (stop t)
    then show ?case using assms by (simp add: loop_runs.stop)
  next
    case (again t u v q)
    then have "(u, None) \<in> ?B" using assms(1)
      by (intro CollectI case_prodI exI [of _ u] exI [of _ "[]"] exI [of _ None]) simp
    from loop_runs.again [OF again(1) this again.IH [OF again.prems]] show ?case by simp
  next
    case (leave t u r)
    then have "(u @ w, Some (f r)) \<in> ?B"
      by (intro CollectI case_prodI exI [of _ u] exI [of _ w] exI [of _ "Some r"]) simp
    from loop_runs.leave [OF leave(1) this] show ?case by simp
  qed
  with t show "(v, q) \<in> loop_runs T p n' ?B" by simp
qed

definition caught :: "string \<Rightarrow> c_outcome \<Rightarrow> c_outcome" where
  "caught l r = (if r = Jumps l then Next else r)"

lemma catch_caught: "catch l X = map_prod id (caught l) ` X"
  by (auto simp: catch_def caught_def map_prod_def intro!: image_eqI)

lemma catch_loop:
  "catch l (loop_runs T p Next B) = loop_runs T p Next (map_prod id (map_option (caught l)) ` B)"
proof -
  have "map_prod id (map_option (caught l)) ` B = {(u @ w, map_option (caught l) q) |u w q. (u, q) \<in> B \<and> w \<in> {[]}}"
    by (auto simp: map_prod_def intro!: image_eqI)
  then have "loop_runs T p Next (map_prod id (map_option (caught l)) ` B) =
      {(t @ w, caught l r) |t w r. (t, r) \<in> loop_runs T p Next B \<and> w \<in> {[]}}"
    using loop_image [of "\<lambda>_. {[]}" Next "caught l" Next T p B] by (simp add: caught_def)
  also have "\<dots> = catch l (loop_runs T p Next B)"
    by (auto simp: catch_caught map_prod_def intro!: image_eqI)
  finally show ?thesis by simp
qed

text \<open>What a turn of a loop with a label is in C, behind the labels around the body and around the loop.\<close>

fun turn_in_c :: "string option \<Rightarrow> c_outcome \<Rightarrow> c_outcome option" where
  "turn_in_c None r = c_turn r"
| "turn_in_c (Some l) r = map_option (caught (''__break_'' @ l)) (c_turn (caught (''__continue_'' @ l) r))"

lemma turn_c_of: "may_end rt (Some l) r \<Longrightarrow> turn_in_c l (c_of r) = map_option c_of (source_turn l r)"
  by (cases r rule: c_of.cases; cases l) (auto simp: caught_def)

lemma turns_in_c:
  assumes "\<And>t r. (t, r) \<in> B \<Longrightarrow> may_end rt (Some l) r" and "loop_part st1 = []" and "ss_defers st1 = ss_defers st"
  shows "map_prod id (turn_in_c l) ` with_leaving env st1 B =
    {(u @ w, map_option c_of q) |u w q. (u, q) \<in> map_prod id (source_turn l) ` B
       \<and> w \<in> (case q of None \<Rightarrow> {[]} | Some r \<Rightarrow> leaving env st r)}" (is "?L = ?R")
proof -
  have w: "leaving env st1 r = (case source_turn l r of None \<Rightarrow> {[]} | Some q \<Rightarrow> leaving env st q)" if "may_end rt (Some l) r" for r
    using that assms(2,3) by (cases r) (auto simp: leaving_def)
  show ?thesis
  proof (intro equalityI subrelI)
    fix v q assume "(v, q) \<in> ?L"
    then obtain q0 where q0: "(v, q0) \<in> with_leaving env st1 B" "q = turn_in_c l q0" by auto
    from q0(1) obtain t u r where t: "(t, r) \<in> B" "u \<in> leaving env st1 r" "v = t @ u" "q0 = c_of r" by (rule with_leavingE)
    have "(t, source_turn l r) \<in> map_prod id (source_turn l) ` B" using t(1) by force
    with t q0 w [OF assms(1) [OF t(1)]] turn_c_of [OF assms(1) [OF t(1)]] show "(v, q) \<in> ?R"
      by (intro CollectI case_prodI exI [of _ t] exI [of _ u] exI [of _ "source_turn l r"]) simp
  next
    fix v q assume "(v, q) \<in> ?R"
    then obtain u x s where u: "(u, s) \<in> map_prod id (source_turn l) ` B" "x \<in> (case s of None \<Rightarrow> {[]} | Some r \<Rightarrow> leaving env st r)"
      "v = u @ x" "q = map_option c_of s" by blast
    from u(1) obtain r where r: "(u, r) \<in> B" "s = source_turn l r" by auto
    with u w [OF assms(1) [OF r(1)]] have "x \<in> leaving env st1 r" by simp
    from with_leavingI [OF r(1) this] u turn_c_of [OF assms(1) [OF r(1)]] r(2) show "(v, q) \<in> ?L"
      by (auto intro!: image_eqI [of _ _ "(u @ x, c_of r)"])
  qed
qed

lemma catch_prefix: "catch l {(pre @ t, r) |t r. (t, r) \<in> A} = {(pre @ t, r) |t r. (t, r) \<in> catch l A}"
  by (auto simp: catch_caught map_prod_def)

lemma emit_loop_in_c:
  assumes "\<not> ce_misra (se_cg env)"
    and "in_c env (st\<lparr>ss_loops := length (ss_defers st) # ss_loops st\<rparr>) b" "nd_kind b = NODE_BLOCK"
    and ends: "\<And>t r. (t, r) \<in> stmt_runs env b \<Longrightarrow> may_end rt (Some l) r"
    and W: "\<And>x. c_text (W x) = out_text head @ c_text x"
      "\<And>x. c_runs (W x) = {(pre @ t, r) |t r. (t, r) \<in> loop_runs T p Next (map_prod id c_turn ` c_runs x)}"
  shows "\<exists>x. produces (\<lambda>k. emit_loop env (codegen_node_single env k) head [b] l w) st (c_text x) st
    \<and> c_runs x = with_leaving env st
        {(pre @ t, r) |t r. (t, r) \<in> loop_runs T p Normal (map_prod id (source_turn l) ` stmt_runs env b)}"
proof -
  let ?st1 = "st\<lparr>ss_loops := length (ss_defers st) # ss_loops st\<rparr>"
  from assms(2,3) obtain y where y: "produces (\<lambda>k. codegen_node_single env k b) ?st1 (c_text y) ?st1"
    "c_runs y = with_leaving env ?st1 (stmt_runs env b)"
    by (auto simp: in_c_def length_Suc_conv)
  define x where "x = (case l of None \<Rightarrow> W y | Some l \<Rightarrow> C_Labelled l (W (C_Body l y)))"
  let ?enter = "case l of None \<Rightarrow> [] | Some l \<Rightarrow> [Out (l @ '':;'' @ [NL])]"
  let ?exit = "case l of None \<Rightarrow> [] | Some l \<Rightarrow> [Out (''__break_'' @ l @ '':;'' @ [NL])]"
  have enter: "produces (\<lambda>k. codegen_loop_enter l) st (out_text ?enter @ [] @ []) ?st1"
    unfolding codegen_loop_enter_def
    by (rule produces_Cons [OF produces_emits produces_Cons [OF produces_updates produces_Nil]])
  have "?st1\<lparr>ss_loops := drop 1 (ss_loops ?st1)\<rparr> = st" by simp
  then have exit': "produces (\<lambda>k. codegen_loop_exit l) ?st1 ([] @ out_text ?exit @ []) st"
    unfolding codegen_loop_exit_def
    using produces_Cons [OF produces_updates [of "\<lambda>st. st\<lparr>ss_loops := drop 1 (ss_loops st)\<rparr>" ?st1] produces_Cons [OF produces_emits produces_Nil]]
    by (simp only:)
  have body: "produces (\<lambda>k. codegen_loop_body env (codegen_node_single env k) [b] l w) ?st1
      (case l of None \<Rightarrow> c_text y | Some l \<Rightarrow> c_text (C_Body l y)) ?st1"
  proof (cases l)
    case None
    with y(1) assms(1) show ?thesis by (simp add: codegen_loop_body_def braced_def single_def)
  next
    case (Some a)
    have "produces (\<lambda>k. emit_all [emit_str (''{'' @ [NL]), single (codegen_node_single env k) [b],
        emit_str (''__continue_'' @ a @ '':;'' @ [NL]), emit_str (''}'' @ [NL])]) ?st1
        ((''{'' @ [NL]) @ c_text y @ (''__continue_'' @ a @ '':;'' @ [NL]) @ (''}'' @ [NL]) @ []) ?st1"
      unfolding single_def list.case
      by (rule produces_Cons [OF produces_str produces_Cons [OF y(1) produces_Cons [OF produces_str produces_Cons [OF produces_str produces_Nil]]]])
    with Some show ?thesis by (simp add: codegen_loop_body_def del: emit_all.simps)
  qed
  have "produces (\<lambda>k. emit_loop env (codegen_node_single env k) head [b] l w) st
      ((out_text ?enter @ [] @ []) @ out_text head @ (case l of None \<Rightarrow> c_text y | Some l \<Rightarrow> c_text (C_Body l y))
        @ ([] @ out_text ?exit @ []) @ []) st"
    unfolding emit_loop_def
    by (rule produces_Cons [OF enter produces_Cons [OF produces_emits produces_Cons [OF body produces_Cons [OF exit' produces_Nil]]]])
  then have "produces (\<lambda>k. emit_loop env (codegen_node_single env k) head [b] l w) st (c_text x) st"
    by (cases l) (simp_all add: x_def W)
  moreover have "c_runs x = {(pre @ t, r) |t r. (t, r) \<in> loop_runs T p Next (map_prod id (turn_in_c l) ` c_runs y)}"
  proof (cases l)
    case None
    then show ?thesis by (simp add: x_def W map_prod_def)
  next
    case (Some a)
    have "map_prod id (map_option (caught (''__break_'' @ a))) ` map_prod id c_turn ` map_prod id (caught (''__continue_'' @ a)) ` c_runs y
        = map_prod id (turn_in_c l) ` c_runs y"
      unfolding image_image Some by (simp add: map_prod_def case_prod_unfold)
    with Some show ?thesis
      by (simp only: x_def option.case c_runs.simps W(2) catch_prefix catch_loop) (simp add: catch_caught)
  qed
  moreover have "\<dots> = with_leaving env st
      {(pre @ t, r) |t r. (t, r) \<in> loop_runs T p Normal (map_prod id (source_turn l) ` stmt_runs env b)}" (is "?A = with_leaving env st ?B")
  proof -
    have "loop_part ?st1 = []" by (simp add: loop_part_def)
    then have "map_prod id (turn_in_c l) ` c_runs y =
      {(u @ w, map_option c_of q) |u w q. (u, q) \<in> map_prod id (source_turn l) ` stmt_runs env b
         \<and> w \<in> (case q of None \<Rightarrow> {[]} | Some r \<Rightarrow> leaving env st r)}"
      unfolding y(2) using turns_in_c [OF ends] by simp
    then have loop: "loop_runs T p Next (map_prod id (turn_in_c l) ` c_runs y) =
        {(t @ w, c_of r) |t w r. (t, r) \<in> loop_runs T p Normal (map_prod id (source_turn l) ` stmt_runs env b) \<and> w \<in> leaving env st r}"
      using loop_image [of "\<lambda>q. case q of None \<Rightarrow> {[]} | Some r \<Rightarrow> leaving env st r" Normal c_of Next T p] by simp
    show ?thesis
    proof (intro equalityI subrelI)
      fix v q assume "(v, q) \<in> ?A"
      then obtain t z r where "(t, r) \<in> loop_runs T p Normal (map_prod id (source_turn l) ` stmt_runs env b)"
        "z \<in> leaving env st r" "v = pre @ t @ z" "q = c_of r"
        unfolding loop by blast
      with with_leavingI [of "pre @ t" r ?B z] show "(v, q) \<in> with_leaving env st ?B" by auto
    next
      fix v q assume "(v, q) \<in> with_leaving env st ?B"
      then obtain s z r where "(s, r) \<in> ?B" "z \<in> leaving env st r" "v = s @ z" "q = c_of r" by (rule with_leavingE)
      then obtain t where t: "(t, r) \<in> loop_runs T p Normal (map_prod id (source_turn l) ` stmt_runs env b)"
        "z \<in> leaving env st r" "v = pre @ t @ z" "q = c_of r"
        by auto
      then have "(t @ z, q) \<in> loop_runs T p Next (map_prod id (turn_in_c l) ` c_runs y)" unfolding loop by blast
      with t(3) show "(v, q) \<in> ?A" by blast
    qed
  qed
  ultimately show ?thesis by auto
qed

section \<open>Every statement\<close>

lemma simple_in_c:
  assumes "simple_out env n = Some o1" and "\<not> registers env n"
  shows "in_c env st n"
proof -
  have "codegen_node env g n = emits o1" for g
    using assms by (cases n) (auto simp: simple_out_def codegen_node_def registers_def release_def handle_node_var_decl_def
        split: option.splits prod.splits)
  then have "produces (\<lambda>k. codegen_node_single env k n) st (c_texts [C_Text (out_text o1)]) st"
    using produces_emits by (intro produces_node) simp
  moreover have "stmt_runs env n = {([Eval (out_text o1)], Normal)}" "nd_kind n \<notin> {NODE_BLOCK, NODE_IF}"
    using assms(1) by (cases n; auto simp: simple_out_def split: option.splits)+
  ultimately show ?thesis
    unfolding in_c_def by (intro exI [of _ "[C_Text (out_text o1)]"]) (auto simp: with_leaving_def)
qed

lemma fits_loop:
  assumes "fits env rt lp w st"
  shows "fits env rt (Some l) w (st\<lparr>ss_loops := length (ss_defers st) # ss_loops st\<rparr>)"
  using assms by (auto simp: fits_def reach_def loop_part_def split: if_splits)

lemma stmt_in_c:
  assumes "\<not> ce_misra (se_cg env)" and "\<not> se_debug env"
  shows "stmt_ok env rt lp n \<Longrightarrow> fits env rt lp (deferred_in env n) st \<Longrightarrow> \<not> registers env n \<Longrightarrow> in_c env st n"
proof (induction n arbitrary: rt lp st rule: measure_induct_rule [of size])
  case (less n)
  have sub: "in_c env st' s" if "size s < size n" "stmt_ok env rt' lp' s" "fits env rt' lp' (deferred_in env s) st'" "\<not> registers env s" for s rt' lp' st'
    using less.IH [OF that(1) that(2-4)] .
  have loop: "\<exists>x. produces (\<lambda>k. emit_loop env (codegen_node_single env k) head [b] l w) st (c_text x) st
    \<and> c_runs x = with_leaving env st
        {(pre @ t, r) |t r. (t, r) \<in> loop_runs T p Normal (map_prod id (source_turn l) ` stmt_runs env b)}"
    if "size b < size n" "nd_kind b = NODE_BLOCK" "stmt_ok env rt (Some l) b" "deferred_in env b = deferred_in env n"
      "\<And>x. c_text (W x) = out_text head @ c_text x"
      "\<And>x. c_runs (W x) = {(pre @ t, r) |t r. (t, r) \<in> loop_runs T p Next (map_prod id c_turn ` c_runs x)}"
    for b l head w W pre T p
  proof (rule emit_loop_in_c [OF assms(1) _ that(2) _ that(5,6)])
    have "\<not> registers env b" using that(2) by (cases b) (auto simp: registers_def release_def)
    then show "in_c env (st\<lparr>ss_loops := length (ss_defers st) # ss_loops st\<rparr>) b"
      using sub [OF that(1,3)] fits_loop [OF less.prems(2)] that(4) by simp
    show "may_end rt (Some l) r" if "(t, r) \<in> stmt_runs env b" for t r
      using stmt_ends [OF that \<open>stmt_ok env rt (Some l) b\<close>] \<open>nd_kind b = NODE_BLOCK\<close> by simp
  qed
  have done': "in_c env st n" if "\<exists>x. produces (\<lambda>k. emit_loop env (codegen_node_single env k) head body l w) st (c_text x) st
    \<and> c_runs x = with_leaving env st X" "stmt_runs env n = X" "\<And>g. codegen_node env g n = emit_loop env g head body l w"
    "nd_kind n \<notin> {NODE_BLOCK, NODE_IF}" for head body l w X
  proof -
    from that(1) obtain x where x: "produces (\<lambda>k. emit_loop env (codegen_node_single env k) head body l w) st (c_text x) st"
      "c_runs x = with_leaving env st X" by blast
    then have "produces (\<lambda>k. codegen_node_single env k n) st (c_texts [x]) st"
      by (intro produces_node) (simp add: that(3))
    with x(2) that(2,4) show ?thesis unfolding in_c_def by (intro exI [of _ "[x]"]) simp
  qed
  show ?case
  proof (cases n)
    case (Block m ss)
    show ?thesis unfolding Block
    proof (rule whole_block_in_c [OF assms(2)])
      show "fits env rt lp (deferred_in env (Block m ss)) st" "stmt_ok env rt lp (Block m ss)" using less.prems Block by simp_all
      show "\<forall>s \<in> set ss. \<not> registers env s \<longrightarrow> (\<forall>st. fits env rt lp (deferred_in env s) st \<longrightarrow> in_c env st s)"
      proof (intro ballI allI impI)
        fix s st' assume s: "s \<in> set ss" "\<not> registers env s" "fits env rt lp (deferred_in env s) st'"
        have "size s < size n" using s(1) Block by (simp add: size_list_estimation' less_Suc_eq_le)
        with s less.prems(1) Block show "in_c env st' s" by (intro sub) auto
      qed
      show "\<forall>s \<in> set ss. \<forall>m d. s = Defer m [d] \<longrightarrow> pend_ok env (Deferred (Some d))"
      proof (intro ballI allI impI)
        fix s m' d assume s: "s \<in> set ss" "s = Defer m' [d]"
        have "size s < size n" using s(1) Block by (simp add: size_list_estimation' less_Suc_eq_le)
        then have "size d < size n" using s(2) by simp
        moreover have "stmt_ok env False None d" "nd_kind d \<noteq> NODE_DEFER" "\<not> registers env d"
          using less.prems(1) Block s by (auto simp: registers_def)
        ultimately show "pend_ok env (Deferred (Some d))"
          using sub by (intro deferred_pending [OF _ assms(2)]) auto
      qed
    qed
  next
    case (If m c thn els)
    then obtain b where b: "thn = [b]" using less.prems(1) by (cases thn) auto
    have ok: "nd_kind b = NODE_BLOCK" "stmt_ok env rt lp b" "length els \<le> 1" using less.prems(1) If b by auto
    have nr: "\<not> registers env s" if "nd_kind s \<in> {NODE_BLOCK, NODE_IF}" for s
      using that by (cases s) (auto simp: registers_def release_def)
    show ?thesis unfolding If b
    proof (rule if_in_c [OF assms _ ok(1) _ ok(3)])
      show "in_c env st b" using less.prems(2) If b ok nr by (intro sub) (auto intro: fits_less)
      show "\<forall>e \<in> set els. in_c env st e \<and> nd_kind e \<in> {NODE_BLOCK, NODE_IF}"
      proof
        fix e assume e: "e \<in> set els"
        then have els: "els = [e]" using ok(3) by (cases els) auto
        have k: "nd_kind e \<in> {NODE_BLOCK, NODE_IF}" "stmt_ok env rt lp e" using less.prems(1) If e by auto
        have "in_c env st e" using less.prems(2) If b els k nr by (intro sub) (auto intro: fits_less)
        with k show "in_c env st e \<and> nd_kind e \<in> {NODE_BLOCK, NODE_IF}" by simp
      qed
    qed
  next
    case (While m c body l)
    then obtain b where b: "body = [b]" using less.prems(1) by (cases body) auto
    show ?thesis
    proof (rule done')
      show "\<exists>x. produces (\<lambda>k. emit_loop env (codegen_node_single env k) ([Out ''while (''] @ expr_out env c @ [Out '') '']) [b] l True) st (c_text x) st
        \<and> c_runs x = with_leaving env st {([] @ t, r) |t r. (t, r) \<in> loop_runs (tests (out_text (expr_out env c))) [] Normal
            (map_prod id (source_turn l) ` stmt_runs env b)}"
        by (rule loop [where W = "C_While (out_text (expr_out env c))"]) (use less.prems(1) While b in auto)
    qed (use While b in \<open>auto simp: codegen_node_def first_runs_def\<close>)
  next
    case (For m init c step body l)
    then obtain b where b: "body = [b]" using less.prems(1) by (cases body) auto
    show ?thesis
    proof (rule done')
      show "\<exists>x. produces (\<lambda>k. emit_loop env (codegen_node_single env k)
            (for_head (for_init env init) (bare_out env c) (bare_out env step)) [b] l True) st (c_text x) st
        \<and> c_runs x = with_leaving env st {(eval_of (out_text (for_init env init)) @ t, r) |t r. (t, r) \<in>
            loop_runs (tests (out_text (bare_out env c))) (eval_of (out_text (bare_out env step))) Normal
            (map_prod id (source_turn l) ` stmt_runs env b)}"
        by (rule loop [where W = "C_For (out_text (for_init env init)) (out_text (bare_out env c)) (out_text (bare_out env step))"])
          (use less.prems(1) For b in \<open>auto simp: for_head_def\<close>)
    qed (use For b in \<open>auto simp: codegen_node_def first_runs_def\<close>)
  next
    case (ForRange m v start end_node inclusive body l)
    then obtain b where b: "body = [b]" using less.prems(1) by (cases body) auto
    let ?s = "se_step env n"
    show ?thesis
    proof (rule done')
      show "\<exists>x. produces (\<lambda>k. emit_loop env (codegen_node_single env k)
            (for_head (for_range_init env v start) (for_range_test env v ?s inclusive end_node) (for_range_step v ?s)) [b] l False) st (c_text x) st
        \<and> c_runs x = with_leaving env st {(eval_of (out_text (for_range_init env v start)) @ t, r) |t r. (t, r) \<in>
            loop_runs (tests (out_text (for_range_test env v ?s inclusive end_node))) (eval_of (out_text (for_range_step v ?s))) Normal
            (map_prod id (source_turn l) ` stmt_runs env b)}"
        by (rule loop [where W = "C_For (out_text (for_range_init env v start)) (out_text (for_range_test env v ?s inclusive end_node)) (out_text (for_range_step v ?s))"])
          (use less.prems(1) ForRange b in \<open>auto simp: for_head_def\<close>)
    qed (use ForRange b in \<open>auto simp: codegen_node_def first_runs_def Let_def\<close>)
  next
    case (Loop m body l)
    then obtain b where b: "body = [b]" using less.prems(1) by (cases body) auto
    show ?thesis
    proof (rule done')
      show "\<exists>x. produces (\<lambda>k. emit_loop env (codegen_node_single env k) [Out ''while (1) ''] [b] l False) st (c_text x) st
        \<and> c_runs x = with_leaving env st {([] @ t, r) |t r. (t, r) \<in> loop_runs (tests ''1'') [] Normal
            (map_prod id (source_turn l) ` stmt_runs env b)}"
        by (rule loop [where W = "C_While ''1''"]) (use less.prems(1) Loop b in auto)
    qed (use Loop b in \<open>auto simp: codegen_node_def first_runs_def\<close>)
  next
    case (Break m l)
    with less.prems show ?thesis using break_in_c(1) by (auto split: option.splits)
  next
    case (Continue m l)
    with less.prems show ?thesis using break_in_c(2) by (auto split: option.splits)
  next
    case (Return m v)
    with less.prems return_in_c [OF assms(1)] show ?thesis by blast
  qed (insert less.prems, auto simp: registers_def intro: simple_in_c)
qed

section \<open>Functions\<close>

definition flag_line :: "string \<Rightarrow> string" where
  "flag_line x = ''int __z_drop_flag_'' @ x @ '' = 1;'' @ [NL]"

text \<open>The flags of the arguments, then the body, where the releases of the arguments are pending.\<close>

definition function_runs :: "stmt_env \<Rightarrow> token \<Rightarrow> (ty option \<times> string option) list \<Rightarrow> node list \<Rightarrow> outcome runs_set" where
  "function_runs env t args body =
     {(map (\<lambda>(x, d). Eval (flag_line x)) (arg_drops env t args) @ u, r) |u r. (u, r) \<in>
        block_runs env (map (\<lambda>(x, d). {[Eval (raw_line env d)]}) (rev (arg_drops env t args)))
          (map (\<lambda>s. (s, stmt_runs env s)) body)}"

lemma args_produced:
  assumes "\<not> se_debug env" and "length new + length (ss_defers st) + length ds \<le> MAX_DEFER"
  shows "produces (\<lambda>k. emit_all (map (\<lambda>(x, d). emit_all [emit_source_mapping env True NODE_FUNCTION t,
        emit_str (''int __z_drop_flag_'' @ x @ '' = 1;'' @ [NL]), push_defer (Drop_of t d)]) ds)) (inside st new)
      (c_texts (map (\<lambda>(x, d). C_Text (flag_line x)) ds)) (inside st (map (\<lambda>(x, d). Drop_of t d) (rev ds) @ new))"
  using assms(2)
proof (induction ds arbitrary: new)
  case Nil
  show ?case using produces_Nil by simp
next
  case (Cons xd ds)
  obtain x d where xd: "xd = (x, d)" by (cases xd)
  have "produces (\<lambda>k. emit_all [emit_source_mapping env True NODE_FUNCTION t,
        emit_str (''int __z_drop_flag_'' @ x @ '' = 1;'' @ [NL]), push_defer (Drop_of t d)]) (inside st new)
      ([] @ (''int __z_drop_flag_'' @ x @ '' = 1;'' @ [NL]) @ [] @ []) (inside st (Drop_of t d # new))"
    using Cons.prems
    by (intro produces_Cons [OF produces_mapping [OF assms(1)]] produces_Cons [OF produces_str]
        produces_Cons [OF push_produced produces_Nil]) simp
  moreover have "length (Drop_of t d # new) + length (ss_defers st) + length ds \<le> MAX_DEFER" using Cons.prems by simp
  note Cons.IH [OF this]
  ultimately have "produces (\<lambda>k. emit_all (emit_all [emit_source_mapping env True NODE_FUNCTION t,
        emit_str (''int __z_drop_flag_'' @ x @ '' = 1;'' @ [NL]), push_defer (Drop_of t d)]
        # map (\<lambda>(x, d). emit_all [emit_source_mapping env True NODE_FUNCTION t,
            emit_str (''int __z_drop_flag_'' @ x @ '' = 1;'' @ [NL]), push_defer (Drop_of t d)]) ds)) (inside st new)
      (([] @ (''int __z_drop_flag_'' @ x @ '' = 1;'' @ [NL]) @ [] @ [])
        @ c_texts (map (\<lambda>(x, d). C_Text (flag_line x)) ds)) (inside st (map (\<lambda>(x, d). Drop_of t d) (rev ds) @ Drop_of t d # new))"
    by (rule produces_Cons)
  then show ?case by (simp add: xd flag_line_def del: emit_all.simps)
qed

lemma texts_run: "c_seq (map c_runs (map (\<lambda>(x, d). C_Text (flag_line x)) ds)) = {(map (\<lambda>(x, d). Eval (flag_line x)) ds, Next)}"
proof (induction ds)
  case (Cons p ds)
  have "andthen Next {([a], Next)} {(u, Next)} = {(a # u, Next)}" for a u by (simp add: andthen_def)
  with Cons show ?case by (cases p) simp
qed simp

lemma drops_weigh_nothing: "weights env (map (\<lambda>(x, d). Drop_of t d) ds) = 0"
  by (induction ds) (auto simp: pend_weight_def)

lemma function_in_c:
  assumes "\<not> ce_misra (se_cg env)" and "\<not> se_debug env"
    and "\<forall>s \<in> set body. stmt_ok env True None s"
    and "length (arg_drops env t args) + sum_list (map (deferred_in env) body) \<le> MAX_DEFER"
  shows "\<exists>cs st'. produces (\<lambda>k. function_body env (codegen_node_single env k) t args body) st (c_texts cs) st'
    \<and> c_seq (map c_runs cs) = (\<lambda>(u, r). (u, c_of r)) ` function_runs env t args body"
proof -
  let ?ds = "arg_drops env t args" and ?st0 = "st\<lparr>ss_defers := []\<rparr>"
  let ?new = "map (\<lambda>(x, d). Drop_of t d) (rev ?ds)"
  have inner: "in_c env st' s" if "stmt_ok env rt lp s" "\<not> registers env s" "fits env rt lp (deferred_in env s) st'" for s st' rt lp
    using stmt_in_c [OF assms(1,2) that(1,3,2)] .
  have drops: "\<forall>p \<in> set ?new. pend_ok env p" using drop_ok [OF assms(2)] by auto
  have "length ?new = length ?ds" by simp
  with drops assms(4) have fit: "fits_inside env True None (sum_list (map (deferred_in env) body)) ?st0 ?new"
    by (simp add: fits_inside_def reach_def drops_weigh_nothing)
  have "pend_ok env (Deferred (Some d))" if s: "s \<in> set body" "s = Defer m [d]" for s m d
  proof -
    have "stmt_ok env False None d" "nd_kind d \<noteq> NODE_DEFER" "\<not> registers env d"
      using assms(3) s by (auto simp: registers_def)
    then show ?thesis using inner by (intro deferred_pending [OF _ assms(2)]) auto
  qed
  then have d: "\<forall>s \<in> set body. \<forall>m d. s = Defer m [d] \<longrightarrow> pend_ok env (Deferred (Some d))" by blast
  have h: "\<forall>s \<in> set body. \<not> registers env s \<longrightarrow> (\<forall>st. fits env True None (deferred_in env s) st \<longrightarrow> in_c env st s)"
    using inner assms(3) by blast
  have l0: "length (ss_defers ?st0) = 0" by simp
  from block_in_c [OF assms(2,3) h d fit, unfolded l0] obtain cs new' where
    cs: "produces (\<lambda>k. rest_out env 0 k body) (inside ?st0 ?new) (c_texts cs) (inside ?st0 new')"
      "c_seq (map c_runs cs) = with_leaving env ?st0 (block_runs env (map (pend_runs env) ?new) (map (\<lambda>s. (s, stmt_runs env s)) body))"
    by blast
  have args: "produces (\<lambda>k. emit_all (map (\<lambda>(x, d). emit_all [emit_source_mapping env True NODE_FUNCTION t,
        emit_str (''int __z_drop_flag_'' @ x @ '' = 1;'' @ [NL]), push_defer (Drop_of t d)]) ?ds)) ?st0
      (c_texts (map (\<lambda>(x, d). C_Text (flag_line x)) ?ds)) (inside ?st0 ?new)"
    using args_produced [OF assms(2), of "[]" ?st0 ?ds t] assms(4) by simp
  have "produces (\<lambda>k. emit_all ([updates (\<lambda>st. st\<lparr>ss_defers := []\<rparr>),
        emit_all (map (\<lambda>(x, d). emit_all [emit_source_mapping env True NODE_FUNCTION t,
        emit_str (''int __z_drop_flag_'' @ x @ '' = 1;'' @ [NL]), push_defer (Drop_of t d)]) ?ds)]
      @ [codegen_walker env (codegen_node_single env k) body, emit_defers_down_to env (codegen_node_single env k) 0])) st
      (([] @ c_texts (map (\<lambda>(x, d). C_Text (flag_line x)) ?ds) @ []) @ c_texts cs) (inside ?st0 new')"
    by (rule produces_append [OF produces_Cons [OF produces_updates [of "\<lambda>st. st\<lparr>ss_defers := []\<rparr>" st] produces_Cons [OF args produces_Nil]] cs(1) [unfolded rest_out_def]])
  then have body: "produces (\<lambda>k. function_body env (codegen_node_single env k) t args body) st
      (c_texts (map (\<lambda>(x, d). C_Text (flag_line x)) ?ds @ cs)) (inside ?st0 new')"
    by (simp add: function_body_def del: emit_all.simps)
  have "map (pend_runs env) ?new = map (\<lambda>(x, d). {[Eval (raw_line env d)]}) (rev ?ds)"
    by (simp add: case_prod_unfold)
  moreover have "leaving env ?st0 r = {[]}" for r
    by (cases r) (auto simp: leaving_def loop_part_def split: list.split)
  then have "with_leaving env ?st0 X = (\<lambda>(u, r). (u, c_of r)) ` X" for X
    by (auto simp: with_leaving_def)
  ultimately have "c_seq (map c_runs cs) = (\<lambda>(u, r). (u, c_of r)) `
      block_runs env (map (\<lambda>(x, d). {[Eval (raw_line env d)]}) (rev ?ds)) (map (\<lambda>s. (s, stmt_runs env s)) body)"
    by (simp only: cs(2))
  then have "c_seq (map c_runs (map (\<lambda>(x, d). C_Text (flag_line x)) ?ds @ cs)) = (\<lambda>(u, r). (u, c_of r)) ` function_runs env t args body"
    unfolding map_append c_seq_append texts_run function_runs_def by (auto simp: andthen_def)
  with body show ?thesis by blast
qed

text \<open>
  C4: by the end of its body, a \<open>return\<close>, and a \<open>break\<close> or \<open>continue\<close> of the innermost loop, what the blocks
  left have deferred is run first, the innermost first and each once: with enough fuel the body of a
  function is emitted as the text of C statements whose runs are those of the source. This is for bodies of structured
  statements (\<open>stmt_ok\<close>): the bodies of branches and loops are blocks, a jump with a label
  names the innermost loop, there is no \<open>goto\<close>, no \<open>match\<close>, no \<open>?\<close> and no statement inside an expression,
  a \<open>return\<close> is not of a slice literal or of the address of \<open>self\<close>, and what is deferred does not leave itself;
  and for at most 1024 deferred statements and releases, without MISRA mode and debug lines. Where these
  fail the code may skip what is deferred.
\<close>

theorem defers_run_at_every_exit:
  assumes "\<not> ce_misra (se_cg env)" and "\<not> se_debug env"
    and "\<forall>s \<in> set body. stmt_ok env True None s"
    and "length (arg_drops env t args) + sum_list (map (deferred_in env) body) \<le> MAX_DEFER"
  shows "\<exists>cs st' k0.
     (\<forall>k \<ge> k0. \<exists>o1. function_body env (codegen_node_single env k) t args body st = Some (o1, st') \<and> out_text o1 = c_texts cs)
     \<and> c_seq (map c_runs cs) = (\<lambda>(u, r). (u, c_of r)) ` function_runs env t args body"
  using function_in_c [OF assms, of st] unfolding produces_def by blast

definition ex_body :: "meta \<Rightarrow> node list" where
  "ex_body m =
     [Block m
        [Defer m [Literal m LITERAL_INT 1 Not_finite None],
         Loop m [Block m [Defer m [Literal m LITERAL_INT 2 Not_finite None],
                          Break m (Some ''outer'')]] (Some ''outer''),
         Return m [Literal m LITERAL_INT 7 Not_finite None]]]"

definition ex_stmt_env :: "stmt_env \<Rightarrow> stmt_env" where
  "ex_stmt_env env = env\<lparr>se_debug := False, se_cg := (se_cg env)\<lparr>ce_misra := False\<rparr>\<rparr>"

lemma ex_digit_out:
  assumes "v \<le> 9"
  shows "out_text (expr_out env [Literal m LITERAL_INT v x s]) = show_int (sint v)"
proof -
  from assms have "v < 9223372036854775807" by (rule order_le_less_trans) simp
  then have "\<not> 9223372036854775807 < v" by (simp add: not_less order_less_imp_le)
  then show ?thesis
    by (simp add: expr_out_def codegen_expression.simps MAX_RECURSION_DEPTH_def codegen_literal_expr_def int_text_def Let_def)
qed

lemma loop_once: "loop_runs {([], True)} p n {(u, Some r)} = {(u, r)}"
  by (auto elim: loop_runs.cases intro: loop_runs.leave [of "[]" _ u, simplified])

lemma ex_digits: "show_int 1 = ''1''" "show_int 2 = ''2''" "show_int 7 = ''7''"
  by (simp_all add: show_int_def show_nat.simps char_of_def bit_0)

lemma ex_deferred_runs:
  assumes "v \<le> 9"
  shows "stmt_runs env (Defer m [Literal m LITERAL_INT v x s]) = {([Eval (show_int (sint v) @ '';'' @ [NL])], Normal)}"
  using ex_digit_out [OF assms, of env m x s] by (simp add: first_runs_def simple_out_def literal_stmt_def)

lemma ex_loop_runs:
  "stmt_runs env (Loop m [Block m [Defer m [Literal m LITERAL_INT 2 x s], Break m (Some l)]] (Some l)) =
     {([Eval (''2;'' @ [NL])], Normal)}" (is "stmt_runs env (Loop m [Block m [?d, ?b]] _) = _")
proof -
  have d: "stmt_runs env ?d = {([Eval (''2;'' @ [NL])], Normal)}" "stmt_runs env ?b = {([], Broken (Some l))}"
    using ex_deferred_runs [of 2 env m x s] ex_digits by simp_all
  have "block_runs env [] [(?d, {([Eval (''2;'' @ [NL])], Normal)}), (?b, {([], Broken (Some l))})]
      = {([Eval (''2;'' @ [NL])], Broken (Some l))}"
    by (auto simp: normal_runs_def release_def conc_def)
  then have "stmt_runs env (Block m [?d, ?b]) = {([Eval (''2;'' @ [NL])], Broken (Some l))}"
    by (simp only: stmt_runs.simps(1) list.map d)
  then have "stmt_runs env (Loop m [Block m [?d, ?b]] (Some l)) =
      loop_runs (tests ''1'') [] Normal (map_prod id (source_turn (Some l)) ` {([Eval (''2;'' @ [NL])], Broken (Some l))})"
    by (simp only: stmt_runs.simps(6) list.map first_runs_def list.case)
  then show ?thesis using loop_once [of "[]" Normal "[Eval (''2;'' @ [NL])]" Normal] by (simp add: tests_def)
qed

lemma ex_function_runs:
  "function_runs env t [] (ex_body m) = {([Eval (''2;'' @ [NL]), Eval ''7'', Eval (''1;'' @ [NL])], Returned)}"
proof -
  let ?d = "Defer m [Literal m LITERAL_INT 1 Not_finite None]"
  let ?l = "Loop m [Block m [Defer m [Literal m LITERAL_INT 2 Not_finite None], Break m (Some ''outer'')]] (Some ''outer'')"
  let ?r = "Return m [Literal m LITERAL_INT 7 Not_finite None]"
  have "return_events env [Literal m LITERAL_INT 7 Not_finite None] = [Eval ''7'']"
    using ex_digit_out [of 7 env m Not_finite None]
    by (simp add: return_events_def moved_return_def self_star_def is_self_def ex_digits eval_of_def)
  then have s: "stmt_runs env ?d = {([Eval (''1;'' @ [NL])], Normal)}" "stmt_runs env ?l = {([Eval (''2;'' @ [NL])], Normal)}"
    "stmt_runs env ?r = {([Eval ''7''], Returned)}"
    using ex_deferred_runs [of 1 env m Not_finite None] ex_loop_runs [of env m Not_finite None "''outer''"] ex_digits by simp_all
  have "block_runs env [] [(?d, {([Eval (''1;'' @ [NL])], Normal)}), (?l, {([Eval (''2;'' @ [NL])], Normal)}), (?r, {([Eval ''7''], Returned)})]
      = {([Eval (''2;'' @ [NL]), Eval ''7'', Eval (''1;'' @ [NL])], Returned)}"
    by (auto simp: normal_runs_def release_def conc_def)
  then have b: "stmt_runs env (Block m [?d, ?l, ?r]) = {([Eval (''2;'' @ [NL]), Eval ''7'', Eval (''1;'' @ [NL])], Returned)}"
    by (simp only: stmt_runs.simps(1) list.map s)
  have "block_runs env [] [(Block m [?d, ?l, ?r], {([Eval (''2;'' @ [NL]), Eval ''7'', Eval (''1;'' @ [NL])], Returned)})]
      = {([Eval (''2;'' @ [NL]), Eval ''7'', Eval (''1;'' @ [NL])], Returned)}"
    by (auto simp: release_def)
  with b show ?thesis by (simp only: function_runs_def ex_body_def arg_drops_def list.map concat.simps rev.simps append_Nil) simp
qed

theorem defers_run_at_every_exit_witness:
  "\<forall>env t m st. \<exists>cs st' k0.
     (\<forall>k \<ge> k0. \<exists>o1. function_body (ex_stmt_env env) (codegen_node_single (ex_stmt_env env) k) t [] (ex_body m) st = Some (o1, st')
        \<and> out_text o1 = c_texts cs)
     \<and> c_seq (map c_runs cs) = {([Eval (''2;'' @ [NL]), Eval ''7'', Eval (''1;'' @ [NL])], Returns)}"
proof (intro allI)
  fix env t m st
  let ?e = "ex_stmt_env env"
  have "\<not> ce_misra (se_cg ?e)" "\<not> se_debug ?e" by (simp_all add: ex_stmt_env_def)
  moreover have "\<forall>s \<in> set (ex_body m). stmt_ok ?e True None s"
    by (simp add: ex_body_def simple_out_def slice_return_def address_of_self_def calm_all_def release_def)
  moreover have "length (arg_drops ?e t []) + sum_list (map (deferred_in ?e) (ex_body m)) \<le> MAX_DEFER"
    by (simp add: ex_body_def arg_drops_def release_def MAX_DEFER_def)
  moreover have "(\<lambda>(u, r). (u, c_of r)) ` function_runs ?e t [] (ex_body m) =
      {([Eval (''2;'' @ [NL]), Eval ''7'', Eval (''1;'' @ [NL])], Returns)}"
    by (simp add: ex_function_runs)
  ultimately show "\<exists>cs st' k0.
     (\<forall>k \<ge> k0. \<exists>o1. function_body ?e (codegen_node_single ?e k) t [] (ex_body m) st = Some (o1, st') \<and> out_text o1 = c_texts cs)
     \<and> c_seq (map c_runs cs) = {([Eval (''2;'' @ [NL]), Eval ''7'', Eval (''1;'' @ [NL])], Returns)}"
    using defers_run_at_every_exit [of ?e "ex_body m" t "[]" st] by simp
qed

end
