(* ===== verification/Spec2Isabelle.thy ===== *)
theory Spec2Isabelle
  imports ZcLexerProps ZcTypeStr ZcMovesProps ZcComptimeProps ZcFlow ZcFormatter ZcEmitter
    ZcStructHash ZcModules ZcTemplates ZcSuggest ZcSemantic
    ZcReadline ZcProject ZcCaptures ZcSideEffects ZcBuild ZcJson
    ZcMisraProps ZcTransport ZcExprEmitProps ZcStmtProps
begin

text \<open>
  A model of the core of the Zen C compiler (\<open>src/src\<close>, written in C) and what can be proved of it.

  The compiler scans a source file into tokens (\<open>lexer/token.c\<close>), parses it into trees of \<open>ASTNode\<close>
  (\<open>ast/ast.h\<close>), keeping scopes, enum variants and generic parameters in a \<open>ParserContext\<close>
  (\<open>ast/symbols.c\<close>, \<open>parser/utils\<close>), copies templates with their parameters replaced
  (\<open>parser/utils/utils_template_replace.c\<close>), runs the \<open>comptime\<close> blocks it meets (\<open>analysis/comptime_interpreter.c\<close>),
  folds constants (\<open>analysis/const_fold.c\<close>), checks types and the use of moved values
  (\<open>analysis/typecheck_stmt.c\<close>, \<open>analysis/move_check.c\<close>), and prints C through an emitter
  (\<open>utils/emitter.c\<close>). The language server formats sources (\<open>lsp/lsp_formatter.c\<close>). The theories follow these parts:

  \<^item> \<open>ZcPrelude\<close>: C strings and characters as HOL strings, 64-bit division and bounds, the printing of
    numbers, and the interfaces as locales: an environment that binds names (\<open>name_env\<close>, provided by
    scopes, move states and the interpreter's variables), one that takes a binding only while it has
    room (\<open>guarded_env\<close>, provided by the hash table of structs), and a buffer that only grows
    (\<open>growable_buffer\<close>, provided by the yield buffer and the emitter).
  \<^item> \<open>ZcLexer\<close>, \<open>ZcLexerProps\<close>: \<open>lexer_next\<close> section by section (\<open>lex_step\<close> is one turn, \<open>Again\<close> the
    recursive call after a comment), tokens as slices of the buffer. Shown: progress, termination at
    the end of the file, order of the tokens, line counting, words and keywords.
  \<^item> \<open>ZcMangle\<close>: \<open>merge_underscores\<close>, \<open>sanitize_mangled_name\<close>, \<open>mangle_method_symbol\<close>. Shown: normal
    forms, and that a symbol determines its names within the naming scheme.
  \<^item> \<open>ZcTypes\<close>, \<open>ZcTypeStr\<close>: \<open>Type\<close> as \<open>ty\<close>, its predicates, \<open>type_eq\<close>, the two printers with the size of
    every buffer, the table of primitive types. Shown: symmetry of \<open>type_eq\<close>, no buffer overflow,
    agreement of the table with the printers.
  \<^item> \<open>ZcAst\<close>: the trees as \<open>node\<close> (the chain of a field and its \<open>next\<close> pointers is a list) and
    \<open>ast_children\<close>.
  \<^item> \<open>ZcSymbols\<close>: scopes, symbols, enum variants, generic parameters. Shown: scoping, lookup after
    declaration, the list for the language server.
  \<^item> \<open>ZcConstFold\<close>: \<open>eval_const_int_expr\<close>, where undefined behaviour of C is the value \<open>UB\<close>. Shown: a
    folded value is the value over the integers, where the literals are below \<open>2^63\<close> (larger ones are
    folded to negative numbers).
  \<^item> \<open>ZcMoves\<close>, \<open>ZcMovesProps\<close>: \<open>MoveState\<close> and the checks of uses and assignments, the joins of
    \<open>NODE_IF\<close> and \<open>NODE_MATCH\<close>. Shown: a state is a finite map from paths
    to statuses; which paths are unusable after a join; in straight-line code the errors are exactly the uses of
    moved paths.
  \<^item> \<open>ZcComptime\<close>, \<open>ZcComptimeFrame\<close>, \<open>ZcComptimeProps\<close>: the compile-time interpreter, every expression
    and statement. Shown: it ends within its step limit, its errors and results, the frame of
    expressions and statements, agreement with constant folding.
  \<^item> \<open>ZcFlow\<close>: the test for missing returns (\<open>stmt_always_returns\<close>) against an execution relation of
    statements (\<open>runs\<close>). Shown: on trees where \<open>flow_ok\<close> holds what the test accepts does not run off
    its end, and returns if its jumps stay inside it; and what goes wrong on the others.
  \<^item> \<open>ZcFormatter\<close>: \<open>lsp_format_source\<close>. Shown: it changes white space only, it is idempotent, and how
    deep a source may nest before its block is too small.
  \<^item> \<open>ZcEmitter\<close>: the \<open>Emitter\<close> on a file or a growing block. Shown: what is printed arrives in order and
    indented, a push and a pop restore a file target.
  \<^item> \<open>ZcStructHash\<close>, \<open>ZcModules\<close>: two registries of \<open>parser/utils/utils_registry.c\<close>. Shown: the hash table
    of structs refines a map, module prefixes are unique.
  \<^item> \<open>ZcTemplates\<close>: replacement of type parameters in type names. Shown: it returns without leaving a
    block, keeps names it does not concern, and reads mangled pointer suffixes back.
  \<^item> \<open>ZcSuggest\<close>: \<open>levenshtein\<close> and the searches for a similar name. Shown: the distance is the least
    number of edits, the suggestion is the nearest name.
  \<^item> \<open>ZcSemantic\<close>: the semantic tokens of the language server (\<open>lsp/lsp_semantic.c\<close>). Shown: what the
    client decodes, that the numbers are unsigned, which words are marked as keywords.
  \<^item> \<open>ZcReadline\<close>: the line editor of the REPL (\<open>repl/repl_readline.c\<close>). Shown: no key sequence writes
    past the line's block, and the editing keys are those of a text with a gap.

  \<^item> \<open>ZcProject\<close>: the workspace of the language server (\<open>lsp/lsp_project.c\<close>): ignore rules, the scan, open
    documents and the rebuild. Shown: which paths the lines of a \<open>.gitignore\<close> ignore, and the sources
    after a rebuild.
  \<^item> \<open>ZcCaptures\<close>: \<open>analyze_lambda_captures\<close>. Shown: the captures are the free variables of the body
    where the scopes of the body hide nothing.
  \<^item> \<open>ZcSideEffects\<close>: the checks of \<open>analysis/typecheck_utils.c\<close> for the order of evaluation, against an
    evaluator of expressions of variables, literals and operators. Shown: what they accept can be evaluated in
    any order.
  \<^item> \<open>ZcBuild\<close>: flags, argument lists and the \<open>//>\<close> directives (\<open>utils/utils.c\<close>, \<open>utils/cmd.c\<close>). Shown:
    when a flag stays in its block, that quoted arguments are split again, which commands are run.
  \<^item> \<open>ZcJson\<close>: the JSON backend (\<open>codegen/codegen_backend_json.c\<close>) and a reader of JSON. Shown: the
    reader gives the value of the tree back, for trees that \<open>json_ok\<close> covers.
  \<^item> \<open>ZcMisra\<close>, \<open>ZcMisraProps\<close>: the checks of \<open>platform/misra.c\<close>, which report what the rules of MISRA
    forbid. Shown: which conversions, constant expressions, matches and identifiers are accepted.
  \<^item> \<open>ZcTransport\<close>: the loop of the language server over its standard input (\<open>lsp/lsp_main.c\<close>) and the
    decoding of URIs (\<open>lsp/json_rpc.c\<close>). Shown: every request is handled, in order and once; encoded URIs
    are decoded to what was meant.
  \<^item> \<open>ZcOperators\<close>, \<open>ZcIntLiteral\<close>, \<open>ZcExprParse\<close>: the parser of expressions (\<open>parser/expr\<close>): what is
    built for unary and binary operators (methods, compound assignment, moves, constants, types), integer
    literals, and the climbing over precedences (\<open>parse\<close>, whose tasks are \<open>parse_expr_prec\<close>, its loop and
    \<open>parse_primary\<close>). What the rest of the parser does behind a token is an argument (\<open>parser_parts\<close>).
    \<open>ZcExprTotal\<close>, \<open>ZcExprTree\<close>, \<open>ZcExprProps\<close>: it returns and restores the depth of nesting if the
    other parts of the parser do, literals are read to their values, the tokens of a tree of operators are
    read back to the tree, and what types the operators get.
  \<^item> \<open>ZcExprEmit\<close>, \<open>ZcExprEmitProps\<close>: the C text of expressions (\<open>codegen/codegen_expr_*.c\<close>,
    \<open>codegen/codegen_utils.c\<close>), with the registries and the other handlers as an argument (\<open>cg_env\<close>).
    Shown: a reader of C gives operators and raw strings back, so operators keep their meaning from the
    source to C.
  \<^item> \<open>ZcStmtEmit\<close>, \<open>ZcStmtRuns\<close>, \<open>ZcStmtProps\<close>: the C text of statements
    (\<open>codegen/codegen_stmt.c\<close>, \<open>codegen/codegen_stmt_handlers.c\<close>) with the stack of deferred statements and
    releases, runs of statements of the source and of C statements. Shown: the text of a function is that
    of C statements with the runs of the source, so what is deferred runs at every exit of the statements that
    \<open>stmt_ok\<close> covers.

  Bounds and fuel: the interpreter recurses on fuel; \<open>MAX_STEPS + 3\<close> units are enough for every program
  (\<open>comptime_terminates\<close>), because every level of recursion and every turn of a loop counts a step. The
  search for a free module prefix has fuel for one candidate per known prefix and one more, which is
  enough (\<open>module_prefix_unique\<close>). The
  scan of the workspace has fuel for the depth of the tree of directories, the reader of JSON for the
  length of the text. The parser of expressions has fuel of five units for a token, which is enough
  (\<open>expression_parser_returns\<close>). Statements are printed on fuel, because a deferred one is printed again at
  every exit; that some amount is enough is part of \<open>defers_run_at_every_exit\<close>. The other recursions are on the length of the text or the size of the tree.

  Memory is not modelled as addresses: a \<open>char *\<close> is a string, a NULL pointer \<open>None\<close>, a linked list a
  list; what is released is dropped. Where a C function writes into a buffer of a computed size, the
  size is modelled and a write past it is a fault. Undefined behaviour that the code can reach is a value
  of its own (\<open>UB\<close>, \<open>ci_ub\<close>, \<open>None\<close>).

  Not modelled: the parser but for operators in expressions and the captures of lambdas, the generation of
  C for calls, struct initialisers, lambdas, matches and top-level declarations, the queries and the index of
  the language server, the commands of the REPL, the driver, diagnostics formatting and plugins, which are
  glue, input and output or lists of cases around the parts above; \<open>utils/cJSON.c\<close> is a vendored library.
  Each is listed in the manifest with its reason.
\<close>

end
